(* ===== verification/Rust_Prelude.thy ===== *)
theory Rust_Prelude
  imports Main "HOL-Library.Word"
begin

text \<open>
  The part of Rust and of its standard library the R-SSH sources use, shared by every
  component theory: machine integers as words, \<open>Result\<close> as a sum, \<open>String\<close> as its
  UTF-8 byte sequence, and the string, number-parsing and number-printing operations.

  A Rust \<open>String\<close> is the vector of its UTF-8 bytes; here it is an Isabelle \<open>string\<close>
  whose \<open>char\<close>s are those bytes. Searching for, splitting at or comparing with an ASCII
  character therefore works byte by byte, since UTF-8 never uses an ASCII byte inside a
  longer character, and the few operations that look at other characters (\<open>trim\<close>,
  \<open>is_control\<close>) name the byte sequences of those characters. A \<open>Vec<u8>\<close> is a list of
  8-bit words. A \<open>PathBuf\<close> is the string of its bytes.
\<close>

section \<open>Types\<close>

type_synonym u8 = "8 word"
type_synonym u16 = "16 word"
type_synonym u32 = "32 word"
type_synonym u64 = "64 word"
type_synonym bytes = "u8 list"
type_synonym path = string
type_synonym duration = nat

text \<open>\<open>Result<T, E>\<close> is \<open>'e + 'a\<close>, the error on the left.\<close>

type_synonym ('a, 'e) result = "'e + 'a"

abbreviation Ok :: "'a \<Rightarrow> ('a, 'e) result" where "Ok \<equiv> Inr"
abbreviation Err :: "'e \<Rightarrow> ('a, 'e) result" where "Err \<equiv> Inl"

named_theorems rust_str \<open>facts on the string operations of the prelude\<close>
named_theorems rust_num \<open>facts on the integer operations of the prelude\<close>

section \<open>Results\<close>

fun is_ok :: "('a, 'e) result \<Rightarrow> bool" where
  "is_ok (Inr _) = True"
| "is_ok (Inl _) = False"

text \<open>The question-mark operator and \<open>and_then\<close>.\<close>

fun and_then :: "('a, 'e) result \<Rightarrow> ('a \<Rightarrow> ('b, 'e) result) \<Rightarrow> ('b, 'e) result" where
  "and_then (Inl e) k = Inl e"
| "and_then (Inr v) k = k v"

fun map_err :: "('e \<Rightarrow> 'f) \<Rightarrow> ('a, 'e) result \<Rightarrow> ('a, 'f) result" where
  "map_err f (Inl e) = Inl (f e)"
| "map_err f (Inr v) = Inr v"

fun map_ok :: "('a \<Rightarrow> 'b) \<Rightarrow> ('a, 'e) result \<Rightarrow> ('b, 'e) result" where
  "map_ok f (Inl e) = Inl e"
| "map_ok f (Inr v) = Inr (f v)"

text \<open>\<open>Result::and\<close>: the first error in order, otherwise the second result.\<close>

fun res_and :: "('a, 'e) result \<Rightarrow> ('b, 'e) result \<Rightarrow> ('b, 'e) result" where
  "res_and (Inl e) r = Inl e"
| "res_and (Inr v) r = r"

fun ok_or :: "'e \<Rightarrow> 'a option \<Rightarrow> ('a, 'e) result" where
  "ok_or e None = Inl e"
| "ok_or e (Some v) = Inr v"

lemma and_then_eq_Inr [simp]:
  "and_then r k = Inr v \<longleftrightarrow> (\<exists>u. r = Inr u \<and> k u = Inr v)"
  by (cases r) auto

lemma Inr_eq_and_then [simp]:
  "Inr v = and_then r k \<longleftrightarrow> (\<exists>u. r = Inr u \<and> k u = Inr v)"
  by (cases r) auto

lemma map_err_eq_Inr [simp]: "map_err f r = Inr v \<longleftrightarrow> r = Inr v"
  by (cases r) auto

lemma map_ok_eq_Inl: "map_ok f r = Inl e \<longleftrightarrow> r = Inl e"
  by (cases r) auto

lemma map_err_eq_Inl: "map_err f r = Inl e \<longleftrightarrow> (\<exists>d. r = Inl d \<and> e = f d)"
  by (cases r) auto

lemma map_ok_eq_Inr [simp]: "map_ok f r = Inr v \<longleftrightarrow> (\<exists>u. r = Inr u \<and> v = f u)"
  by (cases r) auto

lemma ok_or_eq_Inr [simp]: "ok_or e x = Inr v \<longleftrightarrow> x = Some v"
  by (cases x) auto

lemma res_and_eq_Inr [simp]: "res_and a b = Inr v \<longleftrightarrow> (\<exists>u. a = Inr u) \<and> b = Inr v"
  by (cases a) auto

section \<open>Lists\<close>

lemma filter_butlast_last:
  "xs \<noteq> [] \<Longrightarrow> filter P xs = filter P (butlast xs) @ (if P (last xs) then [last xs] else [])"
  by (induction xs) auto

section \<open>Machine integers\<close>

text \<open>\<open>u64::saturating_add\<close>, and \<open>u16::try_from\<close> of a wider unsigned value.\<close>

definition sat_add_u64 :: "u64 \<Rightarrow> u64 \<Rightarrow> u64" where
  "sat_add_u64 a b = (if unat a + unat b < 2 ^ 64 then a + b else 0xFFFFFFFFFFFFFFFF)"

definition u16_try_from :: "u32 \<Rightarrow> u16 option" where
  "u16_try_from x = (if unat x < 2 ^ 16 then Some (ucast x) else None)"

definition u8_try_from :: "u32 \<Rightarrow> u8 option" where
  "u8_try_from x = (if unat x < 2 ^ 8 then Some (ucast x) else None)"

lemma unat_sat_add_u64 [rust_num]:
  "unat (sat_add_u64 a b) = min (unat a + unat b) (2 ^ 64 - 1)"
proof (cases "unat a + unat b < 2 ^ 64")
  case True
  then show ?thesis by (simp add: sat_add_u64_def unat_word_ariths)
next
  case False
  then show ?thesis by (simp add: sat_add_u64_def)
qed

lemma u16_try_from_eq_Some [rust_num]:
  "u16_try_from x = Some y \<longleftrightarrow> x = ucast y"
proof -
  have "x = ucast y" if "unat x < 2 ^ 16" "y = ucast x"
    using that by (simp add: word_unat_eq_iff unsigned_ucast_eq take_bit_nat_eq_self)
  moreover have "unat (ucast y :: u32) < 2 ^ 16"
    using unsigned_less [of y, where ?'a = nat] by (simp add: unsigned_ucast_eq take_bit_nat_eq_self less_le_trans)
  moreover have "(ucast (ucast y :: u32) :: u16) = y"
    by (rule bit_word_eqI) (simp add: bit_simps)
  ultimately show ?thesis by (auto simp: u16_try_from_def)
qed

lemma u8_try_from_eq_Some [rust_num]:
  "u8_try_from x = Some y \<longleftrightarrow> x = ucast y"
proof -
  have "x = ucast y" if "unat x < 2 ^ 8" "y = ucast x"
    using that by (simp add: word_unat_eq_iff unsigned_ucast_eq take_bit_nat_eq_self)
  moreover have "unat (ucast y :: u32) < 2 ^ 8"
    using unsigned_less [of y, where ?'a = nat] by (simp add: unsigned_ucast_eq take_bit_nat_eq_self less_le_trans)
  moreover have "(ucast (ucast y :: u32) :: u8) = y"
    by (rule bit_word_eqI) (simp add: bit_simps)
  ultimately show ?thesis by (auto simp: u8_try_from_def)
qed

lemma u16_try_from_ucast [simp]: "u16_try_from (ucast q) = Some q"
  by (simp add: u16_try_from_eq_Some)

lemma u8_try_from_ucast [simp]: "u8_try_from (ucast q) = Some q"
  by (simp add: u8_try_from_eq_Some)

lemma ucast_u16_u32_eq [simp]: "(ucast (a :: u16) :: u32) = ucast b \<longleftrightarrow> a = b"
  by (metis option.inject u16_try_from_eq_Some)

lemma ucast_u16_u32_eq_0 [simp]: "(ucast (a :: u16) :: u32) = 0 \<longleftrightarrow> a = 0"
  using ucast_u16_u32_eq [of a 0] by (simp del: ucast_u16_u32_eq)

section \<open>Strings\<close>

text \<open>Bytes of a string and back.\<close>

definition as_bytes :: "string \<Rightarrow> bytes" where
  "as_bytes s = map of_char s"

definition str_of_bytes :: "bytes \<Rightarrow> string" where
  "str_of_bytes bs = map (\<lambda>b. char_of (unat b)) bs"

lemma length_as_bytes [simp]: "length (as_bytes s) = length s"
  by (simp add: as_bytes_def)

lemma as_bytes_append [simp]: "as_bytes (s @ t) = as_bytes s @ as_bytes t"
  by (simp add: as_bytes_def)

lemma as_bytes_Nil [simp]: "as_bytes [] = []"
  by (simp add: as_bytes_def)

text \<open>\<open>u8::is_ascii_whitespace\<close>: space, tab, line feed, form feed, carriage return.\<close>

definition is_ascii_whitespace :: "char \<Rightarrow> bool" where
  "is_ascii_whitespace c \<longleftrightarrow> c \<in> {CHR '' '', CHR 0x09, CHR 0x0A, CHR 0x0C, CHR 0x0D}"

text \<open>
  \<open>char::is_whitespace\<close> is the Unicode property White\_Space. \<open>ws_len s\<close> is the number of
  bytes of the white-space character the string starts with, 0 when it starts with none:
  U+0009 to U+000D and U+0020 in one byte, U+0085 and U+00A0 in two, U+1680, U+2000 to
  U+200A, U+2028, U+2029, U+202F, U+205F and U+3000 in three.
\<close>

definition is_ws1 :: "char \<Rightarrow> bool" where
  "is_ws1 a \<longleftrightarrow> a = CHR '' '' \<or> (9 \<le> (of_char a :: nat) \<and> (of_char a :: nat) \<le> 13)"

definition is_ws2 :: "char \<Rightarrow> char \<Rightarrow> bool" where
  "is_ws2 a b \<longleftrightarrow> a = CHR 0xC2 \<and> (b = CHR 0x85 \<or> b = CHR 0xA0)"

definition is_ws3 :: "char \<Rightarrow> char \<Rightarrow> char \<Rightarrow> bool" where
  "is_ws3 a b c \<longleftrightarrow>
     (a = CHR 0xE1 \<and> b = CHR 0x9A \<and> c = CHR 0x80) \<or>
     (a = CHR 0xE2 \<and> b = CHR 0x80 \<and>
       ((0x80 \<le> (of_char c :: nat) \<and> (of_char c :: nat) \<le> 0x8A) \<or>
        c = CHR 0xA8 \<or> c = CHR 0xA9 \<or> c = CHR 0xAF)) \<or>
     (a = CHR 0xE2 \<and> b = CHR 0x81 \<and> c = CHR 0x9F) \<or>
     (a = CHR 0xE3 \<and> b = CHR 0x80 \<and> c = CHR 0x80)"

fun ws_len :: "string \<Rightarrow> nat" where
  "ws_len [] = 0"
| "ws_len [a] = (if is_ws1 a then 1 else 0)"
| "ws_len [a, b] = (if is_ws1 a then 1 else if is_ws2 a b then 2 else 0)"
| "ws_len (a # b # c # s) =
     (if is_ws1 a then 1 else if is_ws2 a b then 2 else if is_ws3 a b c then 3 else 0)"

text \<open>The same for the last character, read from the reversed string.\<close>

fun ws_len_rev :: "string \<Rightarrow> nat" where
  "ws_len_rev [] = 0"
| "ws_len_rev [a] = (if is_ws1 a then 1 else 0)"
| "ws_len_rev [b, a] = (if is_ws1 b then 1 else if is_ws2 a b then 2 else 0)"
| "ws_len_rev (c # b # a # s) =
     (if is_ws1 c then 1 else if is_ws2 b c then 2 else if is_ws3 a b c then 3 else 0)"

lemma ws_len_le: "ws_len s \<le> length s"
  by (induction s rule: ws_len.induct) auto

lemma ws_len_rev_le: "ws_len_rev s \<le> length s"
  by (induction s rule: ws_len_rev.induct) auto

lemma ws_len_drop: "0 < ws_len s \<Longrightarrow> length s - ws_len s < length s"
  using ws_len_le [of s] by linarith

lemma ws_len_rev_drop: "0 < ws_len_rev s \<Longrightarrow> length s - ws_len_rev s < length s"
  using ws_len_rev_le [of s] by linarith

text \<open>\<open>str::trim_start\<close>, \<open>str::trim_end\<close> and \<open>str::trim\<close>.\<close>

function trim_start :: "string \<Rightarrow> string" where
  "trim_start s = (if ws_len s = 0 then s else trim_start (drop (ws_len s) s))"
  by pat_completeness auto
termination
  by (relation "measure length") (auto intro: ws_len_drop)

function trim_rev :: "string \<Rightarrow> string" where
  "trim_rev s = (if ws_len_rev s = 0 then s else trim_rev (drop (ws_len_rev s) s))"
  by pat_completeness auto
termination
  by (relation "measure length") (auto intro: ws_len_rev_drop)

declare trim_start.simps [simp del] trim_rev.simps [simp del]

definition trim_end :: "string \<Rightarrow> string" where
  "trim_end s = rev (trim_rev (rev s))"

definition trim :: "string \<Rightarrow> string" where
  "trim s = trim_end (trim_start s)"

lemma ws_len_trim_start [rust_str]: "ws_len (trim_start s) = 0"
proof (induction s rule: trim_start.induct)
  case (1 s)
  then show ?case by (cases "ws_len s = 0") (simp_all add: trim_start.simps [of s])
qed

lemma ws_len_rev_trim_rev [rust_str]: "ws_len_rev (trim_rev s) = 0"
proof (induction s rule: trim_rev.induct)
  case (1 s)
  then show ?case by (cases "ws_len_rev s = 0") (simp_all add: trim_rev.simps [of s])
qed

lemma trim_rev_suffix: "\<exists>p. s = p @ trim_rev s"
proof (induction s rule: trim_rev.induct)
  case (1 s)
  show ?case
  proof (cases "ws_len_rev s = 0")
    case True
    then show ?thesis by (simp add: trim_rev.simps)
  next
    case False
    with 1 obtain p where "drop (ws_len_rev s) s = p @ trim_rev (drop (ws_len_rev s) s)"
      by blast
    then have "s = (take (ws_len_rev s) s @ p) @ trim_rev (drop (ws_len_rev s) s)"
      by (metis append.assoc append_take_drop_id)
    with False show ?thesis by (metis trim_rev.simps)
  qed
qed

lemma ws_len_append: "ws_len s \<noteq> 0 \<Longrightarrow> ws_len (s @ t) = ws_len s"
proof (induction s rule: ws_len.induct)
  case (2 a)
  then show ?case
    by (cases t; cases "tl t") (auto split: if_splits)
next
  case (3 a b)
  then show ?case by (cases t) (auto split: if_splits)
qed (auto split: if_splits)

lemma trim_end_prefix: "\<exists>w. s = trim_end s @ w"
  using trim_rev_suffix [of "rev s"] unfolding trim_end_def
  by (metis rev_append rev_rev_ident)

lemma ws_len_trim [rust_str]: "ws_len (trim s) = 0"
proof (rule ccontr)
  assume nz: "ws_len (trim s) \<noteq> 0"
  obtain w where "trim_start s = trim s @ w"
    using trim_end_prefix [of "trim_start s"] by (auto simp: trim_def)
  then have "ws_len (trim_start s) = ws_len (trim s)"
    using nz by (simp add: ws_len_append)
  with nz show False by (simp add: ws_len_trim_start)
qed

lemma trim_idem [simp]: "trim (trim s) = trim s"
proof -
  have "ws_len_rev (rev (trim s)) = 0"
    by (simp add: trim_def trim_end_def ws_len_rev_trim_rev)
  then have "trim_rev (rev (trim s)) = rev (trim s)"
    by (simp add: trim_rev.simps)
  moreover have "trim_start (trim s) = trim s"
    by (simp add: trim_start.simps ws_len_trim)
  ultimately show ?thesis
    by (simp add: trim_def [of "trim s"] trim_end_def)
qed

lemma trim_Nil [simp]: "trim [] = []"
  by (simp add: trim_def trim_end_def trim_start.simps trim_rev.simps)

end
