(* ===== verification/Rust_Text.thy ===== *)
theory Rust_Text
  imports Rust_Prelude
begin

text \<open>
  The text-processing operations of Rust's standard library that the sources call:
  splitting and joining, line iteration, tokens, control characters, parsing and printing
  of unsigned numbers. Each is the executable meaning of the library function named in its
  comment; the lemmas are the round trips the component proofs rely on.
\<close>

section \<open>Splitting and joining\<close>

text \<open>\<open>str::split(c)\<close> for an ASCII character \<open>c\<close>.\<close>

fun split_on :: "char \<Rightarrow> string \<Rightarrow> string list" where
  "split_on c [] = [[]]"
| "split_on c (x # xs) =
     (if x = c then [] # split_on c xs
      else (case split_on c xs of [] \<Rightarrow> [[x]] | y # ys \<Rightarrow> (x # y) # ys))"

text \<open>\<open>str::split_once(c)\<close>.\<close>

fun split_once :: "char \<Rightarrow> string \<Rightarrow> (string \<times> string) option" where
  "split_once c [] = None"
| "split_once c (x # xs) =
     (if x = c then Some ([], xs) else map_option (\<lambda>(a, b). (x # a, b)) (split_once c xs))"

text \<open>\<open>str::starts_with(p)\<close> and \<open>str::strip_prefix(p)\<close>.\<close>

definition starts_with :: "string \<Rightarrow> string \<Rightarrow> bool" where
  "starts_with p s \<longleftrightarrow> take (length p) s = p"

definition strip_prefix :: "string \<Rightarrow> string \<Rightarrow> string option" where
  "strip_prefix p s = (if starts_with p s then Some (drop (length p) s) else None)"

text \<open>\<open>[String]::join(sep)\<close>.\<close>

fun str_join :: "string \<Rightarrow> string list \<Rightarrow> string" where
  "str_join sep [] = []"
| "str_join sep [x] = x"
| "str_join sep (x # y # zs) = x @ sep @ str_join sep (y # zs)"

lemma split_on_not_Nil [simp]: "split_on c s \<noteq> []"
  by (cases s) (auto split: list.splits)

lemma split_on_append:
  "split_on c (xs @ c # ys) = split_on c xs @ split_on c ys"
  by (induction xs) (auto split: list.splits)

lemma split_on_free: "c \<notin> set s \<Longrightarrow> split_on c s = [s]"
  by (induction s) auto

lemma split_on_parts_free: "t \<in> set (split_on c s) \<Longrightarrow> c \<notin> set t"
  by (induction s arbitrary: t) (auto split: list.splits if_splits)

lemma split_once_Some:
  "split_once c s = Some (a, b) \<longleftrightarrow> s = a @ c # b \<and> c \<notin> set a"
proof (induction s arbitrary: a)
  case Nil
  then show ?case by simp
next
  case (Cons x xs)
  then show ?case by (cases a) auto
qed

lemma split_once_None: "split_once c s = None \<longleftrightarrow> c \<notin> set s"
  by (induction s) auto

lemma strip_prefix_eq_Some [simp]: "strip_prefix p s = Some t \<longleftrightarrow> s = p @ t"
  by (auto simp: strip_prefix_def starts_with_def) (metis append_take_drop_id)

lemma starts_with_append [simp]: "starts_with p (p @ s)"
  by (simp add: starts_with_def)

section \<open>Lines and tokens\<close>

abbreviation NL :: char where "NL \<equiv> CHR 0x0A"
abbreviation CR :: char where "CR \<equiv> CHR 0x0D"

definition strip_cr :: "string \<Rightarrow> string" where
  "strip_cr l = (if l \<noteq> [] \<and> last l = CR then butlast l else l)"

text \<open>\<open>str::lines()\<close>: a final empty piece is dropped, a carriage return is stripped only
  where a line feed follows it.\<close>

definition str_lines :: "string \<Rightarrow> string list" where
  "str_lines s = (let ps = split_on NL s in
     map strip_cr (butlast ps) @ (if last ps = [] then [] else [last ps]))"

text \<open>\<open>str::split_whitespace().next()\<close>.\<close>

fun take_token :: "string \<Rightarrow> string" where
  "take_token [] = []"
| "take_token (x # xs) = (if ws_len (x # xs) \<noteq> 0 then [] else x # take_token xs)"

definition first_token :: "string \<Rightarrow> string option" where
  "first_token s = (let t = trim_start s in if t = [] then None else Some (take_token t))"

text \<open>A string none of whose suffixes starts with a white-space character.\<close>

fun ws_free :: "string \<Rightarrow> bool" where
  "ws_free [] = True"
| "ws_free (x # xs) = (ws_len (x # xs) = 0 \<and> ws_free xs)"

lemma str_lines_append:
  assumes "old = [] \<or> last old = NL" and "NL \<notin> set l"
  shows "str_lines (old @ l @ [NL]) = str_lines old @ [strip_cr l]"
proof (cases "old = []")
  case True
  with assms(2) show ?thesis
    using split_on_append [of NL l "[]"] by (simp add: str_lines_def split_on_free)
next
  case False
  with assms obtain o' where old: "old = o' @ [NL]"
    by (metis append_butlast_last_id)
  have "split_on NL (old @ l @ [NL]) = split_on NL o' @ [l, []]"
    using split_on_append [of NL o' "l @ [NL]"] split_on_append [of NL l "[]"] assms(2)
    by (simp add: old split_on_free)
  moreover have "split_on NL old = split_on NL o' @ [[]]"
    using split_on_append [of NL o' "[]"] by (simp add: old)
  ultimately show ?thesis by (simp add: str_lines_def Let_def butlast_append)
qed

text \<open>A string with only printable ASCII characters has no white space but the blank.\<close>

lemma ws_len_space [simp]: "ws_len (CHR '' '' # s) = 1"
  by (cases s; cases "tl s") (auto simp: is_ws1_def)

lemma ws_free_blank:
  assumes "ws_free (s @ CHR '' '' # t)"
  shows False
  using assms by (induction s) auto

definition printable :: "char \<Rightarrow> bool" where
  "printable c \<longleftrightarrow> 0x21 \<le> (of_char c :: nat) \<and> (of_char c :: nat) \<le> 0x7E"

lemma printable_not_ws: "printable c \<Longrightarrow> ws_len (c # s) = 0"
proof -
  assume p: "printable c"
  then have "\<not> is_ws1 c" and "c \<noteq> CHR 0xC2" and "c \<noteq> CHR 0xE1" and "c \<noteq> CHR 0xE2"
    and "c \<noteq> CHR 0xE3"
    by (auto simp: printable_def is_ws1_def)
  then show ?thesis
    by (cases s; cases "tl s") (auto simp: is_ws2_def is_ws3_def)
qed

lemma take_token_printable:
  "list_all printable s \<Longrightarrow> take_token (s @ CHR '' '' # t) = s"
  by (induction s) (auto simp: printable_not_ws simp del: ws_len.simps)

lemma first_token_printable:
  assumes "list_all printable s" and "s \<noteq> []"
  shows "first_token (s @ CHR '' '' # t) = Some s"
proof -
  obtain c s' where s: "s = c # s'" using assms(2) by (cases s) auto
  have "trim_start (s @ CHR '' '' # t) = s @ CHR '' '' # t"
    using assms(1) by (simp add: s trim_start.simps printable_not_ws del: ws_len.simps)
  with assms show ?thesis
    by (simp add: first_token_def take_token_printable)
qed

section \<open>Control characters\<close>

text \<open>\<open>s.chars().any(char::is_control)\<close>: U+0000 to U+001F, U+007F, and U+0080 to U+009F,
  whose UTF-8 bytes are 0xC2 and 0x80 to 0x9F.\<close>

fun c1_head :: "string \<Rightarrow> bool" where
  "c1_head [] = False"
| "c1_head (b # _) = (0x80 \<le> (of_char b :: nat) \<and> (of_char b :: nat) \<le> 0x9F)"

fun has_control :: "string \<Rightarrow> bool" where
  "has_control [] = False"
| "has_control (a # s) =
     ((of_char a :: nat) < 0x20 \<or> a = CHR 0x7F \<or> (a = CHR 0xC2 \<and> c1_head s) \<or> has_control s)"

section \<open>Numbers\<close>

definition digit_val :: "nat \<Rightarrow> char \<Rightarrow> nat option" where
  "digit_val radix c =
     (let v = (of_char c :: nat) in
      if 48 \<le> v \<and> v < 48 + radix then Some (v - 48) else None)"

fun parse_digits :: "nat \<Rightarrow> nat \<Rightarrow> string \<Rightarrow> nat option" where
  "parse_digits radix acc [] = Some acc"
| "parse_digits radix acc (c # cs) =
     (case digit_val radix c of
        None \<Rightarrow> None
      | Some d \<Rightarrow> parse_digits radix (radix * acc + d) cs)"

text \<open>\<open>str::parse::<uN>()\<close> and \<open>uN::from_str_radix\<close> for a radix of at most ten: an
  optional plus sign, at least one digit, and no value above the type's maximum.\<close>

definition parse_uint :: "nat \<Rightarrow> nat \<Rightarrow> string \<Rightarrow> nat option" where
  "parse_uint radix hi s =
     (let ds = (if s \<noteq> [] \<and> hd s = CHR ''+'' then tl s else s) in
      if ds = [] then None
      else case parse_digits radix 0 ds of
             None \<Rightarrow> None
           | Some n \<Rightarrow> if n \<le> hi then Some n else None)"

definition digit_char :: "nat \<Rightarrow> char" where
  "digit_char d = char_of (48 + d)"

text \<open>\<open>Display\<close> of an unsigned number in a given radix.\<close>

function show_radix :: "nat \<Rightarrow> nat \<Rightarrow> string" where
  "show_radix r n =
     (if n < r \<or> r < 2 then [digit_char n] else show_radix r (n div r) @ [digit_char (n mod r)])"
  by pat_completeness auto
termination
  by (relation "measure snd") (auto intro: div_less_dividend)

declare show_radix.simps [simp del]

abbreviation show_nat :: "nat \<Rightarrow> string" where "show_nat \<equiv> show_radix 10"

text \<open>\<open>Debug\<close> of a \<open>Duration\<close>, given in nanoseconds: the largest unit that is not zero, with
  the fraction's digits less its trailing zeros. The micro sign is the bytes C2 B5.\<close>

definition debug_decimal :: "nat \<Rightarrow> nat \<Rightarrow> nat \<Rightarrow> string \<Rightarrow> string" where
  "debug_decimal integer fraction width suffix =
     show_nat integer @
     (if fraction = 0 then []
      else ''.'' @ rev (dropWhile (\<lambda>c. c = CHR ''0'')
             (rev (replicate (width - length (show_nat fraction)) (CHR ''0'') @ show_nat fraction)))) @
     suffix"

definition debug_duration :: "duration \<Rightarrow> string" where
  "debug_duration d =
     (if 10 ^ 9 \<le> d then debug_decimal (d div 10 ^ 9) (d mod 10 ^ 9) 9 ''s''
      else if 10 ^ 6 \<le> d then debug_decimal (d div 10 ^ 6) (d mod 10 ^ 6) 6 ''ms''
      else if 10 ^ 3 \<le> d then debug_decimal (d div 10 ^ 3) (d mod 10 ^ 3) 3 [CHR 0xC2, CHR 0xB5, CHR ''s'']
      else debug_decimal d 0 0 ''ns'')"

lemma digit_val_char: "d < r \<Longrightarrow> r \<le> 10 \<Longrightarrow> digit_val r (digit_char d) = Some d"
  by (simp add: digit_val_def digit_char_def Let_def)

lemma digit_char_printable: "d < 10 \<Longrightarrow> printable (digit_char d)"
  by (simp add: printable_def digit_char_def)

lemma parse_digits_append:
  "parse_digits r a (s @ t) = (case parse_digits r a s of None \<Rightarrow> None | Some b \<Rightarrow> parse_digits r b t)"
  by (induction s arbitrary: a) (auto split: option.splits)

lemma show_radix_not_Nil [simp]: "show_radix r n \<noteq> []"
  by (subst show_radix.simps) simp

lemma parse_digits_show:
  assumes "2 \<le> r" and "r \<le> 10"
  shows "parse_digits r 0 (show_radix r n) = Some n"
  using assms
proof (induction r n rule: show_radix.induct)
  case (1 r n)
  show ?case
  proof (cases "n < r")
    case True
    with "1.prems" show ?thesis by (simp add: show_radix.simps [of r n] digit_val_char)
  next
    case False
    with 1 show ?thesis
      by (simp add: show_radix.simps [of r n] parse_digits_append digit_val_char)
  qed
qed

lemma show_radix_printable:
  assumes "2 \<le> r" and "r \<le> 10"
  shows "list_all printable (show_radix r n)"
  using assms
proof (induction r n rule: show_radix.induct)
  case (1 r n)
  show ?case
  proof (cases "n < r")
    case True
    with "1.prems" show ?thesis by (simp add: show_radix.simps [of r n] digit_char_printable)
  next
    case False
    have "n mod r < 10" using "1.prems" by (meson dual_order.strict_trans1 le_trans mod_less_divisor not_less zero_less_numeral order.strict_trans2 zero_less_two)
    with False 1 show ?thesis
      by (simp add: show_radix.simps [of r n] digit_char_printable)
  qed
qed

lemma show_radix_no_plus:
  assumes "2 \<le> r" and "r \<le> 10"
  shows "\<exists>c cs. show_radix r n = c # cs \<and> c \<noteq> CHR ''+''"
  using assms
proof (induction r n rule: show_radix.induct)
  case (1 r n)
  show ?case
  proof (cases "n < r")
    case True
    have "digit_char n \<noteq> CHR ''+''"
    proof
      assume "digit_char n = CHR ''+''"
      then have "of_char (digit_char n) = (43 :: nat)" by simp
      with True "1.prems" show False by (simp add: digit_char_def)
    qed
    with True show ?thesis by (simp add: show_radix.simps [of r n])
  next
    case False
    with 1 obtain c cs where "show_radix r (n div r) = c # cs" "c \<noteq> CHR ''+''" by auto
    with False "1.prems" show ?thesis by (simp add: show_radix.simps [of r n])
  qed
qed

lemma show_radix_length:
  assumes "2 \<le> r" and "n < r ^ Suc k"
  shows "length (show_radix r n) \<le> Suc k"
  using assms(2)
proof (induction k arbitrary: n)
  case 0
  then show ?case by (simp add: show_radix.simps)
next
  case (Suc k)
  show ?case
  proof (cases "n < r")
    case True
    then show ?thesis by (simp add: show_radix.simps)
  next
    case False
    have "n div r < r ^ Suc k" using Suc.prems by (simp add: less_mult_imp_div_less mult.commute)
    with Suc.IH False assms(1) show ?thesis by (simp add: show_radix.simps [of r n])
  qed
qed

text \<open>Printing then parsing a number in range gives it back.\<close>

lemma parse_uint_show:
  assumes "2 \<le> r" and "r \<le> 10" and "n \<le> m"
  shows "parse_uint r m (show_radix r n) = Some n"
proof -
  obtain c cs where s: "show_radix r n = c # cs" "c \<noteq> CHR ''+''"
    using show_radix_no_plus [OF assms(1,2)] by blast
  then show ?thesis
    using parse_digits_show [OF assms(1,2), of n] assms(3)
    by (simp add: parse_uint_def Let_def s)
qed

section \<open>UTF-8\<close>

text \<open>
  The length of the well-formed UTF-8 character a byte string starts with (the Unicode
  table of well-formed byte sequences), \<open>None\<close> when it starts with none.
\<close>

definition byte_in :: "nat \<Rightarrow> nat \<Rightarrow> char \<Rightarrow> bool" where
  "byte_in lo hi c \<longleftrightarrow> lo \<le> (of_char c :: nat) \<and> (of_char c :: nat) \<le> hi"

abbreviation utf8_cont :: "char \<Rightarrow> bool" where "utf8_cont \<equiv> byte_in 0x80 0xBF"

fun utf8_char_len :: "string \<Rightarrow> nat option" where
  "utf8_char_len [] = None"
| "utf8_char_len (a # s) =
     (if byte_in 0 0x7F a then Some 1
      else case s of
        [] \<Rightarrow> None
      | b # s' \<Rightarrow>
          if byte_in 0xC2 0xDF a then (if utf8_cont b then Some 2 else None)
          else case s' of
            [] \<Rightarrow> None
          | c # s'' \<Rightarrow>
              if (a = CHR 0xE0 \<and> byte_in 0xA0 0xBF b \<or> byte_in 0xE1 0xEC a \<and> utf8_cont b \<or>
                  a = CHR 0xED \<and> byte_in 0x80 0x9F b \<or> byte_in 0xEE 0xEF a \<and> utf8_cont b)
              then (if utf8_cont c then Some 3 else None)
              else case s'' of
                [] \<Rightarrow> None
              | d # _ \<Rightarrow>
                  if (a = CHR 0xF0 \<and> byte_in 0x90 0xBF b \<or> byte_in 0xF1 0xF3 a \<and> utf8_cont b \<or>
                      a = CHR 0xF4 \<and> byte_in 0x80 0x8F b) \<and> utf8_cont c \<and> utf8_cont d
                  then Some 4 else None)"

lemma utf8_char_len_pos: "utf8_char_len s = Some n \<Longrightarrow> 0 < n \<and> s \<noteq> []"
  by (cases s) (auto split: if_splits list.splits)

text \<open>\<open>std::str::from_utf8\<close> succeeds exactly on these byte strings.\<close>

function utf8_valid :: "string \<Rightarrow> bool" where
  "utf8_valid s = (s = [] \<or> (case utf8_char_len s of None \<Rightarrow> False | Some n \<Rightarrow> utf8_valid (drop n s)))"
  by pat_completeness auto
termination
  by (relation "measure length") (auto dest!: utf8_char_len_pos)

declare utf8_valid.simps [simp del]

lemma utf8_valid_Nil [simp]: "utf8_valid []"
  by (simp add: utf8_valid.simps)

lemma utf8_valid_ascii:
  "byte_in 0 0x7F a \<Longrightarrow> utf8_valid (a # s) = utf8_valid s"
  by (subst utf8_valid.simps) simp

lemma utf8_char_len_le: "utf8_char_len s = Some n \<Longrightarrow> n \<le> length s"
  by (cases s) (auto split: if_splits list.splits)

lemma utf8_char_len_append: "utf8_char_len s = Some n \<Longrightarrow> utf8_char_len (s @ t) = Some n"
  by (cases s; cases "tl s"; cases "tl (tl s)"; cases "tl (tl (tl s))")
    (simp_all split del: if_split split: if_split_asm cong: if_cong)

lemma utf8_valid_append: "utf8_valid s \<Longrightarrow> utf8_valid (s @ t) = utf8_valid t"
proof (induction s rule: utf8_valid.induct)
  case (1 s)
  show ?case
  proof (cases "s = []")
    case False
    with "1.prems" obtain n where n: "utf8_char_len s = Some n" and v: "utf8_valid (drop n s)"
      by (subst (asm) utf8_valid.simps) (auto split: option.splits)
    then have "utf8_valid (s @ t) = utf8_valid (drop n s @ t)"
      using utf8_char_len_append [OF n, of t] utf8_char_len_le [OF n] False
      by (subst utf8_valid.simps) simp
    with 1(1) [OF n v] show ?thesis by simp
  qed simp
qed

lemma utf8_valid_printable: "list_all printable s \<Longrightarrow> utf8_valid s"
  by (induction s) (auto simp: utf8_valid_ascii byte_in_def printable_def)

text \<open>\<open>OsStr::to_string_lossy\<close>: each maximal ill-formed part becomes the replacement character.\<close>

definition ill_formed_len :: "string \<Rightarrow> nat" where
  "ill_formed_len s =
     (case s of
        a # b # c # _ \<Rightarrow>
          if utf8_char_len [a, b, CHR 0x80, CHR 0x80] = Some 4 then (if utf8_cont c then 3 else 2)
          else if utf8_char_len [a, b, CHR 0x80] = Some 3 then 2
          else 1
      | [a, b] \<Rightarrow>
          if utf8_char_len [a, b, CHR 0x80] = Some 3 \<or> utf8_char_len [a, b, CHR 0x80, CHR 0x80] = Some 4
          then 2 else 1
      | _ \<Rightarrow> 1)"

lemma ill_formed_len_pos: "0 < ill_formed_len s"
  unfolding ill_formed_len_def by (simp split: list.split del: utf8_char_len.simps)

function to_string_lossy :: "string \<Rightarrow> string" where
  "to_string_lossy s =
     (if s = [] then []
      else (case utf8_char_len s of
         Some n \<Rightarrow> take n s @ to_string_lossy (drop n s)
       | None \<Rightarrow> [CHR 0xEF, CHR 0xBF, CHR 0xBD] @ to_string_lossy (drop (ill_formed_len s) s)))"
  by pat_completeness auto
termination
proof (relation "measure length", goal_cases)
  case 1
  show ?case by simp
next
  case (2 s)
  then show ?case using ill_formed_len_pos [of s] by simp
next
  case (3 s n)
  then show ?case using utf8_char_len_pos [of s n] by simp
qed

declare to_string_lossy.simps [simp del]

end
