(* ===== verification/Scp_Request.thy ===== *)
theory Scp_Request
  imports Rust_Text
begin

text \<open>
  The command line of the fixture's SCP service, \<open>crates/rssh-test-support/src/ssh/scp.rs\<close>
  lines 16 to 143: the shell-word splitter \<open>parse_shell_words\<close> and the recogniser of
  \<open>scp\<close> server commands, \<open>parse_scp_request\<close>.
\<close>

section \<open>Requests\<close>

datatype scp_direction = Sink | Source

record scp_request =
  scp_direction :: scp_direction
  scp_recursive :: bool
  scp_preserve_times :: bool
  scp_target_is_directory :: bool
  scp_target :: path

datatype scp_protocol_error = ScpProtocolError

section \<open>Shell words\<close>

text \<open>The state of the character loop: the finished words, the word being built, the open
  quote and whether the previous character was an escaping backslash.\<close>

record word_state =
  ws_words :: "string list"
  ws_word :: string
  ws_quote :: "char option"
  ws_escaped :: bool

abbreviation SQ :: char where "SQ \<equiv> CHR 0x27"
abbreviation DQ :: char where "DQ \<equiv> CHR 0x22"
abbreviation BSL :: char where "BSL \<equiv> CHR 0x5C"

definition word_step :: "char \<Rightarrow> word_state \<Rightarrow> word_state" where
  "word_step c s =
     (if ws_escaped s then s\<lparr>ws_word := ws_word s @ [c], ws_escaped := False\<rparr>
      else if c = BSL \<and> ws_quote s \<noteq> Some SQ then s\<lparr>ws_escaped := True\<rparr>
      else if c = SQ \<or> c = DQ then
        (if ws_quote s = Some c then s\<lparr>ws_quote := None\<rparr>
         else if ws_quote s = None then s\<lparr>ws_quote := Some c\<rparr>
         else s\<lparr>ws_word := ws_word s @ [c]\<rparr>)
      else if is_ascii_whitespace c \<and> ws_quote s = None then
        (if ws_word s \<noteq> [] then s\<lparr>ws_words := ws_words s @ [ws_word s], ws_word := []\<rparr> else s)
      else s\<lparr>ws_word := ws_word s @ [c]\<rparr>)"

definition word_init :: word_state where
  "word_init = \<lparr>ws_words = [], ws_word = [], ws_quote = None, ws_escaped = False\<rparr>"

definition parse_shell_words :: "string \<Rightarrow> (string list, scp_protocol_error) result" where
  "parse_shell_words command =
     (if has_control command \<or> CHR ''$'' \<in> set command \<or> CHR 0x60 \<in> set command
      then Err ScpProtocolError
      else let s = fold word_step command word_init in
        if ws_escaped s \<or> ws_quote s \<noteq> None then Err ScpProtocolError
        else Ok (if ws_word s \<noteq> [] then ws_words s @ [ws_word s] else ws_words s))"

section \<open>Recognising an SCP command\<close>

definition set_direction ::
  "scp_direction option \<Rightarrow> scp_direction \<Rightarrow> (scp_direction option, scp_protocol_error) result" where
  "set_direction d v = (if d \<noteq> None then Err ScpProtocolError else Ok (Some v))"

text \<open>What the word loop has collected so far.\<close>

record scp_scan =
  scan_direction :: "scp_direction option"
  scan_recursive :: bool
  scan_preserve :: bool
  scan_directory :: bool
  scan_target :: "path option"

definition scp_flag :: "char \<Rightarrow> scp_scan \<Rightarrow> (scp_scan, scp_protocol_error) result" where
  "scp_flag f s =
     (if f = CHR ''t'' then
        map_ok (\<lambda>d. s\<lparr>scan_direction := d\<rparr>) (set_direction (scan_direction s) Sink)
      else if f = CHR ''f'' then
        map_ok (\<lambda>d. s\<lparr>scan_direction := d\<rparr>) (set_direction (scan_direction s) Source)
      else if f = CHR ''r'' then Ok (s\<lparr>scan_recursive := True\<rparr>)
      else if f = CHR ''p'' then Ok (s\<lparr>scan_preserve := True\<rparr>)
      else if f = CHR ''d'' then Ok (s\<lparr>scan_directory := True\<rparr>)
      else Err ScpProtocolError)"

fun scp_flags :: "string \<Rightarrow> scp_scan \<Rightarrow> (scp_scan, scp_protocol_error) result" where
  "scp_flags [] s = Ok s"
| "scp_flags (f # fs) s = and_then (scp_flag f s) (scp_flags fs)"

definition scp_word :: "string \<Rightarrow> scp_scan \<Rightarrow> (scp_scan, scp_protocol_error) result" where
  "scp_word w s =
     (if w \<noteq> [] \<and> hd w = CHR ''-'' \<and> tl w \<noteq> [] then scp_flags (tl w) s
      else if scan_target s \<noteq> None then Err ScpProtocolError
      else Ok (s\<lparr>scan_target := Some w\<rparr>))"

fun scp_words :: "string list \<Rightarrow> scp_scan \<Rightarrow> (scp_scan, scp_protocol_error) result" where
  "scp_words [] s = Ok s"
| "scp_words (w # ws) s = and_then (scp_word w s) (scp_words ws)"

definition scan_init :: scp_scan where
  "scan_init = \<lparr>scan_direction = None, scan_recursive = False, scan_preserve = False,
     scan_directory = False, scan_target = None\<rparr>"

definition scp_finish :: "scp_scan \<Rightarrow> (scp_request, scp_protocol_error) result" where
  "scp_finish s =
     (case scan_direction s of
        None \<Rightarrow> Err ScpProtocolError
      | Some d \<Rightarrow>
        (case scan_target s of
           None \<Rightarrow> Err ScpProtocolError
         | Some t \<Rightarrow> Ok \<lparr>scp_direction = d, scp_recursive = scan_recursive s,
             scp_preserve_times = scan_preserve s, scp_target_is_directory = scan_directory s,
             scp_target = t\<rparr>))"

definition parse_scp_request ::
  "string \<Rightarrow> (scp_request, scp_protocol_error) result option" where
  "parse_scp_request command =
     (case parse_shell_words command of
        Inl e \<Rightarrow> if starts_with ''scp'' (trim_start command) then Some (Err e) else None
      | Inr words \<Rightarrow>
          (case words of
             [] \<Rightarrow> None
           | w # ws \<Rightarrow> if w \<noteq> ''scp'' then None
                       else Some (and_then (scp_words ws scan_init) scp_finish)))"

section \<open>Facts on the word loop\<close>

text \<open>Between words: nothing quoted or escaped.\<close>

definition word_plain :: "string list \<Rightarrow> string \<Rightarrow> word_state" where
  "word_plain ws w = \<lparr>ws_words = ws, ws_word = w, ws_quote = None, ws_escaped = False\<rparr>"

definition word_quoted :: "string list \<Rightarrow> string \<Rightarrow> word_state" where
  "word_quoted ws w = \<lparr>ws_words = ws, ws_word = w, ws_quote = Some SQ, ws_escaped = False\<rparr>"

lemma word_init_plain: "word_init = word_plain [] []"
  by (simp add: word_init_def word_plain_def)

lemma word_step_open: "word_step SQ (word_plain ws w) = word_quoted ws w"
  by (simp add: word_step_def word_plain_def word_quoted_def)

lemma word_step_close: "word_step SQ (word_quoted ws w) = word_plain ws w"
  by (simp add: word_step_def word_plain_def word_quoted_def)

lemma word_step_literal: "c \<noteq> SQ \<Longrightarrow> word_step c (word_quoted ws w) = word_quoted ws (w @ [c])"
  by (simp add: word_step_def word_quoted_def)

lemma word_step_blank:
  "word_step (CHR '' '') (word_plain ws w) =
     word_plain (if w \<noteq> [] then ws @ [w] else ws) []"
  by (simp add: word_step_def word_plain_def is_ascii_whitespace_def)

text \<open>The closing, double-quoted and reopening quotes put one quote into the word.\<close>

lemma word_step_quoted_quote:
  "fold word_step [SQ, DQ, SQ, DQ, SQ] (word_quoted ws w) = word_quoted ws (w @ [SQ])"
  by (simp add: word_step_def word_quoted_def)

lemmas word_steps = word_step_open word_step_close word_step_blank

end
