(* ===== verification/File_Tree.thy ===== *)
theory File_Tree
  imports Rust_Text "HOL-Library.AList" "HOL-Library.Sublist"
begin

text \<open>
  A directory tree with symbolic links, and what the fixture services ask of the operating
  system: \<open>canonicalize\<close>, \<open>symlink_metadata\<close> and updates of one node. An absolute path is the
  list of its components; a path as it is passed to the system may also have empty, current
  and parent components.
\<close>

section \<open>Trees\<close>

datatype fnode =
    FFile u32 bytes
  | FLink string
  | FDir u32 "(string \<times> fnode) list"

type_synonym tpath = "string list"

fun is_fdir :: "fnode \<Rightarrow> bool" where
  "is_fdir (FDir _ _) = True"
| "is_fdir _ = False"

fun is_flink :: "fnode \<Rightarrow> bool" where
  "is_flink (FLink _) = True"
| "is_flink _ = False"

fun lookup :: "fnode \<Rightarrow> tpath \<Rightarrow> fnode option" where
  "lookup n [] = Some n"
| "lookup (FDir m cs) (c # p) = Option.bind (map_of cs c) (\<lambda>n. lookup n p)"
| "lookup (FFile m d) (c # p) = None"
| "lookup (FLink l) (c # p) = None"

text \<open>Replaces the node at a path, or adds it to its directory.\<close>

fun put_node :: "tpath \<Rightarrow> fnode \<Rightarrow> fnode \<Rightarrow> fnode" where
  "put_node [] v n = v"
| "put_node (c # p) v (FDir m cs) =
     (case map_of cs c of
        None \<Rightarrow> if p = [] then FDir m (cs @ [(c, v)]) else FDir m cs
      | Some n \<Rightarrow> FDir m (AList.update c (put_node p v n) cs))"
| "put_node (c # p) v n = n"

text \<open>What is seen of a node from its parent's level: a directory by its mode and its names.\<close>

datatype node_info = IFile u32 bytes | ILink string | IDir u32 "string list"

fun info_of :: "fnode \<Rightarrow> node_info" where
  "info_of (FFile m d) = IFile m d"
| "info_of (FLink l) = ILink l"
| "info_of (FDir m cs) = IDir m (map fst cs)"

definition info_at :: "fnode \<Rightarrow> tpath \<Rightarrow> node_info option" where
  "info_at t p = map_option info_of (lookup t p)"

section \<open>Resolution\<close>

text \<open>The kinds of error that callers tell apart.\<close>

datatype fs_error = NotFound | Denied | Invalid | OtherError

text \<open>The walk of the system from a directory \<open>acc\<close>. At most \<open>n\<close> links are followed.\<close>

function walk :: "nat \<Rightarrow> fnode \<Rightarrow> tpath \<Rightarrow> string list \<Rightarrow> (tpath, fs_error) result" where
  "walk n t acc [] = Ok acc"
| "walk n t acc (c # cs) =
     (if c = [] \<or> c = ''.'' then walk n t acc cs
      else if c = ''..'' then walk n t (butlast acc) cs
      else (case lookup t (acc @ [c]) of
         None \<Rightarrow> Err NotFound
       | Some (FLink l) \<Rightarrow>
           (case n of
              0 \<Rightarrow> Err OtherError
            | Suc k \<Rightarrow> walk k t (if starts_with ''/'' l then [] else acc) (split_on (CHR ''/'') l @ cs))
       | Some (FDir _ _) \<Rightarrow> walk n t (acc @ [c]) cs
       | Some (FFile _ _) \<Rightarrow> if cs = [] then Ok (acc @ [c]) else Err OtherError))"
  by pat_completeness auto
termination
  by (relation "measures [\<lambda>(n, t, acc, cs). n, \<lambda>(n, t, acc, cs). length cs]") auto

declare walk.simps [simp del]

text \<open>\<open>canonicalize\<close>, and the node itself without following a link in the last component.\<close>

definition MAX_LINKS :: nat where
  "MAX_LINKS = 40"

definition canonicalize :: "fnode \<Rightarrow> string list \<Rightarrow> (tpath, fs_error) result" where
  "canonicalize t segs = walk MAX_LINKS t [] segs"

definition symlink_metadata :: "fnode \<Rightarrow> string list \<Rightarrow> (fnode, fs_error) result" where
  "symlink_metadata t segs =
     (if segs = [] \<or> last segs \<in> {[], ''.'', ''..''}
      then and_then (canonicalize t segs) (\<lambda>p. ok_or NotFound (lookup t p))
      else and_then (canonicalize t (butlast segs)) (\<lambda>d.
        (case lookup t d of
           Some (FDir m cs) \<Rightarrow> ok_or NotFound (lookup t (d @ [last segs]))
         | _ \<Rightarrow> Err OtherError)))"

section \<open>Real paths\<close>

text \<open>A path whose proper prefixes are all directories, so that it is not affected by links.\<close>

definition real_dir :: "fnode \<Rightarrow> tpath \<Rightarrow> bool" where
  "real_dir t p \<longleftrightarrow> (\<forall>q. prefix q p \<longrightarrow> (\<exists>m cs. lookup t q = Some (FDir m cs)))"

definition plain_name :: "string \<Rightarrow> bool" where
  "plain_name c \<longleftrightarrow> c \<noteq> [] \<and> c \<noteq> ''.'' \<and> c \<noteq> ''..''"

lemma lookup_append: "lookup t (p @ q) = Option.bind (lookup t p) (\<lambda>n. lookup n q)"
  by (induction t p rule: lookup.induct) (auto split: option.splits Option.bind_splits)

lemma lookup_under_dir:
  assumes "lookup t (p @ [c]) \<noteq> None"
  shows "\<exists>m cs. lookup t p = Some (FDir m cs)"
proof (cases "lookup t p")
  case None
  with assms show ?thesis by (simp add: lookup_append)
next
  case (Some n)
  with assms show ?thesis by (cases n) (auto simp: lookup_append)
qed

lemma real_dir_Nil: "real_dir t [] \<longleftrightarrow> is_fdir t"
  by (cases t) (auto simp: real_dir_def)

lemma real_dir_snoc:
  "real_dir t (p @ [c]) \<longleftrightarrow> real_dir t p \<and> (\<exists>m cs. lookup t (p @ [c]) = Some (FDir m cs))"
  by (auto simp: real_dir_def)

lemma real_dir_prefix: "real_dir t p \<Longrightarrow> prefix q p \<Longrightarrow> real_dir t q"
  using prefix_order.trans by (auto simp: real_dir_def)

lemma real_dir_iff: "real_dir t p \<longleftrightarrow> (\<exists>m cs. lookup t p = Some (FDir m cs))"
proof (induction p rule: rev_induct)
  case Nil
  show ?case by (cases t) (auto simp: real_dir_Nil)
next
  case (snoc c p)
  then show ?case using lookup_under_dir [of t p c] by (auto simp: real_dir_snoc)
qed

text \<open>A walk that starts in a directory ends at a node that is no link.\<close>

lemma walk_ok:
  assumes "walk n t acc segs = Ok p" and "\<exists>m cs. lookup t acc = Some (FDir m cs)"
  shows "\<exists>node. lookup t p = Some node \<and> \<not> is_flink node"
  using assms
proof (induction n t acc segs rule: walk.induct)
  case (1 n t acc)
  then show ?case by (auto simp: walk.simps)
next
  case (2 n t acc c cs)
  have butlast: "\<exists>m cs. lookup t (butlast acc) = Some (FDir m cs)"
    using 2(6) real_dir_iff real_dir_prefix [of t acc "butlast acc"] prefixeq_butlast by blast
  have root: "\<exists>m cs. lookup t [] = Some (FDir m cs)"
    using 2(6) real_dir_iff real_dir_prefix [of t acc "[]"] by auto
  show ?case
  proof (cases "c = [] \<or> c = ''.'' \<or> c = ''..''")
    case True
    with 2(1,2,5,6) butlast show ?thesis by (auto simp: walk.simps split: if_splits)
  next
    case plain: False
    show ?thesis
    proof (cases "lookup t (acc @ [c])")
      case None
      with 2(5) plain show ?thesis by (simp add: walk.simps)
    next
      case (Some node)
      show ?thesis
      proof (cases node)
        case (FFile m d)
        with 2(5) plain Some show ?thesis by (auto simp: walk.simps split: if_splits)
      next
        case (FLink l)
        with 2(5) plain Some obtain k where "n = Suc k"
          "walk k t (if starts_with ''/'' l then [] else acc) (split_on (CHR ''/'') l @ cs) = Ok p"
          by (auto simp: walk.simps split: nat.splits)
        with 2(3) [OF _ _ Some FLink] plain 2(6) root show ?thesis by auto
      next
        case (FDir m ns)
        with 2(5) plain Some have "walk n t (acc @ [c]) cs = Ok p" by (simp add: walk.simps)
        with 2(4) [OF _ _ Some FDir] plain Some FDir show ?thesis by auto
      qed
    qed
  qed
qed

text \<open>A directory reached through directories only is its own canonical path.\<close>

lemma walk_real:
  assumes "lookup t (acc @ p) = Some node" and "\<not> is_flink node" and "list_all plain_name p"
  shows "walk n t acc p = Ok (acc @ p)"
  using assms
proof (induction p arbitrary: acc)
  case Nil
  then show ?case by (simp add: walk.simps)
next
  case (Cons c p)
  have c: "lookup t ((acc @ [c]) @ p) = Some node" using Cons.prems(1) by simp
  then have some: "lookup t (acc @ [c]) \<noteq> None"
    unfolding lookup_append [of t "acc @ [c]"] by (auto split: Option.bind_splits)
  have "walk n t (acc @ [c]) p = Ok ((acc @ [c]) @ p)"
    using Cons.IH [OF c] Cons.prems by simp
  moreover have "\<exists>m cs. lookup t (acc @ [c]) = Some (FDir m cs)" if "p \<noteq> []"
  proof -
    obtain d q where "p = d # q" using \<open>p \<noteq> []\<close> by (cases p) auto
    with c have "lookup t ((acc @ [c]) @ [d]) \<noteq> None"
      using lookup_append [of t "(acc @ [c]) @ [d]" q] by (auto split: Option.bind_splits)
    then show ?thesis by (rule lookup_under_dir)
  qed
  ultimately show ?case
    using Cons.prems some
    by (cases p; cases "the (lookup t (acc @ [c]))") (auto simp: walk.simps plain_name_def)
qed

lemma walk_through:
  assumes "lookup t (acc @ p) = Some (FDir m cs)" and "list_all plain_name p"
  shows "walk n t acc (p @ q) = walk n t (acc @ p) q"
  using assms
proof (induction p arbitrary: acc)
  case Nil
  then show ?case by simp
next
  case (Cons c p)
  have c: "lookup t ((acc @ [c]) @ p) = Some (FDir m cs)" using Cons.prems(1) by simp
  then have "real_dir t (acc @ [c])" using real_dir_prefix [of t "(acc @ [c]) @ p" "acc @ [c]"] real_dir_iff
    by (auto simp: prefix_def)
  then obtain m' cs' where "lookup t (acc @ [c]) = Some (FDir m' cs')" by (auto simp: real_dir_iff)
  with Cons.IH [OF c] Cons.prems(2) show ?case by (simp add: walk.simps plain_name_def)
qed

section \<open>Updates\<close>

lemma map_of_update: "map_of (AList.update k v al) = (map_of al)(k \<mapsto> v)"
  by (simp add: update_conv')

text \<open>An update at or below an existing path \<open>root\<close> is not visible elsewhere.\<close>

lemma info_put_outside:
  assumes "lookup t root \<noteq> None" and "prefix root p" and "\<not> prefix root q"
  shows "info_at (put_node p v t) q = info_at t q"
  using assms
proof (induction root arbitrary: t p q)
  case Nil
  then show ?case by simp
next
  case (Cons c root)
  obtain m cs n where t: "t = FDir m cs" "map_of cs c = Some n" "lookup n root \<noteq> None"
    using Cons.prems(1) by (cases t) (auto split: Option.bind_splits)
  obtain p' where p: "p = c # p'" "prefix root p'" using Cons.prems(2) by (cases p) auto
  have keys: "map fst (AList.update c (put_node p' v n) cs) = map fst cs"
    using t(2) by (simp add: update_keys weak_map_of_SomeI image_iff)
      (metis map_of_SomeD fst_conv image_eqI)
  show ?case
  proof (cases q)
    case Nil
    with t p keys show ?thesis by (simp add: info_at_def)
  next
    case (Cons d q')
    with \<open>\<not> prefix (c # root) q\<close> Cons.IH [OF t(3) p(2), of q'] t p show ?thesis
      by (cases "d = c") (auto simp: info_at_def map_of_update)
  qed
qed

lemma lookup_put_same:
  assumes "lookup t p = Some (FDir m cs)"
  shows "lookup (put_node (p @ [c]) v t) (p @ [c]) = Some v"
  using assms
proof (induction p arbitrary: t)
  case Nil
  then show ?case by (cases "map_of cs c") (auto simp: map_of_update map_add_def)
next
  case (Cons d p)
  then obtain m' cs' n where "t = FDir m' cs'" "map_of cs' d = Some n" "lookup n p = Some (FDir m cs)"
    by (cases t) (auto split: Option.bind_splits)
  with Cons.IH show ?case by (simp add: map_of_update)
qed

text \<open>Directories that the update does not replace stay directories.\<close>

lemma dir_put:
  assumes "real_dir t q" and "\<not> prefix p q"
  shows "real_dir (put_node p v t) q"
proof -
  obtain m cs where "lookup t q = Some (FDir m cs)" using assms(1) real_dir_iff by blast
  then have "\<exists>m cs. lookup (put_node p v t) q = Some (FDir m cs)"
    using assms(2)
  proof (induction p v t arbitrary: q rule: put_node.induct)
    case (2 c p v m' cs')
    show ?case
    proof (cases q)
      case Nil
      then show ?thesis by (auto split: option.splits)
    next
      case (Cons d q')
      with 2 show ?thesis
        by (cases "d = c") (auto simp: map_of_update map_of_append map_add_def
            split: option.splits Option.bind_splits)
    qed
  qed auto
  then show ?thesis by (simp add: real_dir_iff)
qed

lemma not_dir_not_prefix:
  assumes "real_dir t q" and "\<And>m cs. lookup t p \<noteq> Some (FDir m cs)"
  shows "\<not> prefix p q"
  using assms real_dir_prefix real_dir_iff by blast

text \<open>An update below a node that was just put is part of the node.\<close>

lemma update_append_fresh: "map_of cs c = None \<Longrightarrow> AList.update c v (cs @ [(c, u)]) = cs @ [(c, v)]"
  by (induction cs) auto

lemma update_update: "AList.update c v (AList.update c u cs) = AList.update c v cs"
  by (induction cs) auto

lemma put_put:
  assumes "lookup t p = Some (FDir m cs)"
  shows "put_node ((p @ [c]) @ q) v (put_node (p @ [c]) u t) = put_node (p @ [c]) (put_node q v u) t"
  using assms
proof (induction p arbitrary: t)
  case Nil
  then show ?case
    by (cases "map_of cs c") (simp_all add: update_append_fresh map_of_update update_update map_add_def)
next
  case (Cons d p)
  then obtain m' cs' n where "t = FDir m' cs'" "map_of cs' d = Some n" "lookup n p = Some (FDir m cs)"
    by (cases t) (auto split: Option.bind_splits)
  with Cons.IH show ?case by (simp add: map_of_update update_update)
qed

end
