(* ===== verification/Sys_Calls.thy ===== *)
theory Sys_Calls
  imports File_Tree
begin

text \<open>
  System calls on a directory tree, as the fixture services make them: queries, creation of
  directories, writing and permissions, each with a fault that the environment may choose. The
  second half shows what the calls do on a path that no link redirects.
\<close>

section \<open>Programs with a state and an error\<close>

type_synonym ('s, 'e, 'a) run = "'s \<Rightarrow> ('a, 'e) result \<times> 's"

definition do_ret :: "'a \<Rightarrow> ('s, 'e, 'a) run" where
  "do_ret v s = (Ok v, s)"

definition do_lift :: "('a, 'e) result \<Rightarrow> ('s, 'e, 'a) run" where
  "do_lift r s = (r, s)"

text \<open>The question-mark operator: an error ends the program.\<close>

definition do_then :: "('s, 'e, 'a) run \<Rightarrow> ('a \<Rightarrow> ('s, 'e, 'b) run) \<Rightarrow> ('s, 'e, 'b) run" where
  "do_then m k s = (case m s of (Inl e, s') \<Rightarrow> (Err e, s') | (Inr v, s') \<Rightarrow> k v s')"

lemma do_ok:
  "do_then m k s = (Inr v, s') \<longleftrightarrow> (\<exists>u s1. m s = (Inr u, s1) \<and> k u s1 = (Inr v, s'))"
  "do_ret u s = (Inr v, s') \<longleftrightarrow> v = u \<and> s' = s"
  "do_lift r s = (Inr v, s') \<longleftrightarrow> r = Inr v \<and> s' = s"
  by (auto simp: do_then_def do_ret_def do_lift_def split: prod.splits sum.splits)

text \<open>
  Programs that keep an invariant and relate their first state to their last one, with a
  condition before and one on the result after. A program may fail at any step, so both must
  hold for errors too.
\<close>

locale guarded_runs =
  fixes inv :: "'s \<Rightarrow> bool" and keeps :: "'s \<Rightarrow> 's \<Rightarrow> bool"
  assumes keeps_refl: "keeps s s"
    and keeps_trans: "keeps s s1 \<Longrightarrow> keeps s1 s2 \<Longrightarrow> keeps s s2"
begin

definition guarded :: "('s \<Rightarrow> bool) \<Rightarrow> ('s, 'e, 'a) run \<Rightarrow> ('a \<Rightarrow> 's \<Rightarrow> bool) \<Rightarrow> bool" where
  "guarded P m Q \<longleftrightarrow> (\<forall>s r s'. m s = (r, s') \<longrightarrow> inv s \<longrightarrow> P s \<longrightarrow>
     inv s' \<and> keeps s s' \<and> (\<forall>v. r = Ok v \<longrightarrow> Q v s'))"

lemma guardedI:
  assumes "\<And>s r s'. m s = (r, s') \<Longrightarrow> inv s \<Longrightarrow> P s \<Longrightarrow> inv s' \<and> keeps s s' \<and> (\<forall>v. r = Ok v \<longrightarrow> Q v s')"
  shows "guarded P m Q"
  using assms unfolding guarded_def by blast

lemma guardedD:
  assumes "guarded P m Q" and "m s = (r, s')" and "inv s" and "P s"
  shows "inv s'" and "keeps s s'" and "r = Ok v \<Longrightarrow> Q v s'"
  using assms unfolding guarded_def by blast+

lemma guarded_then:
  assumes m: "guarded P m Q" and k: "\<And>v. guarded (Q v) (k v) R"
  shows "guarded P (do_then m k) R"
proof (rule guardedI)
  fix s r s'
  assume run: "do_then m k s = (r, s')" and pre: "inv s" "P s"
  obtain r1 s1 where m1: "m s = (r1, s1)" by fastforce
  note first = guardedD [OF m m1 pre]
  show "inv s' \<and> keeps s s' \<and> (\<forall>v. r = Ok v \<longrightarrow> R v s')"
  proof (cases r1)
    case (Inl e)
    with run m1 first show ?thesis by (auto simp: do_then_def)
  next
    case (Inr v)
    with run m1 have "k v s1 = (r, s')" by (simp add: do_then_def)
    note rest = guardedD [OF k this first(1) first(3) [OF Inr]]
    show ?thesis using rest keeps_trans [OF first(2) rest(2)] by blast
  qed
qed

lemma guarded_conseq:
  assumes "guarded P m Q" and "\<And>s. P' s \<Longrightarrow> P s" and "\<And>v s. Q v s \<Longrightarrow> Q' v s"
  shows "guarded P' m Q'"
  using assms unfolding guarded_def by blast

lemma guarded_ret: "(\<And>s. P s \<Longrightarrow> Q v s) \<Longrightarrow> guarded P (do_ret v) Q"
  by (auto simp: guarded_def do_ret_def keeps_refl)

lemma guarded_lift: "(\<And>v s. P s \<Longrightarrow> r = Ok v \<Longrightarrow> Q v s) \<Longrightarrow> guarded P (do_lift r) Q"
  by (auto simp: guarded_def do_lift_def keeps_refl)

end

section \<open>Calls\<close>

text \<open>What a call does: it works, is refused, is forbidden, or (a write) stops after some bytes.\<close>

datatype sys_fault = Works | Refused | Forbidden | Stopped nat

definition fault_error :: "sys_fault \<Rightarrow> fs_error" where
  "fault_error f = (if f = Forbidden then Denied else OtherError)"

text \<open>A call sees its fault and the tree. A query leaves the tree alone.\<close>

definition query ::
  "(fnode \<Rightarrow> ('a, fs_error) result) \<Rightarrow> sys_fault \<Rightarrow> fnode \<Rightarrow> ('a, fs_error) result \<times> fnode" where
  "query q f t = ((if f = Works then q t else Err (fault_error f)), t)"

definition node_at :: "fnode \<Rightarrow> string list \<Rightarrow> (fnode, fs_error) result" where
  "node_at t p = and_then (canonicalize t p) (\<lambda>q. ok_or NotFound (lookup t q))"

definition is_dir_at :: "fnode \<Rightarrow> tpath \<Rightarrow> bool" where
  "is_dir_at t p = (case lookup t p of Some n \<Rightarrow> is_fdir n | None \<Rightarrow> False)"

fun is_ffile :: "fnode \<Rightarrow> bool" where
  "is_ffile (FFile _ _) = True"
| "is_ffile _ = False"

definition mkdir_at :: "u32 \<Rightarrow> string list \<Rightarrow> sys_fault \<Rightarrow> fnode \<Rightarrow> (unit, fs_error) result \<times> fnode" where
  "mkdir_at mode p f t =
     (if f \<noteq> Works \<or> p = [] then (Err (fault_error f), t)
      else (case canonicalize t (butlast p) of
         Inl e \<Rightarrow> (Err e, t)
       | Inr d \<Rightarrow>
           (case lookup t d of
              Some (FDir m cs) \<Rightarrow>
                if lookup t (d @ [last p]) = None
                then (Ok (), put_node (d @ [last p]) (FDir mode []) t)
                else (Err OtherError, t)
            | _ \<Rightarrow> (Err OtherError, t))))"

text \<open>The node that opening for writing with creation reaches: links are followed, also one in
  the last component whose target does not exist.\<close>

fun open_target :: "nat \<Rightarrow> fnode \<Rightarrow> tpath \<Rightarrow> string list \<Rightarrow> (tpath, fs_error) result" where
  "open_target n t base p =
     (if p = [] \<or> \<not> plain_name (last p) then Err OtherError
      else and_then (walk n t base (butlast p)) (\<lambda>d.
        (case lookup t d of
           Some (FDir m cs) \<Rightarrow>
             (case lookup t (d @ [last p]) of
                Some (FLink l) \<Rightarrow>
                  (case n of
                     0 \<Rightarrow> Err OtherError
                   | Suc k \<Rightarrow> open_target k t (if starts_with ''/'' l then [] else d) (split_on (CHR ''/'') l))
              | _ \<Rightarrow> Ok (d @ [last p]))
         | _ \<Rightarrow> Err OtherError)))"

declare open_target.simps [simp del]

text \<open>\<open>std::fs::write\<close> truncates or creates the file, then writes; a fault can leave a part.\<close>

definition write_at ::
  "u32 \<Rightarrow> string list \<Rightarrow> bytes \<Rightarrow> sys_fault \<Rightarrow> fnode \<Rightarrow> (unit, fs_error) result \<times> fnode" where
  "write_at mode p data f t =
     (if f = Refused \<or> f = Forbidden then (Err (fault_error f), t)
      else (case open_target MAX_LINKS t [] p of
         Inl e \<Rightarrow> (Err e, t)
       | Inr q \<Rightarrow>
           (case (case lookup t q of None \<Rightarrow> Some mode | Some (FFile m d) \<Rightarrow> Some m | _ \<Rightarrow> None) of
              None \<Rightarrow> (Err OtherError, t)
            | Some m \<Rightarrow>
                (case f of
                   Stopped k \<Rightarrow> (Err OtherError, put_node q (FFile m (take k data)) t)
                 | _ \<Rightarrow> (Ok (), put_node q (FFile m data) t)))))"

definition dir_names :: "fnode \<Rightarrow> string list \<Rightarrow> (string list, fs_error) result" where
  "dir_names t p = and_then (node_at t p) (\<lambda>n.
     (case n of FDir m cs \<Rightarrow> Ok (map fst cs) | _ \<Rightarrow> Err OtherError))"

fun with_mode :: "u32 \<Rightarrow> fnode \<Rightarrow> fnode" where
  "with_mode m (FFile _ d) = FFile m d"
| "with_mode m (FDir _ cs) = FDir m cs"
| "with_mode m (FLink l) = FLink l"

definition chmod_at :: "u32 \<Rightarrow> string list \<Rightarrow> sys_fault \<Rightarrow> fnode \<Rightarrow> (unit, fs_error) result \<times> fnode" where
  "chmod_at mode p f t =
     (if f \<noteq> Works then (Err (fault_error f), t)
      else (case canonicalize t p of
         Inl e \<Rightarrow> (Err e, t)
       | Inr q \<Rightarrow>
           (case lookup t q of
              None \<Rightarrow> (Err NotFound, t)
            | Some n \<Rightarrow> (Ok (), put_node q (with_mode mode n) t))))"

section \<open>Paths\<close>

text \<open>\<open>Path::starts_with\<close>.\<close>

definition under_root :: "tpath \<Rightarrow> tpath \<Rightarrow> bool" where
  "under_root root p \<longleftrightarrow> take (length root) p = root"

text \<open>\<open>Path::components\<close> of the joined path: empty and current components disappear, and parent
  components were refused.\<close>

definition joined :: "tpath \<Rightarrow> string list \<Rightarrow> tpath" where
  "joined root relative = root @ filter (\<lambda>c. c \<noteq> [] \<and> c \<noteq> ''.'') relative"

lemma under_root_prefix [simp]: "under_root root p \<longleftrightarrow> prefix root p"
  by (auto simp: under_root_def prefix_def) (metis append_take_drop_id)

lemma joined_plain:
  assumes "''..'' \<notin> set relative" and "list_all plain_name root"
  shows "list_all plain_name (joined root relative)"
  using assms by (auto simp: joined_def list_all_iff plain_name_def)

section \<open>Canonical paths\<close>

lemma walk_plain:
  assumes "walk n t acc segs = Ok p" and "list_all plain_name acc"
  shows "list_all plain_name p"
  using assms
proof (induction n t acc segs rule: walk.induct)
  case (1 n t acc)
  then show ?case by (simp add: walk.simps)
next
  case (2 n t acc c cs)
  have butlast: "list_all plain_name (butlast acc)"
    using 2(6) by (auto simp: list_all_iff dest: in_set_butlastD)
  show ?case
  proof (cases "plain_name c")
    case False
    then have "c = [] \<or> c = ''.'' \<or> c = ''..''" by (auto simp: plain_name_def)
    with 2(1,2,5,6) butlast show ?thesis by (auto simp: walk.simps split: if_splits)
  next
    case True
    then have c: "\<not> (c = [] \<or> c = ''.'')" "c \<noteq> ''..''" by (auto simp: plain_name_def)
    show ?thesis
    proof (cases "lookup t (acc @ [c])")
      case None
      with 2(5) c show ?thesis by (simp add: walk.simps)
    next
      case (Some node)
      then show ?thesis
        using 2(3) [OF c Some] 2(4) [OF c Some] 2(5,6) True c
        by (cases node) (auto simp: walk.simps split: if_splits nat.splits)
    qed
  qed
qed

definition canonical :: "fnode \<Rightarrow> tpath \<Rightarrow> bool" where
  "canonical t p \<longleftrightarrow> list_all plain_name p \<and> (\<exists>n. lookup t p = Some n \<and> \<not> is_flink n)"

lemma canonicalize_canonical:
  assumes "is_fdir t" and "canonicalize t segs = Ok p"
  shows "canonical t p"
  using walk_ok [of MAX_LINKS t "[]" segs p] walk_plain [of MAX_LINKS t "[]" segs p] assms
  by (cases t) (auto simp: canonicalize_def canonical_def)

lemma canonical_canonicalize: "canonical t p \<Longrightarrow> canonicalize t p = Ok p"
  using walk_real [of t "[]" p _ MAX_LINKS] by (auto simp: canonical_def canonicalize_def)

lemma real_dir_canonical: "real_dir t p \<Longrightarrow> list_all plain_name p \<Longrightarrow> canonical t p"
  by (force simp: real_dir_iff canonical_def)

lemma real_dir_root: "real_dir t p \<Longrightarrow> is_fdir t"
  by (metis prefix_bot.extremum real_dir_Nil real_dir_prefix)

section \<open>Safe paths\<close>

text \<open>A path below the root that no link redirects: its directory is real, and it is no link
  itself.\<close>

definition safe_path :: "tpath \<Rightarrow> fnode \<Rightarrow> tpath \<Rightarrow> bool" where
  "safe_path root t p \<longleftrightarrow> prefix root p \<and> p \<noteq> [] \<and> list_all plain_name p \<and>
     real_dir t (butlast p) \<and> (\<forall>l. lookup t p \<noteq> Some (FLink l))"

lemma safe_path_parent:
  assumes "safe_path root t p"
  shows "canonicalize t (butlast p) = Ok (butlast p)" and "\<exists>m cs. lookup t (butlast p) = Some (FDir m cs)"
proof -
  have "list_all plain_name (butlast p)"
    using assms by (auto simp: safe_path_def list_all_iff dest: in_set_butlastD)
  then show "canonicalize t (butlast p) = Ok (butlast p)"
    using assms by (auto simp: safe_path_def intro: canonical_canonicalize real_dir_canonical)
  show "\<exists>m cs. lookup t (butlast p) = Some (FDir m cs)"
    using assms by (simp add: safe_path_def real_dir_iff)
qed

lemma safe_path_open:
  assumes "safe_path root t p"
  shows "open_target MAX_LINKS t [] p = Ok p"
proof -
  note parent = safe_path_parent [OF assms]
  have p: "butlast p @ [last p] = p" "p \<noteq> []" "plain_name (last p)" "\<And>l. lookup t p \<noteq> Some (FLink l)"
    using assms by (auto simp: safe_path_def list_all_iff)
  with parent show ?thesis
    by (auto simp: open_target.simps canonicalize_def split: option.splits fnode.splits)
qed

lemma safe_path_canonicalize:
  assumes "safe_path root t p"
  shows "canonicalize t p = (if lookup t p = None then Err NotFound else Ok p)"
proof (cases "lookup t p")
  case (Some n)
  with assms have "canonical t p" by (cases n) (auto simp: safe_path_def canonical_def)
  with Some show ?thesis by (simp add: canonical_canonicalize)
next
  case None
  have p: "p = butlast p @ [last p]" "plain_name (last p)" "list_all plain_name (butlast p)"
    using assms by (auto simp: safe_path_def list_all_iff dest: in_set_butlastD)
  obtain m cs where "lookup t (butlast p) = Some (FDir m cs)" using safe_path_parent(2) [OF assms] by blast
  then have "walk MAX_LINKS t [] (butlast p @ [last p]) = walk MAX_LINKS t (butlast p) [last p]"
    using walk_through [of t "[]" "butlast p"] p(3) by simp
  with None p show ?thesis by (simp add: canonicalize_def walk.simps plain_name_def)
qed

section \<open>The calls that change the tree\<close>

definition same_outside :: "tpath \<Rightarrow> fnode \<Rightarrow> fnode \<Rightarrow> bool" where
  "same_outside root t t' \<longleftrightarrow> (\<forall>q. \<not> prefix root q \<longrightarrow> info_at t' q = info_at t q)"

lemma put_safe:
  assumes safe: "safe_path root t p" and root: "real_dir t root"
    and kind: "is_flink v = False" "\<And>m cs. lookup t p = Some (FDir m cs) \<Longrightarrow> is_fdir v"
  shows "same_outside root t (put_node p v t)" and "real_dir (put_node p v t) root"
    and "safe_path root (put_node p v t) p"
proof -
  have p: "p = butlast p @ [last p]" "p \<noteq> []" using safe by (auto simp: safe_path_def)
  obtain m cs where parent: "lookup t (butlast p) = Some (FDir m cs)"
    using safe_path_parent(2) [OF safe] by blast
  have at: "lookup (put_node p v t) p = Some v" using lookup_put_same [OF parent, of "last p" v] p by simp
  show "same_outside root t (put_node p v t)"
    using safe root info_put_outside [of t root p _ v]
    by (auto simp: same_outside_def safe_path_def real_dir_iff)
  have "\<not> prefix p (butlast p)"
    using p(2) by (metis diff_less length_butlast length_greater_0_conv less_numeral_extra(1) not_le prefix_length_le)
  then have "real_dir (put_node p v t) (butlast p)" using safe dir_put by (simp add: safe_path_def)
  then show "safe_path root (put_node p v t) p" using safe at kind(1) by (auto simp: safe_path_def)
  show "real_dir (put_node p v t) root"
  proof (cases "prefix p root")
    case True
    then have "p = root" using safe by (simp add: safe_path_def prefix_order.antisym)
    moreover then have "is_fdir v" using root kind(2) by (auto simp: real_dir_iff)
    ultimately show ?thesis using at by (cases v) (auto simp: real_dir_iff)
  next
    case False
    then show ?thesis using root by (rule dir_put [rotated])
  qed
qed

text \<open>What the three calls keep, as one property of a call.\<close>

definition keeps_outside ::
  "tpath \<Rightarrow> tpath \<Rightarrow> (sys_fault \<Rightarrow> fnode \<Rightarrow> ('a, fs_error) result \<times> fnode) \<Rightarrow> bool" where
  "keeps_outside root p call \<longleftrightarrow> (\<forall>f t r t'. call f t = (r, t') \<longrightarrow> safe_path root t p \<longrightarrow> real_dir t root \<longrightarrow>
     same_outside root t t' \<and> real_dir t' root \<and> safe_path root t' p)"

lemma same_outside_refl [simp]: "same_outside root t t"
  by (simp add: same_outside_def)

lemma same_outside_trans: "same_outside root a b \<Longrightarrow> same_outside root b c \<Longrightarrow> same_outside root a c"
  by (simp add: same_outside_def)

lemma keeps_outsideI:
  assumes "\<And>f t r t'. call f t = (r, t') \<Longrightarrow> safe_path root t p \<Longrightarrow> t' \<noteq> t \<Longrightarrow>
     \<exists>v. t' = put_node p v t \<and> \<not> is_flink v \<and> (\<forall>m cs. lookup t p = Some (FDir m cs) \<longrightarrow> is_fdir v)"
  shows "keeps_outside root p call"
  unfolding keeps_outside_def
proof (intro allI impI)
  fix f t r t' assume a: "call f t = (r, t')" "safe_path root t p" "real_dir t root"
  show "same_outside root t t' \<and> real_dir t' root \<and> safe_path root t' p"
  proof (cases "t' = t")
    case True
    with a show ?thesis by simp
  next
    case False
    from assms [OF a(1,2) False] obtain v where v: "t' = put_node p v t" "is_flink v = False"
      "\<And>m cs. lookup t p = Some (FDir m cs) \<Longrightarrow> is_fdir v" by auto
    show ?thesis using put_safe [OF a(2,3) v(2,3)] v(1) by simp
  qed
qed

lemma mkdir_keeps: "keeps_outside root p (mkdir_at mode p)"
proof (rule keeps_outsideI, goal_cases)
  case (1 f t r t')
  have p: "butlast p @ [last p] = p" using 1(2) by (auto simp: safe_path_def)
  have "lookup t p = None \<and> t' = put_node p (FDir mode []) t"
    using 1 safe_path_parent [OF 1(2)] p
    by (auto simp: mkdir_at_def split: if_splits option.splits fnode.splits)
  then show ?case by auto
qed

lemma write_keeps: "keeps_outside root p (write_at mode p data)"
proof (rule keeps_outsideI, goal_cases)
  case (1 f t r t')
  have "\<exists>m d. t' = put_node p (FFile m d) t \<and> (\<forall>m cs. lookup t p \<noteq> Some (FDir m cs))"
    using 1 safe_path_open [OF 1(2)]
    by (fastforce simp: write_at_def split: if_splits option.splits fnode.splits sys_fault.splits)
  then show ?case by auto
qed

lemma chmod_keeps: "keeps_outside root p (chmod_at mode p)"
proof (rule keeps_outsideI, goal_cases)
  case (1 f t r t')
  obtain n where n: "lookup t p = Some n" "t' = put_node p (with_mode mode n) t"
    using 1 safe_path_canonicalize [OF 1(2)] by (auto simp: chmod_at_def split: if_splits option.splits)
  then show ?case using 1(2) by (cases n) (auto simp: safe_path_def)
qed

lemma fault_error_not_found [simp]: "fault_error f \<noteq> NotFound"
  by (simp add: fault_error_def)

text \<open>A name in a canonical directory that is absent or no link.\<close>

lemma candidate_safe:
  assumes cp: "canonical t cp" and root: "prefix root cp" and name: "plain_name name" and dir: "is_fdir t"
    and r: "symlink_metadata t (cp @ [name]) = Ok n \<and> \<not> is_flink n \<or> symlink_metadata t (cp @ [name]) = Err NotFound"
  shows "safe_path root t (cp @ [name])"
proof -
  have md: "symlink_metadata t (cp @ [name]) =
      (case lookup t cp of Some (FDir m cs) \<Rightarrow> ok_or NotFound (lookup t (cp @ [name])) | _ \<Rightarrow> Err OtherError)"
    using name canonical_canonicalize [OF cp]
    by (simp add: symlink_metadata_def plain_name_def split: option.split fnode.split)
  then obtain m cs where cpdir: "lookup t cp = Some (FDir m cs)"
    using r by (auto split: option.splits fnode.splits)
  then have "lookup t (cp @ [name]) \<noteq> Some (FLink l)" for l
    using r md by (cases "lookup t (cp @ [name])") auto
  with cp root name cpdir show ?thesis
    by (auto simp: safe_path_def canonical_def real_dir_iff)
qed

end
