(* ===== verification/Scp_Wire.thy ===== *)
theory Scp_Wire
  imports Scp_Request Sys_Calls
begin

text \<open>
  The wire of the fixture's SCP service, \<open>crates/rssh-test-support/src/ssh/scp.rs\<close> lines 171 to
  249 and 491 to 566: reading bytes, lines and acknowledgements from the messages of a
  channel, sending, and the parsing of control lines and names.
\<close>

unbundle bit_operations_syntax

section \<open>State\<close>

datatype scp_msg = ScpData bytes | ScpEof | ScpClose | ScpOther | ScpNothing

datatype scp_out = OutData bytes | OutExit u32 | OutEof | OutClose

text \<open>\<open>ScpNothing\<close> is a wait that ended with the deadline or a closed channel; so is a wait
  after the last message. The state has the directory tree, the number of system calls and
  sends made so far, and what has been sent.\<close>

record scp_state =
  st_tree :: fnode
  st_calls :: nat
  st_msgs :: "scp_msg list"
  st_buffer :: bytes
  st_end_of_input :: bool
  st_incomplete_control :: bool
  st_sends :: nat
  st_sent :: "scp_out list"

text \<open>The environment: what each call does, which sends fail, the modes of new files and
  directories, and the times since the epoch that a metadata call reads for the node at a path.
  Calls and sends are numbered in order.\<close>

record scp_env =
  env_fault :: "nat \<Rightarrow> sys_fault"
  env_send_fails :: "nat \<Rightarrow> bool"
  env_file_mode :: u32
  env_dir_mode :: u32
  env_modified :: "tpath \<Rightarrow> nat \<Rightarrow> u64 option"
  env_accessed :: "tpath \<Rightarrow> nat \<Rightarrow> u64 option"

type_synonym 'a scp = "(scp_state, scp_protocol_error, 'a) run"

definition scp_fail :: "'a scp" where
  "scp_fail s = (Err ScpProtocolError, s)"

definition scp_check :: "bool \<Rightarrow> unit scp" where
  "scp_check b = (if b then do_ret () else scp_fail)"

section \<open>Sending\<close>

definition put_out :: "scp_env \<Rightarrow> scp_out \<Rightarrow> unit scp" where
  "put_out E x s =
     (let s' = s\<lparr>st_sends := Suc (st_sends s)\<rparr> in
      if env_send_fails E (st_sends s) then (Err ScpProtocolError, s')
      else (Ok (), s'\<lparr>st_sent := st_sent s @ [x]\<rparr>))"

definition wire_send :: "scp_env \<Rightarrow> bytes \<Rightarrow> unit scp" where
  "wire_send E bs = put_out E (OutData bs)"

definition send_ack :: "scp_env \<Rightarrow> unit scp" where
  "send_ack E = wire_send E [0]"

definition send_fatal :: "scp_env \<Rightarrow> unit scp" where
  "send_fatal E = wire_send E (2 # as_bytes ''SCP request rejected by hermetic fixture'' @ [10])"

section \<open>Receiving\<close>

fun wait_byte :: "scp_msg list \<Rightarrow> 8 word scp" where
  "wait_byte [] s = (Err ScpProtocolError, s\<lparr>st_msgs := []\<rparr>)"
| "wait_byte (ScpData data # ms) s =
     (case data of
        [] \<Rightarrow> wait_byte ms s
      | b # bs \<Rightarrow> (Ok b, s\<lparr>st_msgs := ms, st_buffer := bs\<rparr>))"
| "wait_byte (ScpEof # ms) s = (Err ScpProtocolError, s\<lparr>st_msgs := ms, st_end_of_input := True\<rparr>)"
| "wait_byte (ScpClose # ms) s = (Err ScpProtocolError, s\<lparr>st_msgs := ms, st_end_of_input := True\<rparr>)"
| "wait_byte (ScpOther # ms) s = wait_byte ms s"
| "wait_byte (ScpNothing # ms) s = (Err ScpProtocolError, s\<lparr>st_msgs := ms\<rparr>)"

definition read_byte :: "8 word scp" where
  "read_byte s =
     (case st_buffer s of
        b # bs \<Rightarrow> (Ok b, s\<lparr>st_buffer := bs\<rparr>)
      | [] \<Rightarrow> wait_byte (st_msgs s) s)"

definition MAX_CONTROL_LINE :: nat where
  "MAX_CONTROL_LINE = 8 * 1024"

text \<open>The loop of \<open>read_line\<close> with \<open>n\<close> bytes left before the line is too long.\<close>

fun read_line_from :: "nat \<Rightarrow> bytes \<Rightarrow> bytes scp" where
  "read_line_from 0 line s = (Err ScpProtocolError, s)"
| "read_line_from (Suc n) line s =
     (case read_byte s of
        (Inl e, s') \<Rightarrow> (Err e, s'\<lparr>st_incomplete_control := line \<noteq> []\<rparr>)
      | (Inr b, s') \<Rightarrow>
          if b = 10 then (Ok (line @ [b]), s'\<lparr>st_incomplete_control := False\<rparr>)
          else read_line_from n (line @ [b]) s')"

definition read_line :: "bytes scp" where
  "read_line = read_line_from MAX_CONTROL_LINE []"

fun read_exact :: "nat \<Rightarrow> bytes scp" where
  "read_exact 0 = do_ret []"
| "read_exact (Suc n) = do_then read_byte (\<lambda>b. do_then (read_exact n) (\<lambda>bs. do_ret (b # bs)))"

definition expect_ack :: "unit scp" where
  "expect_ack = do_then read_byte (\<lambda>b. scp_check (b = 0))"

section \<open>Control lines\<close>

fun split_ascii_whitespace_from :: "string \<Rightarrow> string \<Rightarrow> string list" where
  "split_ascii_whitespace_from w [] = (if w = [] then [] else [w])"
| "split_ascii_whitespace_from w (c # cs) =
     (if is_ascii_whitespace c
      then (if w = [] then [] else [w]) @ split_ascii_whitespace_from [] cs
      else split_ascii_whitespace_from (w @ [c]) cs)"

abbreviation U64_MAX :: nat where "U64_MAX \<equiv> 2 ^ 64 - 1"
abbreviation U32_MAX :: nat where "U32_MAX \<equiv> 2 ^ 32 - 1"

definition parse_times :: "bytes \<Rightarrow> (unit, scp_protocol_error) result" where
  "parse_times line =
     (if \<not> utf8_valid (str_of_bytes line) then Err ScpProtocolError
      else
        (let text = str_of_bytes line;
             fields = split_ascii_whitespace_from [] (drop 1 (take (length text - 1) text))
         in if length fields \<noteq> 4 \<or> list_ex (\<lambda>f. parse_uint 10 U64_MAX f = None) fields
            then Err ScpProtocolError else Ok ()))"

definition parse_control :: "bytes \<Rightarrow> 8 word \<Rightarrow> (u32 \<times> u64 \<times> string, scp_protocol_error) result" where
  "parse_control line kind =
     (if line = [] \<or> hd line \<noteq> kind \<or> last line \<noteq> 10 then Err ScpProtocolError
      else
        (let text = str_of_bytes (drop 1 (take (length line - 1) line)) in
         if \<not> utf8_valid text then Err ScpProtocolError
         else (case split_once (CHR '' '') text of
            None \<Rightarrow> Err ScpProtocolError
          | Some (mode_text, rest) \<Rightarrow>
              (case split_once (CHR '' '') rest of
                 None \<Rightarrow> Err ScpProtocolError
               | Some (size_text, name) \<Rightarrow>
                   (case (parse_uint 8 U32_MAX mode_text, parse_uint 10 U64_MAX size_text) of
                      (Some mode, Some sz) \<Rightarrow> Ok (of_nat mode AND 511, of_nat sz, name)
                    | _ \<Rightarrow> Err ScpProtocolError)))))"

section \<open>Names and relative paths\<close>

definition validate_name :: "string \<Rightarrow> (unit, scp_protocol_error) result" where
  "validate_name name =
     (if name = [] \<or> name = ''.'' \<or> name = ''..'' \<or> CHR ''/'' \<in> set name \<or> BSL \<in> set name \<or>
         has_control name
      then Err ScpProtocolError else Ok ())"

definition is_ascii_alphabetic :: "char \<Rightarrow> bool" where
  "is_ascii_alphabetic c \<longleftrightarrow> byte_in 65 90 c \<or> byte_in 97 122 c"

definition portable_control_name :: "string \<Rightarrow> (string, scp_protocol_error) result" where
  "portable_control_name name =
     (if validate_name name = Ok () then Ok name
      else if length name < 4 \<or> \<not> is_ascii_alphabetic (name ! 0) \<or> name ! 1 \<noteq> CHR '':'' \<or>
        \<not> (name ! 2 = BSL \<or> name ! 2 = CHR ''/'')
      then Err ScpProtocolError
      else
        (let leaf = rev (takeWhile (\<lambda>c. c \<noteq> BSL \<and> c \<noteq> CHR ''/'') (rev name)) in
         map_ok (\<lambda>_. leaf) (validate_name leaf)))"

text \<open>A relative path is the list of the parts of its text between slashes.\<close>

definition relative_segments :: "path \<Rightarrow> string list" where
  "relative_segments p = split_on (CHR ''/'') p"

definition validate_relative :: "string list \<Rightarrow> (unit, scp_protocol_error) result" where
  "validate_relative segs =
     (if segs = [] \<or> hd segs = [] \<or> ''..'' \<in> set segs then Err ScpProtocolError else Ok ())"

definition strip_root :: "tpath \<Rightarrow> tpath \<Rightarrow> tpath option" where
  "strip_root root p = (if take (length root) p = root then Some (drop (length root) p) else None)"

definition child_relative :: "tpath \<Rightarrow> tpath \<Rightarrow> string \<Rightarrow> (string list, scp_protocol_error) result" where
  "child_relative root directory name =
     and_then (portable_control_name name) (\<lambda>name.
       map_ok (\<lambda>relative. relative @ [name]) (ok_or ScpProtocolError (strip_root root directory)))"

section \<open>The input only shrinks\<close>

fun msg_weight :: "scp_msg \<Rightarrow> nat" where
  "msg_weight (ScpData d) = Suc (length d)"
| "msg_weight _ = 1"

definition input_size :: "scp_state \<Rightarrow> nat" where
  "input_size s = length (st_buffer s) + sum_list (map msg_weight (st_msgs s))"

definition frugal :: "'a scp \<Rightarrow> bool" where
  "frugal m \<longleftrightarrow> (\<forall>s. input_size (snd (m s)) \<le> input_size s)"

named_theorems frugal_intros \<open>operations that do not add to the input\<close>

lemma frugal_basic [frugal_intros]: "frugal (do_ret v)" "frugal scp_fail" "frugal (do_lift r)"
    "frugal (scp_check b)"
  by (simp_all add: frugal_def do_ret_def scp_fail_def do_lift_def scp_check_def)

lemma frugal_then [frugal_intros]:
  assumes "frugal m" and "\<And>v. frugal (k v)"
  shows "frugal (do_then m k)"
  unfolding frugal_def do_then_def
proof
  fix s
  obtain r s1 where m: "m s = (r, s1)" by fastforce
  with assms(1) have le: "input_size s1 \<le> input_size s" by (metis frugal_def snd_conv)
  show "input_size (snd (case m s of (Inl e, s') \<Rightarrow> (Err e, s') | (Inr v, s') \<Rightarrow> k v s')) \<le> input_size s"
  proof (cases r)
    case (Inl e)
    with m le show ?thesis by simp
  next
    case (Inr v)
    with m le assms(2) [unfolded frugal_def, rule_format, of v s1] show ?thesis by simp
  qed
qed

lemma frugal_put_out [frugal_intros]: "frugal (put_out E x)"
  by (simp add: frugal_def put_out_def input_size_def Let_def)

lemma frugal_sends [frugal_intros]: "frugal (wire_send E bs)" "frugal (send_ack E)" "frugal (send_fatal E)"
  by (simp_all add: wire_send_def send_ack_def send_fatal_def frugal_put_out)

lemma wait_byte_size:
  "st_buffer s = [] \<Longrightarrow> wait_byte ms s = (r, s') \<Longrightarrow>
   (is_ok r \<longrightarrow> input_size s' < sum_list (map msg_weight ms)) \<and> input_size s' \<le> sum_list (map msg_weight ms)"
  by (induction ms s rule: wait_byte.induct) (auto simp: input_size_def split: list.splits)

lemma read_byte_size:
  assumes "read_byte s = (r, s')"
  shows "(is_ok r \<longrightarrow> input_size s' < input_size s) \<and> input_size s' \<le> input_size s"
proof (cases "st_buffer s")
  case Nil
  with assms wait_byte_size [of s "st_msgs s" r s'] show ?thesis
    by (simp add: read_byte_def input_size_def)
next
  case (Cons b bs)
  with assms show ?thesis by (auto simp: read_byte_def input_size_def)
qed

lemma frugal_read_byte [frugal_intros]: "frugal read_byte"
  using read_byte_size by (metis frugal_def surjective_pairing)

lemma read_line_from_size:
  "read_line_from n line s = (r, s') \<Longrightarrow>
   (is_ok r \<longrightarrow> input_size s' < input_size s) \<and> input_size s' \<le> input_size s"
proof (induction n line s rule: read_line_from.induct)
  case (1 line s)
  then show ?case by auto
next
  case (2 n line s)
  obtain r1 s1 where b: "read_byte s = (r1, s1)" by fastforce
  show ?case
  proof (cases r1)
    case (Inl e)
    with 2(2) b read_byte_size [OF b] show ?thesis by (auto simp: input_size_def)
  next
    case (Inr v)
    with 2 b read_byte_size [OF b] show ?thesis
      by (cases "v = 10") (fastforce simp: input_size_def)+
  qed
qed

lemma frugal_read_exact [frugal_intros]: "frugal (read_exact n)"
  by (induction n) (simp_all add: frugal_intros)

lemma frugal_expect_ack [frugal_intros]: "frugal expect_ack"
  by (simp add: expect_ack_def frugal_intros)

end
