(* ===== verification/Scp_Transfer.thy ===== *)
theory Scp_Transfer
  imports Scp_Wire "HOL-Library.List_Lexorder" "HOL-Library.Char_ord"
begin

text \<open>
  The transfers of the fixture's SCP service, \<open>crates/rssh-test-support/src/ssh/scp.rs\<close> lines
  145 to 169, 251 to 489 and 568 to 636, on a directory tree: the sink that receives files and
  directories below a root, and the source that sends them. The Unix variants of the functions
  with platform variants are modelled.
\<close>

unbundle bit_operations_syntax

section \<open>System calls\<close>

definition sys_call ::
  "scp_env \<Rightarrow> (sys_fault \<Rightarrow> fnode \<Rightarrow> ('a, fs_error) result \<times> fnode) \<Rightarrow> ('a, fs_error) result scp" where
  "sys_call E f s =
     (case f (env_fault E (st_calls s)) (st_tree s) of
        (r, t) \<Rightarrow> (Ok r, s\<lparr>st_tree := t, st_calls := Suc (st_calls s)\<rparr>))"

text \<open>A call whose error becomes a protocol error.\<close>

definition sys_try ::
  "scp_env \<Rightarrow> (sys_fault \<Rightarrow> fnode \<Rightarrow> ('a, fs_error) result \<times> fnode) \<Rightarrow> 'a scp" where
  "sys_try E f = do_then (sys_call E f) (\<lambda>r. do_lift (map_err (\<lambda>_. ScpProtocolError) r))"

text \<open>\<open>Path::is_dir\<close> and \<open>Path::is_file\<close> are false when the metadata cannot be read.\<close>

definition path_is :: "scp_env \<Rightarrow> (fnode \<Rightarrow> bool) \<Rightarrow> string list \<Rightarrow> bool scp" where
  "path_is E kind p = do_then (sys_call E (query (\<lambda>t. node_at t p))) (\<lambda>r.
     do_ret (case r of Inl e \<Rightarrow> False | Inr n \<Rightarrow> kind n))"

section \<open>Paths below the root\<close>

definition metadata_is_redirect :: "fnode \<Rightarrow> bool" where
  "metadata_is_redirect n = is_flink n"

definition apply_permissions :: "scp_env \<Rightarrow> tpath \<Rightarrow> u32 \<Rightarrow> unit scp" where
  "apply_permissions E p mode = sys_try E (chmod_at (mode AND 511) p)"

definition permissions_mode :: "fnode \<Rightarrow> u32" where
  "permissions_mode n = (case n of FFile m _ \<Rightarrow> m AND 511 | FDir m _ \<Rightarrow> m AND 511 | FLink _ \<Rightarrow> 511)"

definition resolve_for_create :: "scp_env \<Rightarrow> tpath \<Rightarrow> string list \<Rightarrow> tpath scp" where
  "resolve_for_create E root relative =
     do_then (do_lift (validate_relative relative)) (\<lambda>_.
     do_then (scp_check (joined root relative \<noteq> [])) (\<lambda>_.
     do_then (sys_try E (query (\<lambda>t. canonicalize t (butlast (joined root relative))))) (\<lambda>canonical_parent.
     do_then (scp_check (under_root root canonical_parent)) (\<lambda>_.
     let candidate = canonical_parent @ [last (joined root relative)] in
     do_then (sys_call E (query (\<lambda>t. symlink_metadata t candidate))) (\<lambda>r.
       (case r of
          Inr metadata \<Rightarrow>
            if metadata_is_redirect metadata then scp_fail
            else do_then (sys_try E (query (\<lambda>t. canonicalize t candidate))) (\<lambda>canonical.
              if \<not> under_root root canonical then scp_fail else do_ret canonical)
        | Inl NotFound \<Rightarrow> do_ret candidate
        | Inl _ \<Rightarrow> scp_fail))))))"

section \<open>Sink\<close>

definition MAX_FILE_SIZE :: nat where
  "MAX_FILE_SIZE = 16 * 1024 * 1024"

definition MAX_RECURSION_DEPTH :: nat where
  "MAX_RECURSION_DEPTH = 32"

record sink_target =
  sink_directory :: tpath
  sink_forced_file :: "tpath option"

definition parent_of :: "tpath \<Rightarrow> (tpath, scp_protocol_error) result" where
  "parent_of p = (if p = [] then Err ScpProtocolError else Ok (butlast p))"

definition resolve_sink_target :: "scp_env \<Rightarrow> tpath \<Rightarrow> scp_request \<Rightarrow> sink_target scp" where
  "resolve_sink_target E root request =
     (let relative = relative_segments (scp_target request) in
      do_then (do_lift (validate_relative relative)) (\<lambda>_.
      do_then (sys_call E (query (\<lambda>t. symlink_metadata t (root @ relative)))) (\<lambda>r.
        (case r of
           Inr metadata \<Rightarrow>
             if metadata_is_redirect metadata then scp_fail
             else
               do_then (sys_try E (query (\<lambda>t. canonicalize t (root @ relative)))) (\<lambda>canonical.
               if \<not> under_root root canonical then scp_fail
               else
                 do_then (path_is E is_fdir canonical) (\<lambda>dir.
                 if dir then do_ret \<lparr>sink_directory = canonical, sink_forced_file = None\<rparr>
                 else
                   do_then (path_is E is_ffile canonical) (\<lambda>regular.
                   if regular \<and> \<not> scp_target_is_directory request
                   then do_then (do_lift (parent_of canonical)) (\<lambda>d.
                     do_ret \<lparr>sink_directory = d, sink_forced_file = Some canonical\<rparr>)
                   else scp_fail)))
         | Inl NotFound \<Rightarrow>
             do_then (resolve_for_create E root relative) (\<lambda>created.
             if scp_target_is_directory request
             then
               do_then (sys_try E (mkdir_at (env_dir_mode E) created)) (\<lambda>_.
               do_then (sys_try E (query (\<lambda>t. canonicalize t created))) (\<lambda>d.
               do_ret \<lparr>sink_directory = d, sink_forced_file = None\<rparr>))
             else
               do_then (do_lift (parent_of created)) (\<lambda>d.
               do_ret \<lparr>sink_directory = d, sink_forced_file = Some created\<rparr>))
         | Inl _ \<Rightarrow> scp_fail))))"

text \<open>The branches of the loop's \<open>match\<close> for one control line. The stack of directories grows at
  its end.\<close>

definition sink_times :: "scp_env \<Rightarrow> bytes \<Rightarrow> unit scp" where
  "sink_times E line = do_then (do_lift (parse_times line)) (\<lambda>_. send_ack E)"

definition sink_enter :: "scp_env \<Rightarrow> tpath \<Rightarrow> scp_request \<Rightarrow> bytes \<Rightarrow> tpath list \<Rightarrow> tpath option \<Rightarrow> tpath list scp" where
  "sink_enter E root request line directories forced_file =
     (if forced_file \<noteq> None \<or> \<not> scp_recursive request \<or> MAX_RECURSION_DEPTH \<le> length directories
      then scp_fail
      else
        do_then (do_lift (parse_control line 68)) (\<lambda>(mode, sz, name).
        if sz \<noteq> 0 then scp_fail
        else
          do_then (do_lift (child_relative root (last directories) name)) (\<lambda>relative.
          do_then (resolve_for_create E root relative) (\<lambda>p.
          do_then (sys_try E (mkdir_at (env_dir_mode E) p)) (\<lambda>_.
          do_then (apply_permissions E p mode) (\<lambda>_.
          do_then (sys_try E (query (\<lambda>t. canonicalize t p))) (\<lambda>d.
          do_then (send_ack E) (\<lambda>_. do_ret (directories @ [d])))))))))"

definition sink_leave :: "scp_env \<Rightarrow> tpath list \<Rightarrow> tpath list scp" where
  "sink_leave E directories =
     (if length directories = 1 then scp_fail
      else do_then (send_ack E) (\<lambda>_. do_ret (butlast directories)))"

definition sink_file :: "scp_env \<Rightarrow> tpath \<Rightarrow> bytes \<Rightarrow> tpath list \<Rightarrow> tpath option \<Rightarrow> unit scp" where
  "sink_file E root line directories forced_file =
     do_then (do_lift (parse_control line 67)) (\<lambda>(mode, sz, name).
     if MAX_FILE_SIZE < unat sz then scp_fail
     else
       do_then (do_lift (portable_control_name name)) (\<lambda>name.
       do_then (case forced_file of
                   Some p \<Rightarrow> do_ret p
                 | None \<Rightarrow> do_then (do_lift (child_relative root (last directories) name))
                     (resolve_for_create E root)) (\<lambda>p.
       do_then (send_ack E) (\<lambda>_.
       do_then (read_exact (unat sz)) (\<lambda>data.
       do_then expect_ack (\<lambda>_.
       do_then (sys_try E (write_at (env_file_mode E) p data)) (\<lambda>_.
       do_then (apply_permissions E p mode) (\<lambda>_.
       send_ack E))))))))"

definition sink_line ::
  "scp_env \<Rightarrow> tpath \<Rightarrow> scp_request \<Rightarrow> bytes \<Rightarrow> tpath list \<Rightarrow> tpath option \<Rightarrow> (tpath list \<times> tpath option) scp" where
  "sink_line E root request line directories forced_file =
     (if line = [] then scp_fail
      else if hd line = 84 then
        do_then (sink_times E line) (\<lambda>_. do_ret (directories, forced_file))
      else if hd line = 68 then
        do_then (sink_enter E root request line directories forced_file) (\<lambda>ds. do_ret (ds, forced_file))
      else if line = [69, 10] then
        do_then (sink_leave E directories) (\<lambda>ds. do_ret (ds, forced_file))
      else if hd line = 67 then
        do_then (sink_file E root line directories forced_file) (\<lambda>_. do_ret (directories, None))
      else scp_fail)"

lemma frugal_sys_call [frugal_intros]: "frugal (sys_call E f)"
  by (simp add: frugal_def sys_call_def input_size_def split: prod.splits)

lemma frugal_sys [frugal_intros]: "frugal (sys_try E f)" "frugal (path_is E kind p)"
    "frugal (apply_permissions E p mode)"
  by (auto simp: sys_try_def path_is_def apply_permissions_def intro!: frugal_intros)

lemma frugal_resolve_for_create [frugal_intros]: "frugal (resolve_for_create E root relative)"
  by (auto simp: resolve_for_create_def Let_def intro!: frugal_intros split: sum.splits fs_error.splits)

lemma frugal_sink_line [frugal_intros]: "frugal (sink_line E root request line directories forced_file)"
  by (auto simp: sink_line_def sink_times_def sink_enter_def sink_leave_def sink_file_def
      intro!: frugal_intros split: prod.splits option.splits)

text \<open>The loop of \<open>receive_sink\<close>. Each round reads a line, so it ends with the input.\<close>

function sink_loop :: "scp_env \<Rightarrow> tpath \<Rightarrow> scp_request \<Rightarrow> tpath list \<Rightarrow> tpath option \<Rightarrow> unit scp" where
  "sink_loop E root request directories forced_file s =
     (case read_line s of
        (Inl e, s1) \<Rightarrow>
          if length directories = 1 \<and> st_end_of_input s1 \<and> \<not> st_incomplete_control s1 \<and> forced_file = None
          then (Ok (), s1) else (Err e, s1)
      | (Inr line, s1) \<Rightarrow>
          (case sink_line E root request line directories forced_file s1 of
             (Inl e, s2) \<Rightarrow> (Err e, s2)
           | (Inr (ds, ff), s2) \<Rightarrow> sink_loop E root request ds ff s2))"
  by pat_completeness auto
termination
proof (relation "measure (\<lambda>(E, root, request, ds, ff, s). input_size s)", goal_cases)
  case 1
  show ?case by simp
next
  case (2 E root request directories forced_file s x s1 line y s2 z ds ff)
  have "input_size s1 < input_size s"
    using 2 read_line_from_size [of MAX_CONTROL_LINE "[]" s x s1] by (simp add: read_line_def)
  moreover have "input_size s2 \<le> input_size s1"
    using 2 frugal_sink_line [of E root request line directories forced_file] by (metis frugal_def snd_conv)
  ultimately show ?case by simp
qed

declare sink_loop.simps [simp del]

definition receive_sink :: "scp_env \<Rightarrow> tpath \<Rightarrow> scp_request \<Rightarrow> unit scp" where
  "receive_sink E root request =
     do_then (resolve_sink_target E root request) (\<lambda>target.
     do_then (send_ack E) (\<lambda>_.
     sink_loop E root request [sink_directory target] (sink_forced_file target)))"

section \<open>Source\<close>

text \<open>A \<open>for\<close> loop that stops at the first error.\<close>

primrec scp_for :: "('a \<Rightarrow> unit scp) \<Rightarrow> 'a list \<Rightarrow> unit scp" where
  "scp_for f [] = do_ret ()"
| "scp_for f (x # xs) = do_then (f x) (\<lambda>_. scp_for f xs)"

text \<open>The format \<open>{:04o}\<close>.\<close>

definition octal4 :: "u32 \<Rightarrow> string" where
  "octal4 m = (let digits = show_radix 8 (unat m) in replicate (4 - length digits) (CHR ''0'') @ digits)"

definition send_times :: "scp_env \<Rightarrow> u64 option \<Rightarrow> u64 option \<Rightarrow> unit scp" where
  "send_times E modified_time accessed_time =
     (let modified = (case modified_time of None \<Rightarrow> 0 | Some d \<Rightarrow> d);
          accessed = (case accessed_time of None \<Rightarrow> modified | Some d \<Rightarrow> d)
      in do_then (wire_send E (as_bytes
           (''T'' @ show_nat (unat modified) @ '' 0 '' @ show_nat (unat accessed) @ '' 0'' @ [NL]))) (\<lambda>_.
         expect_ack))"

text \<open>The metadata of an entry, with the times the same call read.\<close>

definition entry_metadata :: "scp_env \<Rightarrow> tpath \<Rightarrow> (fnode \<times> u64 option \<times> u64 option) scp" where
  "entry_metadata E p s =
     do_then (sys_try E (query (\<lambda>t. symlink_metadata t p))) (\<lambda>n.
       do_ret (n, env_modified E p (st_calls s), env_accessed E p (st_calls s))) s"

definition file_data :: "fnode \<Rightarrow> string list \<Rightarrow> (bytes, fs_error) result" where
  "file_data t p = and_then (node_at t p) (\<lambda>n.
     (case n of FFile m d \<Rightarrow> Ok d | _ \<Rightarrow> Err OtherError))"

text \<open>\<open>remaining\<close> is \<open>MAX_RECURSION_DEPTH - depth\<close>.\<close>

primrec send_entry :: "scp_env \<Rightarrow> tpath \<Rightarrow> scp_request \<Rightarrow> nat \<Rightarrow> tpath \<Rightarrow> string \<Rightarrow> unit scp" where
  "send_entry E root request 0 p name = scp_fail"
| "send_entry E root request (Suc remaining) p name =
     (if \<not> under_root root p then scp_fail
      else
        do_then (entry_metadata E p) (\<lambda>(metadata, modified, accessed).
        if is_flink metadata then scp_fail
        else
          do_then (if scp_preserve_times request then send_times E modified accessed else do_ret ()) (\<lambda>_.
          case metadata of
            FDir m cs \<Rightarrow>
              if \<not> scp_recursive request then scp_fail
              else
                do_then (wire_send E (as_bytes
                  (''D'' @ octal4 (permissions_mode metadata) @ '' 0 '' @ name @ [NL]))) (\<lambda>_.
                do_then expect_ack (\<lambda>_.
                do_then (sys_try E (query (\<lambda>t. dir_names t p))) (\<lambda>names.
                do_then (scp_for (\<lambda>child_name.
                    do_then (do_lift (if utf8_valid child_name then Ok () else Err ScpProtocolError)) (\<lambda>_.
                    do_then (do_lift (validate_name child_name)) (\<lambda>_.
                    do_then (sys_try E (query (\<lambda>t. canonicalize t (p @ [child_name])))) (\<lambda>child.
                    if \<not> under_root root child then scp_fail
                    else send_entry E root request remaining child child_name)))) (sort names)) (\<lambda>_.
                do_then (wire_send E (as_bytes (''E'' @ [NL]))) (\<lambda>_.
                expect_ack)))))
          | FFile m d \<Rightarrow>
              if MAX_FILE_SIZE < length d then scp_fail
              else
                do_then (wire_send E (as_bytes
                  (''C'' @ octal4 (permissions_mode metadata) @ '' '' @ show_nat (length d) @ '' '' @ name @ [NL]))) (\<lambda>_.
                do_then expect_ack (\<lambda>_.
                do_then (sys_try E (query (\<lambda>t. file_data t p))) (\<lambda>data.
                do_then (wire_send E data) (\<lambda>_.
                do_then (send_ack E) (\<lambda>_.
                expect_ack)))))
          | FLink l \<Rightarrow> scp_fail)))"

definition send_source :: "scp_env \<Rightarrow> tpath \<Rightarrow> scp_request \<Rightarrow> unit scp" where
  "send_source E root request =
     (let relative = relative_segments (scp_target request) in
      do_then (do_lift (validate_relative relative)) (\<lambda>_.
      do_then (sys_try E (query (\<lambda>t. canonicalize t (root @ relative)))) (\<lambda>p.
      if \<not> under_root root p then scp_fail
      else
        do_then (sys_try E (query (\<lambda>t. symlink_metadata t p))) (\<lambda>metadata.
        if is_flink metadata then scp_fail
        else
          do_then (scp_check (p \<noteq> [] \<and> utf8_valid (last p))) (\<lambda>_.
          do_then (do_lift (validate_name (last p))) (\<lambda>_.
          do_then expect_ack (\<lambda>_.
          send_entry E root request MAX_RECURSION_DEPTH p (last p))))))))"

section \<open>Service\<close>

definition ignore_result :: "unit scp \<Rightarrow> unit scp" where
  "ignore_result m s = (case m s of (r, s') \<Rightarrow> (Ok (), s'))"

definition serve_scp :: "scp_env \<Rightarrow> tpath \<Rightarrow> (scp_request, scp_protocol_error) result \<Rightarrow> scp_state \<Rightarrow> scp_state" where
  "serve_scp E root request s =
     (case (case request of
              Inl e \<Rightarrow> (Err e, s)
            | Inr request \<Rightarrow>
                (case scp_direction request of
                   Sink \<Rightarrow> receive_sink E root request s
                 | Source \<Rightarrow> send_source E root request s)) of
        (result, s1) \<Rightarrow>
          snd (do_then (ignore_result (if is_ok result then do_ret () else send_fatal E)) (\<lambda>_.
               do_then (ignore_result (put_out E (OutExit (if is_ok result then 0 else 1)))) (\<lambda>_.
               do_then (ignore_result (put_out E OutEof)) (\<lambda>_.
               ignore_result (put_out E OutClose)))) s1))"

end
