(* ===== verification/Scp_Confined.thy ===== *)
theory Scp_Confined
  imports Scp_Transfer
begin

text \<open>
  What the SCP sink can do to the directory tree: nothing outside its root, whatever a client
  sends, whichever system calls fail and however the links of the tree lie.
\<close>

section \<open>Runs of the sink\<close>

text \<open>A triple for programs of the service: from a tree with the root in place and \<open>P\<close>, the run
  leaves everything outside the root as it is and the root in place, and a result satisfies \<open>Q\<close>.\<close>

definition confined :: "tpath \<Rightarrow> (fnode \<Rightarrow> bool) \<Rightarrow> 'a scp \<Rightarrow> ('a \<Rightarrow> fnode \<Rightarrow> bool) \<Rightarrow> bool" where
  "confined root P m Q \<longleftrightarrow> (\<forall>s r s'. m s = (r, s') \<longrightarrow> real_dir (st_tree s) root \<longrightarrow> P (st_tree s) \<longrightarrow>
     same_outside root (st_tree s) (st_tree s') \<and> real_dir (st_tree s') root \<and>
     (\<forall>v. r = Ok v \<longrightarrow> Q v (st_tree s')))"

interpretation scp: guarded_runs
  "\<lambda>s. real_dir (st_tree s) root" "\<lambda>s s'. same_outside root (st_tree s) (st_tree s')" for root
  by unfold_locales (auto intro: same_outside_trans)

lemma confined_iff: "confined root P m Q \<longleftrightarrow> scp.guarded root (\<lambda>s. P (st_tree s)) m (\<lambda>v s. Q v (st_tree s))"
  unfolding confined_def scp.guarded_def by blast

lemma confined_then:
  assumes "confined root P m Q" and "\<And>v. confined root (Q v) (k v) R"
  shows "confined root P (do_then m k) R"
  using assms unfolding confined_iff by (rule scp.guarded_then)

lemma confined_conseq:
  assumes "confined root P m Q" and "\<And>t. P' t \<Longrightarrow> P t" and "\<And>v t. Q v t \<Longrightarrow> Q' v t"
  shows "confined root P' m Q'"
  using assms unfolding confined_iff by (blast intro: scp.guarded_conseq)

lemma confined_ret: "(\<And>t. P t \<Longrightarrow> Q v t) \<Longrightarrow> confined root P (do_ret v) Q"
  unfolding confined_iff by (rule scp.guarded_ret)

lemma confined_fail [simp]: "confined root P scp_fail Q"
  by (auto simp: confined_def scp_fail_def)

text \<open>Operations that do not touch the tree keep what holds of it.\<close>

definition tree_free :: "'a scp \<Rightarrow> bool" where
  "tree_free m \<longleftrightarrow> (\<forall>s. st_tree (snd (m s)) = st_tree s)"

named_theorems tree_free_intros \<open>operations that do not touch the tree\<close>

lemma confined_tree_free: "tree_free m \<Longrightarrow> (\<And>v t. P t \<Longrightarrow> Q v t) \<Longrightarrow> confined root P m Q"
  unfolding confined_def tree_free_def by (metis snd_conv same_outside_refl)

lemma tree_free_basic [tree_free_intros]: "tree_free (do_ret v)" "tree_free scp_fail"
    "tree_free (do_lift r)" "tree_free (scp_check b)"
  by (simp_all add: tree_free_def do_ret_def scp_fail_def do_lift_def scp_check_def)

lemma tree_free_then [tree_free_intros]:
  assumes "tree_free m" and "\<And>v. tree_free (k v)"
  shows "tree_free (do_then m k)"
  unfolding tree_free_def
proof
  fix s
  obtain r s1 where m: "m s = (r, s1)" by fastforce
  with assms(1) have "st_tree s1 = st_tree s" by (metis tree_free_def snd_conv)
  with m assms(2) show "st_tree (snd (do_then m k s)) = st_tree s"
    by (cases r) (simp_all add: do_then_def tree_free_def)
qed

lemma tree_free_sends [tree_free_intros]: "tree_free (put_out E x)" "tree_free (wire_send E bs)"
    "tree_free (send_ack E)" "tree_free (send_fatal E)"
  by (simp_all add: tree_free_def put_out_def wire_send_def send_ack_def send_fatal_def Let_def)

lemma wait_byte_tree: "st_tree (snd (wait_byte ms s)) = st_tree s"
  by (induction ms s rule: wait_byte.induct) (auto split: list.splits)

lemma tree_free_read_byte [tree_free_intros]: "tree_free read_byte"
  by (auto simp: tree_free_def read_byte_def wait_byte_tree split: list.splits)

lemma tree_free_read_line [tree_free_intros]: "tree_free (read_line_from n line)"
  unfolding tree_free_def
proof
  fix s show "st_tree (snd (read_line_from n line s)) = st_tree s"
  proof (induction n line s rule: read_line_from.induct)
    case (2 n line s)
    obtain r s1 where b: "read_byte s = (r, s1)" by fastforce
    with tree_free_read_byte have "st_tree s1 = st_tree s" by (metis tree_free_def snd_conv)
    with 2 b show ?case by (cases r) auto
  qed simp
qed

lemma tree_free_read_exact [tree_free_intros]: "tree_free (read_exact n)"
  by (induction n) (auto intro!: tree_free_intros)

lemma tree_free_expect_ack [tree_free_intros]: "tree_free expect_ack"
  by (auto simp: expect_ack_def intro!: tree_free_intros)

text \<open>A query gives its result on the tree; the other calls keep what is outside.\<close>

lemma confined_query:
  assumes "\<And>t r. P t \<Longrightarrow> real_dir t root \<Longrightarrow> r = q t \<or> (\<exists>e. r = Err e \<and> e \<noteq> NotFound) \<Longrightarrow> Q r t"
  shows "confined root P (sys_call E (query q)) Q"
  using assms by (auto simp: confined_def sys_call_def query_def split: if_splits)

lemma confined_try_query:
  assumes "\<And>t v. P t \<Longrightarrow> real_dir t root \<Longrightarrow> q t = Ok v \<Longrightarrow> Q v t"
  shows "confined root P (sys_try E (query q)) Q"
  unfolding sys_try_def
  by (rule confined_then [OF confined_query, where Q = "\<lambda>r t. P t \<and> real_dir t root \<and> (r = q t \<or> (\<exists>e. r = Err e \<and> e \<noteq> NotFound))"])
    (auto simp: confined_def do_lift_def intro: assms)

lemma confined_try_call:
  assumes "keeps_outside root p call"
  shows "confined root (\<lambda>t. safe_path root t p) (sys_try E call) (\<lambda>_ t. safe_path root t p)"
  using assms
  by (fastforce simp: confined_def sys_try_def do_then_def sys_call_def do_lift_def keeps_outside_def
      split: prod.splits)

lemma confined_lift: "(\<And>v t. P t \<Longrightarrow> r = Ok v \<Longrightarrow> Q v t) \<Longrightarrow> confined root P (do_lift r) Q"
  unfolding confined_iff by (rule scp.guarded_lift)

lemma confined_check: "(\<And>t. P t \<Longrightarrow> b \<Longrightarrow> Q () t) \<Longrightarrow> confined root P (scp_check b) Q"
  by (auto simp: confined_def scp_check_def do_ret_def scp_fail_def)

lemma confined_skip:
  "tree_free m \<Longrightarrow> (\<And>v. confined root P (k v) R) \<Longrightarrow> confined root P (do_then m k) R"
  by (rule confined_then [OF confined_tree_free])

section \<open>The sink\<close>

lemma joined_valid_plain:
  "validate_relative relative = Ok () \<Longrightarrow> list_all plain_name root \<Longrightarrow> list_all plain_name (joined root relative)"
  by (rule joined_plain) (auto simp: validate_relative_def split: if_splits)

text \<open>Successful runs, step by step.\<close>

lemma scp_ok: "scp_fail s = (Inr v, s') \<longleftrightarrow> False" "scp_check b s = (Inr w, s') \<longleftrightarrow> b \<and> s' = s"
  by (auto simp: scp_fail_def scp_check_def do_ret_def)

lemma case_sum_ok:
  "(case r of Inl e \<Rightarrow> f e | Inr u \<Rightarrow> g u) s = (Inr v, s') \<longleftrightarrow>
    (\<exists>e. r = Inl e \<and> f e s = (Inr v, s')) \<or> (\<exists>u. r = Inr u \<and> g u s = (Inr v, s'))"
  by (cases r) simp_all

lemma case_error_ok:
  "(case e of NotFound \<Rightarrow> m | _ \<Rightarrow> m') s = (Inr v, s') \<longleftrightarrow>
    e = NotFound \<and> m s = (Inr v, s') \<or> e \<noteq> NotFound \<and> m' s = (Inr v, s')"
  by (cases e) simp_all

lemma case_if_ok:
  "(if b then m else m') s = (Inr v, s') \<longleftrightarrow> b \<and> m s = (Inr v, s') \<or> \<not> b \<and> m' s = (Inr v, s')"
  by simp

lemmas run_ok = do_ok scp_ok case_sum_ok case_error_ok case_if_ok

lemma query_ok:
  assumes "sys_call E (query q) s = (Inr r, s')"
  shows "st_tree s' = st_tree s \<and> (r = q (st_tree s) \<or> (\<exists>e. r = Err e \<and> e \<noteq> NotFound))"
proof (cases "env_fault E (st_calls s) = Works")
  case True
  with assms have "r = q (st_tree s)" "s' = s\<lparr>st_calls := Suc (st_calls s)\<rparr>"
    by (simp_all add: sys_call_def query_def)
  then show ?thesis by simp
next
  case False
  with assms have "r = Err (fault_error (env_fault E (st_calls s)))" "s' = s\<lparr>st_calls := Suc (st_calls s)\<rparr>"
    by (simp_all add: sys_call_def query_def)
  then show ?thesis by simp
qed

lemma try_query_ok: "sys_try E (query q) s = (Inr v, s') \<Longrightarrow> st_tree s' = st_tree s \<and> q (st_tree s) = Ok v"
  by (cases "env_fault E (st_calls s) = Works")
    (auto simp: sys_try_def do_then_def do_lift_def sys_call_def query_def)

lemma path_is_ok: "path_is E kind p s = (Inr b, s') \<Longrightarrow>
    st_tree s' = st_tree s \<and> (b \<longrightarrow> (\<exists>n. node_at (st_tree s) p = Ok n \<and> kind n))"
  by (auto simp: path_is_def run_ok dest!: query_ok)
    (auto split: sum.splits)

lemma resolve_for_create_safe:
  assumes run: "resolve_for_create E root relative s = (Ok p, s')" and plain: "list_all plain_name root"
    and dir: "is_fdir (st_tree s)"
  shows "safe_path root (st_tree s) p"
proof -
  let ?name = "last (joined root relative)"
  from run obtain cp r s1 s2 s3 where
    valid: "validate_relative relative = Ok ()" "joined root relative \<noteq> []"
    and s1: "sys_try E (query (\<lambda>t. canonicalize t (butlast (joined root relative)))) s = (Ok cp, s1)"
    and cp: "prefix root cp"
    and s2: "sys_call E (query (\<lambda>t. symlink_metadata t (cp @ [?name]))) s1 = (Ok r, s2)"
    and r: "r = Err NotFound \<and> p = cp @ [?name] \<or>
      (\<exists>n. r = Ok n \<and> \<not> is_flink n \<and>
        sys_try E (query (\<lambda>t. canonicalize t (cp @ [?name]))) s2 = (Ok p, s3))"
    by (auto simp: resolve_for_create_def Let_def run_ok metadata_is_redirect_def)
  have name: "plain_name ?name" using joined_valid_plain [OF valid(1) plain] valid(2) by (simp add: list_all_iff)
  have t1: "st_tree s1 = st_tree s" and c: "canonical (st_tree s) cp"
    using try_query_ok [OF s1] canonicalize_canonical [OF dir] by auto
  have t2: "st_tree s2 = st_tree s" and "r = symlink_metadata (st_tree s) (cp @ [?name]) \<or> (\<exists>e. r = Err e \<and> e \<noteq> NotFound)"
    using query_ok [OF s2] t1 by auto
  with r have "\<exists>n. symlink_metadata (st_tree s) (cp @ [?name]) = Ok n \<and> \<not> is_flink n \<or>
      symlink_metadata (st_tree s) (cp @ [?name]) = Err NotFound"
    by (elim disjE exE conjE) auto
  then obtain n where "symlink_metadata (st_tree s) (cp @ [?name]) = Ok n \<and> \<not> is_flink n \<or>
      symlink_metadata (st_tree s) (cp @ [?name]) = Err NotFound" ..
  then have safe: "safe_path root (st_tree s) (cp @ [?name])" by (rule candidate_safe [OF c cp name dir])
  moreover have "p = cp @ [?name]" if "canonicalize (st_tree s) (cp @ [?name]) = Ok p"
    using that safe_path_canonicalize [OF safe] by (auto split: if_splits)
  ultimately show ?thesis using r t2 by (elim disjE exE conjE) (auto dest!: try_query_ok)
qed

lemma tree_free_query [tree_free_intros]: "tree_free (sys_call E (query q))"
  by (auto simp: tree_free_def sys_call_def query_def)

lemma tree_free_queries [tree_free_intros]: "tree_free (sys_try E (query q))" "tree_free (path_is E kind p)"
  by (auto simp: sys_try_def path_is_def intro!: tree_free_intros)

lemma tree_free_resolve_for_create [tree_free_intros]: "tree_free (resolve_for_create E root relative)"
  by (auto simp: resolve_for_create_def Let_def intro!: tree_free_intros split: sum.splits fs_error.splits)

lemma confined_free_post:
  assumes "tree_free m" and "\<And>s v s'. m s = (Ok v, s') \<Longrightarrow> is_fdir (st_tree s) \<Longrightarrow> Q v (st_tree s)"
  shows "confined root (\<lambda>_. True) m Q"
  unfolding confined_def
proof (intro allI impI)
  fix s r s'
  assume run: "m s = (r, s')" and root: "real_dir (st_tree s) root"
  then have "st_tree s' = st_tree s" using assms(1) by (metis tree_free_def snd_conv)
  with run root assms(2) real_dir_root [OF root]
  show "same_outside root (st_tree s) (st_tree s') \<and> real_dir (st_tree s') root \<and>
      (\<forall>v. r = Ok v \<longrightarrow> Q v (st_tree s'))" by auto
qed

lemma confined_resolve_for_create:
  assumes "list_all plain_name root"
  shows "confined root (\<lambda>_. True) (resolve_for_create E root relative) (\<lambda>p t. safe_path root t p)"
  using resolve_for_create_safe [OF _ assms] tree_free_resolve_for_create by (blast intro: confined_free_post)

definition forced_safe :: "tpath \<Rightarrow> tpath option \<Rightarrow> fnode \<Rightarrow> bool" where
  "forced_safe root forced t = (case forced of None \<Rightarrow> True | Some p \<Rightarrow> safe_path root t p)"

lemma confined_apply_permissions:
  "confined root (\<lambda>t. safe_path root t p) (apply_permissions E p mode) (\<lambda>_ t. safe_path root t p)"
  unfolding apply_permissions_def by (rule confined_try_call [OF chmod_keeps])

text \<open>A call that creates the node, then its permissions, then no further change.\<close>

lemma confined_create:
  assumes "keeps_outside root p call" and "tree_free rest"
  shows "confined root (\<lambda>t. safe_path root t p)
    (do_then (sys_try E call) (\<lambda>_. do_then (apply_permissions E p mode) (\<lambda>_. rest))) (\<lambda>_ _. True)"
  by (rule confined_then [OF confined_try_call [OF assms(1)]], rule confined_then [OF confined_apply_permissions])
    (rule confined_tree_free [OF assms(2)], simp)

lemma confined_sink_enter:
  assumes "list_all plain_name root"
  shows "confined root (\<lambda>_. True) (sink_enter E root request line directories forced_file) (\<lambda>_ _. forced_file = None)"
proof (cases "forced_file = None")
  case True
  have "confined root (\<lambda>_. True) (sink_enter E root request line directories forced_file) (\<lambda>_ _. True)"
    unfolding sink_enter_def
    by (auto intro!: confined_then [OF confined_lift [where Q = "\<lambda>_ _. True"]] tree_free_intros
        confined_then [OF confined_resolve_for_create [OF assms]] confined_create mkdir_keeps split: prod.splits)
  with True show ?thesis by simp
next
  case False
  then show ?thesis by (simp add: sink_enter_def)
qed

lemma confined_sink_file:
  assumes "list_all plain_name root"
  shows "confined root (forced_safe root forced_file) (sink_file E root line directories forced_file) (\<lambda>_ _. True)"
proof -
  have target: "confined root (forced_safe root forced_file)
      (case forced_file of
         Some p \<Rightarrow> do_ret p
       | None \<Rightarrow> do_then (do_lift (child_relative root (last directories) name)) (resolve_for_create E root))
      (\<lambda>p t. safe_path root t p)" for name
    by (cases forced_file) (auto simp: forced_safe_def intro!: confined_ret
        confined_then [OF confined_lift [where Q = "\<lambda>_ _. True"]] confined_resolve_for_create [OF assms])
  have data: "confined root (\<lambda>t. safe_path root t p)
      (do_then (send_ack E) (\<lambda>_. do_then (read_exact n) (\<lambda>data. do_then expect_ack (\<lambda>_.
       do_then (sys_try E (write_at fm p data)) (\<lambda>_. do_then (apply_permissions E p mode) (\<lambda>_. send_ack E))))))
      (\<lambda>_ _. True)" for p n fm mode
    by (intro confined_skip [OF tree_free_sends(3)] confined_skip [OF tree_free_read_exact]
        confined_skip [OF tree_free_expect_ack] confined_create write_keeps tree_free_sends(3))
  show ?thesis
    unfolding sink_file_def
    by (auto intro!: confined_then [OF confined_lift [where Q = "\<lambda>_. forced_safe root forced_file"]]
        confined_then [OF target data] split: prod.splits)
qed

lemma confined_sink_line:
  assumes "list_all plain_name root"
  shows "confined root (forced_safe root forced_file) (sink_line E root request line directories forced_file)
    (\<lambda>(_, forced). forced_safe root forced)"
proof -
  have same: "confined root (forced_safe root forced_file) (do_then m (\<lambda>v. do_ret (g v, forced_file)))
      (\<lambda>(_, forced). forced_safe root forced)" if "tree_free m" for m :: "'x scp" and g
    using that by (rule confined_skip) (simp add: confined_ret)
  have enter: "confined root (forced_safe root forced_file)
      (do_then (sink_enter E root request line directories forced_file) (\<lambda>ds. do_ret (ds, forced_file)))
      (\<lambda>(_, forced). forced_safe root forced)"
    by (rule confined_then [OF confined_conseq [OF confined_sink_enter [OF assms]], where Q = "\<lambda>_ _. forced_file = None"])
      (auto simp: forced_safe_def intro!: confined_ret)
  have receive: "confined root (forced_safe root forced_file)
      (do_then (sink_file E root line directories forced_file) (\<lambda>_. do_ret (directories, None)))
      (\<lambda>(_, forced). forced_safe root forced)"
    by (rule confined_then [OF confined_sink_file [OF assms]]) (simp add: confined_ret forced_safe_def)
  show ?thesis
    unfolding sink_line_def
    using enter receive
    by (auto simp: sink_times_def sink_leave_def intro!: same tree_free_intros)
qed

lemma existing_file_safe:
  assumes "canonicalize t segs = Ok p" and "is_fdir t" and "prefix root p"
    and "node_at t p = Ok n" and "is_ffile n"
  shows "safe_path root t p"
proof -
  have c: "canonical t p" by (rule canonicalize_canonical [OF assms(2,1)])
  have n: "lookup t p = Some n" using assms(4) canonical_canonicalize [OF c] by (auto simp: node_at_def)
  have "p \<noteq> []" using n assms(2,5) by (cases t; cases n) auto
  then have "lookup t (butlast p @ [last p]) \<noteq> None" using n by simp
  then have "real_dir t (butlast p)" using lookup_under_dir real_dir_iff by blast
  with c n assms(3,5) \<open>p \<noteq> []\<close> show ?thesis by (auto simp: safe_path_def canonical_def)
qed

lemma confined_sink_target:
  assumes "list_all plain_name root"
  shows "confined root (\<lambda>_. True) (resolve_sink_target E root request)
    (\<lambda>target. forced_safe root (sink_forced_file target))"
proof -
  let ?segs = "root @ relative_segments (scp_target request)"
  let ?Q = "\<lambda>target. forced_safe root (sink_forced_file target)"
  have existing: "confined root (\<lambda>_. True)
      (do_then (sys_try E (query (\<lambda>t. canonicalize t ?segs))) (\<lambda>c.
        if \<not> under_root root c then scp_fail
        else do_then (path_is E is_fdir c) (\<lambda>dir.
          if dir then do_ret \<lparr>sink_directory = c, sink_forced_file = None\<rparr>
          else do_then (path_is E is_ffile c) (\<lambda>regular.
            if regular \<and> \<not> scp_target_is_directory request
            then do_then (do_lift (parent_of c)) (\<lambda>d.
              do_ret \<lparr>sink_directory = d, sink_forced_file = Some c\<rparr>)
            else scp_fail)))) ?Q"
    by (rule confined_free_post)
      (auto simp: run_ok forced_safe_def intro!: tree_free_intros
        dest!: try_query_ok path_is_ok intro: existing_file_safe)
  have create: "confined root (\<lambda>t. safe_path root t p)
      (if scp_target_is_directory request
       then do_then (sys_try E (mkdir_at (env_dir_mode E) p)) (\<lambda>_.
         do_then (sys_try E (query (\<lambda>t. canonicalize t p))) (\<lambda>d.
         do_ret \<lparr>sink_directory = d, sink_forced_file = None\<rparr>))
       else do_then (do_lift (parent_of p)) (\<lambda>d.
         do_ret \<lparr>sink_directory = d, sink_forced_file = Some p\<rparr>)) ?Q" for p
    by (auto simp: forced_safe_def intro!: confined_then [OF confined_try_call [OF mkdir_keeps]]
        confined_skip confined_ret tree_free_intros)
  show ?thesis
    unfolding resolve_sink_target_def Let_def
    by (rule confined_skip [OF tree_free_basic(3)], rule confined_skip [OF tree_free_query])
      (auto simp del: under_root_prefix simp: existing split: sum.splits fs_error.splits
        intro!: confined_then [OF confined_resolve_for_create [OF assms] create])
qed

lemma sink_loop_outside:
  assumes "sink_loop E root request directories forced_file s = (r, s')" and "real_dir (st_tree s) root"
    and "forced_safe root forced_file (st_tree s)" and "list_all plain_name root"
  shows "same_outside root (st_tree s) (st_tree s') \<and> real_dir (st_tree s') root"
  using assms
proof (induction E root request directories forced_file s arbitrary: r s' rule: sink_loop.induct)
  case (1 E root request directories forced_file s)
  obtain x s1 where line: "read_line s = (x, s1)" by fastforce
  then have s1: "st_tree s1 = st_tree s"
    using tree_free_read_line by (metis read_line_def tree_free_def snd_conv)
  show ?case
  proof (cases x)
    case (Inl e)
    with 1(2,3) line s1 show ?thesis by (auto simp: sink_loop.simps split: if_splits)
  next
    case (Inr l)
    obtain y s2 where step: "sink_line E root request l directories forced_file s1 = (y, s2)" by fastforce
    have s2: "same_outside root (st_tree s) (st_tree s2)" "real_dir (st_tree s2) root"
      "\<And>ds ff. y = Ok (ds, ff) \<Longrightarrow> forced_safe root ff (st_tree s2)"
      using confined_sink_line [OF 1(5), unfolded confined_def, rule_format, OF step] 1(3,4) s1 by auto
    show ?thesis
    proof (cases y)
      case (Inl e)
      with 1(2) line step s2 \<open>x = Inr l\<close> show ?thesis by (auto simp: sink_loop.simps)
    next
      case (Inr v)
      obtain ds ff where v: "v = (ds, ff)" by fastforce
      have rest: "sink_loop E root request ds ff s2 = (r, s')"
        using 1(2) line step \<open>x = Inr l\<close> Inr v by (subst (asm) sink_loop.simps) simp
      have "same_outside root (st_tree s2) (st_tree s') \<and> real_dir (st_tree s') root"
        using 1(1) [OF line [symmetric] \<open>x = Inr l\<close> step [symmetric] Inr v [symmetric] rest s2(2) _ 1(5)] s2(3) Inr v by simp
      with s2(1) show ?thesis by (blast intro: same_outside_trans)
    qed
  qed
qed

lemma confined_receive_sink:
  assumes plain: "list_all plain_name root"
  shows "confined root (\<lambda>_. True) (receive_sink E root request) (\<lambda>_ _. True)"
  unfolding receive_sink_def
  by (rule confined_then [OF confined_sink_target [OF plain]], rule confined_skip [OF tree_free_sends(3)])
    (auto simp: confined_def dest: sink_loop_outside [OF _ _ _ plain])

section \<open>The source\<close>

lemma tree_free_for [tree_free_intros]: "(\<And>x. tree_free (f x)) \<Longrightarrow> tree_free (scp_for f xs)"
  by (induction xs) (auto intro!: tree_free_intros)

lemma tree_free_metadata [tree_free_intros]: "tree_free (entry_metadata E p)"
proof -
  have "tree_free (do_then (sys_try E (query (\<lambda>t. symlink_metadata t p))) (\<lambda>n. do_ret (n, a, b)))"
    for a b :: "u64 option"
    by (intro tree_free_intros)
  then show ?thesis unfolding tree_free_def entry_metadata_def by blast
qed

lemma tree_free_send_times [tree_free_intros]: "tree_free (send_times E m a)"
  by (auto simp: send_times_def Let_def intro!: tree_free_intros)

lemma tree_free_send_entry [tree_free_intros]: "tree_free (send_entry E root request n p name)"
  by (induction n arbitrary: p name)
    (auto intro!: tree_free_intros split: prod.splits fnode.splits)

lemma tree_free_send_source [tree_free_intros]: "tree_free (send_source E root request)"
  by (auto simp: send_source_def Let_def intro!: tree_free_intros)

lemma tree_free_ignore [tree_free_intros]: "tree_free m \<Longrightarrow> tree_free (ignore_result m)"
  by (simp add: tree_free_def ignore_result_def split: prod.splits) (metis snd_conv)

section \<open>The service\<close>

text \<open>
  C8. Whatever a client sends, whichever system calls fail or stop halfway and wherever the
  links of the tree point, serving an SCP request changes nothing outside the root: every node
  that is not at or below the root keeps its contents, its mode and its names, and a request to
  send changes nothing at all.
\<close>

theorem scp_confined:
  assumes "real_dir (st_tree s) root" and "list_all plain_name root"
  shows "let t = st_tree (serve_scp E root request s) in
    (\<forall>q. \<not> prefix root q \<longrightarrow> info_at t q = info_at (st_tree s) q) \<and> real_dir t root \<and>
    ((\<forall>r. request = Ok r \<longrightarrow> scp_direction r \<noteq> Sink) \<longrightarrow> t = st_tree s)"
proof -
  obtain x s1 where run: "(case request of Inl e \<Rightarrow> (Err e, s)
      | Inr request \<Rightarrow> (case scp_direction request of
          Sink \<Rightarrow> receive_sink E root request s | Source \<Rightarrow> send_source E root request s)) = (x, s1)"
    by fastforce
  let ?tail = "do_then (ignore_result (if is_ok x then do_ret () else send_fatal E)) (\<lambda>_.
      do_then (ignore_result (put_out E (OutExit (if is_ok x then 0 else 1)))) (\<lambda>_.
      do_then (ignore_result (put_out E OutEof)) (\<lambda>_. ignore_result (put_out E OutClose))))"
  have "tree_free ?tail" by (auto intro!: tree_free_intros)
  moreover have "serve_scp E root request s = snd (?tail s1)" by (simp only: serve_scp_def run prod.case)
  ultimately have s1: "st_tree (serve_scp E root request s) = st_tree s1" by (simp add: tree_free_def)
  have source: "st_tree s1 = st_tree s" if "\<forall>r. request = Ok r \<longrightarrow> scp_direction r \<noteq> Sink"
  proof (cases request)
    case (Inr r)
    with that have "scp_direction r = Source" using scp_direction.exhaust by blast
    with Inr run have "send_source E root r s = (x, s1)" by simp
    with tree_free_send_source show ?thesis by (metis tree_free_def snd_conv)
  qed (use run in auto)
  have "same_outside root (st_tree s) (st_tree s1) \<and> real_dir (st_tree s1) root"
  proof (cases "\<exists>r. request = Ok r \<and> scp_direction r = Sink")
    case True
    with run confined_receive_sink [OF assms(2)] assms(1) show ?thesis by (auto simp: confined_def)
  next
    case False
    with source assms(1) show ?thesis by auto
  qed
  with s1 source show ?thesis by (auto simp: same_outside_def Let_def)
qed

text \<open>A client that tries to write through a link out of the root, then into it.\<close>

definition demo_scp_env :: scp_env where
  "demo_scp_env = \<lparr>env_fault = \<lambda>_. Works, env_send_fails = \<lambda>_. False, env_file_mode = 420,
     env_dir_mode = 493, env_modified = \<lambda>_ _. None, env_accessed = \<lambda>_ _. None\<rparr>"

definition demo_scp_state :: scp_state where
  "demo_scp_state = \<lparr>st_tree = FDir 493 [(''etc'', FFile 420 [1]), (''srv'', FDir 493 [(''out'', FLink ''/etc'')])],
     st_calls = 0, st_msgs = [ScpData (as_bytes (''C0600 1 in'' @ [NL])), ScpData [7, 0],
       ScpData (as_bytes (''C0600 1 out'' @ [NL])), ScpData [9, 0], ScpEof],
     st_buffer = [], st_end_of_input = False, st_incomplete_control = False, st_sends = 0, st_sent = []\<rparr>"

definition demo_scp_request :: scp_request where
  "demo_scp_request = \<lparr>scp_direction = Sink, scp_recursive = False, scp_preserve_times = False,
     scp_target_is_directory = True, scp_target = ''.''\<rparr>"

theorem scp_confined_witness:
  "info_at (st_tree (serve_scp demo_scp_env [''srv''] (Ok demo_scp_request) demo_scp_state)) [''etc''] =
     Some (IFile 420 [1])"
proof -
  have "real_dir (st_tree demo_scp_state) [''srv'']" by (simp add: real_dir_iff demo_scp_state_def)
  moreover have "list_all plain_name [''srv'']" by (simp add: plain_name_def)
  ultimately have "info_at (st_tree (serve_scp demo_scp_env [''srv''] (Ok demo_scp_request) demo_scp_state)) [''etc''] =
      info_at (st_tree demo_scp_state) [''etc'']"
    using scp_confined [of demo_scp_state "[''srv'']" demo_scp_env "Ok demo_scp_request"] by (simp add: Let_def)
  then show ?thesis by (simp add: info_at_def demo_scp_state_def)
qed

end
