(* ===== verification/Scp_Roundtrip.thy ===== *)
theory Scp_Roundtrip
  imports Scp_Confined "HOL-Library.Multiset"
begin

text \<open>
  What the SCP source sends and what the SCP sink makes of it: the stream of a subtree, that the
  source sends exactly this stream, and that the sink that receives it, in any division into
  messages, rebuilds the subtree.
\<close>

unbundle bit_operations_syntax

section \<open>Programs on available input\<close>

text \<open>The bytes that can be read before the first message that ends the input.\<close>

fun leading :: "scp_msg list \<Rightarrow> bytes" where
  "leading (ScpData d # ms) = d @ leading ms"
| "leading (ScpOther # ms) = leading ms"
| "leading ms = []"

fun trailing :: "scp_msg list \<Rightarrow> scp_msg list" where
  "trailing (ScpData d # ms) = trailing ms"
| "trailing (ScpOther # ms) = trailing ms"
| "trailing ms = ms"

definition avail :: "scp_state \<Rightarrow> bytes" where
  "avail s = st_buffer s @ leading (st_msgs s)"

definition calm :: "scp_env \<Rightarrow> bool" where
  "calm E \<longleftrightarrow> env_fault E = (\<lambda>_. Works) \<and> env_send_fails E = (\<lambda>_. False)"

text \<open>From tree \<open>t\<close>, the program reads exactly \<open>inp\<close>, returns \<open>v\<close>, leaves tree \<open>t'\<close> and sends
  \<open>out\<close>.\<close>

definition leads :: "scp_state \<Rightarrow> bytes \<Rightarrow> fnode \<Rightarrow> bytes list \<Rightarrow> scp_state \<Rightarrow> bool" where
  "leads s rest t' out s' \<longleftrightarrow> st_tree s' = t' \<and> avail s' = rest \<and> trailing (st_msgs s') = trailing (st_msgs s) \<and>
     st_sent s' = st_sent s @ map OutData out"

definition does :: "'a scp \<Rightarrow> fnode \<Rightarrow> bytes \<Rightarrow> 'a \<Rightarrow> fnode \<Rightarrow> bytes list \<Rightarrow> bool" where
  "does m t inp v t' out \<longleftrightarrow> (\<forall>s rest. st_tree s = t \<longrightarrow> avail s = inp @ rest \<longrightarrow>
     (\<exists>s'. m s = (Ok v, s') \<and> leads s rest t' out s'))"

lemma leads_trans:
  "leads s r1 t1 o1 s1 \<Longrightarrow> leads s1 r2 t2 o2 s2 \<Longrightarrow> leads s r2 t2 (o1 @ o2) s2"
  by (simp add: leads_def)

lemma doesI:
  assumes "\<And>s rest. st_tree s = t \<Longrightarrow> avail s = inp @ rest \<Longrightarrow> \<exists>s'. m s = (Ok v, s') \<and> leads s rest t' out s'"
  shows "does m t inp v t' out"
  using assms by (simp add: does_def)

lemma doesE:
  assumes "does m t inp v t' out" and "st_tree s = t" and "avail s = inp @ rest"
  obtains s' where "m s = (Ok v, s')" and "leads s rest t' out s'"
  using assms(1) [unfolded does_def, rule_format, OF assms(2,3)] that by (elim exE conjE)

lemma leads_tree: "leads s rest t out s' \<Longrightarrow> st_tree s' = t"
  and leads_avail: "leads s rest t out s' \<Longrightarrow> avail s' = rest"
  by (simp_all add: leads_def)

lemma does_then:
  assumes "does m t i1 u t1 o1" and "does (k u) t1 i2 v t2 o2"
  shows "does (do_then m k) t (i1 @ i2) v t2 (o1 @ o2)"
proof (rule doesI)
  fix s rest
  assume s: "st_tree s = t" "avail s = (i1 @ i2) @ rest"
  then obtain s1 where s1: "m s = (Ok u, s1)" "leads s (i2 @ rest) t1 o1 s1"
    using doesE [OF assms(1), of s "i2 @ rest"] by auto
  obtain s2 where s2: "k u s1 = (Ok v, s2)" "leads s1 rest t2 o2 s2"
    by (rule doesE [OF assms(2) leads_tree [OF s1(2)] leads_avail [OF s1(2)]])
  from s1(1) s2(1) have "do_then m k s = (Ok v, s2)" by (simp add: do_then_def)
  with leads_trans [OF s1(2) s2(2)]
  show "\<exists>s'. do_then m k s = (Ok v, s') \<and> leads s rest t2 (o1 @ o2) s'" by blast
qed

text \<open>Steps that read and send nothing.\<close>

lemma does_silent: "does m t [] u t1 [] \<Longrightarrow> does (k u) t1 inp v t2 out \<Longrightarrow> does (do_then m k) t inp v t2 out"
  using does_then [of m t "[]" u t1 "[]" k inp v t2 out] by simp

lemma does_ret: "does (do_ret v) t [] v t []"
  by (simp add: does_def leads_def do_ret_def)

lemma does_lift: "r = Ok v \<Longrightarrow> does (do_lift r) t [] v t []"
  by (simp add: does_def leads_def do_lift_def)

lemma does_check: "b \<Longrightarrow> does (scp_check b) t [] () t []"
  by (simp add: scp_check_def does_ret)

lemma does_send: "calm E \<Longrightarrow> does (wire_send E bs) t [] () t [bs]"
  by (auto simp: does_def leads_def wire_send_def put_out_def calm_def avail_def Let_def)

lemma does_send_ack: "calm E \<Longrightarrow> does (send_ack E) t [] () t [[0]]"
  by (simp add: send_ack_def does_send)

lemma does_call: "calm E \<Longrightarrow> f Works t = (r, t') \<Longrightarrow> does (sys_call E f) t [] r t' []"
  by (auto simp: does_def leads_def sys_call_def calm_def avail_def)

lemma does_try: "calm E \<Longrightarrow> f Works t = (Ok v, t') \<Longrightarrow> does (sys_try E f) t [] v t' []"
  unfolding sys_try_def by (rule does_silent [OF does_call]) (auto intro: does_lift)

lemma does_query: "calm E \<Longrightarrow> does (sys_call E (query q)) t [] (q t) t []"
  by (rule does_call) (simp_all add: query_def)

lemma does_try_query: "calm E \<Longrightarrow> q t = Ok v \<Longrightarrow> does (sys_try E (query q)) t [] v t []"
  by (rule does_try) (simp_all add: query_def)

lemma wait_byte_avail:
  assumes "leading ms = b # bs" and "st_buffer s = []"
  shows "\<exists>s'. wait_byte ms s = (Ok b, s') \<and> st_tree s' = st_tree s \<and> st_sent s' = st_sent s \<and>
    avail s' = bs \<and> trailing (st_msgs s') = trailing ms"
  using assms
proof (induction ms rule: leading.induct)
  case (1 d ms)
  then show ?case by (cases d) (auto simp: avail_def)
qed auto

lemma read_byte_avail:
  assumes "avail s = b # rest"
  obtains s' where "read_byte s = (Ok b, s')" and "leads s rest (st_tree s) [] s'"
proof (cases "st_buffer s")
  case Nil
  with assms wait_byte_avail [of "st_msgs s" b rest s] that show ?thesis
    by (auto simp: read_byte_def avail_def leads_def)
next
  case (Cons c cs)
  with assms that [of "s\<lparr>st_buffer := cs\<rparr>"] show ?thesis
    by (simp add: read_byte_def avail_def leads_def)
qed

lemma does_read_byte: "does read_byte t [b] b t []"
  by (rule doesI) (auto elim!: read_byte_avail)

lemma does_expect_ack: "does expect_ack t [0] () t []"
  unfolding expect_ack_def
  using does_then [OF does_read_byte [of t 0], of "\<lambda>b. scp_check (b = 0)" "[]" "()" t "[]"]
  by (simp add: does_check)

lemma does_read_exact: "does (read_exact (length bs)) t bs bs t []"
proof (induction bs)
  case Nil
  then show ?case by (simp add: does_ret)
next
  case (Cons b bs)
  have "does (do_then read_byte (\<lambda>b. do_then (read_exact (length bs)) (\<lambda>bs. do_ret (b # bs)))) t
      ([b] @ (bs @ [])) (b # bs) t ([] @ ([] @ []))"
    by (rule does_then [OF does_read_byte does_then [OF Cons.IH does_ret]])
  then show ?case by simp
qed

lemma does_read_line_from:
  assumes "10 \<notin> set bs" and "length bs < n"
  shows "does (read_line_from n line) t (bs @ [10]) (line @ bs @ [10]) t []"
  using assms
proof (induction bs arbitrary: n line)
  case Nil
  then obtain k where n: "n = Suc k" by (cases n) auto
  show ?case
  proof (rule doesI)
    fix s rest
    assume s: "st_tree s = t" "avail s = ([] @ [10]) @ rest"
    then obtain s1 where "read_byte s = (Ok 10, s1)" "leads s rest t [] s1"
      using read_byte_avail [of s 10 rest] by auto
    with n show "\<exists>s'. read_line_from n line s = (Ok (line @ [] @ [10]), s') \<and> leads s rest t [] s'"
      by (simp add: leads_def avail_def)
  qed
next
  case (Cons b bs)
  then obtain k where n: "n = Suc k" and k: "length bs < k" by (cases n) auto
  have b: "b \<noteq> 10" "10 \<notin> set bs" using Cons.prems(1) by auto
  show ?case
  proof (rule doesI)
    fix s rest
    assume s: "st_tree s = t" "avail s = ((b # bs) @ [10]) @ rest"
    then obtain s1 where s1: "read_byte s = (Ok b, s1)" "leads s ((bs @ [10]) @ rest) t [] s1"
      using read_byte_avail [of s b "(bs @ [10]) @ rest"] by auto
    obtain s2 where s2: "read_line_from k (line @ [b]) s1 = (Ok ((line @ [b]) @ bs @ [10]), s2)"
      "leads s1 rest t [] s2"
      by (rule doesE [OF Cons.IH [OF b(2) k] leads_tree [OF s1(2)] leads_avail [OF s1(2)]])
    have "read_line_from n line s = (Ok (line @ (b # bs) @ [10]), s2)" using s1(1) s2(1) n b(1) by simp
    with leads_trans [OF s1(2) s2(2)] show
      "\<exists>s'. read_line_from n line s = (Ok (line @ (b # bs) @ [10]), s') \<and> leads s rest t [] s'" by auto
  qed
qed

lemma does_read_line:
  "10 \<notin> set bs \<Longrightarrow> length bs < MAX_CONTROL_LINE \<Longrightarrow> does read_line t (bs @ [10]) (bs @ [10]) t []"
  using does_read_line_from [of bs MAX_CONTROL_LINE "[]"] by (simp add: read_line_def)

section \<open>Control lines\<close>

definition control_line :: "char \<Rightarrow> u32 \<Rightarrow> nat \<Rightarrow> string \<Rightarrow> bytes" where
  "control_line kind m sz name =
     as_bytes ([kind] @ octal4 m @ '' '' @ show_nat sz @ '' '' @ name @ [NL])"

definition good_name :: "string \<Rightarrow> bool" where
  "good_name c \<longleftrightarrow> validate_name c = Ok () \<and> utf8_valid c \<and> length c \<le> 8176"

lemma octal4_digits:
  assumes "unat m < 512"
  shows "list_all printable (octal4 m)" and "parse_uint 8 U32_MAX (octal4 m) = Some (unat m)"
    and "length (octal4 m) = 4"
proof -
  have zeros: "parse_digits 8 0 (replicate k (CHR ''0'') @ ds) = parse_digits 8 0 ds" for k ds
    by (induction k) (simp_all add: digit_val_def)
  have len: "length (show_radix 8 (unat m)) \<le> 3"
    using show_radix_length [of 8 "unat m" 2] assms by (simp add: numeral_eq_Suc)
  show "list_all printable (octal4 m)"
    using show_radix_printable [of 8 "unat m"] by (auto simp: octal4_def Let_def list_all_iff printable_def)
  have "octal4 m = CHR ''0'' # replicate (3 - length (show_radix 8 (unat m))) (CHR ''0'') @ show_radix 8 (unat m)"
    using len by (simp add: octal4_def Let_def Suc_diff_le numeral_eq_Suc)
  then show "parse_uint 8 U32_MAX (octal4 m) = Some (unat m)"
    using parse_digits_show [of 8 "unat m"] assms zeros
    by (simp add: parse_uint_def digit_val_def)
  show "length (octal4 m) = 4" using len by (simp add: octal4_def Let_def)
qed

lemma unat_of_char: "unat (of_char c :: u8) = of_char c"
proof -
  have "unat (of_nat (of_char c) :: u8) = of_char c" by (simp add: unsigned_of_nat take_bit_eq_mod del: of_nat_of_char)
  then show ?thesis by (simp only: of_nat_of_char)
qed

lemma str_of_bytes_as_bytes [simp]: "str_of_bytes (as_bytes s) = s"
  by (simp add: str_of_bytes_def as_bytes_def comp_def unat_of_char)

lemma str_of_bytes_append [simp]: "str_of_bytes (a @ b) = str_of_bytes a @ str_of_bytes b"
  by (simp add: str_of_bytes_def)

lemma mode_bits: "unat ((m :: u32) AND 511) < 512" "(m AND 511) AND 511 = m AND 511"
proof -
  have "m AND 511 = take_bit 9 m" by (simp add: take_bit_eq_mask mask_eq_exp_minus_1)
  then show "unat (m AND 511) < 512" by (simp add: unsigned_take_bit_eq take_bit_nat_less_exp [of 9, simplified])
  show "(m AND 511) AND 511 = m AND 511" by (simp add: and.assoc)
qed

lemma blank_not_printable: "list_all printable s \<Longrightarrow> CHR '' '' \<notin> set s"
  by (auto simp: list_all_iff printable_def)

lemma parse_control_line:
  assumes name: "good_name name" and sz: "sz < 2 ^ 64"
  shows "parse_control (control_line kind (m AND 511) sz name) (of_char kind) = Ok (m AND 511, of_nat sz, name)"
proof -
  note octal = octal4_digits [OF mode_bits(1) [of m]]
  have dec: "list_all printable (show_nat sz)" "parse_uint 10 U64_MAX (show_nat sz) = Some sz"
    using show_radix_printable [of 10 sz] parse_uint_show [of 10 sz U64_MAX] sz by simp_all
  have "utf8_valid (octal4 (m AND 511) @ '' '' @ show_nat sz @ '' '' @ name)"
    using name octal(1) dec(1)
    by (simp add: utf8_valid_append utf8_valid_printable utf8_valid_ascii byte_in_def good_name_def)
  moreover have "split_once (CHR '' '') (octal4 (m AND 511) @ '' '' @ show_nat sz @ '' '' @ name) =
      Some (octal4 (m AND 511), show_nat sz @ '' '' @ name)"
    using blank_not_printable [OF octal(1)] by (simp add: split_once_Some)
  moreover have "split_once (CHR '' '') (show_nat sz @ '' '' @ name) = Some (show_nat sz, name)"
    using blank_not_printable [OF dec(1)] by (simp add: split_once_Some)
  moreover have line: "control_line kind (m AND 511) sz name =
      of_char kind # as_bytes (octal4 (m AND 511) @ '' '' @ show_nat sz @ '' '' @ name) @ [10]"
    by (simp add: control_line_def as_bytes_def)
  ultimately show ?thesis
    using octal(2) dec(2) mode_bits(2) [of m] by (simp add: parse_control_def line Let_def)
qed

lemma control_line_shape:
  assumes "good_name name" and "sz \<le> MAX_FILE_SIZE" and "kind \<noteq> NL"
  shows "\<exists>bs. control_line kind (m AND 511) sz name = bs @ [10] \<and> 10 \<notin> set bs \<and> length bs < MAX_CONTROL_LINE"
proof -
  let ?text = "[kind] @ octal4 (m AND 511) @ '' '' @ show_nat sz @ '' '' @ name"
  have no_nl: "NL \<notin> set ?text"
  proof -
    have "NL \<notin> set x" if "list_all printable x" for x
      using that by (auto simp: list_all_iff printable_def)
    moreover have "NL \<notin> set x" if "\<not> has_control x" for x
      using that by (induction x) auto
    ultimately show ?thesis
      using assms octal4_digits(1) [OF mode_bits(1) [of m]] show_radix_printable [of 10 sz]
      by (auto simp: good_name_def validate_name_def split: if_splits)
  qed
  have inj: "NL \<in> set x" if ten: "(10 :: u8) \<in> set (as_bytes x)" for x
  proof -
    obtain c where c: "c \<in> set x" "10 = (of_char c :: u8)" using ten by (auto simp: as_bytes_def)
    then have "of_char c = (10 :: nat)" using unat_of_char [of c] by simp
    then have "c = NL" by (intro of_char_eqI [where ?'a = nat]) simp
    with c show ?thesis by simp
  qed
  have "length (show_nat sz) \<le> 8"
    using show_radix_length [of 10 sz 7] assms(2) by (simp add: MAX_FILE_SIZE_def)
  then have "length (as_bytes ?text) < MAX_CONTROL_LINE"
    using assms(1) octal4_digits(3) [OF mode_bits(1) [of m]] by (simp add: good_name_def MAX_CONTROL_LINE_def)
  moreover have "10 \<notin> set (as_bytes ?text)" using inj [of ?text] no_nl by blast
  moreover have "control_line kind (m AND 511) sz name = as_bytes ?text @ [10]"
    by (simp add: control_line_def as_bytes_def)
  ultimately show ?thesis by blast
qed

section \<open>The stream of a subtree\<close>

lemma child_size: "(c, n) \<in> set cs \<Longrightarrow> size n < size (FDir m cs)"
  by (induction cs) auto

text \<open>The messages that describe a node, in the order the source sends them.\<close>

function stream_of :: "string \<Rightarrow> fnode \<Rightarrow> bytes list" where
  "stream_of name (FFile m d) = [control_line (CHR ''C'') (m AND 511) (length d) name, d, [0]]"
| "stream_of name (FDir m cs) =
     [control_line (CHR ''D'') (m AND 511) 0 name] @
     concat (map (\<lambda>(c, n). stream_of c n) (sort_key fst cs)) @ [as_bytes (''E'' @ [NL])]"
| "stream_of name (FLink l) = []"
  by pat_completeness auto
termination
  by (relation "measure (\<lambda>(name, n). size n)") (auto dest: child_size)

text \<open>How many acknowledgements it takes, and the subtree with its names in order and its modes
  cut to the permission bits.\<close>

function acks :: "fnode \<Rightarrow> nat" where
  "acks (FFile m d) = 2"
| "acks (FDir m cs) = 2 + sum_list (map (\<lambda>(c, n). acks n) (sort_key fst cs))"
| "acks (FLink l) = 0"
  by pat_completeness auto
termination
  by (relation "measure size") (auto dest: child_size)

function normal :: "fnode \<Rightarrow> fnode" where
  "normal (FFile m d) = FFile (m AND 511) d"
| "normal (FDir m cs) = FDir (m AND 511) (map (\<lambda>(c, n). (c, normal n)) (sort_key fst cs))"
| "normal (FLink l) = FLink l"
  by pat_completeness auto
termination
  by (relation "measure size") (auto dest: child_size)

text \<open>A subtree of files and directories only, with names that can be sent, at most \<open>k\<close> levels of
  directories and no file that is too long.\<close>

primrec portable :: "nat \<Rightarrow> fnode \<Rightarrow> bool" where
  "portable 0 n = (case n of FFile m d \<Rightarrow> length d \<le> MAX_FILE_SIZE | _ \<Rightarrow> False)"
| "portable (Suc k) n =
     (case n of
        FFile m d \<Rightarrow> length d \<le> MAX_FILE_SIZE
      | FDir m cs \<Rightarrow> distinct (map fst cs) \<and> list_all (\<lambda>(c, n). good_name c \<and> portable k n) cs
      | FLink l \<Rightarrow> False)"

lemma portable_not_link: "portable k n \<Longrightarrow> \<not> is_flink n"
  by (cases k; cases n) auto

section \<open>The source sends the stream\<close>

lemma does_metadata:
  assumes "calm E" and "symlink_metadata t p = Ok n" and "\<And>a b. does (k (n, a, b)) t inp v t' out"
  shows "does (do_then (entry_metadata E p) k) t inp v t' out"
proof (rule doesI)
  fix s rest
  assume s: "st_tree s = t" "avail s = inp @ rest"
  define a b where "a = env_modified E p (st_calls s)" and "b = env_accessed E p (st_calls s)"
  let ?m = "do_then (sys_try E (query (\<lambda>t. symlink_metadata t p))) (\<lambda>n. do_ret (n, a, b))"
  have "does (do_then ?m k) t inp v t' out"
    by (rule does_silent [OF does_silent [OF does_try_query [where v = n]]])
      (use assms in \<open>auto intro: does_ret\<close>)
  moreover have "do_then (entry_metadata E p) k s = do_then ?m k s"
    by (simp add: do_then_def [of _ k] entry_metadata_def a_def b_def)
  ultimately show "\<exists>s'. do_then (entry_metadata E p) k s = (Ok v, s') \<and> leads s rest t' out s'"
    using s by (simp add: does_def)
qed

lemma sort_names: "sort (map fst cs) = map fst (sort_key fst cs)"
  by (rule properties_for_sort) simp_all

lemma canonical_symlink_metadata:
  assumes "canonical t p" and "lookup t p = Some n" and "is_fdir t"
  shows "symlink_metadata t p = Ok n"
proof (cases "p = []")
  case True
  with assms show ?thesis by (simp add: symlink_metadata_def canonical_canonicalize)
next
  case False
  then have p: "p = butlast p @ [last p]" by simp
  then obtain m cs where dir: "lookup t (butlast p) = Some (FDir m cs)"
    using lookup_under_dir [of t "butlast p" "last p"] assms(2) by auto
  have plain: "plain_name (last p)" "list_all plain_name (butlast p)"
    using assms(1) False by (auto simp: canonical_def list_all_iff dest: in_set_butlastD)
  have "canonicalize t (butlast p) = Ok (butlast p)"
    using dir plain by (intro canonical_canonicalize) (auto simp: canonical_def)
  with dir plain assms(2) False show ?thesis by (simp add: symlink_metadata_def plain_name_def)
qed

lemma does_for:
  assumes "\<And>x. x \<in> set xs \<Longrightarrow> does (f x) t (replicate (g x) 0) () t (h x)"
  shows "does (scp_for f xs) t (replicate (sum_list (map g xs)) 0) () t (concat (map h xs))"
  using assms
proof (induction xs)
  case Nil
  then show ?case by (simp add: does_ret)
next
  case (Cons x xs)
  then show ?case using does_then [of "f x" t "replicate (g x) 0" "()" t "h x" "\<lambda>_. scp_for f xs"]
    by (simp add: replicate_add)
qed

lemma show_nat_0: "show_nat 0 = ''0''"
proof -
  have "digit_char 0 = CHR ''0''" by (rule of_char_eqI [where ?'a = nat]) (simp add: digit_char_def)
  then show ?thesis by (simp add: show_radix.simps)
qed

lemma does_send_file:
  assumes "calm E" and "q t = Ok d"
  shows "does (do_then (wire_send E line) (\<lambda>_. do_then expect_ack (\<lambda>_.
      do_then (sys_try E (query q)) (\<lambda>data. do_then (wire_send E data) (\<lambda>_.
      do_then (send_ack E) (\<lambda>_. expect_ack)))))) t (replicate 2 0) () t [line, d, [0]]"
proof -
  have "does (do_then (wire_send E line) (\<lambda>_. do_then expect_ack (\<lambda>_.
      do_then (sys_try E (query q)) (\<lambda>data. do_then (wire_send E data) (\<lambda>_.
      do_then (send_ack E) (\<lambda>_. expect_ack)))))) t ([] @ [0] @ [] @ [] @ [0]) () t ([line] @ [] @ [d] @ [[0]] @ [])"
    by (intro does_then [OF does_send] does_then [OF does_expect_ack] does_silent [OF does_try_query [where v = d]]
        does_then [OF does_send_ack] does_expect_ack assms)
  then show ?thesis by (simp add: numeral_2_eq_2)
qed

lemma canonical_node_at: "canonical t p \<Longrightarrow> lookup t p = Some n \<Longrightarrow> node_at t p = Ok n"
  by (simp add: node_at_def canonical_canonicalize)

lemma canonical_child:
  assumes "canonical t p" and "lookup t p = Some (FDir m cs)" and "map_of cs c = Some n"
    and "good_name c" and "\<not> is_flink n"
  shows "canonical t (p @ [c])" and "lookup t (p @ [c]) = Some n"
proof -
  show l: "lookup t (p @ [c]) = Some n" using assms(2,3) by (simp add: lookup_append)
  have "plain_name c" using assms(4) by (auto simp: good_name_def validate_name_def plain_name_def split: if_splits)
  with l assms(1,5) show "canonical t (p @ [c])" by (simp add: canonical_def)
qed

lemma portable_child:
  assumes "portable (Suc k) (FDir m cs)" and "(c, n) \<in> set (sort_key fst cs)"
  shows "map_of cs c = Some n" and "good_name c" and "portable k n"
  using assms by (auto simp: list_all_iff)

lemma does_send_dir:
  assumes "calm E" and "q t = Ok names" and "does (scp_for f (sort names)) t (replicate a 0) () t out"
  shows "does (do_then (wire_send E line) (\<lambda>_. do_then expect_ack (\<lambda>_.
      do_then (sys_try E (query q)) (\<lambda>names. do_then (scp_for f (sort names)) (\<lambda>_.
      do_then (wire_send E fin) (\<lambda>_. expect_ack)))))) t (replicate (2 + a) 0) () t ([line] @ out @ [fin])"
proof -
  have "does (do_then (wire_send E line) (\<lambda>_. do_then expect_ack (\<lambda>_.
      do_then (sys_try E (query q)) (\<lambda>names. do_then (scp_for f (sort names)) (\<lambda>_.
      do_then (wire_send E fin) (\<lambda>_. expect_ack)))))) t ([] @ [0] @ replicate a 0 @ [] @ [0]) () t
      ([line] @ [] @ out @ [fin] @ [])"
    by (intro does_then [OF does_send] does_then [OF does_expect_ack]
        does_silent [OF does_try_query [where v = names]] does_then [OF assms(3)] does_expect_ack assms(1,2))
  then show ?thesis by (simp add: replicate_append_same)
qed

lemma does_send_entry_file:
  assumes E: "calm E" and request: "\<not> scp_preserve_times request" and t: "is_fdir t"
    and p: "canonical t p" "lookup t p = Some (FFile m d)" "prefix root p" and len: "length d \<le> MAX_FILE_SIZE"
  shows "does (send_entry E root request (Suc k) p name) t (replicate 2 0) () t (stream_of name (FFile m d))"
proof -
  have data: "file_data t p = Ok d" using p by (simp add: file_data_def canonical_node_at)
  show ?thesis
    unfolding send_entry.simps
    using p(3) len request
    by (auto simp: control_line_def permissions_mode_def intro!: does_metadata [OF E canonical_symlink_metadata [OF p(1,2) t]]
        does_silent [OF does_ret] does_send_file E data)
qed

lemma does_send_entry:
  assumes E: "calm E" and request: "scp_recursive request" "\<not> scp_preserve_times request" and t: "is_fdir t"
    and n: "portable k n" "canonical t p" "lookup t p = Some n" "prefix root p"
  shows "does (send_entry E root request (Suc k) p name) t (replicate (acks n) 0) () t (stream_of name n)"
  using n
proof (induction k arbitrary: n p name)
  case 0
  then obtain m d where "n = FFile m d" "length d \<le> MAX_FILE_SIZE" by (cases n) auto
  with 0 does_send_entry_file [OF E request(2) t, of p m d root 0 name] show ?case by simp
next
  case (Suc k)
  show ?case
  proof (cases n)
    case (FFile m d)
    with Suc does_send_entry_file [OF E request(2) t, of p m d root "Suc k" name] show ?thesis by simp
  next
    case (FDir m cs)
    let ?step = "\<lambda>c. do_then (do_lift (if utf8_valid c then Ok () else Err ScpProtocolError)) (\<lambda>_.
        do_then (do_lift (validate_name c)) (\<lambda>_.
        do_then (sys_try E (query (\<lambda>t. canonicalize t (p @ [c])))) (\<lambda>child.
        if \<not> under_root root child then scp_fail else send_entry E root request (Suc k) child c)))"
    have child: "does (?step c) t (replicate (acks n') 0) () t (stream_of c n')" if "(c, n') \<in> set (sort_key fst cs)" for c n'
    proof -
      note c = portable_child [OF Suc.prems(1) [unfolded FDir] that]
      note cc = canonical_child [OF Suc.prems(2,3) [unfolded FDir] c(1,2) portable_not_link [OF c(3)]]
      have "prefix root (p @ [c])" using Suc.prems(4) by simp
      with Suc.IH [OF c(3) cc this] c(2) canonical_canonicalize [OF cc(1)] E show ?thesis
        by (auto simp: good_name_def intro!: does_silent [OF does_lift] does_silent [OF does_try_query])
    qed
    have "does (scp_for ?step (map fst (sort_key fst cs))) t
        (replicate (sum_list (map (\<lambda>c. acks (the (map_of cs c))) (map fst (sort_key fst cs)))) 0) () t
        (concat (map (\<lambda>c. stream_of c (the (map_of cs c))) (map fst (sort_key fst cs))))"
      using child portable_child(1) [OF Suc.prems(1) [unfolded FDir]] by (intro does_for) fastforce
    moreover have "map (\<lambda>c. acks (the (map_of cs c))) (map fst (sort_key fst cs)) = map (\<lambda>(c, n). acks n) (sort_key fst cs)"
      "map (\<lambda>c. stream_of c (the (map_of cs c))) (map fst (sort_key fst cs)) = map (\<lambda>(c, n). stream_of c n) (sort_key fst cs)"
      using portable_child(1) [OF Suc.prems(1) [unfolded FDir]] by auto
    ultimately have loop: "does (scp_for ?step (sort (map fst cs))) t
        (replicate (sum_list (map (\<lambda>(c, n). acks n) (sort_key fst cs))) 0) () t
        (concat (map (\<lambda>(c, n). stream_of c n) (sort_key fst cs)))" by (simp only: sort_names)
    have names: "dir_names t p = Ok (map fst cs)" using Suc.prems FDir by (simp add: dir_names_def canonical_node_at)
    have "does (send_entry E root request (Suc (Suc k)) p name) t (replicate (acks (FDir m cs)) 0) () t
        (stream_of name (FDir m cs))"
      unfolding send_entry.simps(2) [of E root request "Suc k"] acks.simps stream_of.simps
      using Suc.prems(4) request FDir
      by (auto simp del: send_entry.simps under_root_prefix simp: under_root_prefix [of root p] control_line_def
          show_nat_0 permissions_mode_def
          intro!: does_metadata [OF E canonical_symlink_metadata [OF Suc.prems(2,3) t]] does_silent [OF does_ret]
          does_send_dir [where q = "\<lambda>t. dir_names t p", OF E names loop, simplified])
    with FDir show ?thesis by simp
  next
    case (FLink l)
    with Suc.prems show ?thesis by simp
  qed
qed

section \<open>The sink rebuilds the subtree\<close>

definition loops ::
  "scp_env \<Rightarrow> tpath \<Rightarrow> scp_request \<Rightarrow> tpath list \<Rightarrow> fnode \<Rightarrow> bytes \<Rightarrow> tpath list \<Rightarrow> fnode \<Rightarrow> bytes list \<Rightarrow> bool" where
  "loops E root request ds t inp ds' t' out \<longleftrightarrow> (\<forall>s rest. st_tree s = t \<longrightarrow> avail s = inp @ rest \<longrightarrow>
     (\<exists>s'. sink_loop E root request ds None s = sink_loop E root request ds' None s' \<and> leads s rest t' out s'))"

lemma loops_refl: "loops E root request ds t [] ds t []"
  by (auto simp: loops_def leads_def)

lemma loopsE:
  assumes "loops E root request ds t inp ds' t' out" and "st_tree s = t" and "avail s = inp @ rest"
  obtains s' where "sink_loop E root request ds None s = sink_loop E root request ds' None s'"
    and "leads s rest t' out s'"
  using assms(1) [unfolded loops_def, rule_format, OF assms(2,3)] that by (elim exE conjE)

lemma loops_trans:
  assumes "loops E root request ds t i1 ds1 t1 o1" and "loops E root request ds1 t1 i2 ds2 t2 o2"
  shows "loops E root request ds t (i1 @ i2) ds2 t2 (o1 @ o2)"
  unfolding loops_def
proof (intro allI impI)
  fix s rest
  assume s: "st_tree s = t" "avail s = (i1 @ i2) @ rest"
  then have a: "avail s = i1 @ (i2 @ rest)" by simp
  obtain s1 where s1: "sink_loop E root request ds None s = sink_loop E root request ds1 None s1"
    "leads s (i2 @ rest) t1 o1 s1" by (rule loopsE [OF assms(1) s(1) a])
  obtain s2 where s2: "sink_loop E root request ds1 None s1 = sink_loop E root request ds2 None s2"
    "leads s1 rest t2 o2 s2" by (rule loopsE [OF assms(2) leads_tree [OF s1(2)] leads_avail [OF s1(2)]])
  from s1(1) s2(1) leads_trans [OF s1(2) s2(2)]
  show "\<exists>s'. sink_loop E root request ds None s = sink_loop E root request ds2 None s' \<and>
      leads s rest t2 (o1 @ o2) s'" by auto
qed

lemma loops_line:
  assumes line: "10 \<notin> set bs" "length bs < MAX_CONTROL_LINE"
    and step: "does (sink_line E root request (bs @ [10]) ds None) t inp (ds', None) t' out"
  shows "loops E root request ds t ((bs @ [10]) @ inp) ds' t' out"
  unfolding loops_def
proof (intro allI impI)
  fix s rest
  assume s: "st_tree s = t" "avail s = ((bs @ [10]) @ inp) @ rest"
  then have a: "avail s = (bs @ [10]) @ (inp @ rest)" by simp
  obtain s1 where s1: "read_line s = (Ok (bs @ [10]), s1)" "leads s (inp @ rest) t [] s1"
    by (rule doesE [OF does_read_line [OF line] s(1) a])
  obtain s2 where s2: "sink_line E root request (bs @ [10]) ds None s1 = (Ok (ds', None), s2)" "leads s1 rest t' out s2"
    by (rule doesE [OF step leads_tree [OF s1(2)] leads_avail [OF s1(2)]])
  from s1(1) s2(1) have "sink_loop E root request ds None s = sink_loop E root request ds' None s2"
    by (simp add: sink_loop.simps [of E root request ds None s])
  with leads_trans [OF s1(2) s2(2)]
  show "\<exists>s'. sink_loop E root request ds None s = sink_loop E root request ds' None s' \<and> leads s rest t' out s'"
    by auto
qed

text \<open>A directory below the root that new names can be added to.\<close>

definition open_dir :: "tpath \<Rightarrow> fnode \<Rightarrow> tpath \<Rightarrow> bool" where
  "open_dir root t d \<longleftrightarrow> prefix root d \<and> real_dir t d \<and> list_all plain_name d"

lemma good_name_plain: "good_name c \<Longrightarrow> plain_name c"
  by (auto simp: good_name_def validate_name_def plain_name_def split: if_splits)

lemma new_safe:
  assumes "open_dir root t d" and "good_name c" and "lookup t (d @ [c]) = None"
  shows "safe_path root t (d @ [c])"
  using assms good_name_plain [OF assms(2)] by (auto simp: open_dir_def safe_path_def)

lemma does_resolve_new:
  assumes E: "calm E" and d: "open_dir root t d" and c: "good_name c" "lookup t (d @ [c]) = None"
    and rel: "strip_root root d = Some rel"
  shows "does (resolve_for_create E root (rel @ [c])) t [] (d @ [c]) t []"
proof -
  have rootd: "d = root @ rel" using d rel by (auto simp: strip_root_def open_dir_def prefix_def split: if_splits)
  have plain: "list_all plain_name (rel @ [c])"
    using d good_name_plain [OF c(1)] by (simp add: open_dir_def rootd)
  then have "filter (\<lambda>c. c \<noteq> [] \<and> c \<noteq> ''.'') (rel @ [c]) = rel @ [c]"
    by (intro filter_True) (auto simp: list_all_iff plain_name_def)
  then have joined: "joined root (rel @ [c]) = d @ [c]" by (simp only: joined_def rootd append_assoc)
  have "hd (rel @ [c]) \<noteq> []" "''..'' \<notin> set (rel @ [c])"
    using plain hd_in_set [of "rel @ [c]"] unfolding list_all_iff plain_name_def by blast+
  then have valid: "validate_relative (rel @ [c]) = Ok ()" by (simp add: validate_relative_def)
  note safe = new_safe [OF d c]
  have cd: "canonicalize t d = Ok d" using safe_path_parent(1) [OF safe] by simp
  obtain m cs where dir: "lookup t d = Some (FDir m cs)" using safe_path_parent(2) [OF safe] by auto
  have md: "symlink_metadata t (d @ [c]) = Err NotFound"
    using good_name_plain [OF c(1)] c(2) cd dir by (simp add: symlink_metadata_def plain_name_def)
  show ?thesis
    unfolding resolve_for_create_def joined Let_def
    apply (rule does_silent [OF does_lift [OF valid]])
    apply (rule does_silent [OF does_check])
     apply simp
    apply (rule does_silent [OF does_try_query [OF E, where v = d]])
     apply (simp add: cd)
    apply (rule does_silent [OF does_check])
     apply (use d in \<open>simp add: open_dir_def\<close>)
    apply (rule does_silent [OF does_query [OF E]])
    apply (simp add: md does_ret)
    done
qed

lemma safe_put:
  assumes d: "open_dir root t d" and c: "good_name c"
  shows "lookup (put_node (d @ [c]) v t) (d @ [c]) = Some v"
    and "put_node (d @ [c]) v (put_node (d @ [c]) u t) = put_node (d @ [c]) v t"
    and "open_dir root t d \<Longrightarrow> \<not> is_flink v \<Longrightarrow> canonicalize (put_node (d @ [c]) v t) (d @ [c]) = Ok (d @ [c])"
proof -
  obtain m cs where dir: "lookup t d = Some (FDir m cs)" using d by (auto simp: open_dir_def real_dir_iff)
  show at: "lookup (put_node (d @ [c]) v t) (d @ [c]) = Some v" by (rule lookup_put_same [OF dir])
  show "put_node (d @ [c]) v (put_node (d @ [c]) u t) = put_node (d @ [c]) v t"
    using put_put [OF dir, of c "[]" v u] by simp
  show "canonicalize (put_node (d @ [c]) v t) (d @ [c]) = Ok (d @ [c])" if "\<not> is_flink v"
    using d at that good_name_plain [OF c] by (intro canonical_canonicalize) (simp add: canonical_def open_dir_def)
qed

lemma does_permissions:
  assumes E: "calm E" and d: "open_dir root t d" and c: "good_name c" and v: "\<not> is_flink v"
  shows "does (apply_permissions E (d @ [c]) (m AND 511)) (put_node (d @ [c]) v t) [] ()
    (put_node (d @ [c]) (with_mode (m AND 511) v) t) []"
  unfolding apply_permissions_def
  by (rule does_try [OF E])
    (simp add: chmod_at_def safe_put [OF d c] v d mode_bits(2))

lemma does_mkdir:
  assumes E: "calm E" and d: "open_dir root t d" and c: "good_name c" "lookup t (d @ [c]) = None"
  shows "does (sys_try E (mkdir_at mode (d @ [c]))) t [] () (put_node (d @ [c]) (FDir mode []) t) []"
proof (rule does_try [OF E])
  note safe = new_safe [OF d c]
  show "mkdir_at mode (d @ [c]) Works t = (Ok (), put_node (d @ [c]) (FDir mode []) t)"
    using safe_path_parent [OF safe] c(2) by (auto simp: mkdir_at_def)
qed

lemma does_write:
  assumes E: "calm E" and d: "open_dir root t d" and c: "good_name c" "lookup t (d @ [c]) = None"
  shows "does (sys_try E (write_at mode (d @ [c]) data)) t [] () (put_node (d @ [c]) (FFile mode data) t) []"
  by (rule does_try [OF E]) (simp add: write_at_def safe_path_open [OF new_safe [OF d c]] c(2))

lemma child_relative_good:
  assumes "open_dir root t d" and "good_name c"
  shows "\<exists>rel. strip_root root d = Some rel \<and> child_relative root d c = Ok (rel @ [c])"
    and "portable_control_name c = Ok c"
  using assms by (auto simp: child_relative_def portable_control_name_def good_name_def strip_root_def
      open_dir_def prefix_def)

lemma does_sink_file:
  assumes E: "calm E" and d: "open_dir root t (last ds)" and c: "good_name c" "lookup t (last ds @ [c]) = None"
    and len: "length data \<le> MAX_FILE_SIZE"
  shows "does (sink_file E root (control_line (CHR ''C'') (m AND 511) (length data) c) ds None) t (data @ [0]) ()
    (put_node (last ds @ [c]) (FFile (m AND 511) data) t) [[0], [0]]"
proof -
  obtain rel where rel: "strip_root root (last ds) = Some rel" "child_relative root (last ds) c = Ok (rel @ [c])"
    using child_relative_good(1) [OF d c(1)] by blast
  have sz: "length data < 2 ^ 64" using len by (simp add: MAX_FILE_SIZE_def)
  then have unat: "unat (of_nat (length data) :: u64) = length data" by (simp add: unsigned_of_nat take_bit_nat_eq_self)
  have kind: "(67 :: u8) = of_char (CHR ''C'')" by simp
  have parse: "parse_control (control_line (CHR ''C'') (m AND 511) (length data) c) 67 = Ok (m AND 511, of_nat (length data), c)"
    unfolding kind by (rule parse_control_line [OF c(1) sz])
  let ?p = "last ds @ [c]"
  have tail: "does (do_then (send_ack E) (\<lambda>_. do_then (read_exact (length data)) (\<lambda>data. do_then expect_ack (\<lambda>_.
       do_then (sys_try E (write_at (env_file_mode E) ?p data)) (\<lambda>_. do_then (apply_permissions E ?p (m AND 511)) (\<lambda>_. send_ack E))))))
      t ([] @ data @ [0] @ []) () (put_node ?p (with_mode (m AND 511) (FFile (env_file_mode E) data)) t) ([[0]] @ [] @ [] @ [[0]])"
    by (intro does_then [OF does_send_ack [OF E]] does_then [OF does_read_exact] does_then [OF does_expect_ack]
        does_silent [OF does_write [OF E d c]] does_silent [OF does_permissions [OF E d c(1)]] does_send_ack [OF E]) simp
  show ?thesis
    unfolding sink_file_def
    apply (rule does_silent [OF does_lift [OF parse]])
    apply (simp add: unat len not_less [THEN iffD2])
    apply (rule does_silent [OF does_lift [OF child_relative_good(2) [OF d c(1)]]])
    apply (rule does_silent [OF does_silent [OF does_lift [OF rel(2)]]])
     apply (rule does_resolve_new [OF E d c rel(1)])
    using tail apply simp
    done
qed

lemma does_sink_enter:
  assumes E: "calm E" and d: "open_dir root t (last ds)" and c: "good_name c" "lookup t (last ds @ [c]) = None"
    and r: "scp_recursive request" "length ds < MAX_RECURSION_DEPTH"
  shows "does (sink_enter E root request (control_line (CHR ''D'') (m AND 511) 0 c) ds None) t [] (ds @ [last ds @ [c]])
    (put_node (last ds @ [c]) (FDir (m AND 511) []) t) [[0]]"
proof -
  obtain rel where rel: "strip_root root (last ds) = Some rel" "child_relative root (last ds) c = Ok (rel @ [c])"
    using child_relative_good(1) [OF d c(1)] by blast
  have kind: "(68 :: u8) = of_char (CHR ''D'')" by simp
  have parse: "parse_control (control_line (CHR ''D'') (m AND 511) 0 c) 68 = Ok (m AND 511, of_nat 0, c)"
    unfolding kind by (rule parse_control_line [OF c(1)]) simp
  let ?p = "last ds @ [c]"
  have tail: "does (do_then (sys_try E (mkdir_at (env_dir_mode E) ?p)) (\<lambda>_. do_then (apply_permissions E ?p (m AND 511)) (\<lambda>_.
      do_then (sys_try E (query (\<lambda>t. canonicalize t ?p))) (\<lambda>d. do_then (send_ack E) (\<lambda>_. do_ret (ds @ [d]))))))
      t ([] @ []) (ds @ [?p]) (put_node ?p (with_mode (m AND 511) (FDir (env_dir_mode E) [])) t) ([[0]] @ [])"
    by (intro does_silent [OF does_mkdir [OF E d c]] does_silent [OF does_permissions [OF E d c(1)]]
        does_silent [OF does_try_query [OF E, where v = "?p"]] does_then [OF does_send_ack [OF E]] does_ret)
      (simp_all add: safe_put(3) [OF d c(1) d])
  show ?thesis
    unfolding sink_enter_def
    using r
    apply (simp add: not_le)
    apply (rule does_silent [OF does_lift [OF parse]])
    apply simp
    apply (rule does_silent [OF does_lift [OF rel(2)]])
    apply (rule does_silent [OF does_resolve_new [OF E d c rel(1)]])
    using tail apply simp
    done
qed

lemma loops_control:
  assumes "good_name c" and "sz \<le> MAX_FILE_SIZE" and "kind \<noteq> NL"
    and "does (sink_line E root request (control_line kind (m AND 511) sz c) ds None) t inp (ds', None) t' out"
  shows "loops E root request ds t (control_line kind (m AND 511) sz c @ inp) ds' t' out"
proof -
  obtain bs where "control_line kind (m AND 511) sz c = bs @ [10]" "10 \<notin> set bs" "length bs < MAX_CONTROL_LINE"
    using control_line_shape [OF assms(1,2,3)] by blast
  with loops_line [of bs E root request ds t inp ds' t' out] assms(4) show ?thesis by simp
qed

lemma control_line_head: "control_line kind m sz c \<noteq> []" "hd (control_line kind m sz c) = of_char kind"
  "control_line kind m sz c = [69, 10] \<Longrightarrow> False"
  by (simp_all add: control_line_def as_bytes_def octal4_def Let_def)

lemma loops_file:
  assumes E: "calm E" and d: "open_dir root t (last ds)" and c: "good_name c" "lookup t (last ds @ [c]) = None"
    and len: "length data \<le> MAX_FILE_SIZE"
  shows "loops E root request ds t (concat (stream_of c (FFile m data))) ds
    (put_node (last ds @ [c]) (normal (FFile m data)) t) (replicate 2 [0])"
proof -
  let ?line = "control_line (CHR ''C'') (m AND 511) (length data) c"
  have "does (sink_line E root request ?line ds None) t ((data @ [0]) @ []) (ds, None)
      (put_node (last ds @ [c]) (FFile (m AND 511) data) t) ([[0], [0]] @ [])"
    using control_line_head [of "CHR ''C''" "m AND 511" "length data" c]
    by (auto simp: sink_line_def intro!: does_then [OF does_sink_file [OF E d c len], simplified] does_ret)
  from loops_control [OF c(1) len _ this] show ?thesis by (simp add: numeral_2_eq_2)
qed

lemma loops_enter:
  assumes E: "calm E" and d: "open_dir root t (last ds)" and c: "good_name c" "lookup t (last ds @ [c]) = None"
    and r: "scp_recursive request" "length ds < MAX_RECURSION_DEPTH"
  shows "loops E root request ds t (control_line (CHR ''D'') (m AND 511) 0 c) (ds @ [last ds @ [c]])
    (put_node (last ds @ [c]) (FDir (m AND 511) []) t) [[0]]"
proof -
  let ?line = "control_line (CHR ''D'') (m AND 511) 0 c"
  have "does (sink_line E root request ?line ds None) t ([] @ []) (ds @ [last ds @ [c]], None)
      (put_node (last ds @ [c]) (FDir (m AND 511) []) t) ([[0]] @ [])"
    using control_line_head [of "CHR ''D''" "m AND 511" 0 c]
    by (auto simp: sink_line_def intro!: does_then [OF does_sink_enter [OF E d c r], simplified] does_ret)
  from loops_control [OF c(1) _ _ this] show ?thesis by simp
qed

lemma loops_leave:
  assumes E: "calm E" and ds: "ds \<noteq> []"
  shows "loops E root request (ds @ [p]) t (as_bytes (''E'' @ [NL])) ds t [[0]]"
proof -
  have "does (sink_line E root request ([69] @ [10]) (ds @ [p]) None) t ([] @ []) (ds, None) t ([[0]] @ [])"
    using ds by (auto simp: sink_line_def sink_leave_def
        intro!: does_then [OF does_then [OF does_send_ack [OF E] does_ret], simplified] does_ret)
  from loops_line [OF _ _ this] show ?thesis by (simp add: as_bytes_def MAX_CONTROL_LINE_def)
qed

text \<open>A directory that was just put, with its children so far.\<close>

lemma built_dir:
  assumes d: "open_dir root t d" and c: "good_name c" "lookup t (d @ [c]) = None"
  shows "open_dir root (put_node (d @ [c]) (FDir m built) t) (d @ [c])"
    and "lookup (put_node (d @ [c]) (FDir m built) t) ((d @ [c]) @ [x]) = map_of built x"
    and "map_of built x = None \<Longrightarrow> put_node ((d @ [c]) @ [x]) v (put_node (d @ [c]) (FDir m built) t) =
      put_node (d @ [c]) (FDir m (built @ [(x, v)])) t"
proof -
  obtain m' cs where dir: "lookup t d = Some (FDir m' cs)" using d by (auto simp: open_dir_def real_dir_iff)
  note at = lookup_put_same [OF dir, of c "FDir m built"]
  show "open_dir root (put_node (d @ [c]) (FDir m built) t) (d @ [c])"
    using d at good_name_plain [OF c(1)] by (auto simp: open_dir_def real_dir_iff)
  show "lookup (put_node (d @ [c]) (FDir m built) t) ((d @ [c]) @ [x]) = map_of built x"
    unfolding lookup_append [of _ "d @ [c]"] at by (cases "map_of built x") auto
  show "put_node ((d @ [c]) @ [x]) v (put_node (d @ [c]) (FDir m built) t) =
      put_node (d @ [c]) (FDir m (built @ [(x, v)])) t" if "map_of built x = None"
    using put_put [OF dir, of c "[x]" v "FDir m built"] that by simp
qed

lemma loops_children:
  assumes d: "open_dir root t d" and c: "good_name c" "lookup t (d @ [c]) = None" and ds: "last ds = d @ [c]"
    and step: "\<And>x n t'. (x, n) \<in> set xs \<Longrightarrow> open_dir root t' (last ds) \<Longrightarrow> lookup t' (last ds @ [x]) = None \<Longrightarrow>
      loops E root request ds t' (concat (stream_of x n)) ds (put_node (last ds @ [x]) (normal n) t') (replicate (acks n) [0])"
    and fresh: "distinct (map fst built @ map fst xs)"
  shows "loops E root request ds (put_node (d @ [c]) (FDir m built) t)
    (concat (concat (map (\<lambda>(x, n). stream_of x n) xs))) ds
    (put_node (d @ [c]) (FDir m (built @ map (\<lambda>(x, n). (x, normal n)) xs)) t)
    (replicate (sum_list (map (\<lambda>(x, n). acks n) xs)) [0])"
  using step fresh
proof (induction xs arbitrary: built)
  case Nil
  then show ?case by (simp add: loops_refl)
next
  case (Cons y xs)
  obtain x n where y: "y = (x, n)" by fastforce
  have new: "map_of built x = None" using Cons.prems(2) by (simp add: y map_of_eq_None_iff)
  note b = built_dir [OF d c, where m = m and built = built]
  have "loops E root request ds (put_node (d @ [c]) (FDir m built) t) (concat (stream_of x n)) ds
      (put_node (d @ [c]) (FDir m (built @ [(x, normal n)])) t) (replicate (acks n) [0])"
    using Cons.prems(1) [of x n, OF _ b(1) [folded ds]] b(2) [where x = x] b(3) [OF new, where v = "normal n"] new
    by (simp add: y ds)
  moreover have "loops E root request ds (put_node (d @ [c]) (FDir m (built @ [(x, normal n)])) t)
      (concat (concat (map (\<lambda>(x, n). stream_of x n) xs))) ds
      (put_node (d @ [c]) (FDir m ((built @ [(x, normal n)]) @ map (\<lambda>(x, n). (x, normal n)) xs)) t)
      (replicate (sum_list (map (\<lambda>(x, n). acks n) xs)) [0])"
    using Cons.prems by (intro Cons.IH) (auto simp: y)
  ultimately show ?case using loops_trans by (fastforce simp: y replicate_add)
qed

lemma loops_node:
  assumes E: "calm E" and r: "scp_recursive request"
    and "portable k n" and "open_dir root t (last ds)" and "good_name c" and "lookup t (last ds @ [c]) = None"
    and "ds \<noteq> []" and "length ds + k \<le> MAX_RECURSION_DEPTH"
  shows "loops E root request ds t (concat (stream_of c n)) ds (put_node (last ds @ [c]) (normal n) t)
    (replicate (acks n) [0])"
  using assms(3-)
proof (induction k arbitrary: n t ds c)
  case 0
  then obtain m d where "n = FFile m d" "length d \<le> MAX_FILE_SIZE" by (cases n) auto
  with loops_file [OF E 0(2,3,4)] show ?case by simp
next
  case (Suc k)
  show ?case
  proof (cases n)
    case (FFile m d)
    with loops_file [OF E Suc.prems(2,3,4)] Suc.prems(1) show ?thesis by simp
  next
    case (FDir m cs)
    let ?p = "last ds @ [c]" and ?cs = "sort_key fst cs"
    have "loops E root request (ds @ [?p]) (put_node ?p (FDir (m AND 511) []) t)
        (concat (concat (map (\<lambda>(x, n). stream_of x n) ?cs))) (ds @ [?p])
        (put_node ?p (FDir (m AND 511) ([] @ map (\<lambda>(x, n). (x, normal n)) ?cs)) t)
        (replicate (sum_list (map (\<lambda>(x, n). acks n) ?cs)) [0])"
    proof (rule loops_children [OF Suc.prems(2,3,4)])
      fix x n' t' assume x: "(x, n') \<in> set ?cs" and t': "open_dir root t' (last (ds @ [?p]))" "lookup t' (last (ds @ [?p]) @ [x]) = None"
      note ch = portable_child(2,3) [OF Suc.prems(1) [unfolded FDir] x]
      show "loops E root request (ds @ [?p]) t' (concat (stream_of x n')) (ds @ [?p])
          (put_node (last (ds @ [?p]) @ [x]) (normal n') t') (replicate (acks n') [0])"
        using Suc.prems(6) by (intro Suc.IH ch t') auto
    next
      have "distinct (map fst cs)" using Suc.prems(1) FDir by simp
      then show "distinct (map fst [] @ map fst ?cs)" by (simp flip: sort_names)
    qed simp
    moreover have "loops E root request ds t (control_line (CHR ''D'') (m AND 511) 0 c) (ds @ [?p])
        (put_node ?p (FDir (m AND 511) []) t) [[0]]"
      using Suc.prems(6) by (intro loops_enter [OF E Suc.prems(2,3,4) r]) simp
    ultimately have "loops E root request ds t (control_line (CHR ''D'') (m AND 511) 0 c @
        concat (concat (map (\<lambda>(x, n). stream_of x n) ?cs)) @ as_bytes (''E'' @ [NL])) ds
        (put_node ?p (normal (FDir m cs)) t) ([[0]] @ replicate (sum_list (map (\<lambda>(x, n). acks n) ?cs)) [0] @ [[0]])"
      unfolding normal.simps append_Nil
      by (intro loops_trans [OF _ loops_trans [OF _ loops_leave [OF E Suc.prems(5)]]])
    with FDir show ?thesis by (simp add: replicate_append_same)
  next
    case (FLink l)
    with Suc.prems show ?thesis by simp
  qed
qed

section \<open>Whole transfers\<close>

text \<open>The node a source request names, and the existing directory a sink request names.\<close>

definition names_node :: "fnode \<Rightarrow> tpath \<Rightarrow> scp_request \<Rightarrow> tpath \<Rightarrow> bool" where
  "names_node t root request p \<longleftrightarrow>
     (let relative = relative_segments (scp_target request) in
      validate_relative relative = Ok () \<and> canonicalize t (root @ relative) = Ok p \<and> prefix root p)"

definition names_dir :: "fnode \<Rightarrow> tpath \<Rightarrow> scp_request \<Rightarrow> tpath \<Rightarrow> bool" where
  "names_dir t root request d \<longleftrightarrow> names_node t root request d \<and> real_dir t d \<and>
     (\<exists>n. symlink_metadata t (root @ relative_segments (scp_target request)) = Ok n \<and> \<not> is_flink n)"

lemma does_send_source:
  assumes E: "calm E" and request: "scp_recursive request" "\<not> scp_preserve_times request" and t: "is_fdir t"
    and p: "names_node t root request p" "lookup t p = Some n" "portable 31 n" "p \<noteq> []" "good_name (last p)"
  shows "does (send_source E root request) t (replicate (Suc (acks n)) 0) () t (stream_of (last p) n)"
proof -
  have c: "canonical t p" using p(1) canonicalize_canonical [OF t] by (auto simp: names_node_def Let_def)
  have "does (do_then expect_ack (\<lambda>_. send_entry E root request MAX_RECURSION_DEPTH p (last p))) t
      ([0] @ replicate (acks n) 0) () t ([] @ stream_of (last p) n)"
    using does_send_entry [OF E request t p(3) c p(2), of root "last p"] p(1)
    by (intro does_then [OF does_expect_ack]) (simp add: names_node_def Let_def MAX_RECURSION_DEPTH_def)
  then have tail: "does (do_then expect_ack (\<lambda>_. send_entry E root request MAX_RECURSION_DEPTH p (last p))) t
      (replicate (Suc (acks n)) 0) () t (stream_of (last p) n)" by simp
  have root: "prefix root p" using p(1) by (simp add: names_node_def Let_def)
  show ?thesis
    unfolding send_source_def Let_def
    apply (rule does_silent [OF does_lift])
     apply (use p(1) in \<open>simp add: names_node_def Let_def\<close>)
    apply (rule does_silent [OF does_try_query [OF E, where v = p]])
     apply (use p(1) in \<open>simp add: names_node_def Let_def\<close>)
    apply (simp add: root)
    apply (rule does_silent [OF does_try_query [OF E, where v = n]])
     apply (rule canonical_symlink_metadata [OF c p(2) t])
    apply (use portable_not_link [OF p(3)] in simp)
    apply (rule does_silent [OF does_check])
     apply (use p(4,5) in \<open>simp add: good_name_def\<close>)
    apply (rule does_silent [OF does_lift])
     apply (use p(5) in \<open>simp add: good_name_def\<close>)
    apply (use tail in simp)
    done
qed

lemma wait_byte_end:
  assumes "leading ms = []" and "trailing ms = ScpEof # ms'"
  shows "wait_byte ms s = (Err ScpProtocolError, s\<lparr>st_msgs := ms', st_end_of_input := True\<rparr>)"
  using assms
proof (induction ms rule: leading.induct)
  case (1 d ms)
  then show ?case by (cases d) auto
qed auto

lemma sink_loop_end:
  assumes "avail s = []" and "trailing (st_msgs s) = ScpEof # ms'"
  shows "\<exists>s'. sink_loop E root request [d] None s = (Ok (), s') \<and> st_tree s' = st_tree s \<and> st_sent s' = st_sent s"
proof -
  have b: "st_buffer s = []" "leading (st_msgs s) = []" using assms(1) by (simp_all add: avail_def)
  obtain n where n: "MAX_CONTROL_LINE = Suc n" by (simp add: MAX_CONTROL_LINE_def)
  have "read_byte s = (Err ScpProtocolError, s\<lparr>st_msgs := ms', st_end_of_input := True\<rparr>)"
    using wait_byte_end [OF b(2) assms(2)] b(1) by (simp add: read_byte_def)
  then have "read_line s = (Err ScpProtocolError,
      s\<lparr>st_msgs := ms', st_end_of_input := True, st_incomplete_control := False\<rparr>)"
    by (simp add: read_line_def n)
  then show ?thesis by (simp add: sink_loop.simps)
qed

lemma does_sink_target:
  assumes E: "calm E" and d: "names_dir t root request d"
  shows "does (resolve_sink_target E root request) t [] \<lparr>sink_directory = d, sink_forced_file = None\<rparr> t []"
proof -
  let ?segs = "root @ relative_segments (scp_target request)"
  obtain n where n: "symlink_metadata t ?segs = Ok n" "\<not> is_flink n" using d by (auto simp: names_dir_def)
  have seg: "validate_relative (relative_segments (scp_target request)) = Ok ()" "canonicalize t ?segs = Ok d" "prefix root d"
    using d by (simp_all add: names_dir_def names_node_def Let_def)
  have dir: "real_dir t d" using d by (simp add: names_dir_def)
  have "node_at t d = Ok (the (lookup t d))" "is_fdir (the (lookup t d))"
    using dir canonicalize_canonical [OF real_dir_root [OF dir] seg(2)] by (auto simp: canonical_node_at real_dir_iff)
  then have isdir: "does (path_is E is_fdir d) t [] True t []"
    unfolding path_is_def by (intro does_silent [OF does_query [OF E]]) (simp add: does_ret)
  show ?thesis
    unfolding resolve_sink_target_def Let_def
    apply (rule does_silent [OF does_lift [OF seg(1)]])
    apply (rule does_silent [OF does_query [OF E]])
    apply (simp add: n metadata_is_redirect_def)
    apply (rule does_silent [OF does_try_query [OF E, where v = d]])
     apply (simp add: seg(2))
    apply (simp add: seg(3))
    apply (rule does_silent [OF isdir])
    apply (simp add: does_ret)
    done
qed

lemma receive_sink_stream:
  assumes E: "calm E" and request: "scp_recursive request" and d: "names_dir t root request d"
    and n: "portable 31 n" "good_name c" "lookup t (d @ [c]) = None"
    and s: "st_tree s = t" "avail s = concat (stream_of c n)" "trailing (st_msgs s) = ScpEof # ms'"
  shows "\<exists>s'. receive_sink E root request s = (Ok (), s') \<and> st_tree s' = put_node (d @ [c]) (normal n) t \<and>
    st_sent s' = st_sent s @ replicate (Suc (acks n)) (OutData [0])"
proof -
  let ?target = "\<lparr>sink_directory = d, sink_forced_file = None :: tpath option\<rparr>"
  have dir: "open_dir root t d"
    using d canonicalize_canonical [OF real_dir_root] by (auto simp: names_dir_def names_node_def open_dir_def canonical_def Let_def)
  have s0: "avail s = [] @ concat (stream_of c n)" using s(2) by simp
  obtain s1 where s1: "resolve_sink_target E root request s = (Ok ?target, s1)" "leads s (concat (stream_of c n)) t [] s1"
    by (rule doesE [OF does_sink_target [OF E d] s(1) s0])
  obtain s2 where s2: "send_ack E s1 = (Ok (), s2)" "leads s1 (concat (stream_of c n)) t [[0]] s2"
    using doesE [OF does_send_ack [OF E] leads_tree [OF s1(2)], of "concat (stream_of c n)"] leads_avail [OF s1(2)] by auto
  have "loops E root request [d] t (concat (stream_of c n)) [d] (put_node (last [d] @ [c]) (normal n) t) (replicate (acks n) [0])"
    using dir n by (intro loops_node [OF E request]) (auto simp: MAX_RECURSION_DEPTH_def)
  then obtain s3 where s3: "sink_loop E root request [d] None s2 = sink_loop E root request [d] None s3"
    "leads s2 [] (put_node (d @ [c]) (normal n) t) (replicate (acks n) [0]) s3"
    using loopsE [OF _ leads_tree [OF s2(2)], of E root request "[d]" "concat (stream_of c n)" "[d]" _ _ "[]"]
      leads_avail [OF s2(2)] by auto
  have e: "trailing (st_msgs s3) = ScpEof # ms'" using s(3) s1(2) s2(2) s3(2) by (simp add: leads_def)
  obtain s4 where s4: "sink_loop E root request [d] None s3 = (Ok (), s4)" "st_tree s4 = st_tree s3" "st_sent s4 = st_sent s3"
    using sink_loop_end [OF leads_avail [OF s3(2)] e] by blast
  have "receive_sink E root request s = (Ok (), s4)"
    using s1(1) s2(1) s3(1) s4(1) by (simp add: receive_sink_def do_then_def)
  moreover have "st_sent s4 = st_sent s @ replicate (Suc (acks n)) (OutData [0])"
    using s1(2) s2(2) s3(2) s4(3) by (simp add: leads_def map_replicate)
  ultimately show ?thesis using s3(2) s4(2) by (auto simp: leads_def)
qed

lemma serve_ok:
  assumes "calm E"
    and "(case scp_direction request of Sink \<Rightarrow> receive_sink E root request s | Source \<Rightarrow> send_source E root request s) =
      (Ok (), sf)"
  shows "st_sent (serve_scp E root (Ok request) s) = st_sent sf @ [OutExit 0, OutEof, OutClose]"
    and "st_tree (serve_scp E root (Ok request) s) = st_tree sf"
  using assms by (auto simp: serve_scp_def do_then_def ignore_result_def do_ret_def put_out_def calm_def Let_def)

lemma normal_lookup:
  assumes "portable k n"
  shows "lookup (normal n) q = map_option normal (lookup n q)"
  using assms
proof (induction q arbitrary: k n)
  case Nil
  then show ?case by simp
next
  case (Cons c q)
  show ?case
  proof (cases n)
    case (FDir m cs)
    with Cons.prems obtain j where k: "k = Suc j" and d: "distinct (map fst cs)" by (cases k) auto
    have "map_of (sort_key fst cs) = map_of cs"
      using d by (metis distinct_map distinct_sort map_of_inject_set set_sort sort_names)
    then have "map_of (map (\<lambda>(c, n). (c, normal n)) (sort_key fst cs)) c = map_option normal (map_of cs c)"
      by (simp add: map_of_map)
    moreover have "portable j n'" if "map_of cs c = Some n'" for n'
      using Cons.prems that by (auto simp: FDir k list_all_iff dest!: map_of_SomeD)
    ultimately show ?thesis using Cons.IH by (cases "map_of cs c") (auto simp: FDir)
  next
    case (FFile m d)
    then show ?thesis by simp
  next
    case (FLink l)
    then show ?thesis by simp
  qed
qed

text \<open>
  C7. A transfer from one tree to another: when no call fails, the source of a subtree (files and
  directories, at most 31 levels of directories, no file above the size limit, names that can be
  sent) sends exactly its stream and ends with status 0, given as many acknowledgements as the
  sink sends. A sink that receives this stream, divided into messages in any way and then ended,
  sends exactly these acknowledgements, ends with status 0, and has rebuilt the subtree below its
  target directory: the same names and contents at the same paths, with the permission bits of
  the modes. It changes nothing else.
\<close>

theorem scp_roundtrip:
  assumes "calm E" and "calm E'"
    and "scp_direction source = Source" and "scp_recursive source" and "\<not> scp_preserve_times source"
    and "is_fdir t" and "names_node t root source p" and "lookup t p = Some n" and "portable 31 n"
    and "p \<noteq> []" and "good_name (last p)"
    and "st_tree s = t" and "avail s = replicate (Suc (acks n)) 0 @ rest" and "st_sent s = []"
    and "scp_direction sink = Sink" and "scp_recursive sink"
    and "names_dir t' root' sink d" and "lookup t' (d @ [last p]) = None"
    and "st_tree s' = t'" and "avail s' = concat (stream_of (last p) n)"
    and "trailing (st_msgs s') = ScpEof # ms" and "st_sent s' = []"
  shows "st_sent (serve_scp E root (Ok source) s) = map OutData (stream_of (last p) n) @ [OutExit 0, OutEof, OutClose] \<and>
    st_sent (serve_scp E' root' (Ok sink) s') = replicate (Suc (acks n)) (OutData [0]) @ [OutExit 0, OutEof, OutClose] \<and>
    st_tree (serve_scp E' root' (Ok sink) s') = put_node (d @ [last p]) (normal n) t' \<and>
    (\<forall>q. lookup (st_tree (serve_scp E' root' (Ok sink) s')) (d @ [last p] @ q) = map_option normal (lookup t (p @ q)))"
proof -
  obtain s1 where s1: "send_source E root source s = (Ok (), s1)" "leads s rest t (stream_of (last p) n) s1"
    by (rule doesE [OF does_send_source [OF assms(1,4,5,6,7,8,9,10,11)] assms(12,13)])
  obtain s2 where s2: "receive_sink E' root' sink s' = (Ok (), s2)" "st_tree s2 = put_node (d @ [last p]) (normal n) t'"
    "st_sent s2 = st_sent s' @ replicate (Suc (acks n)) (OutData [0])"
    using receive_sink_stream [OF assms(2,16,17,9,11,18,19,20,21)] by blast
  obtain m cs where dir: "lookup t' d = Some (FDir m cs)" using assms(17) by (auto simp: names_dir_def real_dir_iff)
  have "lookup (put_node (d @ [last p]) (normal n) t') ((d @ [last p]) @ q) = map_option normal (lookup t (p @ q))" for q
    unfolding lookup_append [of _ "d @ [last p]"] lookup_append [of t p] lookup_put_same [OF dir] assms(8)
    by (simp add: normal_lookup [OF assms(9)])
  moreover have "st_sent (serve_scp E root (Ok source) s) = map OutData (stream_of (last p) n) @ [OutExit 0, OutEof, OutClose]"
    using serve_ok(1) [OF assms(1), where request = source and sf = s1] s1 assms(3,14) by (simp add: leads_def)
  moreover have "st_sent (serve_scp E' root' (Ok sink) s') = replicate (Suc (acks n)) (OutData [0]) @ [OutExit 0, OutEof, OutClose]"
    "st_tree (serve_scp E' root' (Ok sink) s') = put_node (d @ [last p]) (normal n) t'"
    using serve_ok [OF assms(2), where request = sink and sf = s2] s2 assms(15,22) by simp_all
  ultimately show ?thesis by simp
qed

text \<open>A directory with a file, sent from one tree into the root of another.\<close>

definition calm_env :: scp_env where
  "calm_env = \<lparr>env_fault = \<lambda>_. Works, env_send_fails = \<lambda>_. False, env_file_mode = 420,
     env_dir_mode = 493, env_modified = \<lambda>_ _. None, env_accessed = \<lambda>_ _. None\<rparr>"

definition demo_node :: fnode where
  "demo_node = FDir 2541 [(''f'', FFile 420 [1, 2])]"

definition demo_request :: "scp_direction \<Rightarrow> path \<Rightarrow> scp_request" where
  "demo_request dir target = \<lparr>scp_direction = dir, scp_recursive = True, scp_preserve_times = False,
     scp_target_is_directory = True, scp_target = target\<rparr>"

definition demo_source :: scp_state where
  "demo_source = \<lparr>st_tree = FDir 493 [(''a'', demo_node)], st_calls = 0,
     st_msgs = [ScpData [0, 0, 0, 0, 0]], st_buffer = [], st_end_of_input = False,
     st_incomplete_control = False, st_sends = 0, st_sent = []\<rparr>"

definition demo_sink :: scp_state where
  "demo_sink = \<lparr>st_tree = FDir 493 [(''b'', FFile 420 [])], st_calls = 0,
     st_msgs = map ScpData (stream_of ''a'' demo_node) @ [ScpEof], st_buffer = [], st_end_of_input = False,
     st_incomplete_control = False, st_sends = 0, st_sent = []\<rparr>"

lemma leading_stream: "leading (map ScpData bss @ [ScpEof]) = concat bss" "trailing (map ScpData bss @ [ScpEof]) = [ScpEof]"
  by (induction bss) auto

theorem scp_roundtrip_witness:
  "st_tree (serve_scp calm_env [] (Ok (demo_request Sink ''.'')) demo_sink) =
     FDir 493 [(''b'', FFile 420 []), (''a'', FDir 493 [(''f'', FFile 420 [1, 2])])]"
proof -
  have name: "good_name ''a''" "good_name ''f''"
    by (simp_all add: good_name_def validate_name_def utf8_valid_ascii byte_in_def)
  have "portable (Suc (Suc 29)) demo_node"
    unfolding portable.simps demo_node_def using name by (simp add: MAX_FILE_SIZE_def)
  moreover have "Suc (Suc 29) = (31 :: nat)" by simp
  ultimately have depth: "portable 31 demo_node" by (simp only:)
  have node: "acks demo_node = Suc (Suc (Suc (Suc 0)))" "normal demo_node = FDir 493 [(''f'', FFile 420 [1, 2])]"
    by (simp_all add: demo_node_def)
  have src: "names_node (st_tree demo_source) [] (demo_request Source ''a'') [''a'']"
    by (simp add: names_node_def demo_request_def relative_segments_def validate_relative_def demo_source_def
        demo_node_def canonicalize_def walk.simps)
  have snk: "names_dir (st_tree demo_sink) [] (demo_request Sink ''.'') []"
    by (simp add: names_dir_def names_node_def demo_request_def relative_segments_def validate_relative_def
        demo_sink_def canonicalize_def walk.simps real_dir_iff symlink_metadata_def)
  have "st_tree (serve_scp calm_env [] (Ok (demo_request Sink ''.'')) demo_sink) =
      put_node ([] @ [last [''a'']]) (normal demo_node) (st_tree demo_sink)"
    using scp_roundtrip [of calm_env calm_env "demo_request Source ''a''" "st_tree demo_source" "[]" "[''a'']" demo_node
        demo_source "[]" "demo_request Sink ''.''" "st_tree demo_sink" "[]" "[]" demo_sink "[]"] src snk node name depth
    by (simp add: calm_def calm_env_def demo_request_def demo_source_def demo_sink_def avail_def leading_stream)
  then show ?thesis by (simp add: node demo_sink_def)
qed

end
