(* ===== verification/Scp_Source.thy ===== *)
theory Scp_Source
  imports Scp_Confined
begin

text \<open>
  What the SCP source can disclose: only nodes below its root, whichever way the links of the
  tree point.
\<close>

unbundle bit_operations_syntax

section \<open>Programs that send only some messages\<close>

text \<open>Started in tree \<open>t\<close>, the program leaves the tree alone and everything it sends satisfies \<open>P\<close>.\<close>

definition sends :: "fnode \<Rightarrow> (scp_out \<Rightarrow> bool) \<Rightarrow> 'a scp \<Rightarrow> bool" where
  "sends t P m \<longleftrightarrow> (\<forall>s :: scp_state. st_tree s = t \<longrightarrow> st_tree (snd (m s)) = t \<and>
     (\<exists>out. st_sent (snd (m s)) = st_sent s @ out \<and> list_all P out))"

named_theorems sends_intros \<open>programs that send only some messages\<close>

text \<open>The second program needs to be considered only for values the first can return.\<close>

lemma sends_then:
  assumes "sends t P m" and "\<And>v s s'. st_tree s = t \<Longrightarrow> m s = (Ok v, s') \<Longrightarrow> sends t P (k v)"
  shows "sends t P (do_then m k)"
  unfolding sends_def
proof (intro allI impI)
  fix s :: scp_state assume s: "st_tree s = t"
  obtain r s1 where m: "m s = (r, s1)" by fastforce
  with assms(1) s obtain o1 where s1: "st_tree s1 = t" "st_sent s1 = st_sent s @ o1" "list_all P o1"
    unfolding sends_def by (metis snd_conv)
  show "st_tree (snd (do_then m k s)) = t \<and> (\<exists>out. st_sent (snd (do_then m k s)) = st_sent s @ out \<and> list_all P out)"
  proof (cases r)
    case (Inl e)
    with m s1 show ?thesis by (simp add: do_then_def)
  next
    case (Inr v)
    with assms(2) s m have "sends t P (k v)" by blast
    with s1(1) obtain o2 where "st_tree (snd (k v s1)) = t" "st_sent (snd (k v s1)) = st_sent s1 @ o2" "list_all P o2"
      unfolding sends_def by blast
    with m s1 Inr show ?thesis by (auto simp: do_then_def intro!: exI [of _ "o1 @ o2"])
  qed
qed

lemma sends_seq: "sends t P m \<Longrightarrow> (\<And>v. sends t P (k v)) \<Longrightarrow> sends t P (do_then m k)"
  by (rule sends_then)

lemma sends_basic [sends_intros]: "sends t P (do_ret v)" "sends t P scp_fail" "sends t P (do_lift r)"
    "sends t P (scp_check b)"
  by (auto simp: sends_def do_ret_def scp_fail_def do_lift_def scp_check_def)

lemma sends_put_out: "P x \<Longrightarrow> sends t P (put_out E x)"
  by (auto simp: sends_def put_out_def Let_def)

lemma sends_wire [sends_intros]: "P (OutData bs) \<Longrightarrow> sends t P (wire_send E bs)" "P (OutData [0]) \<Longrightarrow> sends t P (send_ack E)"
  by (simp_all add: wire_send_def send_ack_def sends_put_out)

lemma sends_query [sends_intros]: "sends t P (sys_call E (query q))" "sends t P (sys_try E (query q))"
proof -
  show call: "sends t P (sys_call E (query q))" by (auto simp: sends_def sys_call_def query_def)
  show "sends t P (sys_try E (query q))"
    unfolding sys_try_def by (rule sends_then [OF call]) (rule sends_basic(3))
qed

lemma sends_read_byte [sends_intros]: "sends t P read_byte"
proof -
  have "st_sent (snd (wait_byte ms s)) = st_sent s" for ms s
    by (induction ms s rule: wait_byte.induct) (auto split: list.splits)
  then show ?thesis
    by (auto simp: sends_def read_byte_def wait_byte_tree split: list.splits)
qed

lemma sends_expect_ack [sends_intros]: "sends t P expect_ack"
  unfolding expect_ack_def by (rule sends_then [OF sends_read_byte]) (rule sends_basic(4))

lemma sends_for: "(\<And>x. x \<in> set xs \<Longrightarrow> sends t P (f x)) \<Longrightarrow> sends t P (scp_for f xs)"
  by (induction xs) (auto intro!: sends_intros sends_then)

lemma sends_ignore: "sends t P m \<Longrightarrow> sends t P (ignore_result m)"
  by (simp add: sends_def ignore_result_def split: prod.splits) (metis snd_conv)

lemma sends_try_then:
  assumes "\<And>v. q t = Ok v \<Longrightarrow> sends t P (k v)"
  shows "sends t P (do_then (sys_try E (query q)) k)"
  using assms by (intro sends_then sends_query) (auto dest!: try_query_ok)

section \<open>The source\<close>

text \<open>The name under which a node is sent: the last component of its own path, or the name of an
  entry of a directory below the root that resolves to it.\<close>

definition entry_name :: "fnode \<Rightarrow> tpath \<Rightarrow> tpath \<Rightarrow> string \<Rightarrow> bool" where
  "entry_name t root p name \<longleftrightarrow> p \<noteq> [] \<and> name = last p \<or>
     (\<exists>q m cs. prefix root q \<and> lookup t q = Some (FDir m cs) \<and> name \<in> fst ` set cs \<and>
       canonicalize t (q @ [name]) = Ok p)"

text \<open>The line of times for what one metadata call read.\<close>

definition times_line :: "u64 option \<Rightarrow> u64 option \<Rightarrow> bytes" where
  "times_line modified accessed =
     (let m = (case modified of None \<Rightarrow> 0 | Some d \<Rightarrow> d);
          a = (case accessed of None \<Rightarrow> m | Some d \<Rightarrow> d)
      in as_bytes (''T'' @ show_nat (unat m) @ '' 0 '' @ show_nat (unat a) @ '' 0'' @ [NL]))"

text \<open>A message that tells nothing beyond the nodes below the root: the contents of a file, a control
  line with the mode, the length and the name of a node, the times of a node, or a fixed message.\<close>

inductive discloses :: "scp_env \<Rightarrow> fnode \<Rightarrow> tpath \<Rightarrow> scp_out \<Rightarrow> bool" for E t root where
  contents: "prefix root p \<Longrightarrow> lookup t p = Some (FFile m d) \<Longrightarrow> discloses E t root (OutData d)"
| file_line: "prefix root p \<Longrightarrow> lookup t p = Some (FFile m d) \<Longrightarrow> entry_name t root p name \<Longrightarrow> discloses E t root
    (OutData (as_bytes (''C'' @ octal4 (m AND 511) @ '' '' @ show_nat (length d) @ '' '' @ name @ [NL])))"
| dir_line: "prefix root p \<Longrightarrow> lookup t p = Some (FDir m cs) \<Longrightarrow> entry_name t root p name \<Longrightarrow> discloses E t root
    (OutData (as_bytes (''D'' @ octal4 (m AND 511) @ '' 0 '' @ name @ [NL])))"
| times: "prefix root p \<Longrightarrow> lookup t p = Some n \<Longrightarrow> discloses E t root
    (OutData (times_line (env_modified E p i) (env_accessed E p i)))"
| leave: "discloses E t root (OutData (as_bytes (''E'' @ [NL])))"
| ack: "discloses E t root (OutData [0])"
| fatal: "discloses E t root (OutData (2 # as_bytes ''SCP request rejected by hermetic fixture'' @ [10]))"
| exit: "discloses E t root (OutExit c)"
| eof: "discloses E t root OutEof"
| close: "discloses E t root OutClose"

lemma canonical_metadata:
  assumes "canonical t p" and "is_fdir t" and "symlink_metadata t p = Ok n"
  shows "lookup t p = Some n"
proof (cases "p = []")
  case True
  with assms show ?thesis by (simp add: symlink_metadata_def canonical_canonicalize)
next
  case False
  have "canonicalize t (butlast p) = Ok (butlast p)"
  proof -
    obtain m cs where "lookup t (butlast p) = Some (FDir m cs)"
      using lookup_under_dir [of t "butlast p" "last p"] assms(1) False by (auto simp: canonical_def)
    then show ?thesis
      using assms(1) by (intro canonical_canonicalize) (auto simp: canonical_def list_all_iff dest: in_set_butlastD)
  qed
  moreover have "plain_name (last p)" using assms(1) False by (auto simp: canonical_def list_all_iff)
  ultimately show ?thesis
    using assms(3) False by (auto simp: symlink_metadata_def plain_name_def split: option.splits fnode.splits)
qed

lemma sends_metadata_then:
  assumes "\<And>n i. symlink_metadata t p = Ok n \<Longrightarrow> sends t P (k (n, env_modified E p i, env_accessed E p i))"
  shows "sends t P (do_then (entry_metadata E p) k)"
proof (rule sends_then)
  have "sends t P (do_then (sys_try E (query (\<lambda>t. symlink_metadata t p))) (\<lambda>n. do_ret (n, a, b)))"
    for a b :: "u64 option" by (intro sends_try_then sends_basic)
  then show "sends t P (entry_metadata E p)" unfolding sends_def entry_metadata_def by blast
next
  fix v :: "fnode \<times> u64 option \<times> u64 option" and s s'
  assume "st_tree s = t" "entry_metadata E p s = (Ok v, s')"
  then obtain n i where "v = (n, env_modified E p i, env_accessed E p i)" "symlink_metadata t p = Ok n"
    by (auto simp: entry_metadata_def run_ok dest!: try_query_ok)
  then show "sends t P (k v)" using assms by simp
qed

lemma sends_times:
  assumes "prefix root p" and "lookup t p = Some n"
  shows "sends t (discloses E t root) (send_times E (env_modified E p i) (env_accessed E p i))"
  using discloses.times [OF assms, of E i]
  unfolding send_times_def Let_def times_line_def by (intro sends_seq sends_intros)

lemma sends_entry:
  assumes "is_fdir t" and "canonical t p" and "entry_name t root p name"
  shows "sends t (discloses E t root) (send_entry E root request n p name)"
  using assms(2,3)
proof (induction n arbitrary: p name)
  case 0
  then show ?case by (simp add: sends_basic)
next
  case (Suc n)
  have md: "lookup t p = Some v" if "symlink_metadata t p = Ok v" for v
    using canonical_metadata [OF Suc.prems(1) assms(1) that] .
  have file_case: "sends t (discloses E t root) (do_then (wire_send E (as_bytes
        (''C'' @ octal4 (permissions_mode (FFile m d)) @ '' '' @ show_nat (length d) @ '' '' @ name @ [NL]))) (\<lambda>_.
      do_then expect_ack (\<lambda>_. do_then (sys_try E (query (\<lambda>t. file_data t p))) (\<lambda>data.
      do_then (wire_send E data) (\<lambda>_. do_then (send_ack E) (\<lambda>_. expect_ack))))))"
    if f: "lookup t p = Some (FFile m d)" "prefix root p" for m d
  proof -
    have "d' = d" if "file_data t p = Ok d'" for d'
      using that f canonical_canonicalize [OF Suc.prems(1)] by (simp add: file_data_def node_at_def)
    then show ?thesis
      using discloses.contents [OF f(2,1)] discloses.file_line [OF f(2,1) Suc.prems(2)]
      by (auto simp: permissions_mode_def intro!: sends_try_then sends_seq sends_intros discloses.ack)
  qed
  have child: "sends t (discloses E t root) (do_then (do_lift u) (\<lambda>_. do_then (do_lift w) (\<lambda>_.
      do_then (sys_try E (query (\<lambda>t. canonicalize t (p @ [c])))) (\<lambda>child.
      if \<not> under_root root child then scp_fail else send_entry E root request n child c))))"
    if "lookup t p = Some (FDir m cs)" "prefix root p" "c \<in> fst ` set cs" for u w c m cs
  proof -
    have "sends t (discloses E t root) (send_entry E root request n v c)"
      if "canonicalize t (p @ [c]) = Ok v" for v
      using that \<open>lookup t p = _\<close> \<open>prefix root p\<close> \<open>c \<in> _\<close>
      by (intro Suc.IH canonicalize_canonical [OF assms(1)]) (auto simp: entry_name_def)
    then show ?thesis
      by (intro sends_seq [OF sends_basic(3)] sends_try_then) (auto intro: sends_basic)
  qed
  have names: "set ns = fst ` set cs" if "dir_names t p = Ok ns" "lookup t p = Some (FDir m cs)" for ns m cs
    using that canonical_canonicalize [OF Suc.prems(1)] by (force simp: dir_names_def node_at_def)
  have dir_case: "sends t (discloses E t root) (do_then (wire_send E (as_bytes
        (''D'' @ octal4 (permissions_mode (FDir m cs)) @ '' 0 '' @ name @ [NL]))) (\<lambda>_.
      do_then expect_ack (\<lambda>_. do_then (sys_try E (query (\<lambda>t. dir_names t p))) (\<lambda>names.
      do_then (scp_for (\<lambda>c. do_then (do_lift (u c)) (\<lambda>_. do_then (do_lift (w c)) (\<lambda>_.
        do_then (sys_try E (query (\<lambda>t. canonicalize t (p @ [c])))) (\<lambda>child.
        if \<not> under_root root child then scp_fail else send_entry E root request n child c)))) (sort names)) (\<lambda>_.
      do_then (wire_send E (as_bytes (''E'' @ [NL]))) (\<lambda>_. expect_ack))))))"
    if d: "lookup t p = Some (FDir m cs)" "prefix root p" for m cs and u w :: "string \<Rightarrow> (unit, scp_protocol_error) result"
  proof -
    note line = discloses.dir_line [OF d(2,1) Suc.prems(2)]
    show ?thesis
      by (rule sends_seq [OF sends_wire(1)], use line in \<open>simp add: permissions_mode_def\<close>)
        (intro sends_seq [OF sends_expect_ack] sends_try_then sends_seq [OF sends_for] sends_seq
          sends_intros discloses.leave child [OF d], simp add: names d)
  qed
  show ?case
    unfolding send_entry.simps
    by (auto intro!: sends_metadata_then sends_seq [OF sends_times] sends_seq [OF sends_basic(1)] sends_basic
        file_case [simplified] dir_case [simplified] dest!: md split: fnode.splits)
qed

lemma sends_source:
  assumes t: "is_fdir t"
  shows "sends t (discloses E t root) (send_source E root request)"
proof -
  have "entry_name t root p (last p)" if "p \<noteq> []" for p using that by (simp add: entry_name_def)
  then have entry: "sends t (discloses E t root) (do_then (scp_check (p \<noteq> [] \<and> utf8_valid (last p))) (\<lambda>_.
      do_then (do_lift (validate_name (last p))) (\<lambda>_.
      do_then expect_ack (\<lambda>_. send_entry E root request k p (last p)))))" if "canonical t p" for p k
    using that by (intro sends_then [OF sends_basic(4)] sends_seq sends_intros sends_entry [OF t])
      (auto simp: scp_check_def do_lift_def do_ret_def scp_fail_def split: if_splits)
  show ?thesis
    unfolding send_source_def Let_def
    by (intro sends_seq sends_basic sends_try_then)
      (auto intro!: sends_try_then sends_basic entry canonicalize_canonical [OF t])
qed

text \<open>
  C9. Whatever is below or outside the root and however links point there, a source discloses only
  what is below its root: every message it sends is the contents of a file below the root; a
  control line with the mode, the length and the name of a node below the root, the name being
  that of the node itself or of an entry, in a directory below the root, that resolves to it; a line
  with the times that a metadata call read for a node below the root; or one of the fixed messages.
  And it leaves the tree as it is.
\<close>

theorem source_discloses_only_root:
  assumes "is_fdir (st_tree s)" and "scp_direction request = Source"
  shows "\<exists>out. st_sent (serve_scp E root (Ok request) s) = st_sent s @ out \<and>
    list_all (discloses E (st_tree s) root) out \<and> st_tree (serve_scp E root (Ok request) s) = st_tree s"
proof -
  let ?P = "discloses E (st_tree s) root" and ?t = "st_tree s"
  obtain x s1 where run: "send_source E root request s = (x, s1)" by fastforce
  with sends_source [OF assms(1), of E root request] obtain o1
    where s1: "st_tree s1 = ?t" "st_sent s1 = st_sent s @ o1" "list_all ?P o1"
    unfolding sends_def by (metis snd_conv)
  let ?tail = "do_then (ignore_result (if is_ok x then do_ret () else send_fatal E)) (\<lambda>_.
      do_then (ignore_result (put_out E (OutExit (if is_ok x then 0 else 1)))) (\<lambda>_.
      do_then (ignore_result (put_out E OutEof)) (\<lambda>_. ignore_result (put_out E OutClose))))"
  have "sends ?t ?P ?tail"
    by (intro sends_seq sends_ignore sends_put_out discloses.intros)
      (auto simp: send_fatal_def intro!: sends_intros discloses.fatal)
  then obtain o2 where "st_tree (snd (?tail s1)) = ?t" "st_sent (snd (?tail s1)) = st_sent s1 @ o2" "list_all ?P o2"
    using s1(1) unfolding sends_def by metis
  moreover have "serve_scp E root (Ok request) s = snd (?tail s1)"
    using assms(2) by (simp only: serve_scp_def sum.case scp_direction.case run prod.case)
  ultimately show ?thesis using s1(2,3) by (auto intro!: exI [of _ "o1 @ o2"])
qed

theorem source_discloses_only_root_witness:
  "\<exists>out. st_sent (serve_scp demo_scp_env [''srv''] (Ok (demo_scp_request\<lparr>scp_direction := Source\<rparr>)) demo_scp_state) = out \<and>
    list_all (discloses demo_scp_env (st_tree demo_scp_state) [''srv'']) out"
  using source_discloses_only_root [of demo_scp_state "demo_scp_request\<lparr>scp_direction := Source\<rparr>" demo_scp_env "[''srv'']"]
  by (simp add: demo_scp_state_def)

text \<open>The source asks whether a node is a link only after it has been resolved, so the answer is
  always no: links below the root are followed.\<close>

lemma source_link_check_void:
  assumes "is_fdir t" and "canonicalize t segs = Ok p" and "symlink_metadata t p = Ok n"
  shows "\<not> is_flink n"
  using canonical_metadata [OF canonicalize_canonical [OF assms(1,2)] assms(1,3)]
    canonicalize_canonical [OF assms(1,2)] by (auto simp: canonical_def)

end
