(* ===== verification/Sftp.thy ===== *)
theory Sftp
  imports Sys_Calls "HOL-Library.List_Lexorder" "HOL-Library.Char_ord"
begin

text \<open>
  The SFTP service of the fixtures, \<open>crates/rssh-test-support/src/ssh/sftp.rs\<close> lines 1 to 631: the
  isolated root with its path checks, and the session that serves requests on it with a table of
  open files and directories. The Unix variants of platform-dependent functions are modelled.
\<close>

unbundle bit_operations_syntax

section \<open>The isolated root\<close>

datatype sftp_path_error =
    UnsafePath path
  | OutsideRoot path
  | PathIo path fs_error

record sftp_root =
  root_directory :: "string list"
  root_canonical :: tpath

text \<open>\<open>SftpRoot::new\<close>; the temporary directory is created by a library, so its path is given.\<close>

definition sftp_root_new :: "fnode \<Rightarrow> (string list, fs_error) result \<Rightarrow> (sftp_root, fs_error) result" where
  "sftp_root_new t tempdir =
     and_then tempdir (\<lambda>directory.
     map_ok (\<lambda>c. \<lparr>root_directory = directory, root_canonical = c\<rparr>) (canonicalize t directory))"

definition sftp_root_path :: "sftp_root \<Rightarrow> tpath" where
  "sftp_root_path r = root_canonical r"

text \<open>A path text is unsafe when it is empty, absolute or has a parent component.\<close>

definition unsafe_relative :: "string list \<Rightarrow> bool" where
  "unsafe_relative segs \<longleftrightarrow> hd segs = [] \<or> ''..'' \<in> set segs"

definition sftp_validate_relative :: "path \<Rightarrow> (unit, sftp_path_error) result" where
  "sftp_validate_relative p =
     (if unsafe_relative (split_on (CHR ''/'') p) then Err (UnsafePath p) else Ok ())"

definition path_text :: "tpath \<Rightarrow> path" where
  "path_text p = concat (map (Cons (CHR ''/'')) p)"

definition ensure_canonical_containment :: "tpath \<Rightarrow> tpath \<Rightarrow> (unit, sftp_path_error) result" where
  "ensure_canonical_containment root candidate =
     (if under_root root candidate then Ok () else Err (OutsideRoot (path_text candidate)))"

definition root_ensure_contained :: "sftp_root \<Rightarrow> path \<Rightarrow> tpath \<Rightarrow> (tpath, sftp_path_error) result" where
  "root_ensure_contained r requested resolved =
     map_err (\<lambda>_. OutsideRoot requested)
       (map_ok (\<lambda>_. resolved) (ensure_canonical_containment (root_canonical r) resolved))"

definition sftp_metadata_is_redirect :: "fnode \<Rightarrow> bool" where
  "sftp_metadata_is_redirect n = is_flink n"

definition root_resolve_existing :: "fnode \<Rightarrow> sftp_root \<Rightarrow> path \<Rightarrow> (tpath, sftp_path_error) result" where
  "root_resolve_existing t r relative =
     and_then (sftp_validate_relative relative) (\<lambda>_.
     and_then (map_err (PathIo relative) (canonicalize t (root_directory r @ split_on (CHR ''/'') relative)))
       (root_ensure_contained r relative))"

definition root_resolve_for_create :: "fnode \<Rightarrow> sftp_root \<Rightarrow> path \<Rightarrow> (tpath, sftp_path_error) result" where
  "root_resolve_for_create t r relative =
     and_then (sftp_validate_relative relative) (\<lambda>_.
     let segs = split_on (CHR ''/'') relative; full = joined (root_canonical r) segs in
     (case symlink_metadata t (root_canonical r @ segs) of
        Inr metadata \<Rightarrow>
          if sftp_metadata_is_redirect metadata then Err (OutsideRoot relative)
          else and_then (map_err (PathIo relative) (canonicalize t (root_canonical r @ segs)))
            (root_ensure_contained r relative)
      | Inl NotFound \<Rightarrow>
          if full = [] then Err (UnsafePath relative)
          else
            and_then (map_err (PathIo relative) (canonicalize t (butlast full))) (\<lambda>canonical_parent.
            and_then (map_err (\<lambda>_. OutsideRoot relative)
              (ensure_canonical_containment (root_canonical r) canonical_parent)) (\<lambda>_.
            Ok (canonical_parent @ [last full])))
      | Inl e \<Rightarrow> Err (PathIo relative e)))"

text \<open>\<open>Display\<close>; the text of the system's error is given.\<close>

fun display_path_error :: "(fs_error \<Rightarrow> string) \<Rightarrow> sftp_path_error \<Rightarrow> string" where
  "display_path_error io (UnsafePath p) = ''unsafe fixture path: '' @ p"
| "display_path_error io (OutsideRoot p) = ''fixture path escapes temporary root: '' @ p"
| "display_path_error io (PathIo p e) = ''fixture path operation failed for '' @ p @ '': '' @ io e"

fun path_error_source :: "sftp_path_error \<Rightarrow> fs_error option" where
  "path_error_source (PathIo p e) = Some e"
| "path_error_source (UnsafePath p) = None"
| "path_error_source (OutsideRoot p) = None"

section \<open>Open files\<close>

text \<open>An open file stays open when its name goes away, so its place is a path of the tree or one
  of the nodes that have been unlinked.\<close>

datatype file_loc = At tpath | Orphan nat

record open_file =
  of_loc :: file_loc
  of_read :: bool
  of_write :: bool
  of_append :: bool

record open_options =
  oo_read :: bool
  oo_write :: bool
  oo_append :: bool
  oo_truncate :: bool
  oo_create :: bool
  oo_create_new :: bool

text \<open>The combinations of options that \<open>OpenOptions::open\<close> accepts.\<close>

definition options_valid :: "open_options \<Rightarrow> bool" where
  "options_valid options \<longleftrightarrow>
     (oo_read options \<or> oo_write options \<or> oo_append options) \<and>
     (if oo_append options then oo_truncate options \<longrightarrow> oo_create_new options
      else if oo_write options then True
      else \<not> oo_truncate options \<and> \<not> oo_create options \<and> \<not> oo_create_new options)"

definition opened :: "open_options \<Rightarrow> tpath \<Rightarrow> open_file" where
  "opened options p = \<lparr>of_loc = At p, of_read = oo_read options,
     of_write = (oo_write options \<or> oo_append options), of_append = oo_append options\<rparr>"

definition open_existing :: "open_options \<Rightarrow> tpath \<Rightarrow> fnode \<Rightarrow> (tpath, fs_error) result \<times> fnode" where
  "open_existing options q t =
     (case lookup t q of
        Some (FFile m d) \<Rightarrow> (Ok q, if oo_truncate options then put_node q (FFile m []) t else t)
      | Some (FDir m cs) \<Rightarrow>
          if oo_write options \<or> oo_append options then (Err OtherError, t) else (Ok q, t)
      | _ \<Rightarrow> (Err NotFound, t))"

definition open_new :: "u32 \<Rightarrow> tpath \<Rightarrow> fnode \<Rightarrow> (tpath, fs_error) result \<times> fnode" where
  "open_new mode q t = (Ok q, put_node q (FFile mode []) t)"

definition open_at ::
  "u32 \<Rightarrow> open_options \<Rightarrow> tpath \<Rightarrow> sys_fault \<Rightarrow> fnode \<Rightarrow> (tpath, fs_error) result \<times> fnode" where
  "open_at mode options p f t =
     (if \<not> options_valid options then (Err Invalid, t)
      else if f \<noteq> Works then (Err (fault_error f), t)
      else if oo_create_new options then
        (case canonicalize t (butlast p) of
           Inl e \<Rightarrow> (Err e, t)
         | Inr d \<Rightarrow>
             if p \<noteq> [] \<and> is_dir_at t d \<and> lookup t (d @ [last p]) = None
             then open_new mode (d @ [last p]) t else (Err OtherError, t))
      else if oo_create options then
        (case open_target MAX_LINKS t [] p of
           Inl e \<Rightarrow> (Err e, t)
         | Inr q \<Rightarrow>
             (case lookup t q of
                None \<Rightarrow> open_new mode q t
              | Some (FDir m cs) \<Rightarrow> (Err OtherError, t)
              | Some n \<Rightarrow> open_existing options q t))
      else
        (case canonicalize t p of
           Inl e \<Rightarrow> (Err e, t)
         | Inr q \<Rightarrow> open_existing options q t))"

text \<open>Removing a name: the nodes that go away stay reachable through open files.\<close>

fun del_node :: "tpath \<Rightarrow> fnode \<Rightarrow> fnode" where
  "del_node [c] (FDir m cs) = FDir m (AList.delete c cs)"
| "del_node (c # p) (FDir m cs) =
     (case map_of cs c of
        None \<Rightarrow> FDir m cs
      | Some n \<Rightarrow> FDir m (AList.update c (del_node p n) cs))"
| "del_node p n = n"

text \<open>The entry that a path names, without following a link in its last component.\<close>

definition entry_at :: "fnode \<Rightarrow> tpath \<Rightarrow> (tpath, fs_error) result" where
  "entry_at t p =
     (if p = [] then Err OtherError
      else and_then (canonicalize t (butlast p)) (\<lambda>d.
        if is_dir_at t d then Ok (d @ [last p]) else Err OtherError))"

section \<open>Session state\<close>

record file_attributes =
  attr_size :: "u64 option"
  attr_permissions :: "u32 option"

datatype sftp_handle =
    HFile open_file
  | HDirectory "(string \<times> file_attributes) list option"

datatype status_code = Eof | NoSuchFile | PermissionDenied | Failure | BadMessage | OpUnsupported

text \<open>The tree, the number of system calls made, the unlinked nodes, and the fields of
  \<open>SandboxedSftpSession\<close> but for the root.\<close>

record sftp_state =
  fs_tree :: fnode
  fs_calls :: nat
  fs_orphans :: "fnode list"
  sf_handles :: "string \<rightharpoonup> sftp_handle"
  sf_next_handle :: u64
  sf_initialized :: bool

text \<open>The environment, and what is not in the sources: how flags become options and which of them
  ask for creation, and the attributes of a node.\<close>

record sftp_env =
  se_fault :: "nat \<Rightarrow> sys_fault"
  se_file_mode :: u32
  se_dir_mode :: u32
  se_contains_create :: "u32 \<Rightarrow> bool"
  se_options :: "u32 \<Rightarrow> open_options"
  se_attributes :: "fnode \<Rightarrow> file_attributes"

type_synonym 'a sftp = "(sftp_state, status_code, 'a) run"

definition sftp_session_new :: "fnode \<Rightarrow> sftp_state" where
  "sftp_session_new t = \<lparr>fs_tree = t, fs_calls = 0, fs_orphans = [], sf_handles = Map.empty,
     sf_next_handle = 0, sf_initialized = False\<rparr>"

definition sftp_fail :: "status_code \<Rightarrow> 'a sftp" where
  "sftp_fail c = do_lift (Err c)"

definition map_io_status :: "fs_error \<Rightarrow> status_code" where
  "map_io_status e =
     (case e of NotFound \<Rightarrow> NoSuchFile | Denied \<Rightarrow> PermissionDenied | Invalid \<Rightarrow> BadMessage | OtherError \<Rightarrow> Failure)"

text \<open>A system call, and one whose error becomes a status.\<close>

definition fs_call ::
  "sftp_env \<Rightarrow> (sys_fault \<Rightarrow> fnode \<Rightarrow> ('a, fs_error) result \<times> fnode) \<Rightarrow> ('a, fs_error) result sftp" where
  "fs_call E f s =
     (case f (se_fault E (fs_calls s)) (fs_tree s) of
        (r, t) \<Rightarrow> (Ok r, s\<lparr>fs_tree := t, fs_calls := Suc (fs_calls s)\<rparr>))"

definition fs_try ::
  "sftp_env \<Rightarrow> (sys_fault \<Rightarrow> fnode \<Rightarrow> ('a, fs_error) result \<times> fnode) \<Rightarrow> 'a sftp" where
  "fs_try E f = do_then (fs_call E f) (\<lambda>r. do_lift (map_err map_io_status r))"

definition fs_path_is :: "sftp_env \<Rightarrow> (fnode \<Rightarrow> bool) \<Rightarrow> tpath \<Rightarrow> bool sftp" where
  "fs_path_is E kind p = do_then (fs_call E (query (\<lambda>t. node_at t p))) (\<lambda>r.
     do_ret (case r of Inl e \<Rightarrow> False | Inr n \<Rightarrow> kind n))"

text \<open>A token is \<open>fixture-\<close> and a number; the counter wraps around.\<close>

definition handle_token :: "u64 \<Rightarrow> string" where
  "handle_token n = ''fixture-'' @ show_nat (unat n)"

definition insert_handle :: "sftp_handle \<Rightarrow> string sftp" where
  "insert_handle h s =
     (Ok (handle_token (sf_next_handle s)),
      s\<lparr>sf_next_handle := sf_next_handle s + 1,
        sf_handles := (sf_handles s)(handle_token (sf_next_handle s) \<mapsto> h)\<rparr>)"

section \<open>Request paths\<close>

definition relative_path :: "string \<Rightarrow> (path, status_code) result" where
  "relative_path requested =
     (if CHR 0x00 \<in> set requested then Err BadMessage
      else if requested = ''.'' \<or> requested = ''/'' then Ok []
      else
        (let requested = (case strip_prefix ''./'' requested of Some r \<Rightarrow> r | None \<Rightarrow> requested);
             requested = (case strip_prefix ''/'' requested of Some r \<Rightarrow> r | None \<Rightarrow> requested)
         in
           if CHR 0x5C \<in> set requested \<or> 1 < length requested \<and> requested ! 1 = CHR '':'' then Err PermissionDenied
           else if unsafe_relative (split_on (CHR ''/'') requested) then Err PermissionDenied
           else Ok requested))"

definition sftp_ensure_contained :: "tpath \<Rightarrow> tpath \<Rightarrow> (tpath, status_code) result" where
  "sftp_ensure_contained root resolved = (if under_root root resolved then Ok resolved else Err PermissionDenied)"

definition sftp_resolve_existing :: "sftp_env \<Rightarrow> tpath \<Rightarrow> string \<Rightarrow> tpath sftp" where
  "sftp_resolve_existing E root requested =
     do_then (do_lift (relative_path requested)) (\<lambda>relative.
     do_then (fs_try E (query (\<lambda>t. canonicalize t (root @ split_on (CHR ''/'') relative)))) (\<lambda>resolved.
     do_lift (sftp_ensure_contained root resolved)))"

text \<open>The part of \<open>resolve_for_create\<close> after the check of the path text.\<close>

definition sftp_create_path :: "sftp_env \<Rightarrow> tpath \<Rightarrow> string list \<Rightarrow> tpath sftp" where
  "sftp_create_path E root segs =
     do_then (fs_call E (query (\<lambda>t. symlink_metadata t (root @ segs)))) (\<lambda>r.
       case r of
         Inr metadata \<Rightarrow>
           if sftp_metadata_is_redirect metadata then sftp_fail PermissionDenied
           else
             do_then (fs_try E (query (\<lambda>t. canonicalize t (root @ segs)))) (\<lambda>resolved.
             do_lift (sftp_ensure_contained root resolved))
       | Inl NotFound \<Rightarrow>
           if joined root segs = [] then sftp_fail PermissionDenied
           else
             do_then (fs_try E (query (\<lambda>t. canonicalize t (butlast (joined root segs))))) (\<lambda>parent.
             do_then (do_lift (sftp_ensure_contained root parent)) (\<lambda>parent.
             do_ret (parent @ [last (joined root segs)])))
       | Inl e \<Rightarrow> sftp_fail (map_io_status e))"

definition sftp_resolve_for_create :: "sftp_env \<Rightarrow> tpath \<Rightarrow> string \<Rightarrow> tpath sftp" where
  "sftp_resolve_for_create E root requested =
     do_then (do_lift (relative_path requested)) (\<lambda>relative.
     if relative = [] then sftp_fail PermissionDenied
     else sftp_create_path E root (split_on (CHR ''/'') relative))"

section \<open>Calls on open files\<close>

definition loc_node :: "file_loc \<Rightarrow> sftp_state \<Rightarrow> fnode option" where
  "loc_node l s =
     (case l of
        At p \<Rightarrow> lookup (fs_tree s) p
      | Orphan k \<Rightarrow> if k < length (fs_orphans s) then Some (fs_orphans s ! k) else None)"

definition set_loc :: "file_loc \<Rightarrow> fnode \<Rightarrow> sftp_state \<Rightarrow> sftp_state" where
  "set_loc l n s =
     (case l of
        At p \<Rightarrow> s\<lparr>fs_tree := put_node p n (fs_tree s)\<rparr>
      | Orphan k \<Rightarrow> s\<lparr>fs_orphans := (fs_orphans s)[k := n]\<rparr>)"

definition fd_query :: "sftp_env \<Rightarrow> open_file \<Rightarrow> (fnode \<Rightarrow> ('a, fs_error) result) \<Rightarrow> 'a sftp" where
  "fd_query E f q s =
     (let s' = s\<lparr>fs_calls := Suc (fs_calls s)\<rparr> in
      case loc_node (of_loc f) s of
        None \<Rightarrow> (Err Failure, s')
      | Some n \<Rightarrow> (map_err map_io_status (fst (query q (se_fault E (fs_calls s)) n)), s'))"

text \<open>A call that changes the file also gives its new contents.\<close>

definition fd_update ::
  "sftp_env \<Rightarrow> open_file \<Rightarrow> (sys_fault \<Rightarrow> bytes \<Rightarrow> (unit, fs_error) result \<times> bytes) \<Rightarrow> unit sftp" where
  "fd_update E f g s =
     (let s' = s\<lparr>fs_calls := Suc (fs_calls s)\<rparr> in
      case loc_node (of_loc f) s of
        Some (FFile m d) \<Rightarrow>
          (case g (se_fault E (fs_calls s)) d of
             (r, d') \<Rightarrow> (map_err map_io_status r, set_loc (of_loc f) (FFile m d') s'))
      | _ \<Rightarrow> (Err Failure, s'))"

text \<open>Writing at an offset; a gap after the old end is filled with zeros.\<close>

definition overwrite :: "nat \<Rightarrow> bytes \<Rightarrow> bytes \<Rightarrow> bytes" where
  "overwrite off data d =
     take off d @ replicate (off - length d) 0 @ data @ drop (off + length data) d"

definition resize :: "nat \<Rightarrow> bytes \<Rightarrow> bytes" where
  "resize n d = take n d @ replicate (n - length d) 0"

definition I64_LIMIT :: nat where
  "I64_LIMIT = 2 ^ 63"

definition file_seek :: "sftp_env \<Rightarrow> open_file \<Rightarrow> u64 \<Rightarrow> unit sftp" where
  "file_seek E f offset = fd_query E f (\<lambda>_. if I64_LIMIT \<le> unat offset then Err Invalid else Ok ())"

definition file_read :: "sftp_env \<Rightarrow> open_file \<Rightarrow> nat \<Rightarrow> nat \<Rightarrow> bytes sftp" where
  "file_read E f offset len = fd_query E f (\<lambda>n.
     case n of
       FFile m d \<Rightarrow> if of_read f then Ok (take len (drop offset d)) else Err OtherError
     | _ \<Rightarrow> Err OtherError)"

text \<open>\<open>write_all\<close> makes no call for no bytes; a file opened for appending is written at its end.\<close>

definition file_write_all :: "sftp_env \<Rightarrow> open_file \<Rightarrow> nat \<Rightarrow> bytes \<Rightarrow> unit sftp" where
  "file_write_all E f offset data =
     (if data = [] then do_ret ()
      else fd_update E f (\<lambda>fault d.
        let off = (if of_append f then length d else offset) in
        if \<not> of_write f then (Err OtherError, d)
        else (case fault of
                Works \<Rightarrow> (Ok (), overwrite off data d)
              | Stopped k \<Rightarrow> (Err OtherError, if k = 0 then d else overwrite off (take k data) d)
              | _ \<Rightarrow> (Err (fault_error fault), d))))"

definition file_set_len :: "sftp_env \<Rightarrow> open_file \<Rightarrow> u64 \<Rightarrow> unit sftp" where
  "file_set_len E f sz =
     (if I64_LIMIT \<le> unat sz \<or> \<not> of_write f then sftp_fail BadMessage
      else fd_update E f (\<lambda>fault d.
        if fault = Works then (Ok (), resize (unat sz) d) else (Err (fault_error fault), d)))"

section \<open>Calls that remove and move names\<close>

definition relocate :: "(file_loc \<Rightarrow> file_loc) \<Rightarrow> (string \<rightharpoonup> sftp_handle) \<Rightarrow> string \<rightharpoonup> sftp_handle" where
  "relocate g hs token =
     (case hs token of
        Some (HFile f) \<Rightarrow> Some (HFile (f\<lparr>of_loc := g (of_loc f)\<rparr>))
      | h \<Rightarrow> h)"

text \<open>The node at an entry loses its name; files open on it keep it.\<close>

definition unlink_entry :: "tpath \<Rightarrow> fnode \<Rightarrow> sftp_state \<Rightarrow> sftp_state" where
  "unlink_entry p n s =
     s\<lparr>fs_tree := del_node p (fs_tree s), fs_orphans := fs_orphans s @ [n],
       sf_handles := relocate (\<lambda>l. if l = At p then Orphan (length (fs_orphans s)) else l) (sf_handles s)\<rparr>"

definition moved :: "tpath \<Rightarrow> tpath \<Rightarrow> file_loc \<Rightarrow> file_loc" where
  "moved old new l =
     (case l of
        At p \<Rightarrow> if take (length old) p = old then At (new @ drop (length old) p) else At p
      | Orphan k \<Rightarrow> Orphan k)"

definition move_entry :: "tpath \<Rightarrow> tpath \<Rightarrow> fnode \<Rightarrow> sftp_state \<Rightarrow> sftp_state" where
  "move_entry old new n s =
     s\<lparr>fs_tree := put_node new n (del_node old (fs_tree s)),
       sf_handles := relocate (moved old new) (sf_handles s)\<rparr>"

text \<open>A call that changes names, on the whole state.\<close>

definition name_call ::
  "sftp_env \<Rightarrow> (sftp_state \<Rightarrow> (unit, fs_error) result \<times> sftp_state) \<Rightarrow> unit sftp" where
  "name_call E g s =
     (let s' = s\<lparr>fs_calls := Suc (fs_calls s)\<rparr>; f = se_fault E (fs_calls s) in
      if f \<noteq> Works then (Err (map_io_status (fault_error f)), s')
      else (case g s' of (r, s2) \<Rightarrow> (map_err map_io_status r, s2)))"

definition remove_file_at :: "tpath \<Rightarrow> sftp_state \<Rightarrow> (unit, fs_error) result \<times> sftp_state" where
  "remove_file_at p s =
     (case entry_at (fs_tree s) p of
        Inl e \<Rightarrow> (Err e, s)
      | Inr q \<Rightarrow>
          (case lookup (fs_tree s) q of
             None \<Rightarrow> (Err NotFound, s)
           | Some (FDir m cs) \<Rightarrow> (Err OtherError, s)
           | Some n \<Rightarrow> (Ok (), unlink_entry q n s)))"

definition remove_dir_at :: "tpath \<Rightarrow> sftp_state \<Rightarrow> (unit, fs_error) result \<times> sftp_state" where
  "remove_dir_at p s =
     (case entry_at (fs_tree s) p of
        Inl e \<Rightarrow> (Err e, s)
      | Inr q \<Rightarrow>
          (case lookup (fs_tree s) q of
             None \<Rightarrow> (Err NotFound, s)
           | Some (FDir m []) \<Rightarrow> (Ok (), unlink_entry q (FDir m []) s)
           | Some n \<Rightarrow> (Err OtherError, s)))"

text \<open>\<open>rename\<close>: onto itself it does nothing; a directory cannot move into itself; a directory
  replaces only an empty directory, and anything else only what is no directory.\<close>

definition may_replace :: "fnode \<Rightarrow> fnode \<Rightarrow> bool" where
  "may_replace n target =
     (case target of
        FDir m cs \<Rightarrow> is_fdir n \<and> cs = []
      | _ \<Rightarrow> \<not> is_fdir n)"

definition rename_at :: "tpath \<Rightarrow> tpath \<Rightarrow> sftp_state \<Rightarrow> (unit, fs_error) result \<times> sftp_state" where
  "rename_at old new s =
     (case (entry_at (fs_tree s) old, entry_at (fs_tree s) new) of
        (Inl e, _) \<Rightarrow> (Err e, s)
      | (_, Inl e) \<Rightarrow> (Err e, s)
      | (Inr p, Inr q) \<Rightarrow>
          (case lookup (fs_tree s) p of
             None \<Rightarrow> (Err NotFound, s)
           | Some n \<Rightarrow>
               if p = q then (Ok (), s)
               else if take (length p) q = p then (Err Invalid, s)
               else (case lookup (fs_tree s) q of
                  None \<Rightarrow> (Ok (), move_entry p q n s)
                | Some target \<Rightarrow>
                    if may_replace n target then (Ok (), move_entry p q n (unlink_entry q target s))
                    else (Err OtherError, s))))"

section \<open>Requests\<close>

datatype sftp_request =
    SInit
  | SOpen string u32 file_attributes
  | SClose string
  | SRead string u64 u32
  | SWrite string u64 bytes
  | SLstat string
  | SFstat string
  | SSetstat string file_attributes
  | SFsetstat string file_attributes
  | SOpendir string
  | SReaddir string
  | SRemove string
  | SMkdir string file_attributes
  | SRmdir string
  | SRealpath string
  | SStat string
  | SRename string string
  | SReadlink string
  | SSymlink string string
  | SExtended string bytes

datatype sftp_reply =
    RVersion
  | RStatusOk
  | RHandle string
  | RData bytes
  | RAttrs file_attributes
  | RNames "(string \<times> file_attributes) list"
  | RPath string

definition MAX_IO_SIZE :: nat where
  "MAX_IO_SIZE = 256 * 1024"

definition get_file :: "string \<Rightarrow> open_file sftp" where
  "get_file token s = (case sf_handles s token of Some (HFile f) \<Rightarrow> (Ok f, s) | _ \<Rightarrow> (Err Failure, s))"

definition apply_open_file_attributes :: "sftp_env \<Rightarrow> open_file \<Rightarrow> file_attributes \<Rightarrow> unit sftp" where
  "apply_open_file_attributes E f attrs =
     (case attr_size attrs of None \<Rightarrow> do_ret () | Some sz \<Rightarrow> file_set_len E f sz)"

definition apply_path_permissions :: "sftp_env \<Rightarrow> tpath \<Rightarrow> file_attributes \<Rightarrow> unit sftp" where
  "apply_path_permissions E p attrs =
     (case attr_permissions attrs of None \<Rightarrow> do_ret () | Some mode \<Rightarrow> fs_try E (chmod_at (mode AND 511) p))"

definition apply_file_attributes :: "sftp_env \<Rightarrow> open_file \<Rightarrow> tpath \<Rightarrow> file_attributes \<Rightarrow> unit sftp" where
  "apply_file_attributes E f p attrs =
     do_then (apply_open_file_attributes E f attrs) (\<lambda>_. apply_path_permissions E p attrs)"

definition sftp_init :: "sftp_reply sftp" where
  "sftp_init s = (if sf_initialized s then (Err BadMessage, s) else (Ok RVersion, s\<lparr>sf_initialized := True\<rparr>))"

definition sftp_open :: "sftp_env \<Rightarrow> tpath \<Rightarrow> string \<Rightarrow> u32 \<Rightarrow> file_attributes \<Rightarrow> sftp_reply sftp" where
  "sftp_open E root filename pflags attrs =
     do_then (if se_contains_create E pflags then sftp_resolve_for_create E root filename
              else sftp_resolve_existing E root filename) (\<lambda>p.
     do_then (fs_try E (open_at (se_file_mode E) (se_options E pflags) p)) (\<lambda>q.
     do_then (apply_file_attributes E (opened (se_options E pflags) q) p attrs) (\<lambda>_.
     do_then (insert_handle (HFile (opened (se_options E pflags) q))) (\<lambda>token.
     do_ret (RHandle token)))))"

definition sftp_close :: "string \<Rightarrow> sftp_reply sftp" where
  "sftp_close token s =
     (if sf_handles s token = None then (Err Failure, s)
      else (Ok RStatusOk, s\<lparr>sf_handles := (sf_handles s)(token := None)\<rparr>))"

definition sftp_read :: "sftp_env \<Rightarrow> string \<Rightarrow> u64 \<Rightarrow> u32 \<Rightarrow> sftp_reply sftp" where
  "sftp_read E token offset len =
     do_then (get_file token) (\<lambda>f.
     do_then (file_seek E f offset) (\<lambda>_.
     do_then (file_read E f (unat offset) (min (unat len) MAX_IO_SIZE)) (\<lambda>data.
     if data = [] then sftp_fail Eof else do_ret (RData data))))"

definition sftp_write :: "sftp_env \<Rightarrow> string \<Rightarrow> u64 \<Rightarrow> bytes \<Rightarrow> sftp_reply sftp" where
  "sftp_write E token offset data =
     (if MAX_IO_SIZE < length data then sftp_fail Failure
      else
        do_then (get_file token) (\<lambda>f.
        do_then (file_seek E f offset) (\<lambda>_.
        do_then (file_write_all E f (unat offset) data) (\<lambda>_.
        do_ret RStatusOk))))"

definition sftp_stat :: "sftp_env \<Rightarrow> tpath \<Rightarrow> string \<Rightarrow> sftp_reply sftp" where
  "sftp_stat E root p =
     do_then (sftp_resolve_existing E root p) (\<lambda>p.
     do_then (fs_try E (query (\<lambda>t. node_at t p))) (\<lambda>metadata.
     do_ret (RAttrs (se_attributes E metadata))))"

definition sftp_lstat :: "sftp_env \<Rightarrow> tpath \<Rightarrow> string \<Rightarrow> sftp_reply sftp" where
  "sftp_lstat E root p = sftp_stat E root p"

definition sftp_fstat :: "sftp_env \<Rightarrow> string \<Rightarrow> sftp_reply sftp" where
  "sftp_fstat E token =
     do_then (get_file token) (\<lambda>f.
     do_then (fd_query E f Ok) (\<lambda>metadata.
     do_ret (RAttrs (se_attributes E metadata))))"

text \<open>The options of a file that \<open>setstat\<close> opens to change its length.\<close>

definition write_only :: open_options where
  "write_only = \<lparr>oo_read = False, oo_write = True, oo_append = False, oo_truncate = False,
     oo_create = False, oo_create_new = False\<rparr>"

definition sftp_setstat :: "sftp_env \<Rightarrow> tpath \<Rightarrow> string \<Rightarrow> file_attributes \<Rightarrow> sftp_reply sftp" where
  "sftp_setstat E root p attrs =
     do_then (sftp_resolve_existing E root p) (\<lambda>p.
     do_then (fs_path_is E is_fdir p) (\<lambda>dir.
     do_then (case attr_size attrs of
                Some sz \<Rightarrow>
                  if dir then do_ret ()
                  else do_then (fs_try E (open_at (se_file_mode E) write_only p)) (\<lambda>q.
                    file_set_len E (opened write_only q) sz)
              | None \<Rightarrow> do_ret ()) (\<lambda>_.
     do_then (apply_path_permissions E p attrs) (\<lambda>_.
     do_ret RStatusOk))))"

definition sftp_fsetstat :: "sftp_env \<Rightarrow> string \<Rightarrow> file_attributes \<Rightarrow> sftp_reply sftp" where
  "sftp_fsetstat E token attrs =
     do_then (get_file token) (\<lambda>f.
     do_then (apply_open_file_attributes E f attrs) (\<lambda>_.
     do_ret RStatusOk))"

text \<open>The loop over the entries of a directory.\<close>

fun list_entries ::
  "sftp_env \<Rightarrow> tpath \<Rightarrow> tpath \<Rightarrow> string list \<Rightarrow> (string \<times> file_attributes) list \<Rightarrow>
   (string \<times> file_attributes) list sftp" where
  "list_entries E root p [] entries = do_ret entries"
| "list_entries E root p (name # names) entries =
     do_then (fs_try E (query (\<lambda>_. Ok ()))) (\<lambda>_.
     do_then (fs_try E (query (\<lambda>t. canonicalize t (p @ [name])))) (\<lambda>canonical.
     if \<not> under_root root canonical then list_entries E root p names entries
     else
       do_then (fs_try E (query (\<lambda>t. symlink_metadata t (p @ [name])))) (\<lambda>metadata.
       if is_flink metadata then list_entries E root p names entries
       else list_entries E root p names (entries @ [(to_string_lossy name, se_attributes E metadata)]))))"

definition sftp_opendir :: "sftp_env \<Rightarrow> tpath \<Rightarrow> string \<Rightarrow> sftp_reply sftp" where
  "sftp_opendir E root p =
     do_then (sftp_resolve_existing E root p) (\<lambda>p.
     do_then (fs_path_is E is_fdir p) (\<lambda>dir.
     if \<not> dir then sftp_fail NoSuchFile
     else
       do_then (fs_try E (query (\<lambda>t. dir_names t p))) (\<lambda>names.
       do_then (list_entries E root p names []) (\<lambda>entries.
       do_then (insert_handle (HDirectory (Some (sort_key fst entries)))) (\<lambda>token.
       do_ret (RHandle token))))))"

definition sftp_readdir :: "string \<Rightarrow> sftp_reply sftp" where
  "sftp_readdir token s =
     (case sf_handles s token of
        Some (HDirectory entries) \<Rightarrow>
          (case entries of
             None \<Rightarrow> (Err Eof, s)
           | Some files \<Rightarrow>
               (if files = [] then Err Eof else Ok (RNames files),
                s\<lparr>sf_handles := (sf_handles s)(token \<mapsto> HDirectory None)\<rparr>))
      | _ \<Rightarrow> (Err Failure, s))"

definition sftp_remove :: "sftp_env \<Rightarrow> tpath \<Rightarrow> string \<Rightarrow> sftp_reply sftp" where
  "sftp_remove E root filename =
     do_then (sftp_resolve_existing E root filename) (\<lambda>p.
     do_then (fs_path_is E is_fdir p) (\<lambda>dir.
     if dir then sftp_fail PermissionDenied
     else do_then (name_call E (remove_file_at p)) (\<lambda>_. do_ret RStatusOk)))"

definition sftp_mkdir :: "sftp_env \<Rightarrow> tpath \<Rightarrow> string \<Rightarrow> file_attributes \<Rightarrow> sftp_reply sftp" where
  "sftp_mkdir E root p attrs =
     do_then (sftp_resolve_for_create E root p) (\<lambda>p.
     do_then (fs_try E (mkdir_at (se_dir_mode E) p)) (\<lambda>_.
     do_then (apply_path_permissions E p attrs) (\<lambda>_.
     do_ret RStatusOk)))"

definition sftp_rmdir :: "sftp_env \<Rightarrow> tpath \<Rightarrow> string \<Rightarrow> sftp_reply sftp" where
  "sftp_rmdir E root p =
     do_then (sftp_resolve_existing E root p) (\<lambda>p.
     if p = root then sftp_fail PermissionDenied
     else do_then (name_call E (remove_dir_at p)) (\<lambda>_. do_ret RStatusOk))"

definition sftp_realpath :: "sftp_env \<Rightarrow> tpath \<Rightarrow> string \<Rightarrow> sftp_reply sftp" where
  "sftp_realpath E root p =
     do_then (do_lift (relative_path p)) (\<lambda>relative.
     do_then (sftp_resolve_existing E root p) (\<lambda>resolved.
     if \<not> under_root root resolved then sftp_fail PermissionDenied
     else do_ret (RPath (if relative = [] then ''/''
       else ''/'' @ map (\<lambda>c. if c = CHR 0x5C then CHR ''/'' else c) (to_string_lossy relative)))))"

definition sftp_rename :: "sftp_env \<Rightarrow> tpath \<Rightarrow> string \<Rightarrow> string \<Rightarrow> sftp_reply sftp" where
  "sftp_rename E root oldpath newpath =
     do_then (sftp_resolve_existing E root oldpath) (\<lambda>old.
     do_then (sftp_resolve_for_create E root newpath) (\<lambda>new.
     do_then (name_call E (rename_at old new)) (\<lambda>_. do_ret RStatusOk)))"

definition sftp_readlink :: "sftp_reply sftp" where
  "sftp_readlink = sftp_fail PermissionDenied"

definition sftp_symlink :: "sftp_reply sftp" where
  "sftp_symlink = sftp_fail PermissionDenied"

text \<open>The operations that are not overridden answer with this status.\<close>

definition sftp_unimplemented :: status_code where
  "sftp_unimplemented = OpUnsupported"

text \<open>The request loop calls the handler that a request names, one request after the other.\<close>

fun serve_request :: "sftp_env \<Rightarrow> tpath \<Rightarrow> sftp_request \<Rightarrow> sftp_reply sftp" where
  "serve_request E root SInit = sftp_init"
| "serve_request E root (SOpen p flags attrs) = sftp_open E root p flags attrs"
| "serve_request E root (SClose h) = sftp_close h"
| "serve_request E root (SRead h off len) = sftp_read E h off len"
| "serve_request E root (SWrite h off data) = sftp_write E h off data"
| "serve_request E root (SLstat p) = sftp_lstat E root p"
| "serve_request E root (SFstat h) = sftp_fstat E h"
| "serve_request E root (SSetstat p attrs) = sftp_setstat E root p attrs"
| "serve_request E root (SFsetstat h attrs) = sftp_fsetstat E h attrs"
| "serve_request E root (SOpendir p) = sftp_opendir E root p"
| "serve_request E root (SReaddir h) = sftp_readdir h"
| "serve_request E root (SRemove p) = sftp_remove E root p"
| "serve_request E root (SMkdir p attrs) = sftp_mkdir E root p attrs"
| "serve_request E root (SRmdir p) = sftp_rmdir E root p"
| "serve_request E root (SRealpath p) = sftp_realpath E root p"
| "serve_request E root (SStat p) = sftp_stat E root p"
| "serve_request E root (SRename p q) = sftp_rename E root p q"
| "serve_request E root (SReadlink p) = sftp_readlink"
| "serve_request E root (SSymlink p q) = sftp_symlink"
| "serve_request E root (SExtended request data) = sftp_fail sftp_unimplemented"

fun serve_requests :: "sftp_env \<Rightarrow> tpath \<Rightarrow> sftp_request list \<Rightarrow> sftp_state \<Rightarrow> (sftp_reply, status_code) result list \<times> sftp_state" where
  "serve_requests E root [] s = ([], s)"
| "serve_requests E root (r # rs) s =
     (case serve_request E root r s of
        (x, s1) \<Rightarrow> (case serve_requests E root rs s1 of (xs, s2) \<Rightarrow> (x # xs, s2)))"

end
