(* ===== verification/Sftp_Confined.thy ===== *)
theory Sftp_Confined
  imports Sftp
begin

text \<open>
  What the SFTP session can do to the directory tree: nothing outside its root, provided no path
  that is opened with creation ends in a slash or a current-directory component; and what happens
  with one that does.
\<close>

section \<open>Removing a node\<close>

lemma del_node_Cons:
  "p \<noteq> [] \<Longrightarrow> del_node (c # p) (FDir m cs) =
     (case map_of cs c of None \<Rightarrow> FDir m cs | Some n \<Rightarrow> FDir m (AList.update c (del_node p n) cs))"
  by (cases p) auto

lemma update_keys_same: "map_of cs c = Some n \<Longrightarrow> map fst (AList.update c v cs) = map fst cs"
  by (induction cs) (auto split: if_splits)

lemma info_del_outside:
  assumes "lookup t root \<noteq> None" and "prefix root p" and "p \<noteq> root" and "\<not> prefix root q"
  shows "info_at (del_node p t) q = info_at t q"
  using assms
proof (induction root arbitrary: t p q)
  case Nil
  then show ?case by simp
next
  case (Cons c root)
  obtain m cs n where t: "t = FDir m cs" "map_of cs c = Some n" "lookup n root \<noteq> None"
    using Cons.prems(1) by (cases t) (auto split: Option.bind_splits)
  obtain p' where p: "p = c # p'" "prefix root p'" "p' \<noteq> root" using Cons.prems(2,3) by (cases p) auto
  then have "p' \<noteq> []" by auto
  with t p have del: "del_node p t = FDir m (AList.update c (del_node p' n) cs)" by (simp add: del_node_Cons)
  show ?case
  proof (cases q)
    case Nil
    with t del show ?thesis by (simp add: info_at_def update_keys_same)
  next
    case (Cons d q')
    with \<open>\<not> prefix (c # root) q\<close> Cons.IH [OF t(3) p(2,3), of q'] t(1,2) del show ?thesis
      by (cases "d = c") (auto simp: info_at_def map_of_update)
  qed
qed

lemma dir_del:
  assumes "real_dir t q" and "\<not> prefix p q"
  shows "real_dir (del_node p t) q"
proof -
  obtain m cs where "lookup t q = Some (FDir m cs)" using assms(1) real_dir_iff by blast
  then have "\<exists>m cs. lookup (del_node p t) q = Some (FDir m cs)"
    using assms(2)
  proof (induction p t arbitrary: q rule: del_node.induct)
    case (1 c m cs)
    then show ?case
      by (cases q) (auto simp: delete_conv' split: Option.bind_splits)
  next
    case (2 c d p m cs)
    then show ?case
      by (cases q) (auto simp: map_of_update split: option.splits Option.bind_splits)
  qed auto
  then show ?thesis by (simp add: real_dir_iff)
qed

section \<open>Paths inside\<close>

definition inside :: "tpath \<Rightarrow> fnode \<Rightarrow> tpath \<Rightarrow> bool" where
  "inside root t p \<longleftrightarrow> prefix root p \<and> (p = [] \<or> safe_path root t p)"

text \<open>The same for a path whose last component may be a link.\<close>

definition placed :: "tpath \<Rightarrow> fnode \<Rightarrow> tpath \<Rightarrow> bool" where
  "placed root t p \<longleftrightarrow> prefix root p \<and> (p = [] \<or> plain_name (last p) \<and> canonical t (butlast p))"

lemma inside_placed:
  assumes "inside root t p"
  shows "placed root t p"
proof (cases "p = []")
  case False
  with assms have "real_dir t (butlast p)" "list_all plain_name p" by (auto simp: inside_def safe_path_def)
  then have "canonical t (butlast p)"
    by (intro real_dir_canonical) (auto simp: list_all_iff dest: in_set_butlastD)
  with assms False show ?thesis by (auto simp: inside_def placed_def safe_path_def list_all_iff)
qed (use assms in \<open>simp add: inside_def placed_def\<close>)

lemma canonical_inside:
  assumes "canonical t p" and "prefix root p"
  shows "inside root t p"
proof (cases "p = []")
  case False
  obtain n where n: "lookup t p = Some n" "\<not> is_flink n" using assms(1) by (auto simp: canonical_def)
  then have "lookup t (butlast p @ [last p]) \<noteq> None" using False by simp
  then have "real_dir t (butlast p)" using lookup_under_dir real_dir_iff by blast
  with assms n False show ?thesis by (auto simp: inside_def safe_path_def canonical_def)
qed (use assms in \<open>simp add: inside_def\<close>)

lemma placed_entry:
  assumes "placed root t p" and "entry_at t p = Ok q"
  shows "q = p \<and> p \<noteq> []"
proof -
  have "p \<noteq> []" using assms(2) by (auto simp: entry_at_def)
  with assms have "canonicalize t (butlast p) = Ok (butlast p)"
    by (auto simp: placed_def canonical_canonicalize)
  with assms(2) \<open>p \<noteq> []\<close> show ?thesis by (auto simp: entry_at_def split: if_splits)
qed

lemma placed_new:
  assumes "placed root t p" and "p \<noteq> []" and "lookup t p = None" and "is_dir_at t (butlast p)"
  shows "safe_path root t p"
proof -
  obtain a b where p: "p = a @ [b]" using assms(2) by (metis rev_exhaust)
  have "real_dir t a"
    using assms(4) p by (cases "the (lookup t a)") (auto simp: is_dir_at_def real_dir_iff split: option.splits)
  with assms show ?thesis by (simp add: p safe_path_def placed_def canonical_def)
qed

section \<open>Calls\<close>

lemma same_outside_root_Nil: "prefix root [] \<Longrightarrow> same_outside root t t'"
  by (simp add: same_outside_def)

lemma chmod_inside:
  assumes "chmod_at mode p f t = (r, t')" and "inside root t p" and "real_dir t root"
  shows "same_outside root t t' \<and> real_dir t' root"
proof (cases "p = []")
  case True
  then have "root = []" using assms(2) by (simp add: inside_def)
  moreover have "t' = t \<or> (\<exists>q n. lookup t q = Some n \<and> t' = put_node q (with_mode mode n) t \<and> q = [])"
    using assms(1) True
    by (auto simp: chmod_at_def canonicalize_def walk.simps split: if_splits)
  ultimately show ?thesis using assms(3) by (cases t) (auto simp: same_outside_root_Nil real_dir_Nil)
next
  case False
  then have "safe_path root t p" using assms(2) by (simp add: inside_def)
  with chmod_keeps [of root p mode] assms show ?thesis unfolding keeps_outside_def by blast
qed

lemma mkdir_placed:
  assumes "mkdir_at mode p f t = (r, t')" and "placed root t p" and "real_dir t root"
  shows "same_outside root t t' \<and> real_dir t' root \<and> (r = Ok () \<longrightarrow> inside root t' p)"
proof (cases "p \<noteq> [] \<and> lookup t p = None \<and> is_dir_at t (butlast p)")
  case True
  then have "safe_path root t p" using assms(2) placed_new by blast
  with mkdir_keeps [of root p mode] assms show ?thesis unfolding keeps_outside_def inside_def safe_path_def by blast
next
  case False
  have "p \<noteq> [] \<Longrightarrow> canonicalize t (butlast p) = Ok (butlast p)"
    using assms(2) by (auto simp: placed_def canonical_canonicalize)
  with False have "t' = t \<and> r \<noteq> Ok ()"
    using assms(1) by (auto simp: mkdir_at_def is_dir_at_def split: if_splits option.splits fnode.splits)
  with assms(3) show ?thesis by simp
qed

lemma open_inside:
  assumes "open_at mode options p f t = (r, t')" and "inside root t p" and "real_dir t root"
  shows "same_outside root t t' \<and> real_dir t' root \<and> inside root t' p \<and> (r = Ok q \<longrightarrow> q = p)"
proof (cases "p = []")
  case True
  then have "t' = t \<and> (r = Ok q \<longrightarrow> q = p)"
    using assms(1) real_dir_root [OF assms(3)]
    by (cases t) (auto simp: open_at_def open_target.simps canonicalize_def walk.simps open_existing_def
        split: if_splits)
  with assms show ?thesis by simp
next
  case False
  then have safe: "safe_path root t p" using assms(2) by (simp add: inside_def)
  have p: "butlast p @ [last p] = p" using False by simp
  have "(t' = t \<or> (\<exists>m. t' = put_node p (FFile m []) t \<and> (\<forall>m cs. lookup t p \<noteq> Some (FDir m cs)))) \<and> (r = Ok q \<longrightarrow> q = p)"
    using assms(1) safe_path_open [OF safe] safe_path_canonicalize [OF safe] safe_path_parent(1) [OF safe] p
    by (auto simp: open_at_def open_new_def open_existing_def split: if_splits option.splits fnode.splits)
  then show ?thesis
  proof (elim conjE disjE exE)
    fix m assume "t' = put_node p (FFile m []) t" "\<forall>m cs. lookup t p \<noteq> Some (FDir m cs)" "r = Ok q \<longrightarrow> q = p"
    with put_safe [OF safe assms(3), of "FFile m []"] assms(2) show ?thesis by (auto simp: inside_def)
  qed (use assms in simp)
qed

section \<open>The invariant\<close>

text \<open>The root is in place, and no open file lies outside.\<close>

definition handles_inside :: "tpath \<Rightarrow> (string \<rightharpoonup> sftp_handle) \<Rightarrow> bool" where
  "handles_inside root hs \<longleftrightarrow> (\<forall>token f p. hs token = Some (HFile f) \<longrightarrow> of_loc f = At p \<longrightarrow> prefix root p)"

definition sandboxed :: "tpath \<Rightarrow> sftp_state \<Rightarrow> bool" where
  "sandboxed root s \<longleftrightarrow> real_dir (fs_tree s) root \<and> list_all plain_name root \<and> handles_inside root (sf_handles s)"

lemma handles_inside_relocate:
  assumes "handles_inside root hs" and "\<And>p q. prefix root p \<Longrightarrow> g (At p) = At q \<Longrightarrow> prefix root q"
    and "\<And>k. g (Orphan k) = Orphan k"
  shows "handles_inside root (relocate g hs)"
  unfolding handles_inside_def
proof (intro allI impI)
  fix token f q
  assume "relocate g hs token = Some (HFile f)" and q: "of_loc f = At q"
  then obtain f' where f': "hs token = Some (HFile f')" "f = f'\<lparr>of_loc := g (of_loc f')\<rparr>"
    by (auto simp: relocate_def split: option.splits sftp_handle.splits)
  show "prefix root q"
  proof (cases "of_loc f'")
    case (At p)
    with f' assms(1) have "prefix root p" unfolding handles_inside_def by blast
    moreover have "g (At p) = At q" using f'(2) q At by simp
    ultimately show ?thesis by (rule assms(2))
  next
    case (Orphan k)
    with f' q assms(3) show ?thesis by simp
  qed
qed

lemma unlink_inside:
  assumes s: "sandboxed root s" and p: "prefix root p" "p \<noteq> root"
  shows "sandboxed root (unlink_entry p n s)" and "same_outside root (fs_tree s) (fs_tree (unlink_entry p n s))"
proof -
  have "\<not> prefix p root" using p prefix_order.antisym by blast
  with s p show "sandboxed root (unlink_entry p n s)"
    by (auto simp: sandboxed_def unlink_entry_def intro!: dir_del handles_inside_relocate split: if_splits)
  show "same_outside root (fs_tree s) (fs_tree (unlink_entry p n s))"
    using s p info_del_outside [of "fs_tree s" root p]
    by (auto simp: same_outside_def unlink_entry_def sandboxed_def real_dir_iff)
qed

lemma move_inside:
  assumes s: "sandboxed root s" and p: "prefix root p" "p \<noteq> root" and q: "prefix root q" "q \<noteq> root"
  shows "sandboxed root (move_entry p q n s)" and "same_outside root (fs_tree s) (fs_tree (move_entry p q n s))"
proof -
  have pq: "\<not> prefix p root" "\<not> prefix q root" using p q prefix_order.antisym by blast+
  then have dir: "real_dir (del_node p (fs_tree s)) root" using s by (simp add: sandboxed_def dir_del)
  show "sandboxed root (move_entry p q n s)"
    using s q dir pq
    by (auto simp: sandboxed_def move_entry_def moved_def prefix_def intro!: dir_put handles_inside_relocate split: if_splits)
  have "info_at (del_node p (fs_tree s)) x = info_at (fs_tree s) x" if "\<not> prefix root x" for x
    using info_del_outside [of "fs_tree s" root p x] s p that by (auto simp: sandboxed_def real_dir_iff)
  moreover have "info_at (put_node q n (del_node p (fs_tree s))) x = info_at (del_node p (fs_tree s)) x"
    if "\<not> prefix root x" for x
    using info_put_outside [of "del_node p (fs_tree s)" root q x n] dir q that by (auto simp: real_dir_iff)
  ultimately show "same_outside root (fs_tree s) (fs_tree (move_entry p q n s))"
    by (simp add: same_outside_def move_entry_def)
qed

interpretation sftp: guarded_runs
  "sandboxed root" "\<lambda>s s'. same_outside root (fs_tree s) (fs_tree s')" for root
  by unfold_locales (auto intro: same_outside_trans)

text \<open>The triple with conditions on the tree.\<close>

definition held :: "tpath \<Rightarrow> (fnode \<Rightarrow> bool) \<Rightarrow> 'a sftp \<Rightarrow> ('a \<Rightarrow> fnode \<Rightarrow> bool) \<Rightarrow> bool" where
  "held root P m Q \<longleftrightarrow> sftp.guarded root (\<lambda>s. P (fs_tree s)) m (\<lambda>v s. Q v (fs_tree s))"

lemma held_then: "held root P m Q \<Longrightarrow> (\<And>v. held root (Q v) (k v) R) \<Longrightarrow> held root P (do_then m k) R"
  unfolding held_def by (rule sftp.guarded_then)

lemma held_ret: "(\<And>t. P t \<Longrightarrow> Q v t) \<Longrightarrow> held root P (do_ret v) Q"
  unfolding held_def by (rule sftp.guarded_ret)

lemma held_lift: "(\<And>v t. P t \<Longrightarrow> r = Ok v \<Longrightarrow> Q v t) \<Longrightarrow> held root P (do_lift r) Q"
  unfolding held_def by (rule sftp.guarded_lift)

lemma held_lift_then: "(\<And>v. r = Ok v \<Longrightarrow> held root P (k v) Q) \<Longrightarrow> held root P (do_then (do_lift r) k) Q"
  by (cases r) (auto simp: held_def sftp.guarded_def do_then_def do_lift_def)

lemma held_fail [simp]: "held root P (sftp_fail c) Q"
  unfolding sftp_fail_def by (rule held_lift) simp

lemma held_conseq:
  "held root P m Q \<Longrightarrow> (\<And>t. P' t \<Longrightarrow> P t) \<Longrightarrow> (\<And>v t. Q v t \<Longrightarrow> Q' v t) \<Longrightarrow> held root P' m Q'"
  unfolding held_def by (erule sftp.guarded_conseq) auto

text \<open>A system call on the tree.\<close>

lemma held_call:
  assumes "\<And>f t r t'. call f t = (r, t') \<Longrightarrow> real_dir t root \<Longrightarrow> P t \<Longrightarrow>
    same_outside root t t' \<and> real_dir t' root \<and> Q r t'"
  shows "held root P (fs_call E call) Q"
  unfolding held_def
proof (rule sftp.guardedI)
  fix s r s'
  assume run: "fs_call E call s = (r, s')" and pre: "sandboxed root s" "P (fs_tree s)"
  obtain x t where c: "call (se_fault E (fs_calls s)) (fs_tree s) = (x, t)" by fastforce
  with run have s': "r = Ok x" "s' = s\<lparr>fs_tree := t, fs_calls := Suc (fs_calls s)\<rparr>"
    by (simp_all add: fs_call_def)
  with assms [OF c] pre show "sandboxed root s' \<and> same_outside root (fs_tree s) (fs_tree s') \<and> (\<forall>v. r = Ok v \<longrightarrow> Q v (fs_tree s'))"
    by (simp add: sandboxed_def)
qed

lemma held_try:
  assumes "\<And>f t r t'. call f t = (r, t') \<Longrightarrow> real_dir t root \<Longrightarrow> P t \<Longrightarrow>
    same_outside root t t' \<and> real_dir t' root \<and> (\<forall>v. r = Ok v \<longrightarrow> Q v t')"
  shows "held root P (fs_try E call) Q"
  unfolding fs_try_def
  by (rule held_then [OF held_call [where Q = "\<lambda>r t. \<forall>v. r = Ok v \<longrightarrow> Q v t"]])
    (use assms in blast, auto intro!: held_lift)

lemma held_query:
  assumes "\<And>t r. real_dir t root \<Longrightarrow> P t \<Longrightarrow> r = q t \<or> (\<exists>e. r = Err e \<and> e \<noteq> NotFound) \<Longrightarrow> Q r t"
  shows "held root P (fs_call E (query q)) Q"
proof (rule held_call)
  fix f t r t'
  assume "query q f t = (r, t')" "real_dir t root" "P t"
  moreover from this(1) have "t' = t" "r = q t \<or> (\<exists>e. r = Err e \<and> e \<noteq> NotFound)"
    by (cases "f = Works"; simp add: query_def; metis fault_error_not_found)+
  ultimately show "same_outside root t t' \<and> real_dir t' root \<and> Q r t'" using assms by simp
qed

lemma held_try_query:
  assumes "\<And>t v. real_dir t root \<Longrightarrow> P t \<Longrightarrow> q t = Ok v \<Longrightarrow> Q v t"
  shows "held root P (fs_try E (query q)) Q"
  by (rule held_try) (auto simp: query_def intro!: assms split: if_splits)

lemma held_path_is: "held root P (fs_path_is E kind p) (\<lambda>_. P)"
  unfolding fs_path_is_def
  by (rule held_then [OF held_query [where Q = "\<lambda>_. P"]]) (auto intro!: held_ret)

section \<open>Resolution of paths\<close>

lemma relative_path_safe: "relative_path requested = Ok relative \<Longrightarrow> ''..'' \<notin> set (split_on (CHR ''/'') relative)"
  by (auto simp: relative_path_def unsafe_relative_def Let_def split: if_splits)

lemma held_resolve_existing: "held root (\<lambda>_. True) (sftp_resolve_existing E root requested) (\<lambda>p t. inside root t p)"
  unfolding sftp_resolve_existing_def
  by (rule held_then [OF held_lift [where Q = "\<lambda>_ _. True"]], simp,
      rule held_then [OF held_try_query [where Q = "\<lambda>p t. canonical t p"]],
      blast intro: canonicalize_canonical real_dir_root)
    (auto simp: sftp_ensure_contained_def split: if_splits intro!: held_lift canonical_inside)

text \<open>A path that names its last component directly.\<close>

definition clean_path :: "string \<Rightarrow> bool" where
  "clean_path requested \<longleftrightarrow>
     (case relative_path requested of
        Inl e \<Rightarrow> True
      | Inr relative \<Rightarrow> plain_name (last (split_on (CHR ''/'') relative)))"

lemma joined_clean:
  assumes "plain_name (last segs)" and "segs \<noteq> []"
  shows "joined root segs \<noteq> []" and "last (joined root segs) = last segs"
    and "butlast (joined root segs) = joined root (butlast segs)"
proof -
  have "segs = butlast segs @ [last segs]" using assms(2) by simp
  then obtain a b where ab: "segs = a @ [b]" "plain_name b" using assms(1) by metis
  then show "joined root segs \<noteq> []" "last (joined root segs) = last segs"
    "butlast (joined root segs) = joined root (butlast segs)"
    by (simp_all add: joined_def plain_name_def butlast_append)
qed

text \<open>Leaving out empty and current components changes a successful resolution only where one of
  them follows a file.\<close>

lemma walk_filter:
  assumes "walk n t acc (a @ filter (\<lambda>c. c \<noteq> [] \<and> c \<noteq> ''.'') cs) = Ok p"
  shows "walk n t acc (a @ cs) = Ok p \<or> walk n t acc (a @ cs) = Err OtherError"
proof -
  let ?F = "\<lambda>c :: string. c \<noteq> [] \<and> c \<noteq> ''.''"
  have "walk n t acc xs = Ok p \<or> walk n t acc xs = Err OtherError"
    if "xs = a @ cs" "walk n t acc (a @ filter ?F cs) = Ok p" for n t acc xs a cs
    using that
  proof (induction n t acc xs arbitrary: a cs rule: walk.induct)
    case (1 n t acc)
    then show ?case by simp
  next
    case (2 n t acc c xs)
    have step: "\<exists>b ds. c # xs = c # (b @ ds) \<and> a @ filter ?F cs = c # (b @ filter ?F ds)" if "?F c"
      using 2(5) that by (cases a) (auto intro: exI [of _ "[]"])
    show ?case
    proof (cases "?F c")
      case False
      have "\<exists>b ds. xs = b @ ds \<and> walk n t acc (b @ filter ?F ds) = Ok p"
      proof (cases a)
        case Nil
        with 2(5,6) False have "xs = [] @ xs" "walk n t acc ([] @ filter ?F xs) = Ok p" by auto
        then show ?thesis by blast
      next
        case (Cons d a')
        with 2(5) have "d = c" "xs = a' @ cs" by simp_all
        moreover have "walk n t acc (a' @ filter ?F cs) = Ok p"
          using 2(6) False unfolding Cons \<open>d = c\<close> by (auto simp: walk.simps(2) [of n t acc c] simp del: filter.simps)
        ultimately show ?thesis by blast
      qed
      with 2(1) False show ?thesis by (auto simp: walk.simps(2) [of n t acc c])
    next
      case True
      with step obtain b ds where b: "xs = b @ ds" "walk n t acc (c # (b @ filter ?F ds)) = Ok p"
        using 2(6) by auto
      show ?thesis
      proof (cases "c = ''..''")
        case up: True
        with b 2(2) [OF _ up b(1)] True show ?thesis by (simp add: walk.simps(2) [of n t acc "''..''"])
      next
        case down: False
        show ?thesis
        proof (cases "lookup t (acc @ [c])")
          case None
          with b(2) True down show ?thesis by (simp add: walk.simps)
        next
          case (Some node)
          show ?thesis
          proof (cases node)
            case (FFile m d)
            with b True down Some show ?thesis by (auto simp: walk.simps split: if_splits)
          next
            case (FDir m es)
            with 2(4) [OF _ down Some FDir b(1)] b(2) True down Some show ?thesis
              by (simp add: walk.simps(2) [of n t acc c])
          next
            case (FLink l)
            with b(2) True down Some obtain k where k: "n = Suc k"
              "walk k t (if starts_with ''/'' l then [] else acc) ((split_on (CHR ''/'') l @ b) @ filter ?F ds) = Ok p"
              by (auto simp: walk.simps split: nat.splits)
            have "split_on (CHR ''/'') l @ xs = (split_on (CHR ''/'') l @ b) @ ds" by (simp add: b(1))
            with 2(3) [OF _ down Some FLink k(1) this k(2)] k(1) True down Some FLink show ?thesis
              by (simp add: walk.simps(2) [of "Suc k" t acc c])
          qed
        qed
      qed
    qed
  qed
  with assms show ?thesis by blast
qed

lemma absent_metadata:
  assumes "symlink_metadata t (root @ segs) = Err NotFound" and "segs \<noteq> []" and "plain_name (last segs)"
    and "canonicalize t (joined root (butlast segs)) = Ok d"
  shows "lookup t (d @ [last segs]) = None" and "is_dir_at t d"
proof -
  have last: "root @ segs \<noteq> []" "last (root @ segs) = last segs" "butlast (root @ segs) = root @ butlast segs"
    using assms(2) by (simp_all add: butlast_append)
  have "canonicalize t (root @ butlast segs) = Ok d \<or> canonicalize t (root @ butlast segs) = Err OtherError"
    using walk_filter [of MAX_LINKS t "[]" root "butlast segs" d] assms(4)
    by (simp add: canonicalize_def joined_def)
  moreover have "symlink_metadata t (root @ segs) =
      and_then (canonicalize t (root @ butlast segs)) (\<lambda>d.
        case lookup t d of Some (FDir m cs) \<Rightarrow> ok_or NotFound (lookup t (d @ [last segs])) | _ \<Rightarrow> Err OtherError)"
    using assms(3) unfolding symlink_metadata_def last by (auto simp: plain_name_def assms(2))
  ultimately have md: "(case lookup t d of Some (FDir m cs) \<Rightarrow> ok_or NotFound (lookup t (d @ [last segs])) | _ \<Rightarrow> Err OtherError) = Err NotFound"
    using assms(1) by (elim disjE) simp_all
  then obtain m cs where dir: "lookup t d = Some (FDir m cs)" by (auto split: option.splits fnode.splits)
  with md show "lookup t (d @ [last segs]) = None" by (cases "lookup t (d @ [last segs])") simp_all
  from dir show "is_dir_at t d" by (simp add: is_dir_at_def)
qed

lemma existing_metadata_clean:
  assumes "canonicalize t segs = Ok p" and "real_dir t root" and "prefix root p"
  shows "inside root t p"
  using canonical_inside [OF canonicalize_canonical [OF real_dir_root [OF assms(2)] assms(1)] assms(3)] .

text \<open>What resolution for creation gives: a place for a name, and for a clean path one that no
  link redirects.\<close>

lemma held_resolve_for_create:
  assumes plain: "list_all plain_name root"
  shows "held root (\<lambda>_. True) (sftp_resolve_for_create E root requested)
    (\<lambda>p t. placed root t p \<and> (clean_path requested \<longrightarrow> inside root t p))"
proof -
  let ?Q = "\<lambda>p t. placed root t p \<and> (clean_path requested \<longrightarrow> inside root t p)"
  have found: "held root (\<lambda>_. True) (do_then (fs_try E (query (\<lambda>t. canonicalize t segs))) (\<lambda>resolved.
      do_lift (sftp_ensure_contained root resolved))) ?Q" for segs
    by (rule held_then [OF held_try_query [where Q = "\<lambda>p t. prefix root p \<longrightarrow> inside root t p"]])
      (auto simp: sftp_ensure_contained_def intro!: held_lift intro: existing_metadata_clean inside_placed split: if_splits)
  have absent: "held root (\<lambda>t. symlink_metadata t (root @ segs) = Err NotFound)
      (do_then (fs_try E (query (\<lambda>t. canonicalize t (butlast (joined root segs))))) (\<lambda>parent.
       do_then (do_lift (sftp_ensure_contained root parent)) (\<lambda>parent.
       do_ret (parent @ [last (joined root segs)])))) ?Q"
    if rel: "relative_path requested = Ok relative" and segs: "segs = split_on (CHR ''/'') relative"
      and ne: "joined root segs \<noteq> []" for segs relative
  proof -
    have "list_all plain_name (joined root segs)"
      using relative_path_safe [OF rel] plain by (auto simp: segs intro: joined_plain)
    then have name: "plain_name (last (joined root segs))" using ne by (simp add: list_all_iff)
    have ne': "segs \<noteq> []" by (simp add: segs)
    have new: "safe_path root t (d @ [last (joined root segs)])"
      if "symlink_metadata t (root @ segs) = Err NotFound" "canonicalize t (butlast (joined root segs)) = Ok d"
        "real_dir t root" "prefix root d" "plain_name (last segs)" for t d
      using absent_metadata [OF that(1) ne' that(5), of d] that(2-5) canonicalize_canonical [OF real_dir_root [OF that(3)] that(2)]
        joined_clean [OF that(5) ne', of root]
        placed_new [of root t "d @ [last segs]"] by (simp add: placed_def)
    have clean: "plain_name (last segs)" if "clean_path requested" using that rel by (simp add: clean_path_def segs)
    show ?thesis
    proof (rule held_then [OF held_try_query [where Q = "\<lambda>d t. canonical t d \<and> (prefix root d \<longrightarrow>
            clean_path requested \<longrightarrow> safe_path root t (d @ [last (joined root segs)]))"]])
      fix t d
      assume "real_dir t root" "symlink_metadata t (root @ segs) = Err NotFound"
        "canonicalize t (butlast (joined root segs)) = Ok d"
      then show "canonical t d \<and> (prefix root d \<longrightarrow> clean_path requested \<longrightarrow> safe_path root t (d @ [last (joined root segs)]))"
        using new clean canonicalize_canonical real_dir_root by blast
    next
      fix d
      show "held root (\<lambda>t. canonical t d \<and> (prefix root d \<longrightarrow> clean_path requested \<longrightarrow>
          safe_path root t (d @ [last (joined root segs)])))
        (do_then (do_lift (sftp_ensure_contained root d)) (\<lambda>parent. do_ret (parent @ [last (joined root segs)]))) ?Q"
        by (rule held_then [OF held_lift [where Q = "\<lambda>v t. v = d \<and> prefix root d \<and> canonical t d \<and>
            (clean_path requested \<longrightarrow> safe_path root t (d @ [last (joined root segs)]))"]])
          (use name in \<open>auto simp: sftp_ensure_contained_def placed_def inside_def intro!: held_ret split: if_splits\<close>)
    qed
  qed
  have "held root (\<lambda>_. True) (sftp_create_path E root (split_on (CHR ''/'') relative)) ?Q"
    if "relative_path requested = Ok relative" for relative
    unfolding sftp_create_path_def
    by (rule held_then [OF held_query [where Q = "\<lambda>r t. r = Err NotFound \<longrightarrow>
          symlink_metadata t (root @ split_on (CHR ''/'') relative) = Err NotFound"]])
      (auto intro!: held_conseq [OF found] held_conseq [OF absent [OF that]] split: sum.splits fs_error.splits)
  then show ?thesis
    unfolding sftp_resolve_for_create_def by (intro held_lift_then) simp
qed

text \<open>Resolution only asks, so what is known of the tree stays known.\<close>

definition asks :: "'a sftp \<Rightarrow> bool" where
  "asks m \<longleftrightarrow> (\<forall>s. fs_tree (snd (m s)) = fs_tree s)"

named_theorems asks_intros \<open>programs that leave the tree alone\<close>

lemma asks_then [asks_intros]:
  assumes "asks m" and "\<And>v. asks (k v)"
  shows "asks (do_then m k)"
  unfolding asks_def
proof
  fix s
  obtain r s1 where m: "m s = (r, s1)" by fastforce
  with assms(1) have "fs_tree s1 = fs_tree s" by (metis asks_def snd_conv)
  with m assms(2) show "fs_tree (snd (do_then m k s)) = fs_tree s"
    by (cases r) (simp_all add: do_then_def asks_def)
qed

lemma asks_basic [asks_intros]: "asks (do_ret v)" "asks (do_lift r)" "asks (sftp_fail c)" "asks (fs_call E (query q))"
  by (simp_all add: asks_def do_ret_def do_lift_def sftp_fail_def fs_call_def query_def)

lemma asks_query [asks_intros]: "asks (fs_try E (query q))" "asks (fs_path_is E kind p)"
  by (auto simp: fs_try_def fs_path_is_def intro!: asks_intros)

lemma asks_resolve [asks_intros]: "asks (sftp_resolve_existing E root p)" "asks (sftp_resolve_for_create E root p)"
  by (auto simp: sftp_resolve_existing_def sftp_resolve_for_create_def sftp_create_path_def
      intro!: asks_intros split: sum.splits fs_error.splits)

lemma held_frame:
  assumes "held root (\<lambda>_. True) m Q" and "asks m"
  shows "held root P m (\<lambda>v t. P t \<and> Q v t)"
  unfolding held_def
proof (rule sftp.guardedI)
  fix s r s'
  assume run: "m s = (r, s')" and pre: "sandboxed root s" "P (fs_tree s)"
  have "fs_tree s' = fs_tree s" using assms(2) run by (metis asks_def snd_conv)
  with sftp.guardedD [OF assms(1) [unfolded held_def] run pre(1)] pre(2)
  show "sandboxed root s' \<and> same_outside root (fs_tree s) (fs_tree s') \<and> (\<forall>v. r = Ok v \<longrightarrow> P (fs_tree s') \<and> Q v (fs_tree s'))"
    by simp
qed

section \<open>Open files\<close>

definition loc_inside :: "tpath \<Rightarrow> open_file \<Rightarrow> bool" where
  "loc_inside root f \<longleftrightarrow> (\<forall>p. of_loc f = At p \<longrightarrow> prefix root p)"

lemma held_get_file_then:
  assumes "\<And>f. loc_inside root f \<Longrightarrow> held root P (k f) Q"
  shows "held root P (do_then (get_file token) k) Q"
proof (rule held_then [where Q = "\<lambda>f t. P t \<and> loc_inside root f"])
  show "held root P (get_file token) (\<lambda>f t. P t \<and> loc_inside root f)"
    unfolding held_def
  proof (rule sftp.guardedI)
    fix s r s'
    assume run: "get_file token s = (r, s')" and pre: "sandboxed root s" "P (fs_tree s)"
    have "s' = s" using run by (auto simp: get_file_def split: option.splits sftp_handle.splits)
    moreover have "loc_inside root f" if "r = Ok f" for f
      using run pre(1) that unfolding loc_inside_def sandboxed_def handles_inside_def
      by (auto simp: get_file_def split: option.splits sftp_handle.splits)
    ultimately show "sandboxed root s' \<and> same_outside root (fs_tree s) (fs_tree s') \<and>
        (\<forall>v. r = Ok v \<longrightarrow> P (fs_tree s') \<and> loc_inside root v)" using pre by simp
  qed
next
  fix f
  show "held root (\<lambda>t. P t \<and> loc_inside root f) (k f) Q"
  proof (cases "loc_inside root f")
    case True
    from assms [OF this] show ?thesis by (rule held_conseq) auto
  next
    case False
    then show ?thesis by (simp add: held_def sftp.guarded_def)
  qed
qed

lemma held_fd_query: "held root P (fd_query E f q) (\<lambda>_. P)"
  unfolding held_def
  by (rule sftp.guardedI) (auto simp: fd_query_def Let_def sandboxed_def split: option.splits)

text \<open>An update of an open file keeps a path to it.\<close>

lemma put_file_inside:
  assumes "lookup t p = Some (FFile m d)" and "prefix root p" and "real_dir t root"
  shows "same_outside root t (put_node p (FFile m d') t)" and "real_dir (put_node p (FFile m d') t) root"
    and "inside root t p \<Longrightarrow> inside root (put_node p (FFile m d') t) p"
proof -
  show "same_outside root t (put_node p (FFile m d') t)"
    using assms info_put_outside [of t root p _ "FFile m d'"] by (auto simp: same_outside_def real_dir_iff)
  show "real_dir (put_node p (FFile m d') t) root"
    using assms by (intro dir_put not_dir_not_prefix) auto
  show "inside root (put_node p (FFile m d') t) p" if "inside root t p"
    using that put_safe(3) [of root t p "FFile m d'"] assms by (auto simp: inside_def)
qed

definition file_cond :: "tpath \<Rightarrow> open_file \<Rightarrow> (fnode \<Rightarrow> bool) \<Rightarrow> bool" where
  "file_cond root f P \<longleftrightarrow> loc_inside root f \<and>
     (P = (\<lambda>_. True) \<or> (\<exists>p. of_loc f = At p \<and> P = (\<lambda>t. inside root t p)))"

lemma held_fd_update:
  assumes cond: "file_cond root f P"
  shows "held root P (fd_update E f g) (\<lambda>_. P)"
  unfolding held_def
proof (rule sftp.guardedI)
  fix s r s'
  assume run: "fd_update E f g s = (r, s')" and pre: "sandboxed root s" "P (fs_tree s)"
  show "sandboxed root s' \<and> same_outside root (fs_tree s) (fs_tree s') \<and> (\<forall>v. r = Ok v \<longrightarrow> P (fs_tree s'))"
  proof (cases "\<exists>m d. loc_node (of_loc f) s = Some (FFile m d)")
    case False
    then have "s' = s\<lparr>fs_calls := Suc (fs_calls s)\<rparr>"
      using run by (auto simp: fd_update_def Let_def split: option.splits fnode.splits)
    with pre show ?thesis by (simp add: sandboxed_def)
  next
    case True
    then obtain m d where n: "loc_node (of_loc f) s = Some (FFile m d)" by blast
    obtain x d' where g: "g (se_fault E (fs_calls s)) d = (x, d')" by fastforce
    have s': "s' = set_loc (of_loc f) (FFile m d') (s\<lparr>fs_calls := Suc (fs_calls s)\<rparr>)"
      using run n g by (simp add: fd_update_def Let_def)
    show ?thesis
    proof (cases "of_loc f")
      case (At p)
      have "lookup (fs_tree s) p = Some (FFile m d)" "prefix root p" "real_dir (fs_tree s) root"
        using n At cond pre(1) by (auto simp: loc_node_def file_cond_def loc_inside_def sandboxed_def)
      from put_file_inside [OF this, of d'] pre cond At show ?thesis
        by (auto simp: s' file_cond_def set_loc_def sandboxed_def)
    next
      case (Orphan k)
      with pre cond show ?thesis by (auto simp: s' file_cond_def set_loc_def sandboxed_def)
    qed
  qed
qed

lemma held_write_all: "file_cond root f P \<Longrightarrow> held root P (file_write_all E f offset data) (\<lambda>_. P)"
  unfolding file_write_all_def by (cases "data = []") (auto intro: held_fd_update held_ret)

lemma held_set_len: "file_cond root f P \<Longrightarrow> held root P (file_set_len E f sz) (\<lambda>_. P)"
  unfolding file_set_len_def by (cases "I64_LIMIT \<le> unat sz \<or> \<not> of_write f") (auto intro: held_fd_update)

lemma held_open_attributes: "file_cond root f P \<Longrightarrow> held root P (apply_open_file_attributes E f attrs) (\<lambda>_. P)"
  unfolding apply_open_file_attributes_def by (cases "attr_size attrs") (auto intro: held_set_len held_ret)

lemma held_permissions: "held root (\<lambda>t. inside root t p) (apply_path_permissions E p attrs) (\<lambda>_ _. True)"
  unfolding apply_path_permissions_def
  by (cases "attr_permissions attrs") (auto intro!: held_ret held_try dest: chmod_inside)

lemma held_open:
  "held root (\<lambda>t. inside root t p) (fs_try E (open_at mode options p)) (\<lambda>q t. q = p \<and> inside root t p)"
  by (rule held_try) (use open_inside in blast)

lemma file_cond_opened [simp]:
  "file_cond root (opened options p) (\<lambda>t. inside root t p) \<longleftrightarrow> prefix root p"
  by (simp add: file_cond_def loc_inside_def opened_def)

lemma loc_inside_opened [simp]: "loc_inside root (opened options p) \<longleftrightarrow> prefix root p"
  by (simp add: loc_inside_def opened_def)

lemma held_insert_handle:
  assumes "\<And>f. h = HFile f \<Longrightarrow> loc_inside root f"
  shows "held root P (insert_handle h) (\<lambda>_. P)"
  unfolding held_def
  by (rule sftp.guardedI)
    (use assms in \<open>auto simp: insert_handle_def sandboxed_def handles_inside_def loc_inside_def split: if_splits\<close>)

section \<open>Names\<close>

lemma held_name_call:
  assumes "\<And>s r s'. g s = (r, s') \<Longrightarrow> sandboxed root s \<Longrightarrow> P (fs_tree s) \<Longrightarrow>
    sandboxed root s' \<and> same_outside root (fs_tree s) (fs_tree s')"
  shows "held root P (name_call E g) (\<lambda>_ _. True)"
  unfolding held_def
proof (rule sftp.guardedI)
  fix s r s'
  assume run: "name_call E g s = (r, s')" and pre: "sandboxed root s" "P (fs_tree s)"
  let ?s = "s\<lparr>fs_calls := Suc (fs_calls s)\<rparr>"
  have "s' = ?s \<or> (\<exists>x. g ?s = (x, s'))"
    using run by (auto simp: name_call_def Let_def split: if_splits prod.splits)
  then have "sandboxed root s' \<and> same_outside root (fs_tree s) (fs_tree s')"
    using assms [of ?s] pre by (auto simp: sandboxed_def)
  then show "sandboxed root s' \<and> same_outside root (fs_tree s) (fs_tree s') \<and> (\<forall>v. r = Ok v \<longrightarrow> True)" by simp
qed

lemma sandboxed_root: "sandboxed root s \<Longrightarrow> \<exists>m cs. lookup (fs_tree s) root = Some (FDir m cs)"
  by (simp add: sandboxed_def real_dir_iff)

lemma held_remove_file: "held root (\<lambda>t. inside root t p) (name_call E (remove_file_at p)) (\<lambda>_ _. True)"
proof (rule held_name_call)
  fix s r s'
  assume run: "remove_file_at p s = (r, s')" and s: "sandboxed root s" and p: "inside root (fs_tree s) p"
  have "s' = s \<or> (\<exists>n. lookup (fs_tree s) p = Some n \<and> \<not> is_fdir n \<and> s' = unlink_entry p n s)"
    using run placed_entry [OF inside_placed [OF p]]
    by (auto simp: remove_file_at_def split: sum.splits option.splits fnode.splits)
  moreover have "p \<noteq> root" if "lookup (fs_tree s) p = Some n" "\<not> is_fdir n" for n
    using that sandboxed_root [OF s] by auto
  moreover have "prefix root p" using p by (simp add: inside_def)
  ultimately show "sandboxed root s' \<and> same_outside root (fs_tree s) (fs_tree s')"
    using s unlink_inside by auto
qed

lemma held_remove_dir:
  assumes "p \<noteq> root"
  shows "held root (\<lambda>t. inside root t p) (name_call E (remove_dir_at p)) (\<lambda>_ _. True)"
proof (rule held_name_call)
  fix s r s'
  assume run: "remove_dir_at p s = (r, s')" and s: "sandboxed root s" and p: "inside root (fs_tree s) p"
  have "s' = s \<or> (\<exists>n. s' = unlink_entry p n s)"
    using run placed_entry [OF inside_placed [OF p]]
    by (auto simp: remove_dir_at_def split: sum.splits option.splits fnode.splits list.splits)
  moreover have "prefix root p" using p by (simp add: inside_def)
  ultimately show "sandboxed root s' \<and> same_outside root (fs_tree s) (fs_tree s')"
    using s assms unlink_inside by auto
qed

lemma rename_changes:
  assumes run: "rename_at old new s = (r, s')" and changed: "s' \<noteq> s"
  shows "\<exists>p q n. entry_at (fs_tree s) old = Ok p \<and> entry_at (fs_tree s) new = Ok q \<and>
    lookup (fs_tree s) p = Some n \<and> take (length p) q \<noteq> p \<and>
    (lookup (fs_tree s) q = None \<and> s' = move_entry p q n s \<or>
     (\<exists>target. lookup (fs_tree s) q = Some target \<and> may_replace n target \<and>
        s' = move_entry p q n (unlink_entry q target s)))"
proof (cases "entry_at (fs_tree s) old")
  case (Inr p)
  show ?thesis
  proof (cases "entry_at (fs_tree s) new")
    case new: (Inr q)
    show ?thesis
    proof (cases "lookup (fs_tree s) p")
      case (Some n)
      show ?thesis
        using run changed Inr new Some
        by (cases "lookup (fs_tree s) q") (auto simp: rename_at_def split: if_splits)
    qed (use run changed Inr new in \<open>simp add: rename_at_def\<close>)
  qed (use run changed Inr in \<open>simp add: rename_at_def\<close>)
qed (use run changed in \<open>simp add: rename_at_def\<close>)

text \<open>The root itself is neither moved, since the target lies in it, nor replaced, since it is
  not empty.\<close>

lemma held_rename:
  "held root (\<lambda>t. placed root t old \<and> placed root t new) (name_call E (rename_at old new)) (\<lambda>_ _. True)"
proof (rule held_name_call)
  fix s r s'
  assume run: "rename_at old new s = (r, s')" and s: "sandboxed root s"
    and p: "placed root (fs_tree s) old \<and> placed root (fs_tree s) new"
  have pre: "prefix root old" "prefix root new" using p by (auto simp: placed_def)
  show "sandboxed root s' \<and> same_outside root (fs_tree s) (fs_tree s')"
  proof (cases "s' = s")
    case False
    from rename_changes [OF run this] obtain p q n where pq: "entry_at (fs_tree s) old = Ok p"
      "entry_at (fs_tree s) new = Ok q" "lookup (fs_tree s) p = Some n" "take (length p) q \<noteq> p"
      and s': "lookup (fs_tree s) q = None \<and> s' = move_entry p q n s \<or>
         (\<exists>target. lookup (fs_tree s) q = Some target \<and> may_replace n target \<and>
            s' = move_entry p q n (unlink_entry q target s))"
      by auto
    have "p = old" "q = new" using placed_entry pq(1,2) p by blast+
    with pq(3,4) have n: "lookup (fs_tree s) old = Some n" and apart: "\<not> prefix old new"
      by (auto simp: under_root_prefix [symmetric] under_root_def simp del: under_root_prefix)
    note s' = s' [unfolded \<open>p = old\<close> \<open>q = new\<close>]
    have old: "old \<noteq> root" using apart pre(2) by auto
    obtain m cs where root: "lookup (fs_tree s) root = Some (FDir m cs)" using sandboxed_root [OF s] by blast
    obtain c rest where "old = root @ c # rest" using pre(1) old by (metis append_Nil2 list.exhaust prefix_def)
    with n root have "cs \<noteq> []" by (auto simp: lookup_append)
    with root s' have new: "new \<noteq> root" by (auto simp: may_replace_def)
    show ?thesis
      using s' move_inside [OF _ pre(1) old pre(2) new] unlink_inside [OF s pre(2) new] s
        same_outside_trans by metis
  qed (use s in simp)
qed


section \<open>Requests\<close>

abbreviation contained :: "tpath \<Rightarrow> 'a sftp \<Rightarrow> bool" where
  "contained root m \<equiv> held root (\<lambda>_. True) m (\<lambda>_ _. True)"

lemma contained_ret [simp]: "held root P (do_ret v) (\<lambda>_ _. True)"
  by (rule held_ret) simp

lemma contained_then: "contained root m \<Longrightarrow> (\<And>v. contained root (k v)) \<Longrightarrow> contained root (do_then m k)"
  by (rule held_then)

lemma contained_query: "contained root (fs_try E (query q))"
  by (rule held_try_query) simp

lemma contained_list_entries: "contained root (list_entries E root p names entries)"
  by (induction E root p names entries rule: list_entries.induct)
    (auto intro!: contained_then contained_query)

lemma contained_on_existing:
  assumes "\<And>p. held root (\<lambda>t. inside root t p) (k p) (\<lambda>_ _. True)"
  shows "contained root (do_then (sftp_resolve_existing E root requested) k)"
  using held_then [OF held_resolve_existing] assms .

lemma held_then_ret: "held root P m (\<lambda>_ _. True) \<Longrightarrow> held root P (do_then m (\<lambda>v. do_ret (g v))) (\<lambda>_ _. True)"
  by (erule held_then) simp

lemma held_then_open:
  assumes "prefix root p \<Longrightarrow> held root (\<lambda>t. inside root t p) (k p) R"
  shows "held root (\<lambda>t. inside root t p) (do_then (fs_try E (open_at mode options p)) k) R"
proof (rule held_then [OF held_open])
  fix q
  show "held root (\<lambda>t. q = p \<and> inside root t p) (k q) R"
  proof (cases "q = p \<and> prefix root p")
    case True
    with assms show ?thesis by simp
  qed (auto simp: held_def sftp.guarded_def inside_def)
qed

lemma contained_open:
  assumes "list_all plain_name root" and "se_contains_create E pflags \<Longrightarrow> clean_path filename"
  shows "contained root (sftp_open E root filename pflags attrs)"
proof -
  let ?o = "se_options E pflags"
  have p: "held root (\<lambda>_. True) (if se_contains_create E pflags then sftp_resolve_for_create E root filename
      else sftp_resolve_existing E root filename) (\<lambda>p t. inside root t p)"
    using held_conseq [OF held_resolve_for_create [OF assms(1)]] held_resolve_existing assms(2) by auto
  have rest: "held root (\<lambda>t. inside root t p)
      (do_then (apply_file_attributes E (opened ?o p) p attrs) (\<lambda>_.
       do_then (insert_handle (HFile (opened ?o p))) (\<lambda>token. do_ret (RHandle token)))) (\<lambda>_ _. True)"
    if "prefix root p" for p
    unfolding apply_file_attributes_def
    by (rule held_then [OF held_then [OF held_open_attributes held_permissions]])
      (use that in \<open>auto intro!: held_then_ret held_insert_handle\<close>)
  show ?thesis
    unfolding sftp_open_def by (rule held_then [OF p], rule held_then_open) (rule rest)
qed

lemma contained_setstat: "contained root (sftp_setstat E root p attrs)"
  unfolding sftp_setstat_def
proof (intro contained_on_existing held_then [OF held_path_is])
  fix p dir
  have change: "held root (\<lambda>t. inside root t p) (do_then (fs_try E (open_at (se_file_mode E) write_only p)) (\<lambda>q.
      file_set_len E (opened write_only q) sz)) (\<lambda>_ t. inside root t p)" for sz
    by (rule held_then_open [OF held_set_len]) simp
  then have "held root (\<lambda>t. inside root t p) (case attr_size attrs of
      Some sz \<Rightarrow> if dir then do_ret () else do_then (fs_try E (open_at (se_file_mode E) write_only p)) (\<lambda>q.
        file_set_len E (opened write_only q) sz)
    | None \<Rightarrow> do_ret ()) (\<lambda>_ t. inside root t p)"
    by (auto intro!: held_ret split: option.split)
  then show "held root (\<lambda>t. inside root t p)
     (do_then (case attr_size attrs of
        Some sz \<Rightarrow> if dir then do_ret () else do_then (fs_try E (open_at (se_file_mode E) write_only p)) (\<lambda>q.
          file_set_len E (opened write_only q) sz)
      | None \<Rightarrow> do_ret ()) (\<lambda>_. do_then (apply_path_permissions E p attrs) (\<lambda>_. do_ret RStatusOk)))
     (\<lambda>_ _. True)"
    by (rule held_then) (intro held_then_ret held_permissions)
qed

lemma contained_reads: "contained root (sftp_read E token offset len)" "contained root (sftp_fstat E token)"
  unfolding sftp_read_def sftp_fstat_def file_seek_def file_read_def
  by (auto intro!: held_get_file_then held_then [OF held_fd_query])

lemma file_cond_True [simp]: "file_cond root f (\<lambda>_. True) \<longleftrightarrow> loc_inside root f"
  by (auto simp: file_cond_def)

lemma contained_writes: "contained root (sftp_write E token offset data)" "contained root (sftp_fsetstat E token attrs)"
  unfolding sftp_write_def sftp_fsetstat_def file_seek_def
  by (auto intro!: held_get_file_then held_then [OF held_fd_query] held_then_ret held_write_all held_open_attributes)

lemma contained_stat: "contained root (sftp_stat E root p)"
  unfolding sftp_stat_def
  by (intro contained_on_existing held_then_ret held_conseq [OF contained_query]) auto

lemma contained_opendir: "contained root (sftp_opendir E root p)"
  unfolding sftp_opendir_def
proof (intro contained_on_existing held_then [OF held_path_is])
  fix p dir
  have "contained root (do_then (fs_try E (query (\<lambda>t. dir_names t p))) (\<lambda>names.
      do_then (list_entries E root p names []) (\<lambda>entries.
      do_then (insert_handle (HDirectory (Some (sort_key fst entries)))) (\<lambda>token. do_ret (RHandle token)))))"
    by (intro contained_then contained_query contained_list_entries held_insert_handle) simp_all
  then show "held root (\<lambda>t. inside root t p) (if \<not> dir then sftp_fail NoSuchFile
     else do_then (fs_try E (query (\<lambda>t. dir_names t p))) (\<lambda>names.
      do_then (list_entries E root p names []) (\<lambda>entries.
      do_then (insert_handle (HDirectory (Some (sort_key fst entries)))) (\<lambda>token. do_ret (RHandle token))))) (\<lambda>_ _. True)"
    by (auto elim: held_conseq)
qed

lemma contained_remove: "contained root (sftp_remove E root p)" "contained root (sftp_rmdir E root p)"
  unfolding sftp_remove_def sftp_rmdir_def
  by (auto intro!: contained_on_existing held_then [OF held_path_is] held_then_ret held_remove_file held_remove_dir)

lemma contained_realpath: "contained root (sftp_realpath E root p)"
  unfolding sftp_realpath_def by (auto intro!: held_lift_then contained_on_existing)

lemma contained_mkdir:
  assumes "list_all plain_name root"
  shows "contained root (sftp_mkdir E root p attrs)"
  unfolding sftp_mkdir_def
  by (rule held_then [OF held_resolve_for_create [OF assms]],
      rule held_then [OF held_try [where Q = "\<lambda>_ t. inside root t _"]])
    (use mkdir_placed in \<open>auto intro!: held_then_ret held_permissions\<close>)

lemma contained_rename:
  assumes "list_all plain_name root"
  shows "contained root (sftp_rename E root p q)"
  unfolding sftp_rename_def
  by (rule contained_on_existing)
    (auto intro!: held_then [OF held_frame [OF held_resolve_for_create [OF assms]]] asks_intros held_then_ret
      held_conseq [OF held_rename] inside_placed)

lemma contained_session: "contained root sftp_init" "contained root (sftp_close token)" "contained root (sftp_readdir token)"
  unfolding held_def
  by (rule sftp.guardedI; auto simp: sftp_init_def sftp_close_def sftp_readdir_def sandboxed_def handles_inside_def
      split: if_splits option.splits sftp_handle.splits)+

lemma contained_request:
  assumes "list_all plain_name root"
    and "\<And>p flags attrs. req = SOpen p flags attrs \<Longrightarrow> se_contains_create E flags \<Longrightarrow> clean_path p"
  shows "contained root (serve_request E root req)"
  using assms
  by (cases req)
    (simp_all add: contained_session contained_open contained_reads contained_writes contained_setstat contained_stat
      contained_opendir contained_remove contained_realpath contained_mkdir contained_rename sftp_lstat_def
      sftp_readlink_def sftp_symlink_def)

definition clean_opens :: "sftp_env \<Rightarrow> sftp_request list \<Rightarrow> bool" where
  "clean_opens E rs \<longleftrightarrow> list_all (\<lambda>r.
     case r of SOpen p flags attrs \<Rightarrow> se_contains_create E flags \<longrightarrow> clean_path p | _ \<Rightarrow> True) rs"

lemma contained_requests:
  assumes "sandboxed root s" and "clean_opens E rs" and "serve_requests E root rs s = (replies, s')"
  shows "sandboxed root s' \<and> same_outside root (fs_tree s) (fs_tree s')"
  using assms
proof (induction rs arbitrary: s replies)
  case (Cons req rs)
  obtain x u where u: "serve_request E root req s = (x, u)" by fastforce
  obtain xs where rest: "serve_requests E root rs u = (xs, s')"
    using Cons.prems(3) u by (auto split: prod.splits)
  have "contained root (serve_request E root req)"
    by (rule contained_request) (use Cons.prems(1,2) in \<open>auto simp: sandboxed_def clean_opens_def\<close>)
  from sftp.guardedD(1,2) [OF this [unfolded held_def] u Cons.prems(1)]
  have "sandboxed root u" "same_outside root (fs_tree s) (fs_tree u)" by simp_all
  with Cons.IH [OF _ _ rest] Cons.prems(2) same_outside_trans show ?case
    by (auto simp: clean_opens_def)
qed simp

section \<open>The session\<close>

text \<open>C10. Whatever requests a client sends to a new session, in any order and with any faults of
  the system calls, every file, link and directory listing outside the root is unchanged
  afterwards, the root is still a directory, and no open file lies outside it. The one
  condition is on the paths that are opened with creation: they must not end in a slash or a
  current-directory component.\<close>

theorem sftp_confined:
  assumes "real_dir t root" and "list_all plain_name root" and "clean_opens E rs"
    and "serve_requests E root rs (sftp_session_new t) = (replies, s)"
  shows "(\<forall>q. \<not> prefix root q \<longrightarrow> info_at (fs_tree s) q = info_at t q) \<and> real_dir (fs_tree s) root \<and>
    (\<forall>token f p. sf_handles s token = Some (HFile f) \<longrightarrow> of_loc f = At p \<longrightarrow> prefix root p)"
proof -
  have "sandboxed root (sftp_session_new t)"
    using assms(1,2) by (simp add: sandboxed_def sftp_session_new_def handles_inside_def)
  from contained_requests [OF this assms(3,4)] show ?thesis
    by (auto simp: sandboxed_def same_outside_def handles_inside_def sftp_session_new_def)
qed

text \<open>A tree and an environment for examples: a served directory with a file, a link to a file
  that does not exist outside, and a directory beside it; every flag asks for creation.\<close>

definition sample_tree :: fnode where
  "sample_tree = FDir 493
     [(''srv'', FDir 493 [(''f'', FFile 420 [1, 2]), (''l'', FLink ''/out/x'')]),
      (''out'', FDir 493 [(''g'', FFile 420 [7])])]"

definition sample_options :: open_options where
  "sample_options = \<lparr>oo_read = True, oo_write = True, oo_append = False, oo_truncate = False,
     oo_create = True, oo_create_new = False\<rparr>"

definition sample_env :: sftp_env where
  "sample_env = \<lparr>se_fault = (\<lambda>_. Works), se_file_mode = 420, se_dir_mode = 493,
     se_contains_create = (\<lambda>_. True), se_options = (\<lambda>_. sample_options),
     se_attributes = (\<lambda>n. \<lparr>attr_size = None, attr_permissions = None\<rparr>)\<rparr>"

definition no_attributes :: file_attributes where
  "no_attributes = \<lparr>attr_size = None, attr_permissions = None\<rparr>"

lemmas sample_simps =
  sample_tree_def sample_options_def sample_env_def no_attributes_def

theorem sftp_confined_witness:
  "list_all (\<lambda>q. info_at (fs_tree (snd (serve_requests sample_env [''srv'']
        [SInit, SOpen ''f'' 26 no_attributes, SWrite ''fixture-0'' 1 [9], SRename ''/f'' ''out'', SRmdir ''.'']
        (sftp_session_new sample_tree)))) q = info_at sample_tree q)
     [[], [''out''], [''out'', ''g''], [''out'', ''x'']]"
proof -
  let ?rs = "[SInit, SOpen ''f'' 26 no_attributes, SWrite ''fixture-0'' 1 [9], SRename ''/f'' ''out'', SRmdir ''.'']"
  let ?run = "serve_requests sample_env [''srv''] ?rs (sftp_session_new sample_tree)"
  have "real_dir sample_tree [''srv'']" by (simp add: sample_tree_def real_dir_iff)
  moreover have "list_all plain_name [''srv'']" by (simp add: plain_name_def)
  moreover have "clean_opens sample_env ?rs"
    by (simp add: clean_opens_def clean_path_def relative_path_def strip_prefix_def starts_with_def Let_def
        unsafe_relative_def plain_name_def)
  ultimately show ?thesis using sftp_confined [of _ _ _ ?rs "fst ?run" "snd ?run"] by simp
qed

lemma max_links_Suc: "MAX_LINKS = Suc 39"
  by (simp add: MAX_LINKS_def)

lemma show_nat_zero: "show_nat 0 = ''0''"
  by code_simp

text \<open>Without that condition the session leaves its root: opening \<open>l/\<close> with creation, where
  \<open>l\<close> is a link to a file that does not exist outside, creates that file. The check of the path
  follows the link because of the slash and finds nothing, and the path that is opened has lost
  the slash.\<close>

theorem open_creates_outside:
  "case serve_requests sample_env [''srv''] [SOpen ''l/'' 26 no_attributes] (sftp_session_new sample_tree) of
     (replies, s) \<Rightarrow> replies = [Ok (RHandle ''fixture-0'')] \<and>
       info_at sample_tree [''out'', ''x''] = None \<and> info_at (fs_tree s) [''out'', ''x''] = Some (IFile 420 [])"
  by (simp add: sample_simps sftp_session_new_def sftp_open_def sftp_resolve_for_create_def relative_path_def
      strip_prefix_def unsafe_relative_def sftp_create_path_def do_then_def do_lift_def fs_call_def fs_try_def query_def
      symlink_metadata_def canonicalize_def walk.simps max_links_Suc joined_def sftp_ensure_contained_def
      open_at_def options_valid_def open_target.simps plain_name_def open_new_def apply_file_attributes_def
      apply_open_file_attributes_def apply_path_permissions_def do_ret_def insert_handle_def handle_token_def
      info_at_def starts_with_def show_nat_zero)

end
