(* ===== verification/Sftp_Live.thy ===== *)
theory Sftp_Live
  imports Sftp_Confined
begin

text \<open>
  An open file of the SFTP session stays open: whatever happens to names, every handle keeps
  denoting a node of the tree or one that has lost its last name.
\<close>

section \<open>Nodes under updates\<close>

lemma put_keeps:
  assumes "\<And>r. lookup t (p @ r) \<noteq> None \<Longrightarrow> lookup v r \<noteq> None" and "lookup t q \<noteq> None"
  shows "lookup (put_node p v t) q \<noteq> None"
  using assms
proof (induction p arbitrary: t q)
  case Nil
  then show ?case by simp
next
  case (Cons c p)
  show ?case
  proof (cases t)
    case (FDir m cs)
    show ?thesis
    proof (cases q)
      case Nil
      with FDir show ?thesis by (simp split: option.split)
    next
      case q: (Cons d q')
      show ?thesis
      proof (cases "map_of cs c")
        case None
        with Cons.prems(2) FDir q show ?thesis
          by (auto simp: map_add_def split: Option.bind_splits option.splits)
      next
        case (Some n)
        with Cons.IH [of n q'] Cons.prems FDir q show ?thesis
          by (cases "d = c") (auto simp: map_of_update)
      qed
    qed
  qed (use Cons.prems(2) in auto)
qed

lemma put_over:
  assumes "lookup t p = Some n" and "\<And>r. lookup n r \<noteq> None \<Longrightarrow> lookup v r \<noteq> None" and "lookup t q \<noteq> None"
  shows "lookup (put_node p v t) q \<noteq> None"
  using assms(3) by (rule put_keeps [rotated]) (use assms(1,2) in \<open>auto simp: lookup_append\<close>)

lemma put_fresh:
  assumes "lookup t p = None" and "lookup t q \<noteq> None"
  shows "lookup (put_node p v t) q \<noteq> None"
  using assms(2) by (rule put_keeps [rotated]) (use assms(1) in \<open>auto simp: lookup_append\<close>)

lemma lookup_leaf: "lookup (FFile m d) r = (if r = [] then Some (FFile m d) else None)"
  "lookup (FLink l) r = (if r = [] then Some (FLink l) else None)"
  by (cases r; simp)+

lemma lookup_with_mode: "lookup (with_mode m n) r = None \<longleftrightarrow> lookup n r = None"
  by (cases n; cases r) auto

lemma put_file_keeps:
  "lookup t p = Some (FFile m d) \<Longrightarrow> lookup t q \<noteq> None \<Longrightarrow> lookup (put_node p (FFile m' d') t) q \<noteq> None"
  by (erule put_over) (auto simp: lookup_leaf split: if_splits)

lemma put_mode_keeps:
  "lookup t p = Some n \<Longrightarrow> lookup t q \<noteq> None \<Longrightarrow> lookup (put_node p (with_mode m n) t) q \<noteq> None"
  by (erule put_over) (simp add: lookup_with_mode)

lemma del_keeps: "lookup t q \<noteq> None \<Longrightarrow> \<not> prefix p q \<Longrightarrow> lookup (del_node p t) q \<noteq> None"
proof (induction p t arbitrary: q rule: del_node.induct)
  case (1 c m cs)
  then show ?case by (cases q) (auto simp: delete_conv' split: Option.bind_splits)
next
  case (2 c d p m cs)
  then show ?case by (cases q) (auto simp: map_of_update split: option.splits Option.bind_splits)
qed auto

lemma del_adds_nothing: "lookup (del_node p t) q \<noteq> None \<Longrightarrow> lookup t q \<noteq> None"
proof (induction p t arbitrary: q rule: del_node.induct)
  case (1 c m cs)
  then show ?case by (cases q) (auto simp: delete_conv' split: Option.bind_splits if_splits)
next
  case (2 c d p m cs)
  then show ?case
    by (cases q) (auto simp: map_of_update split: option.splits Option.bind_splits if_splits)
qed auto

lemma del_gone: "p \<noteq> [] \<Longrightarrow> lookup (del_node p t) p = None"
proof (induction p t rule: del_node.induct)
  case (1 c m cs)
  show ?case by (simp add: delete_conv')
next
  case (2 c d p m cs)
  then show ?case by (auto simp: map_of_update split: option.split)
qed (auto simp: lookup_leaf)

section \<open>The invariant\<close>

definition handles_live :: "sftp_state \<Rightarrow> bool" where
  "handles_live s \<longleftrightarrow> (\<forall>token f. sf_handles s token = Some (HFile f) \<longrightarrow> loc_node (of_loc f) s \<noteq> None)"

text \<open>Programs that keep the table of handles and every node.\<close>

definition more_nodes :: "sftp_state \<Rightarrow> sftp_state \<Rightarrow> bool" where
  "more_nodes s s' \<longleftrightarrow> sf_handles s' = sf_handles s \<and> (\<forall>l. loc_node l s \<noteq> None \<longrightarrow> loc_node l s' \<noteq> None)"

interpretation live: guarded_runs handles_live more_nodes
  by unfold_locales (auto simp: more_nodes_def)

abbreviation grows :: "'a sftp \<Rightarrow> bool" where
  "grows m \<equiv> live.guarded (\<lambda>_. True) m (\<lambda>_ _. True)"

named_theorems grows_intros \<open>programs that keep every node\<close>

lemma more_nodes_live: "more_nodes s s' \<Longrightarrow> handles_live s \<Longrightarrow> handles_live s'"
  by (simp add: more_nodes_def handles_live_def)

lemma growsI: "(\<And>s. more_nodes s (snd (m s))) \<Longrightarrow> grows m"
  by (rule live.guardedI) (metis more_nodes_live snd_conv)

lemma grows_then [grows_intros]: "grows m \<Longrightarrow> (\<And>v. grows (k v)) \<Longrightarrow> grows (do_then m k)"
  by (rule live.guarded_then)

lemma grows_basic [grows_intros]: "grows (do_ret v)" "grows (do_lift r)" "grows (sftp_fail c)" "grows (get_file h)"
  by (auto intro!: growsI simp: more_nodes_def do_ret_def do_lift_def sftp_fail_def get_file_def
      split: option.split sftp_handle.split)

lemma loc_node_calls [simp]: "loc_node l (s\<lparr>fs_calls := k\<rparr>) = loc_node l s"
  by (simp add: loc_node_def split: file_loc.split)

text \<open>A call that keeps the nodes of the tree, and its error.\<close>

lemma call_more_nodes:
  assumes "\<And>f t q. lookup t q \<noteq> None \<Longrightarrow> lookup (snd (call f t)) q \<noteq> None"
  shows "more_nodes s (snd (fs_call E call s))"
  using assms [of "fs_tree s"]
  by (auto simp: more_nodes_def fs_call_def loc_node_def split: prod.split file_loc.split) (metis snd_conv)

lemma grows_call [grows_intros]:
  assumes "\<And>f t q. lookup t q \<noteq> None \<Longrightarrow> lookup (snd (call f t)) q \<noteq> None"
  shows "grows (fs_call E call)"
  using call_more_nodes [OF assms] by (rule growsI)

lemma grows_query [grows_intros]: "grows (fs_try E (query q))" "grows (fs_path_is E kind p)" "grows (fs_call E (query q))"
  by (auto simp: fs_try_def fs_path_is_def query_def intro!: grows_intros)

lemma grows_fd [grows_intros]: "grows (fd_query E f q)" "grows (fd_update E f g)"
proof -
  show "grows (fd_query E f q)"
    by (rule growsI) (simp add: more_nodes_def fd_query_def Let_def split: option.split)
  have "loc_node l (set_loc k (FFile m d') s) \<noteq> None"
    if "loc_node l s \<noteq> None" "loc_node k s = Some (FFile m d)" for l k m d d' s
    using that put_file_keeps [of "fs_tree s" _ m d _ m d']
    by (cases l; cases k) (auto simp: loc_node_def set_loc_def split: if_splits)
  then show "grows (fd_update E f g)"
    by (intro growsI) (auto simp: more_nodes_def fd_update_def Let_def set_loc_def
      split: option.split fnode.split prod.split file_loc.split)
qed

section \<open>Calls\<close>

lemma chmod_nodes: "lookup t q \<noteq> None \<Longrightarrow> lookup (snd (chmod_at mode p f t)) q \<noteq> None"
  using put_mode_keeps [of t] by (auto simp: chmod_at_def split: sum.split option.split)

lemma mkdir_nodes: "lookup t q \<noteq> None \<Longrightarrow> lookup (snd (mkdir_at mode p f t)) q \<noteq> None"
  using put_fresh [of t] by (auto simp: mkdir_at_def split: sum.split option.split fnode.split)

lemma open_target_dir:
  "open_target n t base p = Ok q \<Longrightarrow> \<exists>d c m cs. q = d @ [c] \<and> lookup t d = Some (FDir m cs)"
proof (induction n t base p rule: open_target.induct)
  case (1 n t base p)
  have p: "\<not> (p = [] \<or> \<not> plain_name (last p))" using 1(2) by (auto simp: open_target.simps split: if_splits)
  obtain d where d: "walk n t base (butlast p) = Ok d" using 1(2) p by (cases "walk n t base (butlast p)") (auto simp: open_target.simps [of n])
  obtain m cs where dir: "lookup t d = Some (FDir m cs)"
    using 1(2) p d by (auto simp: open_target.simps [of n] split: option.splits fnode.splits)
  show ?case
  proof (cases "\<exists>l. lookup t (d @ [last p]) = Some (FLink l)")
    case True
    then obtain l where l: "lookup t (d @ [last p]) = Some (FLink l)" by blast
    then obtain k where "n = Suc k" using 1(2) p d dir by (auto simp: open_target.simps [of n] split: nat.splits)
    with 1(1) [OF p dir refl l refl, of k] 1(2) p d dir l show ?thesis by (simp add: open_target.simps [of "Suc k" t base p])
  next
    case False
    then have "q = d @ [last p]"
      using 1(2) p d dir by (auto simp: open_target.simps [of n] split: option.splits fnode.splits)
    with dir show ?thesis by blast
  qed
qed

lemma open_existing_nodes:
  assumes "open_existing options p t = (r, t')"
  shows "lookup t q \<noteq> None \<Longrightarrow> lookup t' q \<noteq> None" and "r = Ok x \<Longrightarrow> lookup t' x \<noteq> None"
proof -
  have "t' = t \<or> (\<exists>m d. lookup t p = Some (FFile m d) \<and> t' = put_node p (FFile m []) t)"
    and "r = Ok x \<Longrightarrow> x = p \<and> lookup t p \<noteq> None"
    using assms by (auto simp: open_existing_def split: option.splits fnode.splits if_splits)
  then show "lookup t q \<noteq> None \<Longrightarrow> lookup t' q \<noteq> None" "r = Ok x \<Longrightarrow> lookup t' x \<noteq> None"
    using put_file_keeps by metis+
qed

lemma open_new_nodes:
  assumes "open_new mode (d @ [c]) t = (r, t')" and "lookup t d = Some (FDir m cs)" and "lookup t (d @ [c]) = None"
  shows "lookup t q \<noteq> None \<Longrightarrow> lookup t' q \<noteq> None" and "r = Ok x \<Longrightarrow> lookup t' x \<noteq> None"
  using assms(1) put_fresh [OF assms(3), of q "FFile mode []"] lookup_put_same [OF assms(2), of c "FFile mode []"]
  by (auto simp: open_new_def)

lemma open_nodes:
  assumes "open_at mode options p f t = (r, t')"
  shows "(lookup t q \<noteq> None \<longrightarrow> lookup t' q \<noteq> None) \<and> (r = Ok x \<longrightarrow> lookup t' x \<noteq> None)"
proof -
  have same: ?thesis if "t' = t" "r = Err e" for e using that by simp
  note new = open_new_nodes [of mode _ _ t r t']
  note old = open_existing_nodes [of options _ t r t']
  consider "\<not> options_valid options \<or> f \<noteq> Works" | "options_valid options" "f = Works" "oo_create_new options"
    | "options_valid options" "f = Works" "\<not> oo_create_new options" "oo_create options"
    | "options_valid options" "f = Works" "\<not> oo_create_new options" "\<not> oo_create options" by blast
  then show ?thesis
  proof cases
    case 1
    with assms same show ?thesis by (auto simp: open_at_def split: if_splits)
  next
    case 2
    show ?thesis
    proof (cases "canonicalize t (butlast p)")
      case (Inr d)
      show ?thesis
      proof (cases "p \<noteq> [] \<and> is_dir_at t d \<and> lookup t (d @ [last p]) = None")
        case True
        moreover then obtain m cs where "lookup t d = Some (FDir m cs)"
          by (auto simp: is_dir_at_def split: option.splits elim!: is_fdir.elims)
        moreover have "open_new mode (d @ [last p]) t = (r, t')" using assms 2 Inr True by (simp add: open_at_def)
        ultimately show ?thesis using new by blast
      qed (use assms 2 Inr same in \<open>auto simp: open_at_def split: if_splits\<close>)
    next
      case (Inl e)
      have "t' = t \<and> r = Err e" using assms 2 by (auto simp: open_at_def Inl)
      with same show ?thesis by blast
    qed
  next
    case 3
    show ?thesis
    proof (cases "open_target MAX_LINKS t [] p")
      case (Inr y)
      obtain d c m cs where d: "y = d @ [c]" "lookup t d = Some (FDir m cs)" using open_target_dir [OF Inr] by blast
      show ?thesis
      proof (cases "lookup t y")
        case None
        then have "open_new mode (d @ [c]) t = (r, t')" using assms 3 Inr d by (simp add: open_at_def)
        with None d new show ?thesis by blast
      next
        case (Some n)
        then have "t' = t \<and> r = Err OtherError \<or> open_existing options y t = (r, t')"
          using assms 3 Inr by (cases n) (simp_all add: open_at_def)
        with same old show ?thesis by blast
      qed
    next
      case (Inl e)
      have "t' = t \<and> r = Err e" using assms 3 by (auto simp: open_at_def Inl)
      with same show ?thesis by blast
    qed
  next
    case 4
    show ?thesis
    proof (cases "canonicalize t p")
      case (Inr y)
      then have "open_existing options y t = (r, t')" using assms 4 by (simp add: open_at_def)
      with old show ?thesis by blast
    next
      case (Inl e)
      have "t' = t \<and> r = Err e" using assms 4 by (auto simp: open_at_def Inl)
      with same show ?thesis by blast
    qed
  qed
qed

section \<open>Names\<close>

text \<open>The node that loses its name has no names below it.\<close>

definition childless :: "fnode \<Rightarrow> bool" where
  "childless n \<longleftrightarrow> (case n of FDir m cs \<Rightarrow> cs = [] | _ \<Rightarrow> True)"

lemma lookup_childless: "childless n \<Longrightarrow> lookup n r \<noteq> None \<Longrightarrow> r = []"
  by (cases n; cases r) (auto simp: childless_def)

lemma relocate_live:
  assumes "handles_live s" and "sf_handles s' = relocate g (sf_handles s)"
    and "\<And>l. loc_node l s \<noteq> None \<Longrightarrow> loc_node (g l) s' \<noteq> None"
  shows "handles_live s'"
  unfolding handles_live_def
proof (intro allI impI)
  fix token f assume "sf_handles s' token = Some (HFile f)"
  with assms(2) obtain f' where "sf_handles s token = Some (HFile f')" "of_loc f = g (of_loc f')"
    by (auto simp: relocate_def split: option.splits sftp_handle.splits)
  with assms(1,3) show "loc_node (of_loc f) s' \<noteq> None" unfolding handles_live_def by metis
qed

lemma unlink_live:
  assumes "handles_live s" and "lookup (fs_tree s) p = Some n" and "childless n"
  shows "handles_live (unlink_entry p n s)"
proof (rule relocate_live [OF assms(1)])
  let ?g = "\<lambda>l. if l = At p then Orphan (length (fs_orphans s)) else l"
  show "sf_handles (unlink_entry p n s) = relocate ?g (sf_handles s)" by (simp add: unlink_entry_def)
  fix l assume l: "loc_node l s \<noteq> None"
  show "loc_node (?g l) (unlink_entry p n s) \<noteq> None"
  proof (cases l)
    case (Orphan k)
    with l show ?thesis by (auto simp: loc_node_def unlink_entry_def nth_append split: if_splits)
  next
    case (At q)
    show ?thesis
    proof (cases "q = p")
      case False
      have "\<not> prefix p q"
      proof
        assume "prefix p q"
        then obtain r where "q = p @ r" by (auto simp: prefix_def)
        with l At assms(2) False lookup_childless [OF assms(3), of r] show False
          by (auto simp: loc_node_def lookup_append)
      qed
      with del_keeps [of "fs_tree s" q p] l At False show ?thesis by (simp add: loc_node_def unlink_entry_def)
    qed (use At in \<open>simp add: loc_node_def unlink_entry_def\<close>)
  qed
qed

lemma move_live:
  assumes "handles_live s" and p: "\<And>r. lookup (fs_tree s) (p @ r) \<noteq> None \<Longrightarrow> lookup n r \<noteq> None"
    and q: "lookup (fs_tree s) d = Some (FDir m cs)" "q = d @ [c]" "lookup (fs_tree s) q = None" and apart: "\<not> prefix p q"
  shows "handles_live (move_entry p q n s)"
proof (rule relocate_live [OF assms(1)])
  let ?t = "fs_tree s" and ?u = "del_node p (fs_tree s)"
  show "sf_handles (move_entry p q n s) = relocate (moved p q) (sf_handles s)" by (simp add: move_entry_def)
  have "\<not> prefix p d" using apart q(2) by auto
  then have "real_dir ?u d" using q(1) dir_del real_dir_iff by blast
  then have at: "lookup (put_node q n ?u) q = Some n" using lookup_put_same q(2) by (auto simp: real_dir_iff)
  have "lookup ?u q = None" using q(3) del_adds_nothing by blast
  note keep = put_fresh [OF this, of _ n]
  fix l assume l: "loc_node l s \<noteq> None"
  show "loc_node (moved p q l) (move_entry p q n s) \<noteq> None"
  proof (cases l)
    case (Orphan k)
    with l show ?thesis by (auto simp: loc_node_def moved_def move_entry_def split: if_splits)
  next
    case (At x)
    show ?thesis
    proof (cases "prefix p x")
      case True
      then obtain r where x: "x = p @ r" by (auto simp: prefix_def)
      then have "lookup n r \<noteq> None" using l At p by (simp add: loc_node_def)
      with at At x show ?thesis by (simp add: loc_node_def moved_def move_entry_def lookup_append)
    next
      case False
      then have "take (length p) x \<noteq> p" by (metis take_is_prefix)
      moreover have "lookup ?t x \<noteq> None" using l At by (simp add: loc_node_def)
      note keep [OF del_keeps [OF this False]]
      ultimately show ?thesis using At by (simp add: loc_node_def moved_def move_entry_def)
    qed
  qed
qed

lemma entry_at_dir:
  assumes "entry_at t p = Ok q"
  shows "\<exists>d c m cs. q = d @ [c] \<and> lookup t d = Some (FDir m cs)"
  using assms
  by (cases "canonicalize t (butlast p)")
    (auto simp: entry_at_def is_dir_at_def split: if_splits option.splits elim!: is_fdir.elims)

lemma rename_live:
  assumes "rename_at old new s = (r, s')" and "handles_live s"
  shows "handles_live s'"
proof (cases "s' = s")
  case False
  from rename_changes [OF assms(1) False] obtain p q n where pq: "entry_at (fs_tree s) new = Ok q"
    "lookup (fs_tree s) p = Some n" "take (length p) q \<noteq> p"
    and s': "lookup (fs_tree s) q = None \<and> s' = move_entry p q n s \<or>
       (\<exists>target. lookup (fs_tree s) q = Some target \<and> may_replace n target \<and>
          s' = move_entry p q n (unlink_entry q target s))"
    by auto
  have apart: "\<not> prefix p q" using pq(3) by (auto simp: prefix_def)
  obtain d c m cs where d: "q = d @ [c]" "lookup (fs_tree s) d = Some (FDir m cs)" using entry_at_dir [OF pq(1)] by blast
  have below: "lookup (fs_tree s) (p @ r) \<noteq> None \<Longrightarrow> lookup n r \<noteq> None" for r
    using pq(2) by (simp add: lookup_append)
  from s' show ?thesis
  proof (elim disjE conjE exE)
    assume "lookup (fs_tree s) q = None" "s' = move_entry p q n s"
    with move_live [OF assms(2) below d(2,1) _ apart] show ?thesis by simp
  next
    fix target assume target: "lookup (fs_tree s) q = Some target" "may_replace n target"
      "s' = move_entry p q n (unlink_entry q target s)"
    let ?u = "unlink_entry q target s"
    have u: "fs_tree ?u = del_node q (fs_tree s)" by (simp add: unlink_entry_def)
    have "childless target" using target(2) by (auto simp: may_replace_def childless_def split: fnode.splits)
    then have live: "handles_live ?u" using unlink_live [OF assms(2) target(1)] by simp
    have "\<not> prefix q d" using d(1) by (metis append_self_conv not_Cons_self prefix_order.antisym prefixI)
    then have "real_dir (fs_tree ?u) d" using d(2) dir_del real_dir_iff u by metis
    then obtain m' cs' where "lookup (fs_tree ?u) d = Some (FDir m' cs')" by (auto simp: real_dir_iff)
    moreover have "lookup (fs_tree ?u) q = None" using del_gone d(1) u by simp
    moreover have "lookup (fs_tree ?u) (p @ r) \<noteq> None \<Longrightarrow> lookup n r \<noteq> None" for r
      using below del_adds_nothing u by metis
    ultimately show ?thesis using move_live [OF live _ _ d(1) _ apart] target(3) by blast
  qed
qed (use assms in simp)

lemma remove_file_live:
  assumes "remove_file_at p s = (r, s')" and "handles_live s"
  shows "handles_live s'"
  using assms
  by (auto simp: remove_file_at_def childless_def intro!: unlink_live split: sum.splits option.splits fnode.splits)

lemma remove_dir_live:
  assumes "remove_dir_at p s = (r, s')" and "handles_live s"
  shows "handles_live s'"
  using assms
  by (auto simp: remove_dir_at_def childless_def intro!: unlink_live
      split: sum.splits option.splits fnode.splits list.splits)

section \<open>Requests\<close>

definition alive :: "'a sftp \<Rightarrow> bool" where
  "alive m \<longleftrightarrow> (\<forall>s. handles_live s \<longrightarrow> handles_live (snd (m s)))"

lemma grows_alive: "grows m \<Longrightarrow> alive m"
  unfolding alive_def by (metis live.guardedD(1) prod.collapse)

lemma alive_then:
  assumes "grows m" and "\<And>v. alive (k v)"
  shows "alive (do_then m k)"
  unfolding alive_def
proof (intro allI impI)
  fix s assume s: "handles_live s"
  obtain r u where m: "m s = (r, u)" by fastforce
  then have "handles_live u" using live.guardedD(1) [OF assms(1) m s] by simp
  with assms(2) m show "handles_live (snd (do_then m k s))" by (cases r) (auto simp: do_then_def alive_def)
qed

lemma alive_name_call:
  assumes "\<And>s r s'. g s = (r, s') \<Longrightarrow> handles_live s \<Longrightarrow> handles_live s'"
  shows "alive (do_then (name_call E g) (\<lambda>_. do_ret v))"
  unfolding alive_def
proof (intro allI impI)
  fix s assume s: "handles_live s"
  let ?s = "s\<lparr>fs_calls := Suc (fs_calls s)\<rparr>"
  obtain r u where g: "g ?s = (r, u)" by fastforce
  have "handles_live ?s" using s by (simp add: handles_live_def)
  with assms [OF g] g show "handles_live (snd (do_then (name_call E g) (\<lambda>_. do_ret v) s))"
    by (cases r) (auto simp: do_then_def name_call_def Let_def do_ret_def)
qed

lemma grows_try [grows_intros]:
  assumes "\<And>f t q. lookup t q \<noteq> None \<Longrightarrow> lookup (snd (call f t)) q \<noteq> None"
  shows "grows (fs_try E call)"
  unfolding fs_try_def by (intro grows_intros assms) simp

lemma grows_attributes [grows_intros]:
  "grows (file_set_len E f sz)" "grows (file_write_all E f off data)" "grows (file_seek E f offset)"
  "grows (file_read E f k len)" "grows (apply_open_file_attributes E f attrs)"
  by (auto simp: file_set_len_def file_write_all_def file_seek_def file_read_def apply_open_file_attributes_def
      intro!: grows_intros split: option.split)

lemma grows_permissions [grows_intros]: "grows (apply_path_permissions E p attrs)"
  unfolding apply_path_permissions_def by (cases "attr_permissions attrs"; simp; intro grows_intros chmod_nodes)

lemma grows_resolve [grows_intros]:
  "grows (sftp_resolve_existing E root p)" "grows (sftp_resolve_for_create E root p)"
  by (auto simp: sftp_resolve_existing_def sftp_resolve_for_create_def sftp_create_path_def
      intro!: grows_intros split: sum.splits fs_error.splits)

lemma grows_list_entries [grows_intros]: "grows (list_entries E root p names entries)"
  by (induction E root p names entries rule: list_entries.induct) (auto intro!: grows_intros)

lemma grows_open [grows_intros]: "grows (fs_try E (open_at mode options p))"
proof (rule grows_try)
  fix f t q
  show "lookup t q \<noteq> None \<Longrightarrow> lookup (snd (open_at mode options p f t)) q \<noteq> None"
    using open_nodes [of mode options p f t] by (metis prod.collapse)
qed

text \<open>The node that is opened is there when its handle is stored.\<close>

lemma open_has_node:
  "live.guarded (\<lambda>_. True) (fs_try E (open_at mode options p)) (\<lambda>q s. loc_node (At q) s \<noteq> None)"
proof (rule live.guardedI)
  fix s r s'
  assume run: "fs_try E (open_at mode options p) s = (r, s')" and s: "handles_live s"
  obtain x t where x: "open_at mode options p (se_fault E (fs_calls s)) (fs_tree s) = (x, t)" by fastforce
  have s': "s' = s\<lparr>fs_tree := t, fs_calls := Suc (fs_calls s)\<rparr>" "r = map_err map_io_status x"
    using run x by (auto simp: fs_try_def fs_call_def do_then_def do_lift_def)
  have "loc_node (At q) s' \<noteq> None" if "r = Ok q" for q
    using that open_nodes [OF x, of _ q] s' by (cases x) (auto simp: loc_node_def)
  with live.guardedD(1,2) [OF grows_open run s] show "handles_live s' \<and> more_nodes s s' \<and> (\<forall>q. r = Ok q \<longrightarrow> loc_node (At q) s' \<noteq> None)"
    by simp
qed

lemma alive_insert_handle:
  assumes "\<And>f. h = HFile f \<Longrightarrow> loc_node (of_loc f) s \<noteq> None" and "handles_live s"
  shows "handles_live (snd (insert_handle h s))"
  using assms by (auto simp: insert_handle_def handles_live_def loc_node_def split: if_splits file_loc.splits)

lemma alive_open: "alive (sftp_open E root filename pflags attrs)"
proof -
  let ?o = "se_options E pflags"
  have store: "handles_live (snd (do_then (insert_handle (HFile (opened ?o q))) (\<lambda>token. do_ret (RHandle token)) s))"
    if "loc_node (At q) s \<noteq> None" "handles_live s" for q s
    using alive_insert_handle [of "HFile (opened ?o q)" s] that
    by (simp add: do_then_def insert_handle_def do_ret_def opened_def)
  have rest: "handles_live (snd (do_then (apply_file_attributes E (opened ?o q) p attrs) (\<lambda>_.
      do_then (insert_handle (HFile (opened ?o q))) (\<lambda>token. do_ret (RHandle token))) s))"
    if "loc_node (At q) s \<noteq> None" "handles_live s" for p q s
  proof -
    obtain r u where m: "apply_file_attributes E (opened ?o q) p attrs s = (r, u)" by fastforce
    have grows: "grows (apply_file_attributes E (opened ?o q) p attrs)"
      unfolding apply_file_attributes_def by (intro grows_intros)
    have "handles_live u" "more_nodes s u" using live.guardedD(1,2) [OF grows m that(2)] by simp_all
    then show ?thesis using store [of q u] that(1) m by (cases r) (auto simp: do_then_def more_nodes_def)
  qed
  have "alive (do_then (fs_try E (open_at (se_file_mode E) ?o p)) (\<lambda>q.
      do_then (apply_file_attributes E (opened ?o q) p attrs) (\<lambda>_.
      do_then (insert_handle (HFile (opened ?o q))) (\<lambda>token. do_ret (RHandle token)))))" for p
    unfolding alive_def
  proof (intro allI impI)
    fix s assume s: "handles_live s"
    obtain r u where m: "fs_try E (open_at (se_file_mode E) ?o p) s = (r, u)" by fastforce
    note u = live.guardedD [OF open_has_node m s]
    show "handles_live (snd (do_then (fs_try E (open_at (se_file_mode E) ?o p)) (\<lambda>q.
      do_then (apply_file_attributes E (opened ?o q) p attrs) (\<lambda>_.
      do_then (insert_handle (HFile (opened ?o q))) (\<lambda>token. do_ret (RHandle token)))) s))"
    proof (cases r)
      case (Inr q)
      with u rest [of q u p] m show ?thesis by (simp add: do_then_def [of "fs_try _ _"])
    qed (use u m in \<open>simp add: do_then_def\<close>)
  qed
  then show ?thesis unfolding sftp_open_def by (rule alive_then [rotated]) (simp add: grows_resolve)
qed

lemma alive_opendir: "alive (sftp_opendir E root p)"
  unfolding sftp_opendir_def
proof (intro alive_then grows_intros)
  have "alive (do_then (insert_handle (HDirectory es)) (\<lambda>token. do_ret (RHandle token)))" for es
    using alive_insert_handle [of "HDirectory es"] by (simp add: alive_def do_then_def insert_handle_def do_ret_def)
  then show "alive (if \<not> dir then sftp_fail NoSuchFile
       else do_then (fs_try E (query (\<lambda>t. dir_names t p))) (\<lambda>names.
         do_then (list_entries E root p names []) (\<lambda>entries.
         do_then (insert_handle (HDirectory (Some (sort_key fst entries)))) (\<lambda>token. do_ret (RHandle token)))))" for dir p
    by (auto intro!: alive_then [OF grows_query(1)] alive_then [OF grows_list_entries] grows_alive [OF grows_basic(3)])
qed

lemma alive_files: "alive (sftp_read E h off len)" "alive (sftp_write E h off data)" "alive (sftp_fstat E h)"
  "alive (sftp_fsetstat E h attrs)" "alive (sftp_stat E root p)" "alive (sftp_setstat E root p attrs)"
  "alive (sftp_realpath E root p)"
  unfolding sftp_read_def sftp_write_def sftp_fstat_def sftp_fsetstat_def sftp_stat_def sftp_setstat_def sftp_realpath_def
  by (auto intro!: grows_alive grows_intros split: option.split)

lemma alive_mkdir: "alive (sftp_mkdir E root p attrs)"
  unfolding sftp_mkdir_def by (intro grows_alive grows_intros mkdir_nodes)

lemma alive_names: "alive (sftp_remove E root p)" "alive (sftp_rmdir E root p)" "alive (sftp_rename E root p q)"
  unfolding sftp_remove_def sftp_rmdir_def sftp_rename_def
  by (auto intro!: alive_then [OF grows_resolve(1)] alive_then [OF grows_resolve(2)] alive_then [OF grows_query(2)]
      grows_alive [OF grows_basic(3)] alive_name_call intro: rename_live remove_file_live remove_dir_live)

lemma alive_session: "alive sftp_init" "alive (sftp_close h)" "alive (sftp_readdir h)"
  by (auto simp: alive_def sftp_init_def sftp_close_def sftp_readdir_def handles_live_def loc_node_def
      split: option.splits sftp_handle.splits file_loc.splits if_splits)

lemma alive_request: "alive (serve_request E root req)"
  by (cases req) (simp_all add: alive_session alive_open alive_opendir alive_files alive_mkdir alive_names
      sftp_lstat_def sftp_readlink_def sftp_symlink_def grows_alive grows_basic)

lemma alive_requests: "handles_live s \<Longrightarrow> serve_requests E root rs s = (replies, s') \<Longrightarrow> handles_live s'"
proof (induction rs arbitrary: s replies)
  case (Cons req rs)
  from Cons.prems(1) have "handles_live (snd (serve_request E root req s))"
    using alive_request unfolding alive_def by blast
  with Cons show ?case by (auto split: prod.splits)
qed simp

lemma new_session_live: "handles_live (sftp_session_new t)"
  by (simp add: handles_live_def sftp_session_new_def)

end
