(* ===== verification/Sftp_Files.thy ===== *)
theory Sftp_Files
  imports Sftp_Live
begin

text \<open>
  What a client of the SFTP session sees of its open files: an abstract specification of files as
  a length and contents that continue with zeros, and the lemmas that reads, writes and changes
  of the length implement it; the bounds on replies and the tokens of handles; and the agreement
  of the session's path resolution with \<open>SftpRoot\<close>.
\<close>

section \<open>Abstract files\<close>

type_synonym afile = "nat \<times> (nat \<Rightarrow> 8 word)"

definition a_read :: "nat \<Rightarrow> nat \<Rightarrow> afile \<Rightarrow> bytes" where
  "a_read off len F = map (snd F) [off..<min (off + len) (fst F)]"

definition a_write :: "nat \<Rightarrow> bytes \<Rightarrow> afile \<Rightarrow> afile" where
  "a_write off data F =
     (max (fst F) (off + length data),
      \<lambda>i. if off \<le> i \<and> i < off + length data then data ! (i - off) else snd F i)"

definition a_resize :: "nat \<Rightarrow> afile \<Rightarrow> afile" where
  "a_resize n F = (n, \<lambda>i. if i < n then snd F i else 0)"

definition abs_file :: "bytes \<Rightarrow> afile" where
  "abs_file d = (length d, \<lambda>i. if i < length d then d ! i else 0)"

lemma fst_abs_file [simp]: "fst (abs_file d) = length d"
  by (simp add: abs_file_def)

lemma read_refines: "take len (drop off d) = a_read off len (abs_file d)"
  by (rule nth_equalityI) (auto simp: a_read_def abs_file_def)

lemma write_refines:
  assumes "data \<noteq> []"
  shows "abs_file (overwrite off data d) = a_write off data (abs_file d)"
proof -
  have len: "length (overwrite off data d) = max (length d) (off + length data)"
    by (auto simp: overwrite_def max_def)
  have "(if i < length (overwrite off data d) then overwrite off data d ! i else 0) =
      (if off \<le> i \<and> i < off + length data then data ! (i - off) else if i < length d then d ! i else 0)" for i
    using assms unfolding len by (auto simp: overwrite_def nth_append min_def less_max_iff_disj)
  with len show ?thesis by (simp add: abs_file_def a_write_def fun_eq_iff)
qed

lemma resize_refines: "abs_file (resize n d) = a_resize n (abs_file d)"
  by (auto simp: abs_file_def a_resize_def resize_def nth_append fun_eq_iff)

section \<open>The abstract session\<close>

text \<open>Contents for each place of an open file, none for a directory.\<close>

type_synonym astore = "file_loc \<Rightarrow> afile option"

definition abs_store :: "sftp_state \<Rightarrow> astore" where
  "abs_store s l = (case loc_node l s of Some (FFile m d) \<Rightarrow> Some (abs_file d) | _ \<Rightarrow> None)"

definition a_change :: "open_file \<Rightarrow> (afile \<Rightarrow> afile) \<Rightarrow> astore \<Rightarrow> (sftp_reply, status_code) result \<times> astore" where
  "a_change f g st =
     (case st (of_loc f) of
        None \<Rightarrow> (Err Failure, st)
      | Some F \<Rightarrow> (Ok RStatusOk, st(of_loc f \<mapsto> g F)))"

fun a_serve :: "(string \<rightharpoonup> sftp_handle) \<Rightarrow> sftp_request \<Rightarrow> astore \<Rightarrow> (sftp_reply, status_code) result \<times> astore" where
  "a_serve hs (SRead h off len) st =
     (case hs h of
        Some (HFile f) \<Rightarrow>
          (if I64_LIMIT \<le> unat off then Err BadMessage
           else case st (of_loc f) of
             None \<Rightarrow> Err Failure
           | Some F \<Rightarrow>
               if \<not> of_read f then Err Failure
               else if a_read (unat off) (min (unat len) MAX_IO_SIZE) F = [] then Err Eof
               else Ok (RData (a_read (unat off) (min (unat len) MAX_IO_SIZE) F)), st)
      | _ \<Rightarrow> (Err Failure, st))"
| "a_serve hs (SWrite h off data) st =
     (case hs h of
        Some (HFile f) \<Rightarrow>
          if MAX_IO_SIZE < length data then (Err Failure, st)
          else if I64_LIMIT \<le> unat off then (Err BadMessage, st)
          else if data = [] then (Ok RStatusOk, st)
          else if \<not> of_write f then (Err Failure, st)
          else a_change f (\<lambda>F. a_write (if of_append f then fst F else unat off) data F) st
      | _ \<Rightarrow> (Err Failure, st))"
| "a_serve hs (SFsetstat h attrs) st =
     (case hs h of
        Some (HFile f) \<Rightarrow>
          (case attr_size attrs of
             None \<Rightarrow> (Ok RStatusOk, st)
           | Some sz \<Rightarrow>
               if I64_LIMIT \<le> unat sz \<or> \<not> of_write f then (Err BadMessage, st)
               else a_change f (a_resize (unat sz)) st)
      | _ \<Rightarrow> (Err Failure, st))"
| "a_serve hs r st = (Err OpUnsupported, st)"

fun a_serves :: "(string \<rightharpoonup> sftp_handle) \<Rightarrow> sftp_request list \<Rightarrow> astore \<Rightarrow> (sftp_reply, status_code) result list \<times> astore" where
  "a_serves hs [] st = ([], st)"
| "a_serves hs (r # rs) st =
     (case a_serve hs r st of (x, st1) \<Rightarrow> (case a_serves hs rs st1 of (xs, st2) \<Rightarrow> (x # xs, st2)))"

definition file_request :: "sftp_request \<Rightarrow> bool" where
  "file_request r = (case r of SRead h off len \<Rightarrow> True | SWrite h off data \<Rightarrow> True | SFsetstat h attrs \<Rightarrow> True | _ \<Rightarrow> False)"

section \<open>Updates of one file\<close>

text \<open>The contents of another file and the existence of every node are untouched.\<close>

definition file_at :: "fnode \<Rightarrow> tpath \<Rightarrow> bytes option" where
  "file_at t q = (case lookup t q of Some (FFile m d) \<Rightarrow> Some d | _ \<Rightarrow> None)"

lemma file_at_simps [simp]:
  "file_at (FFile m d) q = (if q = [] then Some d else None)" "file_at (FLink l) q = None"
  "file_at (FDir m cs) [] = None" "file_at (FDir m cs) (c # q) = Option.bind (map_of cs c) (\<lambda>n. file_at n q)"
  by (cases q; auto simp: file_at_def split: Option.bind_splits)+

lemma put_file_frame:
  assumes "lookup t p = Some (FFile m d)"
  shows "file_at (put_node p (FFile m d') t) q = (if q = p then Some d' else file_at t q)"
    and "lookup (put_node p (FFile m d') t) q = None \<longleftrightarrow> lookup t q = None"
proof -
  show "file_at (put_node p (FFile m d') t) q = (if q = p then Some d' else file_at t q)"
    using assms
  proof (induction p arbitrary: t q)
    case (Cons c p)
    then show ?case by (cases t; cases q) (auto simp: map_of_update split: Option.bind_splits)
  qed auto
  show "lookup (put_node p (FFile m d') t) q = None \<longleftrightarrow> lookup t q = None"
    using assms
  proof (induction p arbitrary: t q)
    case Nil
    then show ?case by (cases q) auto
  next
    case (Cons c p)
    then show ?case by (cases t; cases q) (auto simp: map_of_update split: Option.bind_splits)
  qed
qed

section \<open>Refinement\<close>

definition no_faults :: "sftp_env \<Rightarrow> bool" where
  "no_faults E \<longleftrightarrow> (\<forall>k. se_fault E k = Works)"

lemma abs_store_calls [simp]: "abs_store (s\<lparr>fs_calls := k\<rparr>) = abs_store s"
  by (simp add: abs_store_def fun_eq_iff loc_node_def split: file_loc.split)

lemma handles_live_calls [simp]: "handles_live (s\<lparr>fs_calls := k\<rparr>) = handles_live s"
  by (simp add: handles_live_def loc_node_def split: file_loc.split)

lemma set_loc_file:
  assumes "loc_node l s = Some (FFile m d)"
  shows "abs_store (set_loc l (FFile m d') s) = (abs_store s)(l \<mapsto> abs_file d')"
    and "loc_node k (set_loc l (FFile m d') s) = None \<longleftrightarrow> loc_node k s = None"
    and "sf_handles (set_loc l (FFile m d') s) = sf_handles s"
proof -
  have at: "(case lookup t q of Some (FFile m d) \<Rightarrow> Some (abs_file d) | _ \<Rightarrow> None) = map_option abs_file (file_at t q)" for t q
    by (simp add: file_at_def split: option.split fnode.split)
  show "abs_store (set_loc l (FFile m d') s) = (abs_store s)(l \<mapsto> abs_file d')"
  proof (cases l)
    case (At p)
    with assms put_file_frame(1) [of "fs_tree s" p m d d'] show ?thesis
      by (auto simp: abs_store_def set_loc_def loc_node_def at fun_eq_iff split: file_loc.split)
  next
    case (Orphan i)
    with assms show ?thesis
      by (auto simp: abs_store_def set_loc_def loc_node_def fun_eq_iff nth_list_update split: file_loc.splits if_splits)
  qed
  show "loc_node k (set_loc l (FFile m d') s) = None \<longleftrightarrow> loc_node k s = None"
    using assms put_file_frame(2) [of "fs_tree s" _ m d d']
    by (cases l; cases k) (auto simp: set_loc_def loc_node_def)
  show "sf_handles (set_loc l (FFile m d') s) = sf_handles s"
    by (simp add: set_loc_def split: file_loc.split)
qed

lemma fd_query_works:
  assumes "no_faults E" and "loc_node (of_loc f) s = Some n"
  shows "fd_query E f q s = (map_err map_io_status (q n), s\<lparr>fs_calls := Suc (fs_calls s)\<rparr>)"
  using assms by (simp add: fd_query_def query_def no_faults_def)

lemma fd_update_works:
  assumes "no_faults E" and "loc_node (of_loc f) s = Some n"
  shows "fd_update E f g s = (let s' = s\<lparr>fs_calls := Suc (fs_calls s)\<rparr> in
     case n of
       FFile m d \<Rightarrow> (case g Works d of (r, d') \<Rightarrow> (map_err map_io_status r, set_loc (of_loc f) (FFile m d') s'))
     | _ \<Rightarrow> (Err Failure, s'))"
  using assms by (simp add: fd_update_def no_faults_def Let_def split: fnode.split)

text \<open>A request on an open file, step by step.\<close>

definition refines :: "sftp_state \<Rightarrow> (sftp_reply, status_code) result \<times> astore \<Rightarrow> (sftp_reply, status_code) result \<times> sftp_state \<Rightarrow> bool" where
  "refines s a c \<longleftrightarrow> a = (fst c, abs_store (snd c)) \<and> sf_handles (snd c) = sf_handles s \<and> handles_live (snd c)"

lemma refines_same: "handles_live s \<Longrightarrow> refines s (r, abs_store s) (r, s\<lparr>fs_calls := k\<rparr>)"
  by (simp add: refines_def)

lemma handles_live_set_loc:
  assumes "loc_node l s = Some (FFile m d)" and "handles_live s"
  shows "handles_live (set_loc l (FFile m d') s)"
  using assms(2) set_loc_file(2,3) [OF assms(1)] by (auto simp: handles_live_def)

text \<open>A change of the file that always works.\<close>

lemma update_refines:
  assumes "no_faults E" and "handles_live s" and "sf_handles s h = Some (HFile f)"
    and g: "\<And>d. g Works d = (Ok (), g' d)" and abs: "\<And>d. abs_file (g' d) = ag (abs_file d)"
  shows "refines s (a_change f ag (abs_store s)) (do_then (fd_update E f g) (\<lambda>_. do_ret RStatusOk) (s\<lparr>fs_calls := k\<rparr>))"
proof -
  let ?s = "s\<lparr>fs_calls := Suc k\<rparr>"
  obtain n where n: "loc_node (of_loc f) s = Some n" using assms(2,3) unfolding handles_live_def by blast
  have run: "fd_update E f g (s\<lparr>fs_calls := k\<rparr>) = (case n of
      FFile m d \<Rightarrow> (Ok (), set_loc (of_loc f) (FFile m (g' d)) ?s) | _ \<Rightarrow> (Err Failure, ?s))"
    using fd_update_works [OF assms(1), of f "s\<lparr>fs_calls := k\<rparr>" n g] n by (simp add: g Let_def split: fnode.split)
  show ?thesis
  proof (cases n)
    case (FFile m d)
    have "loc_node (of_loc f) ?s = Some (FFile m d)" using n FFile by simp
    from set_loc_file(1,3) [OF this, of "g' d"] handles_live_set_loc [OF this, of "g' d"] assms(2) n FFile show ?thesis
      by (simp add: refines_def run do_then_def do_ret_def a_change_def abs abs_store_def [of s "of_loc f"])
  qed (use n assms(2) in \<open>simp_all add: refines_def run do_then_def a_change_def abs_store_def [of s "of_loc f"]\<close>)
qed

lemma read_request_refines:
  assumes "no_faults E" and "handles_live s"
  shows "refines s (a_serve (sf_handles s) (SRead h off len) (abs_store s)) (sftp_read E h off len s)"
proof (cases "\<exists>f. sf_handles s h = Some (HFile f)")
  case False
  then show ?thesis using assms(2)
    by (auto simp: refines_def sftp_read_def get_file_def do_then_def split: option.splits sftp_handle.splits)
next
  case True
  then obtain f n where f: "sf_handles s h = Some (HFile f)" "loc_node (of_loc f) s = Some n"
    using assms(2) unfolding handles_live_def by blast
  note works = fd_query_works [OF assms(1), where f = f and n = n]
  show ?thesis
    by (cases n) (simp_all add: refines_def sftp_read_def get_file_def do_then_def do_ret_def file_seek_def file_read_def
        map_io_status_def read_refines sftp_fail_def do_lift_def abs_store_def [of s "of_loc f"] works f assms(2))
qed

lemma write_request_refines:
  assumes "no_faults E" and "handles_live s"
  shows "refines s (a_serve (sf_handles s) (SWrite h off data) (abs_store s)) (sftp_write E h off data s)"
proof (cases "\<exists>f. sf_handles s h = Some (HFile f)")
  case False
  then show ?thesis using assms(2)
    by (auto simp: refines_def sftp_write_def get_file_def sftp_fail_def do_lift_def do_then_def
        split: option.splits sftp_handle.splits)
next
  case True
  then obtain f n where f: "sf_handles s h = Some (HFile f)" "loc_node (of_loc f) s = Some n"
    using assms(2) unfolding handles_live_def by blast
  let ?s = "s\<lparr>fs_calls := Suc (Suc (fs_calls s))\<rparr>" and ?off = "\<lambda>d. if of_append f then length d else unat off"
  show ?thesis
  proof (cases "MAX_IO_SIZE < length data \<or> I64_LIMIT \<le> unat off \<or> data = [] \<or> \<not> of_write f")
    case True
    note works = fd_query_works [OF assms(1), where f = f and n = n] fd_update_works [OF assms(1), where f = f and n = n]
    have "refines s (a_serve (sf_handles s) (SWrite h off data) (abs_store s)) (sftp_write E h off data s)"
      if "MAX_IO_SIZE < length data \<or> I64_LIMIT \<le> unat off \<or> data = []"
      using that by (elim disjE) (simp_all add: refines_def sftp_write_def get_file_def do_then_def do_ret_def
        file_seek_def file_write_all_def map_io_status_def sftp_fail_def do_lift_def works f assms(2))
    moreover have "refines s (a_serve (sf_handles s) (SWrite h off data) (abs_store s)) (sftp_write E h off data s)"
      if "\<not> (MAX_IO_SIZE < length data \<or> I64_LIMIT \<le> unat off \<or> data = [])" "\<not> of_write f"
    proof (cases n)
      case (FFile m d)
      with that set_loc_file(1,3) [where l = "of_loc f" and s = ?s and m = m and d = d and d' = d]
        handles_live_set_loc [where l = "of_loc f" and s = ?s and m = m and d = d and d' = d] show ?thesis
        by (simp add: refines_def sftp_write_def get_file_def do_then_def file_seek_def file_write_all_def
            map_io_status_def works f assms(2) Let_def abs_store_def [of s "of_loc f"] fun_upd_idem)
    qed (use that in \<open>simp_all add: refines_def sftp_write_def get_file_def do_then_def file_seek_def
        file_write_all_def works f assms(2) Let_def\<close>)
    ultimately show ?thesis using True by blast
  next
    case False
    let ?g = "\<lambda>fault d. let off = ?off d in
        if \<not> of_write f then (Err OtherError, d)
        else (case fault of Works \<Rightarrow> (Ok (), overwrite off data d)
          | Stopped k \<Rightarrow> (Err OtherError, if k = 0 then d else overwrite off (take k data) d)
          | _ \<Rightarrow> (Err (fault_error fault), d))"
    have "a_serve (sf_handles s) (SWrite h off data) (abs_store s) =
        a_change f (\<lambda>F. a_write (if of_append f then fst F else unat off) data F) (abs_store s)"
      using False f by simp
    moreover have "sftp_write E h off data s =
        do_then (fd_update E f ?g) (\<lambda>_. do_ret RStatusOk) (s\<lparr>fs_calls := Suc (fs_calls s)\<rparr>)"
      using False f
      by (simp add: sftp_write_def get_file_def do_then_def file_seek_def file_write_all_def
          fd_query_works [OF assms(1), of f s n])
    moreover have "refines s (a_change f (\<lambda>F. a_write (if of_append f then fst F else unat off) data F) (abs_store s))
        (do_then (fd_update E f ?g) (\<lambda>_. do_ret RStatusOk) (s\<lparr>fs_calls := Suc (fs_calls s)\<rparr>))"
      by (rule update_refines [OF assms f(1), where g' = "\<lambda>d. overwrite (?off d) data d"])
        (use False in \<open>simp_all add: Let_def write_refines\<close>)
    ultimately show ?thesis by simp
  qed
qed

lemma fsetstat_request_refines:
  assumes "no_faults E" and "handles_live s"
  shows "refines s (a_serve (sf_handles s) (SFsetstat h attrs) (abs_store s)) (sftp_fsetstat E h attrs s)"
proof (cases "\<exists>f. sf_handles s h = Some (HFile f)")
  case False
  then show ?thesis using assms(2)
    by (auto simp: refines_def sftp_fsetstat_def get_file_def do_then_def split: option.splits sftp_handle.splits)
next
  case True
  then obtain f where f: "sf_handles s h = Some (HFile f)" by blast
  show ?thesis
  proof (cases "attr_size attrs")
    case None
    then show ?thesis
      by (simp add: refines_def sftp_fsetstat_def get_file_def do_then_def do_ret_def apply_open_file_attributes_def f assms(2))
  next
    case (Some sz)
    let ?g = "\<lambda>fault d. if fault = Works then (Ok (), resize (unat sz) d) else (Err (fault_error fault), d)"
    have "refines s (a_change f (a_resize (unat sz)) (abs_store s))
        (do_then (fd_update E f ?g) (\<lambda>_. do_ret RStatusOk) (s\<lparr>fs_calls := fs_calls s\<rparr>))"
      by (rule update_refines [OF assms f, where g' = "resize (unat sz)"]) (simp_all add: resize_refines)
    then show ?thesis
      by (auto simp: sftp_fsetstat_def get_file_def do_then_def [of "get_file h"] apply_open_file_attributes_def
          file_set_len_def Some f do_then_def [of "do_lift _"] sftp_fail_def do_lift_def refines_def assms(2))
  qed
qed

lemma request_refines:
  assumes "no_faults E" and "handles_live s" and "file_request r"
  shows "refines s (a_serve (sf_handles s) r (abs_store s)) (serve_request E root r s)"
  using assms read_request_refines write_request_refines fsetstat_request_refines
  by (cases r) (simp_all add: file_request_def)

lemma requests_refine:
  assumes "no_faults E" and "handles_live s" and "list_all file_request rs"
    and "serve_requests E root rs s = (replies, s')"
  shows "a_serves (sf_handles s) rs (abs_store s) = (replies, abs_store s')"
  using assms(2-)
proof (induction rs arbitrary: s replies)
  case (Cons r rs)
  obtain x u where u: "serve_request E root r s = (x, u)" by fastforce
  obtain xs where rest: "serve_requests E root rs u = (xs, s')" "replies = x # xs"
    using Cons.prems(3) u by (auto split: prod.splits)
  have "refines s (a_serve (sf_handles s) r (abs_store s)) (x, u)"
    using request_refines [OF assms(1) Cons.prems(1), of r root] Cons.prems(2) u by simp
  with Cons.IH [OF _ _ rest(1)] Cons.prems(2) rest(2) show ?case by (simp add: refines_def)
qed simp

text \<open>C11. After any requests to a session, with any faults and also when open files have been
  renamed, replaced or removed, reads, writes and changes of length on open files behave, in
  any sequence, as on the abstract files: the replies and the contents afterwards are those of
  the specification, in which a file is a length and contents that continue with zeros, a write
  at an offset changes exactly the bytes it covers and extends the file at most, an append
  starts at the end, a read is the part of the file that the request covers, and a file that
  several handles share is one file.\<close>

theorem sftp_files_refine:
  assumes "serve_requests E' root earlier (sftp_session_new t) = (before, s)"
    and "no_faults E" and "list_all file_request rs" and "serve_requests E root rs s = (replies, s')"
  shows "a_serves (sf_handles s) rs (abs_store s) = (replies, abs_store s')"
  using requests_refine [OF assms(2) alive_requests [OF new_session_live assms(1)] assms(3,4)] .

theorem sftp_files_refine_witness:
  "let s = snd (serve_requests sample_env [''srv''] [SOpen ''f'' 26 no_attributes, SRemove ''f''] (sftp_session_new sample_tree));
       rs = [SWrite ''fixture-0'' 4 [9], SRead ''fixture-0'' 1 10]
   in a_serves (sf_handles s) rs (abs_store s) =
        (fst (serve_requests sample_env [''srv''] rs s), abs_store (snd (serve_requests sample_env [''srv''] rs s)))"
proof -
  let ?s = "snd (serve_requests sample_env [''srv''] [SOpen ''f'' 26 no_attributes, SRemove ''f''] (sftp_session_new sample_tree))"
  have "no_faults sample_env" by (simp add: no_faults_def sample_env_def)
  moreover have "list_all file_request [SWrite ''fixture-0'' 4 [9], SRead ''fixture-0'' 1 10]" by (simp add: file_request_def)
  ultimately show ?thesis
    unfolding Let_def
    by (rule sftp_files_refine [of sample_env "[''srv'']" "[SOpen ''f'' 26 no_attributes, SRemove ''f'']" sample_tree _ ?s,
          rotated]) (rule prod.collapse [symmetric])+
qed

section \<open>Replies\<close>

text \<open>Only \<open>insert_handle\<close> moves the counter.\<close>

definition steady :: "'a sftp \<Rightarrow> bool" where
  "steady m \<longleftrightarrow> (\<forall>s. sf_next_handle (snd (m s)) = sf_next_handle s)"

named_theorems steady_intros \<open>programs that give out no handle\<close>

lemma steady_then [steady_intros]:
  assumes "steady m" and "\<And>v. steady (k v)"
  shows "steady (do_then m k)"
  unfolding steady_def
proof
  fix s
  obtain r u where m: "m s = (r, u)" by fastforce
  with assms(1) have "sf_next_handle u = sf_next_handle s" by (metis steady_def snd_conv)
  with m assms(2) show "sf_next_handle (snd (do_then m k s)) = sf_next_handle s"
    by (cases r) (simp_all add: do_then_def steady_def)
qed

lemma steady_basic [steady_intros]: "steady (do_ret v)" "steady (do_lift r)" "steady (sftp_fail c)" "steady (get_file h)"
    "steady (fs_call E call)" "steady (fd_query E f q)" "steady (fd_update E f g)"
  by (auto simp: steady_def do_ret_def do_lift_def sftp_fail_def get_file_def fs_call_def fd_query_def fd_update_def
      Let_def set_loc_def split: prod.split option.split sftp_handle.split fnode.split file_loc.split)

lemma steady_calls [steady_intros]: "steady (fs_try E call)" "steady (fs_path_is E kind p)"
  by (auto simp: fs_try_def fs_path_is_def intro!: steady_intros)

lemma steady_names:
  "sf_next_handle (snd (remove_file_at p s)) = sf_next_handle s"
  "sf_next_handle (snd (remove_dir_at p s)) = sf_next_handle s"
  "sf_next_handle (snd (rename_at p q s)) = sf_next_handle s"
proof -
  show "sf_next_handle (snd (remove_file_at p s)) = sf_next_handle s"
    by (simp add: remove_file_at_def unlink_entry_def split: sum.split option.split fnode.split)
  show "sf_next_handle (snd (remove_dir_at p s)) = sf_next_handle s"
    by (simp add: remove_dir_at_def unlink_entry_def split: sum.split option.split fnode.split list.split)
  obtain r u where u: "rename_at p q s = (r, u)" by fastforce
  then show "sf_next_handle (snd (rename_at p q s)) = sf_next_handle s"
    using rename_changes [OF u] by (cases "u = s") (auto simp: move_entry_def unlink_entry_def)
qed

lemma steady_name_call [steady_intros]:
  assumes "\<And>s. sf_next_handle (snd (g s)) = sf_next_handle s"
  shows "steady (name_call E g)"
  unfolding steady_def
proof
  fix s
  show "sf_next_handle (snd (name_call E g s)) = sf_next_handle s"
    using assms [of "s\<lparr>fs_calls := Suc (fs_calls s)\<rparr>"]
    by (cases "g (s\<lparr>fs_calls := Suc (fs_calls s)\<rparr>)") (simp add: name_call_def Let_def)
qed

lemma steady_files [steady_intros]: "steady (file_set_len E f sz)" "steady (file_write_all E f off data)"
  "steady (file_seek E f offset)" "steady (file_read E f k len)" "steady (apply_open_file_attributes E f attrs)"
  "steady (apply_path_permissions E p attrs)" "steady (sftp_resolve_existing E root req)"
  "steady (sftp_resolve_for_create E root req)"
  by (auto simp: file_set_len_def file_write_all_def file_seek_def file_read_def apply_open_file_attributes_def
      apply_path_permissions_def sftp_resolve_existing_def sftp_resolve_for_create_def sftp_create_path_def
      intro!: steady_intros split: option.split sum.split fs_error.split)

lemma steady_list_entries [steady_intros]: "steady (list_entries E root p names entries)"
  by (induction E root p names entries rule: list_entries.induct) (auto intro!: steady_intros)

text \<open>What a reply says of the counter: a handle is the token of its old value.\<close>

definition counted :: "sftp_reply sftp \<Rightarrow> bool" where
  "counted m \<longleftrightarrow> (\<forall>s r s'. m s = (r, s') \<longrightarrow>
     (if \<exists>h. r = Ok (RHandle h)
      then r = Ok (RHandle (handle_token (sf_next_handle s))) \<and> sf_next_handle s' = sf_next_handle s + 1
      else sf_next_handle s' = sf_next_handle s))"

lemma counted_then:
  assumes "steady m" and "\<And>v. counted (k v)"
  shows "counted (do_then m k)"
  unfolding counted_def
proof (intro allI impI)
  fix s r s' assume run: "do_then m k s = (r, s')"
  obtain x u where m: "m s = (x, u)" by fastforce
  then have u: "sf_next_handle u = sf_next_handle s" using assms(1) by (metis steady_def snd_conv)
  show "if \<exists>h. r = Ok (RHandle h)
      then r = Ok (RHandle (handle_token (sf_next_handle s))) \<and> sf_next_handle s' = sf_next_handle s + 1
      else sf_next_handle s' = sf_next_handle s"
  proof (cases x)
    case (Inl e)
    with run m u show ?thesis by (auto simp: do_then_def)
  next
    case (Inr v)
    with run m have "k v u = (r, s')" by (simp add: do_then_def)
    with assms(2) [of v] u show ?thesis unfolding counted_def by fastforce
  qed
qed

lemma counted_insert: "counted (do_then (insert_handle h) (\<lambda>token. do_ret (RHandle token)))"
  by (simp add: counted_def do_then_def insert_handle_def do_ret_def)

lemma counted_basic: "counted (sftp_fail c)" "(\<And>h. v \<noteq> RHandle h) \<Longrightarrow> counted (do_ret v)"
  by (auto simp: counted_def sftp_fail_def do_lift_def do_ret_def)

lemma counted_session: "counted sftp_init" "counted (sftp_close h)" "counted (sftp_readdir h)"
  by (auto simp: counted_def sftp_init_def sftp_close_def sftp_readdir_def
      split: option.splits sftp_handle.splits if_splits)

lemma counted_request: "counted (serve_request E root req)"
proof (cases req)
  case (SOpen p flags attrs)
  have "steady (if se_contains_create E flags then sftp_resolve_for_create E root p else sftp_resolve_existing E root p)"
    by (simp add: steady_intros)
  then show ?thesis
    unfolding SOpen serve_request.simps sftp_open_def apply_file_attributes_def
    by (intro counted_then counted_insert steady_then steady_files steady_calls)
next
  case (SOpendir p)
  have "counted (do_then (fs_try E (query q)) (\<lambda>names. do_then (list_entries E root p names []) (\<lambda>entries.
      do_then (insert_handle (HDirectory (Some (sort_key fst entries)))) (\<lambda>token. do_ret (RHandle token)))))" for q p
    by (intro counted_then counted_insert steady_intros)
  then show ?thesis
    unfolding SOpendir serve_request.simps sftp_opendir_def
    by (auto intro!: counted_then steady_files steady_calls counted_basic)
qed (auto simp: sftp_lstat_def sftp_stat_def sftp_fstat_def sftp_setstat_def sftp_fsetstat_def sftp_read_def sftp_write_def
    sftp_remove_def sftp_mkdir_def sftp_rmdir_def sftp_realpath_def sftp_rename_def sftp_readlink_def sftp_symlink_def
    counted_session steady_names intro!: counted_then counted_basic steady_intros
    split: option.split)

text \<open>The tokens in a list of replies.\<close>

definition tokens_given :: "(sftp_reply, status_code) result list \<Rightarrow> string list" where
  "tokens_given replies = List.map_filter (\<lambda>r. case r of Inr (RHandle h) \<Rightarrow> Some h | _ \<Rightarrow> None) replies"

lemma tokens_given_simps [simp]:
  "tokens_given [] = []"
  "tokens_given (r # rs) = (case r of Inr (RHandle h) \<Rightarrow> h # tokens_given rs | _ \<Rightarrow> tokens_given rs)"
  by (auto simp: tokens_given_def List.map_filter_def split: sum.split sftp_reply.split)

lemma inj_handle_token: "handle_token a = handle_token b \<longleftrightarrow> a = b"
proof
  assume "handle_token a = handle_token b"
  then have "show_nat (unat a) = show_nat (unat b)" by (simp add: handle_token_def)
  moreover have "parse_digits 10 0 (show_nat n) = Some n" for n by (rule parse_digits_show) simp_all
  ultimately have "unat a = unat b" by (metis option.inject)
  then show "a = b" by (simp add: word_unat_eq_iff)
qed simp

lemma tokens_count:
  assumes "serve_requests E root rs s = (replies, s')"
  shows "\<exists>k \<le> length rs. tokens_given replies = map (\<lambda>i. handle_token (sf_next_handle s + of_nat i)) [0..<k]"
  using assms
proof (induction rs arbitrary: s replies)
  case (Cons r rs)
  obtain x u where u: "serve_request E root r s = (x, u)" by fastforce
  obtain xs where rest: "serve_requests E root rs u = (xs, s')" "replies = x # xs"
    using Cons.prems u by (auto split: prod.splits)
  obtain k where k: "k \<le> length rs" "tokens_given xs = map (\<lambda>i. handle_token (sf_next_handle u + of_nat i)) [0..<k]"
    using Cons.IH [OF rest(1)] by blast
  note count = counted_request [of E root r, unfolded counted_def, rule_format, OF u]
  show ?case
  proof (cases "\<exists>h. x = Ok (RHandle h)")
    case True
    with count have "x = Ok (RHandle (handle_token (sf_next_handle s)))" "sf_next_handle u = sf_next_handle s + 1"
      by (auto split: if_splits)
    then have "tokens_given replies = map (\<lambda>i. handle_token (sf_next_handle s + of_nat i)) [0..<Suc k]"
      using k(2) rest(2) by (simp add: map_upt_Suc add.assoc del: upt_Suc)
    with k(1) show ?thesis by (metis Suc_le_mono length_Cons)
  next
    case False
    with count have "sf_next_handle u = sf_next_handle s" by (simp split: if_splits)
    moreover have "tokens_given replies = tokens_given xs"
      using False rest(2) by (auto split: sum.split sftp_reply.split)
    ultimately show ?thesis using k by (metis le_SucI length_Cons)
  qed
qed simp

lemma read_bounded:
  assumes "sftp_read E h off len s = (Ok (RData data), s')"
  shows "data \<noteq> [] \<and> length data \<le> unat len \<and> length data \<le> MAX_IO_SIZE"
  using assms
  by (auto simp: sftp_read_def do_ok sftp_fail_def do_lift_def file_read_def fd_query_def Let_def query_def
      split: if_splits option.splits fnode.splits)

lemma requests_nth:
  "serve_requests E root rs s = (replies, s') \<Longrightarrow> i < length rs \<Longrightarrow>
    length replies = length rs \<and> (\<exists>u u'. serve_request E root (rs ! i) u = (replies ! i, u'))"
proof (induction rs arbitrary: s replies i)
  case (Cons r rs)
  obtain x u where u: "serve_request E root r s = (x, u)" by fastforce
  obtain xs where rest: "serve_requests E root rs u = (xs, s')" "replies = x # xs"
    using Cons.prems u by (auto split: prod.splits)
  show ?case
  proof (cases i)
    case 0
    have "length xs = length rs" using Cons.IH [OF rest(1), of 0] rest(1) by (cases rs) auto
    with 0 rest(2) u show ?thesis by auto
  next
    case (Suc j)
    with Cons.IH [OF rest(1), of j] Cons.prems(2) rest(2) show ?thesis by auto
  qed
qed simp

text \<open>C32. The replies of a session are bounded: a read returns at least one byte, at most as many
  as were asked for and at most 256 KiB; and no token is given out twice as long as there are
  at most \<open>2 ^ 64\<close> requests, so that the wrapping counter of handles cannot replace an open
  handle.\<close>

theorem sftp_replies_bounded:
  assumes "serve_requests E root rs (sftp_session_new t) = (replies, s)" and "length rs \<le> 2 ^ 64"
  shows "distinct (tokens_given replies) \<and>
    (\<forall>i h off len data. i < length rs \<longrightarrow> rs ! i = SRead h off len \<longrightarrow> replies ! i = Ok (RData data) \<longrightarrow>
       data \<noteq> [] \<and> length data \<le> unat len \<and> length data \<le> 262144)"
proof -
  obtain k where k: "k \<le> length rs" "tokens_given replies = map (\<lambda>i. handle_token (of_nat i)) [0..<k]"
    using tokens_count [OF assms(1)] by (auto simp: sftp_session_new_def)
  have "inj_on (\<lambda>i. handle_token (of_nat i)) {0..<k}"
  proof (rule inj_onI)
    fix i j assume ij: "i \<in> {0..<k}" "j \<in> {0..<k}" "handle_token (of_nat i) = handle_token (of_nat j)"
    then have "unat (of_nat i :: u64) = unat (of_nat j :: u64)" by (simp add: inj_handle_token)
    with ij k(1) assms(2) show "i = j" by (simp add: unat_of_nat)
  qed
  then have "distinct (tokens_given replies)" by (simp add: k(2) distinct_map)
  moreover have "data \<noteq> [] \<and> length data \<le> unat len \<and> length data \<le> 262144"
    if "i < length rs" "rs ! i = SRead h off len" "replies ! i = Ok (RData data)" for i h off len data
    using requests_nth [OF assms(1) that(1)] that(2,3) read_bounded [of E h off len _ data]
    by (auto simp: MAX_IO_SIZE_def)
  ultimately show ?thesis by blast
qed

theorem sftp_replies_bounded_witness:
  "distinct (tokens_given (fst (serve_requests sample_env [''srv''] [SOpen ''f'' 26 no_attributes, SOpendir ''/''] (sftp_session_new sample_tree))))"
  using sftp_replies_bounded [of sample_env "[''srv'']" "[SOpen ''f'' 26 no_attributes, SOpendir ''/'']" sample_tree _ _,
      OF prod.collapse [symmetric]] by simp

section \<open>Path resolution\<close>

text \<open>The status that an error of \<open>SftpRoot\<close> corresponds to.\<close>

fun path_status :: "sftp_path_error \<Rightarrow> status_code" where
  "path_status (UnsafePath p) = PermissionDenied"
| "path_status (OutsideRoot p) = PermissionDenied"
| "path_status (PathIo p e) = map_io_status e"

lemma fs_call_works:
  "no_faults E \<Longrightarrow> fs_call E (query q) s = (Ok (q (fs_tree s)), s\<lparr>fs_calls := Suc (fs_calls s)\<rparr>)"
  by (simp add: fs_call_def query_def no_faults_def)

lemma fs_try_works:
  "no_faults E \<Longrightarrow> fs_try E (query q) s = (map_err map_io_status (q (fs_tree s)), s\<lparr>fs_calls := Suc (fs_calls s)\<rparr>)"
  by (simp add: fs_try_def do_then_def fs_call_works do_lift_def)

lemma resolved_agrees:
  assumes "no_faults E"
  shows "fst (do_then (fs_try E (query (\<lambda>t. canonicalize t segs))) (\<lambda>resolved. do_lift (sftp_ensure_contained root resolved)) s) =
    map_err path_status (and_then (map_err (PathIo relative) (canonicalize (fs_tree s) segs))
      (root_ensure_contained \<lparr>root_directory = root, root_canonical = root\<rparr> relative))"
  by (cases "canonicalize (fs_tree s) segs")
    (simp_all add: do_then_def fs_try_works [OF assms] do_lift_def root_ensure_contained_def sftp_ensure_contained_def
      ensure_canonical_containment_def)

text \<open>C33. The session and \<open>SftpRoot\<close> each have their own copy of path resolution. For a path that
  the session's check of the text lets through, other than the root itself, with no failing calls
  and a root directory whose path is already canonical, the two agree: the session resolves the
  text, for existing paths and for creation, to the path, or to the status of the error, that
  \<open>SftpRoot\<close> gives for the text stripped of its leading \<open>./\<close> and \<open>/\<close>. The texts themselves are not
  interchangeable: \<open>SftpRoot\<close> refuses every text with a leading slash as unsafe.\<close>

theorem sftp_resolution_agrees:
  assumes "no_faults E" and "relative_path requested = Ok relative" and "relative \<noteq> []"
    and "sftp_root_new (fs_tree s) (Ok root) = Ok r" and "sftp_root_path r = root"
  shows "fst (sftp_resolve_existing E root requested s) =
      map_err path_status (root_resolve_existing (fs_tree s) r relative) \<and>
    fst (sftp_resolve_for_create E root requested s) =
      map_err path_status (root_resolve_for_create (fs_tree s) r relative) \<and>
    root_resolve_existing (fs_tree s) r (CHR ''/'' # text) = Err (UnsafePath (CHR ''/'' # text)) \<and>
    root_resolve_for_create (fs_tree s) r (CHR ''/'' # text) = Err (UnsafePath (CHR ''/'' # text))"
proof -
  have r: "r = \<lparr>root_directory = root, root_canonical = root\<rparr>"
    using assms(4,5) by (cases r) (auto simp: sftp_root_new_def sftp_root_path_def)
  have "sftp_validate_relative (CHR ''/'' # text) = Err (UnsafePath (CHR ''/'' # text))"
    by (simp add: sftp_validate_relative_def unsafe_relative_def)
  then have slash: "root_resolve_existing (fs_tree s) r (CHR ''/'' # text) = Err (UnsafePath (CHR ''/'' # text))"
    "root_resolve_for_create (fs_tree s) r (CHR ''/'' # text) = Err (UnsafePath (CHR ''/'' # text))"
    by (simp_all add: root_resolve_existing_def root_resolve_for_create_def)
  have "\<not> unsafe_relative (split_on (CHR ''/'') relative)"
    using assms(2,3) by (auto simp: relative_path_def Let_def split: if_splits)
  then have ok: "sftp_validate_relative relative = Ok ()" by (simp add: sftp_validate_relative_def)
  let ?segs = "split_on (CHR ''/'') relative"
  let ?parent = "canonicalize (fs_tree s) (butlast (joined root ?segs))"
  have "fst (sftp_resolve_existing E root requested s) =
      map_err path_status (root_resolve_existing (fs_tree s) \<lparr>root_directory = root, root_canonical = root\<rparr> relative)"
    using resolved_agrees [OF assms(1)]
    by (simp add: sftp_resolve_existing_def root_resolve_existing_def ok assms(2) do_then_def [of "do_lift _"] do_lift_def [of "Ok _"])
  moreover have "fst (sftp_create_path E root ?segs s) =
      map_err path_status (root_resolve_for_create (fs_tree s) \<lparr>root_directory = root, root_canonical = root\<rparr> relative)"
  proof (cases "symlink_metadata (fs_tree s) (root @ ?segs)")
    case (Inr metadata)
    with resolved_agrees [OF assms(1), of "root @ ?segs" root "s\<lparr>fs_calls := Suc (fs_calls s)\<rparr>" relative] show ?thesis
      by (simp add: sftp_create_path_def root_resolve_for_create_def ok do_then_def [of "fs_call _ _"] fs_call_works [OF assms(1)]
          Let_def sftp_fail_def do_lift_def [of "Err _"])
  next
    case (Inl e)
    show ?thesis
      using Inl by (cases e; cases ?parent)
        (simp_all add: sftp_create_path_def root_resolve_for_create_def ok do_then_def fs_call_works [OF assms(1)]
          fs_try_works [OF assms(1)] Let_def sftp_fail_def do_lift_def do_ret_def sftp_ensure_contained_def
          ensure_canonical_containment_def)
  qed
  ultimately show ?thesis
    using assms(2,3) slash r by (simp add: sftp_resolve_for_create_def do_then_def [of "do_lift _"] do_lift_def [of "Ok _"])
qed

theorem sftp_resolution_agrees_witness:
  "fst (sftp_resolve_for_create sample_env [''srv''] ''/l'' (sftp_session_new sample_tree)) =
     map_err path_status (root_resolve_for_create sample_tree
       \<lparr>root_directory = [''srv''], root_canonical = [''srv'']\<rparr> ''l'') \<and>
   root_resolve_for_create sample_tree \<lparr>root_directory = [''srv''], root_canonical = [''srv'']\<rparr> ''/l'' = Err (UnsafePath ''/l'')"
proof -
  have "no_faults sample_env" by (simp add: no_faults_def sample_env_def)
  moreover have "relative_path ''/l'' = Ok ''l''"
    by (simp add: relative_path_def strip_prefix_def starts_with_def Let_def unsafe_relative_def)
  moreover have "sftp_root_new sample_tree (Ok [''srv'']) = Ok \<lparr>root_directory = [''srv''], root_canonical = [''srv'']\<rparr>"
    by (simp add: sftp_root_new_def sample_simps canonicalize_def walk.simps max_links_Suc plain_name_def)
  ultimately show ?thesis
    using sftp_resolution_agrees [of sample_env "''/l''" "''l''" "sftp_session_new sample_tree" "[''srv'']"
        "\<lparr>root_directory = [''srv''], root_canonical = [''srv'']\<rparr>" "''l''"]
    by (simp add: sftp_session_new_def sftp_root_path_def)
qed

end
