(* ===== verification/Capture.thy ===== *)
theory Capture
  imports Rust_Text "HOL-Library.Sublist" "HOL-Library.List_Lexorder" "HOL-Library.Char_ord"
begin

text \<open>
  What the child-process supervisor of the fixtures keeps of a child's output,
  \<open>crates/rssh-test-support/src/process.rs\<close> lines 16 and 17 and 836 to 922: reading a
  bounded part of a capture file, the values to redact, and their replacement.
\<close>

section \<open>Bounds\<close>

definition CAPTURE_LIMIT :: nat where
  "CAPTURE_LIMIT = 256 * 1024"

definition OMISSION_RESERVE :: nat where
  "OMISSION_RESERVE = 96"

text \<open>An error of the operating system, by its kind and its text.\<close>

datatype io_kind =
    IoNotFound | IoInvalidInput | IoTimedOut | IoBrokenPipe | IoNotConnected | IoWouldBlock | IoInterrupted
  | IoConnectionReset | IoConnectionAborted | IoAlreadyExists | IoOther

datatype io_err = IoErr io_kind (io_text: string)

section \<open>Capture files\<close>

text \<open>The file while it is read: what each of the calls on it finds, since the child may still be
  writing. A call fails or sees the whole contents.\<close>

type_synonym file_view = "nat \<Rightarrow> (bytes, io_err) result"

definition omission_text :: "nat \<Rightarrow> string" where
  "omission_text omitted = [NL] @ ''... <'' @ show_nat omitted @ '' bytes omitted> ...'' @ [NL]"

definition read_bounded :: "file_view \<Rightarrow> (bytes, io_err) result" where
  "read_bounded v =
     and_then (map_ok length (v 0)) (\<lambda>total.
     let retained = CAPTURE_LIMIT - OMISSION_RESERVE;
         head_limit = retained div 2;
         tail_limit = retained - head_limit
     in
       if total \<le> CAPTURE_LIMIT then
         and_then (v 1) (\<lambda>_.
         map_ok (take total) (v 2))
       else
         and_then (v 1) (\<lambda>_.
         and_then (map_ok (take head_limit) (v 2)) (\<lambda>head.
         and_then (v 3) (\<lambda>_.
         and_then (map_ok (\<lambda>d. take tail_limit (drop (total - tail_limit) d)) (v 4)) (\<lambda>tail.
         Ok (head @ as_bytes (omission_text (total - (length head + length tail))) @ tail))))))"

section \<open>Redaction\<close>

text \<open>\<open>slice::windows\<close> with \<open>position\<close>: the first place at which the needle occurs.\<close>

fun find_bytes :: "bytes \<Rightarrow> bytes \<Rightarrow> nat option" where
  "find_bytes needle [] = (if needle = [] then Some 0 else None)"
| "find_bytes needle (b # bs) =
     (if take (length needle) (b # bs) = needle then Some 0 else map_option Suc (find_bytes needle bs))"

lemma find_bytes_Some:
  "find_bytes needle bs = Some i \<Longrightarrow> i + length needle \<le> length bs \<and> take (length needle) (drop i bs) = needle"
proof (induction needle bs arbitrary: i rule: find_bytes.induct)
  case (2 needle b bs)
  show ?case
  proof (cases "take (length needle) (b # bs) = needle")
    case True
    then have "length needle \<le> length (b # bs)" by (metis length_take min.cobounded1)
    with 2(2) True show ?thesis by auto
  next
    case False
    with 2 obtain k where "find_bytes needle bs = Some k" "i = Suc k" by auto
    with 2(1) [OF False] show ?thesis by auto
  qed
qed (auto split: if_splits)

text \<open>The loop of \<open>replace_all\<close>; callers pass a needle that is not empty.\<close>

function replace_all :: "bytes \<Rightarrow> bytes \<Rightarrow> bytes \<Rightarrow> bytes" where
  "replace_all needle replacement rest =
     (if needle = [] then rest
      else (case find_bytes needle rest of
         None \<Rightarrow> rest
       | Some index \<Rightarrow> take index rest @ replacement @ replace_all needle replacement (drop (index + length needle) rest)))"
  by pat_completeness auto
termination
  by (relation "measure (\<lambda>(needle, replacement, rest). length rest)")
    (auto dest!: find_bytes_Some simp: neq_Nil_conv)

declare replace_all.simps [simp del]

definition REDACTED :: bytes where
  "REDACTED = as_bytes ''<redacted>''"

definition redact_values :: "bytes list \<Rightarrow> bytes \<Rightarrow> bytes" where
  "redact_values redactions bs =
     take CAPTURE_LIMIT (fold (\<lambda>r bs. if r = [] then bs else replace_all r REDACTED bs) redactions bs)"

text \<open>\<open>to_ascii_uppercase\<close> and \<open>str::contains\<close>.\<close>

definition ascii_upper :: "char \<Rightarrow> char" where
  "ascii_upper c = (if (97 :: nat) \<le> of_char c \<and> of_char c \<le> (122 :: nat) then char_of (of_char c - 32 :: nat) else c)"

fun str_contains :: "string \<Rightarrow> string \<Rightarrow> bool" where
  "str_contains needle [] \<longleftrightarrow> needle = []"
| "str_contains needle (c # cs) \<longleftrightarrow> take (length needle) (c # cs) = needle \<or> str_contains needle cs"

definition sensitive_environment_name :: "string \<Rightarrow> bool" where
  "sensitive_environment_name name =
     list_ex (\<lambda>sensitive. str_contains sensitive (map ascii_upper (to_string_lossy name)))
       [''CREDENTIAL'', ''HOME'', ''KEY'', ''PASSWORD'', ''PROFILE'', ''SECRET'', ''TOKEN'']"

record proc_command =
  pc_envs :: "(string \<times> string option) list"
  pc_current_dir :: "string option"

text \<open>Longest first, then in lexical order, without duplicates.\<close>

definition command_redactions :: "proc_command \<Rightarrow> bytes list" where
  "command_redactions command =
     (let values = List.map_filter snd (filter (\<lambda>(key, _). sensitive_environment_name key) (pc_envs command));
          texts = filter (\<lambda>v. v \<noteq> []) (map to_string_lossy values);
          dirs = (case pc_current_dir command of
             None \<Rightarrow> []
           | Some p \<Rightarrow> if to_string_lossy p = [] then [] else [to_string_lossy p])
      in remdups_adj (sort_key (\<lambda>r. - int (length r)) (sort (map as_bytes (texts @ dirs)))))"

section \<open>What is kept\<close>

lemma omission_text_length:
  assumes "n < 2 ^ 64"
  shows "length (omission_text n) \<le> OMISSION_RESERVE"
proof -
  have "length (show_nat n) \<le> 20" using show_radix_length [of 10 n 19] assms by simp
  then show ?thesis by (simp add: omission_text_def OMISSION_RESERVE_def)
qed

lemma read_bounded_length:
  assumes "read_bounded v = Ok out" and "\<And>d. v 0 = Ok d \<Longrightarrow> length d < 2 ^ 64"
  shows "length out \<le> CAPTURE_LIMIT"
proof -
  obtain d where d: "v 0 = Ok d" using assms(1) by (cases "v 0") (auto simp: read_bounded_def)
  let ?k = "CAPTURE_LIMIT - OMISSION_RESERVE"
  show ?thesis
  proof (cases "length d \<le> CAPTURE_LIMIT")
    case True
    with assms(1) d show ?thesis unfolding read_bounded_def Let_def by auto
  next
    case False
    let ?h = "\<lambda>x. take (?k div 2) x" and ?t = "\<lambda>x. take (?k - ?k div 2) (drop (length d - (?k - ?k div 2)) x)"
    obtain x y where out: "out = ?h x @ as_bytes (omission_text (length d - (length (?h x) + length (?t y)))) @ ?t y"
      using assms(1) d False unfolding read_bounded_def Let_def
      by (simp del: length_take length_drop) blast
    define h t where "h = ?h x" and "t = ?t y"
    then have ht: "length h \<le> ?k div 2" "length t \<le> ?k - ?k div 2"
      and out: "out = h @ as_bytes (omission_text (length d - (length h + length t))) @ t"
      using out by simp_all
    have "length d - (length h + length t) < 2 ^ 64" using assms(2) [OF d] by simp
    note omission = omission_text_length [OF this]
    have "length h + length t \<le> ?k" using ht by linarith
    moreover have "OMISSION_RESERVE \<le> CAPTURE_LIMIT" by (simp add: CAPTURE_LIMIT_def OMISSION_RESERVE_def)
    ultimately show ?thesis using omission by (simp add: out as_bytes_def)
  qed
qed

text \<open>A file that does not change while it is read.\<close>

lemma read_bounded_stable:
  assumes "\<And>i. v i = Ok d"
  shows "read_bounded v = Ok
    (if length d \<le> 262144 then d
     else take 131024 d @ as_bytes (omission_text (length d - 262048)) @ drop (length d - 131024) d)"
  using assms by (auto simp: read_bounded_def Let_def CAPTURE_LIMIT_def OMISSION_RESERVE_def)

section \<open>What is redacted\<close>

lemma find_bytes_None: "find_bytes needle bs = None \<longleftrightarrow> \<not> sublist needle bs"
proof (induction needle bs rule: find_bytes.induct)
  case (2 needle b bs)
  have "take (length needle) (b # bs) = needle \<longleftrightarrow> prefix needle (b # bs)"
    by (metis append_eq_conv_conj prefix_def)
  with 2 show ?case by (auto simp: sublist_Cons_right)
qed simp

fun join_bytes :: "bytes \<Rightarrow> bytes list \<Rightarrow> bytes" where
  "join_bytes sep [] = []"
| "join_bytes sep [x] = x"
| "join_bytes sep (x # y # ys) = x @ sep @ join_bytes sep (y # ys)"

lemma join_bytes_Cons: "ps \<noteq> [] \<Longrightarrow> join_bytes sep (x # ps) = x @ sep @ join_bytes sep ps"
  by (cases ps) auto

lemma find_bytes_first:
  "find_bytes needle bs = Some i \<Longrightarrow> needle \<noteq> [] \<Longrightarrow> \<not> sublist needle (take i bs)"
proof (induction needle bs arbitrary: i rule: find_bytes.induct)
  case (2 needle b bs)
  show ?case
  proof (cases "take (length needle) (b # bs) = needle")
    case True
    with 2(2,3) show ?thesis by simp
  next
    case False
    with 2 obtain k where k: "find_bytes needle bs = Some k" "i = Suc k" by auto
    have "\<not> prefix needle (b # take k bs)"
    proof
      assume "prefix needle (b # take k bs)"
      then have "take (length needle) (b # take k bs) = needle" by (metis append_eq_conv_conj prefix_def)
      then have "take (length needle) (b # bs) = needle"
        by (metis append_Cons append_take_drop_id prefix_def prefix_order.trans append_eq_conv_conj)
      with False show False by simp
    qed
    with 2(1) [OF False k(1) 2(3)] k(2) show ?thesis by (simp add: sublist_Cons_right)
  qed
qed simp

lemma replace_all_pieces:
  assumes "needle \<noteq> []"
  shows "\<exists>pieces. pieces \<noteq> [] \<and> bs = join_bytes needle pieces \<and> replace_all needle r bs = join_bytes r pieces \<and>
    (\<forall>p \<in> set pieces. \<not> sublist needle p)"
  using assms
proof (induction needle r bs rule: replace_all.induct)
  case (1 needle r rest)
  show ?case
  proof (cases "find_bytes needle rest")
    case None
    then have "\<not> sublist needle rest" by (simp add: find_bytes_None)
    with None 1(2) show ?thesis by (intro exI [of _ "[rest]"]) (simp add: replace_all.simps [of needle r rest])
  next
    case (Some i)
    from 1(1) [OF 1(2) Some 1(2)] obtain ps where ps: "ps \<noteq> []"
      "drop (i + length needle) rest = join_bytes needle ps"
      "replace_all needle r (drop (i + length needle) rest) = join_bytes r ps" "\<forall>p \<in> set ps. \<not> sublist needle p"
      by auto
    have "rest = take i rest @ needle @ drop (i + length needle) rest"
      using find_bytes_Some [OF Some] by (metis add.commute append_take_drop_id drop_drop)
    then have "rest = join_bytes needle (take i rest # ps)" using ps(1,2) by (simp add: join_bytes_Cons)
    moreover have "replace_all needle r rest = join_bytes r (take i rest # ps)"
      using 1(2) Some ps(1,3) by (simp add: replace_all.simps [of needle r rest] join_bytes_Cons)
    ultimately show ?thesis using ps(4) find_bytes_first [OF Some 1(2)]
      by (intro exI [of _ "take i rest # ps"]) simp
  qed
qed

text \<open>A value without the marker's delimiters that is no part of the marker can occur in a text
  with markers only beside them.\<close>

definition marker_free :: "bytes \<Rightarrow> bool" where
  "marker_free r \<longleftrightarrow> r \<noteq> [] \<and> 60 \<notin> set r \<and> 62 \<notin> set r \<and> \<not> sublist r REDACTED"

lemma sublist_around:
  assumes "sublist r (x @ c # y)" and "c \<notin> set r"
  shows "sublist r x \<or> sublist r y"
proof -
  consider "sublist r x" | "sublist r (c # y)" | a b where "r = a @ b" "suffix a x" "prefix b (c # y)"
    using assms(1) by (auto simp: sublist_append)
  then show ?thesis
  proof cases
    case 2
    then show ?thesis using assms(2) by (cases r) (auto simp: sublist_Cons_right)
  next
    case 3
    with assms(2) have "b = []" by (cases b) auto
    with 3 show ?thesis by simp
  qed simp
qed

lemma REDACTED_bytes: "REDACTED = 60 # as_bytes ''redacted'' @ [62]"
  by (simp add: REDACTED_def as_bytes_def)

lemma sublist_marker:
  assumes "sublist r (x @ REDACTED @ y)" and "marker_free r"
  shows "sublist r x \<or> sublist r y"
proof -
  have r: "60 \<notin> set r" "62 \<notin> set r" "\<not> sublist r REDACTED" using assms(2) by (simp_all add: marker_free_def)
  have "sublist r x \<or> sublist r (as_bytes ''redacted'' @ 62 # y)"
    using sublist_around [of r x 60 "as_bytes ''redacted'' @ 62 # y"] assms(1) r(1) by (simp add: REDACTED_bytes)
  moreover have "sublist r (as_bytes ''redacted'') \<or> sublist r y" if "sublist r (as_bytes ''redacted'' @ 62 # y)"
    using sublist_around [OF that r(2)] .
  moreover have "\<not> sublist r (as_bytes ''redacted'')"
    using r(3) sublist_order.order_trans [of r "as_bytes ''redacted''" REDACTED]
    unfolding REDACTED_bytes by (metis append_Cons append_Nil sublist_appendI)
  ultimately show ?thesis by blast
qed

lemma sublist_join:
  assumes "sublist r (join_bytes REDACTED ps)" and "marker_free r"
  shows "\<exists>p \<in> set ps. sublist r p"
  using assms(1)
proof (induction REDACTED ps rule: join_bytes.induct)
  case 1
  with assms(2) show ?case by (simp add: marker_free_def)
next
  case (3 x y ys)
  then show ?case using sublist_marker [OF _ assms(2), of x "join_bytes REDACTED (y # ys)"] by auto
qed simp

lemma sublist_join_part: "p \<in> set ps \<Longrightarrow> sublist p (join_bytes sep ps)"
proof (induction sep ps rule: join_bytes.induct)
  case (3 sep x y ys)
  have "sublist (join_bytes sep (y # ys)) (join_bytes sep (x # y # ys))"
    using sublist_append_leftI [of "join_bytes sep (y # ys)" "x @ sep"] by simp
  moreover have "p = x \<Longrightarrow> sublist p (join_bytes sep (x # y # ys))" by simp
  ultimately show ?case using 3 by (auto dest: sublist_order.order_trans)
qed simp_all

text \<open>A replacement removes its own needle and brings in no other value.\<close>

lemma replace_all_absent:
  assumes "marker_free r" and "needle \<noteq> []" and "r = needle \<or> \<not> sublist r bs"
  shows "\<not> sublist r (replace_all needle REDACTED bs)"
proof
  assume a: "sublist r (replace_all needle REDACTED bs)"
  obtain ps where ps: "bs = join_bytes needle ps" "replace_all needle REDACTED bs = join_bytes REDACTED ps"
    "\<forall>p \<in> set ps. \<not> sublist needle p"
    using replace_all_pieces [OF assms(2), of bs REDACTED] by blast
  then obtain p where p: "p \<in> set ps" "sublist r p" using sublist_join [OF _ assms(1)] a by metis
  then have "sublist r bs" using sublist_join_part ps(1) sublist_order.order_trans by metis
  with p ps(3) assms(3) show False by blast
qed

lemma redact_values_absent:
  assumes "r \<in> set redactions" and "marker_free r"
  shows "\<not> sublist r (redact_values redactions bs)"
proof -
  let ?step = "\<lambda>r bs. if r = [] then bs else replace_all r REDACTED bs"
  have "\<not> sublist r (fold ?step rs bs)" if "r \<in> set rs \<or> \<not> sublist r bs" for rs bs
    using that
  proof (induction rs arbitrary: bs)
    case (Cons x rs)
    have "r \<in> set rs \<or> \<not> sublist r (?step x bs)"
      using Cons.prems replace_all_absent [OF assms(2), of x bs] assms(2) by (auto simp: marker_free_def)
    from Cons.IH [OF this] show ?case by simp
  qed simp
  then have "\<not> sublist r (fold ?step redactions bs)" using assms(1) by blast
  then show ?thesis
    unfolding redact_values_def using sublist_order.order_trans [of r "take CAPTURE_LIMIT (fold ?step redactions bs)"]
    by (meson sublist_take)
qed

lemma redact_values_length: "length (redact_values redactions bs) \<le> CAPTURE_LIMIT"
  by (simp add: redact_values_def)

end
