(* ===== verification/Child_Guard.thy ===== *)
theory Child_Guard
  imports Capture
begin

text \<open>
  The guard of a child process in the fixtures, \<open>crates/rssh-test-support/src/process.rs\<close> lines 12 to
  84, 148 to 256, 258 to 643 and 685 to 712, and the errors it builds (761 to 824): bounded cleanup of a
  child, waiting with a deadline, termination, and dropping. Children, the clock and the capture
  files are an environment; the world counts the calls and logs what happens to children.
\<close>

section \<open>Durations\<close>

definition POLL_INTERVAL :: duration where "POLL_INTERVAL = 10000000"
definition CLEANUP_GRACE :: duration where "CLEANUP_GRACE = 500000000"
definition EXPLICIT_TERMINATION_GRACE :: duration where "EXPLICIT_TERMINATION_GRACE = 2000000000"

section \<open>The environment\<close>

type_synonym child = nat

datatype proc_event =
    Polled child "(int option, io_err) result"
  | Killed child "(unit, io_err) result"
  | Enqueued child

datatype reaper_initialization = ReaperReady | ReaperFailed string

record proc_world =
  pw_time :: nat
  pw_calls :: nat
  pw_reaper :: "reaper_initialization option"
  pw_pending :: "child list"
  pw_log :: "proc_event list"

text \<open>What the calls do, by their number; how much time passes during each; and the contents of
  the capture files of a guard at each snapshot (of the error output or not).\<close>

record proc_env =
  pe_kill :: "child \<Rightarrow> nat \<Rightarrow> (unit, io_err) result"
  pe_poll :: "child \<Rightarrow> nat \<Rightarrow> (int option, io_err) result"
  pe_capture :: "nat \<Rightarrow> bool \<Rightarrow> nat \<Rightarrow> file_view"
  pe_setup :: "nat \<Rightarrow> (unit, io_err) result"
  pe_spawn :: "proc_command \<Rightarrow> nat \<Rightarrow> (child, io_err) result"
  pe_delay :: "nat \<Rightarrow> nat"
  pe_instant_max :: nat

definition pass :: "proc_env \<Rightarrow> proc_world \<Rightarrow> proc_world" where
  "pass E w = w\<lparr>pw_time := pw_time w + pe_delay E (pw_calls w), pw_calls := Suc (pw_calls w)\<rparr>"

definition logged :: "proc_event \<Rightarrow> proc_world \<Rightarrow> proc_world" where
  "logged e w = w\<lparr>pw_log := pw_log w @ [e]\<rparr>"

text \<open>\<open>Instant::checked_add\<close>, \<open>CleanupClock\<close> and \<open>CleanupTarget\<close>.\<close>

definition instant_add :: "proc_env \<Rightarrow> nat \<Rightarrow> duration \<Rightarrow> nat option" where
  "instant_add E t d = (if t + d \<le> pe_instant_max E then Some (t + d) else None)"

definition clock_now :: "proc_env \<Rightarrow> proc_world \<Rightarrow> nat \<times> proc_world" where
  "clock_now E w = (pw_time (pass E w), pass E w)"

definition clock_sleep :: "proc_env \<Rightarrow> duration \<Rightarrow> proc_world \<Rightarrow> proc_world" where
  "clock_sleep E d w = pass E (w\<lparr>pw_time := pw_time w + d\<rparr>)"

definition child_kill :: "proc_env \<Rightarrow> child \<Rightarrow> proc_world \<Rightarrow> (unit, io_err) result \<times> proc_world" where
  "child_kill E c w = (let r = pe_kill E c (pw_calls w) in (r, logged (Killed c r) (pass E w)))"

definition child_try_wait :: "proc_env \<Rightarrow> child \<Rightarrow> proc_world \<Rightarrow> (int option, io_err) result \<times> proc_world" where
  "child_try_wait E c w = (let r = pe_poll E c (pw_calls w) in (r, logged (Polled c r) (pass E w)))"

section \<open>Bounded cleanup\<close>

datatype cleanup_outcome = Reaped int "io_err option" | Deferred "io_err option"

text \<open>A kill that failed is tried again in each round.\<close>

definition retry_kill ::
  "proc_env \<Rightarrow> child \<Rightarrow> bool \<Rightarrow> io_err option \<Rightarrow> proc_world \<Rightarrow> bool \<times> io_err option \<times> proc_world" where
  "retry_kill E c killed last_error w =
     (if killed then (True, last_error, w)
      else (case child_kill E c w of
         (Inr _, w') \<Rightarrow> (True, last_error, w')
       | (Inl e, w') \<Rightarrow> (False, Some e, w')))"

lemma pass_time [simp]: "pw_time w \<le> pw_time (pass E w)" "pw_time (logged e w) = pw_time w"
  by (simp_all add: pass_def logged_def)

lemma retry_kill_time: "retry_kill E c killed last_error w = (k, e, w') \<Longrightarrow> pw_time w \<le> pw_time w'"
  by (auto simp: retry_kill_def child_kill_def Let_def split: if_splits sum.splits)

definition exit_seen :: "(int option, io_err) result \<Rightarrow> int option" where
  "exit_seen r = (case r of Inr s \<Rightarrow> s | Inl e \<Rightarrow> None)"

definition later_error :: "('a, io_err) result \<Rightarrow> io_err option \<Rightarrow> io_err option" where
  "later_error r last_error = (case r of Inl e \<Rightarrow> Some e | Inr _ \<Rightarrow> last_error)"

function cleanup_loop ::
  "proc_env \<Rightarrow> child \<Rightarrow> nat \<Rightarrow> bool \<Rightarrow> io_err option \<Rightarrow> proc_world \<Rightarrow> cleanup_outcome \<times> proc_world" where
  "cleanup_loop E c deadline killed last_error w =
     (case child_try_wait E c w of
        (r, w1) \<Rightarrow>
          (case exit_seen r of
             Some status \<Rightarrow> (Reaped status last_error, w1)
           | None \<Rightarrow>
               (case clock_now E w1 of
                  (now, w2) \<Rightarrow>
                    if deadline \<le> now then (Deferred (later_error r last_error), w2)
                    else (case retry_kill E c killed (later_error r last_error) w2 of
                      (killed, last_error, w3) \<Rightarrow>
                        (case clock_now E w3 of
                           (now, w4) \<Rightarrow> cleanup_loop E c deadline killed last_error
                             (clock_sleep E (min (deadline - now) POLL_INTERVAL) w4))))))"
  by pat_completeness auto

text \<open>The clock after a round that did not end the loop.\<close>

lemma round_time:
  assumes "child_try_wait E c w = (r, w1)" and "clock_now E w1 = (now, w2)" and "now < deadline"
    and "retry_kill E c killed last_error w2 = (k, e, w3)" and "clock_now E w3 = (now', w4)"
  shows "min deadline (pw_time w + POLL_INTERVAL) \<le> pw_time (clock_sleep E (min (deadline - now') POLL_INTERVAL) w4)"
    and "pw_time w < deadline"
proof -
  have "pw_time w \<le> pw_time w1"
    using assms(1) pass_time(1) [of w E] by (auto simp: child_try_wait_def Let_def)
  moreover have "pw_time w1 \<le> now" "pw_time w2 = now" using assms(2) pass_time(1) [of w1 E] by (auto simp: clock_now_def)
  moreover have "pw_time w2 \<le> pw_time w3" by (rule retry_kill_time [OF assms(4)])
  moreover have "pw_time w3 \<le> now'" "pw_time w4 = now'" using assms(5) pass_time(1) [of w3 E] by (auto simp: clock_now_def)
  ultimately show "min deadline (pw_time w + POLL_INTERVAL) \<le> pw_time (clock_sleep E (min (deadline - now') POLL_INTERVAL) w4)"
    "pw_time w < deadline"
    using assms(3) by (auto simp: clock_sleep_def pass_def min_def)
qed

lemma POLL_INTERVAL_pos: "0 < POLL_INTERVAL"
  by (simp add: POLL_INTERVAL_def)

termination cleanup_loop
proof (relation "measure (\<lambda>(E, c, deadline, killed, last_error, w). deadline - pw_time w)", goal_cases)
  case 1
  show ?case by simp
next
  case (2 E c deadline killed last_error w r w1 now w2 k x e w3 now' w4)
  then have "min deadline (pw_time w + POLL_INTERVAL) \<le> pw_time (clock_sleep E (min (deadline - now') POLL_INTERVAL) w4)"
    "pw_time w < deadline"
    using round_time [of E c w r w1 now w2 deadline killed "later_error r last_error" k e w3 now' w4] by auto
  then show ?case using POLL_INTERVAL_pos by auto
qed

declare cleanup_loop.simps [simp del]

definition bounded_cleanup :: "proc_env \<Rightarrow> child \<Rightarrow> duration \<Rightarrow> proc_world \<Rightarrow> cleanup_outcome \<times> proc_world" where
  "bounded_cleanup E c grace w =
     (case clock_now E w of
        (started, w1) \<Rightarrow>
          (let deadline = (case instant_add E started grace of Some d \<Rightarrow> d | None \<Rightarrow> started) in
           case child_kill E c w1 of
             (r, w2) \<Rightarrow> cleanup_loop E c deadline (is_ok r) (later_error r None) w2))"

definition explicit_termination_grace :: "nat \<Rightarrow> nat \<Rightarrow> duration" where
  "explicit_termination_grace deadline now = min (deadline - now) EXPLICIT_TERMINATION_GRACE"

section \<open>Results\<close>

record child_output =
  co_status :: int
  co_stdout :: bytes
  co_stderr :: bytes

datatype child_guard_error =
    GuardIo string io_err "io_err option" "child_output option"
  | GuardTimedOut duration child_output "io_err option" "io_err option"
  | GuardCleanupDeferred string io_err "io_err option" bytes bytes

fun error_output :: "child_guard_error \<Rightarrow> child_output option" where
  "error_output (GuardIo operation source secondary output) = output"
| "error_output (GuardTimedOut timeout output cleanup_error capture_error) = Some output"
| "error_output (GuardCleanupDeferred operation source secondary stdout stderr) = None"

fun error_stdout :: "child_guard_error \<Rightarrow> bytes option" where
  "error_stdout (GuardIo operation source secondary output) = map_option co_stdout output"
| "error_stdout (GuardTimedOut timeout output cleanup_error capture_error) = Some (co_stdout output)"
| "error_stdout (GuardCleanupDeferred operation source secondary stdout stderr) = Some stdout"

fun error_stderr :: "child_guard_error \<Rightarrow> bytes option" where
  "error_stderr (GuardIo operation source secondary output) = map_option co_stderr output"
| "error_stderr (GuardTimedOut timeout output cleanup_error capture_error) = Some (co_stderr output)"
| "error_stderr (GuardCleanupDeferred operation source secondary stdout stderr) = Some stderr"

definition opt_or :: "'a option \<Rightarrow> 'a option \<Rightarrow> 'a option" where
  "opt_or a b = (case a of Some x \<Rightarrow> Some x | None \<Rightarrow> b)"

fun error_source :: "child_guard_error \<Rightarrow> io_err option" where
  "error_source (GuardIo operation source secondary output) = Some source"
| "error_source (GuardCleanupDeferred operation source secondary stdout stderr) = Some source"
| "error_source (GuardTimedOut timeout output cleanup_error capture_error) = opt_or capture_error cleanup_error"

definition build_timeout_error :: "duration \<Rightarrow> child_output \<Rightarrow> io_err option \<Rightarrow> io_err option \<Rightarrow> child_guard_error" where
  "build_timeout_error timeout output cleanup_error capture_error = GuardTimedOut timeout output cleanup_error capture_error"

definition build_completed_capture_error :: "child_output \<Rightarrow> io_err \<Rightarrow> bytes list \<Rightarrow> child_guard_error" where
  "build_completed_capture_error output source redactions =
     GuardIo ''capture completed child output'' source None
       (Some (output\<lparr>co_stdout := redact_values redactions (co_stdout output),
                     co_stderr := redact_values redactions (co_stderr output)\<rparr>))"

definition combine_secondary_errors :: "io_err option \<Rightarrow> io_err option \<Rightarrow> io_err option" where
  "combine_secondary_errors cleanup_error capture_error =
     (case (cleanup_error, capture_error) of
        (Some cleanup, Some capture) \<Rightarrow>
          Some (IoErr IoOther (''cleanup warning: '' @ io_text cleanup @ ''; capture warning: '' @ io_text capture))
      | (Some e, None) \<Rightarrow> Some e
      | (None, e) \<Rightarrow> e)"

definition build_observation_error ::
  "child_output \<Rightarrow> io_err \<Rightarrow> io_err option \<Rightarrow> io_err option \<Rightarrow> child_guard_error" where
  "build_observation_error output observation_error cleanup_error capture_error =
     GuardIo ''observe and clean up'' observation_error (combine_secondary_errors cleanup_error capture_error) (Some output)"

definition missing_child_error :: "string \<Rightarrow> child_guard_error" where
  "missing_child_error operation =
     GuardIo operation (IoErr IoOther ''child process ownership was already released'') None None"

section \<open>The guard\<close>

record child_guard =
  g_child :: "child option"
  g_deadline :: nat
  g_timeout :: duration
  g_files :: nat
  g_redactions :: "bytes list"

definition process_id :: "child_guard \<Rightarrow> child option" where
  "process_id g = g_child g"

definition take_child :: "child_guard \<Rightarrow> child_guard" where
  "take_child g = g\<lparr>g_child := None\<rparr>"

definition enqueue :: "child \<Rightarrow> proc_world \<Rightarrow> proc_world" where
  "enqueue c w = logged (Enqueued c) (w\<lparr>pw_pending := pw_pending w @ [c]\<rparr>)"

definition snapshot :: "proc_env \<Rightarrow> child_guard \<Rightarrow> bool \<Rightarrow> proc_world \<Rightarrow> (bytes, io_err) result \<times> proc_world" where
  "snapshot E g err w = (read_bounded (pe_capture E (g_files g) err (pw_calls w)), pass E w)"

definition captured :: "(bytes, io_err) result \<Rightarrow> bytes \<times> io_err option" where
  "captured r = (case r of Inr d \<Rightarrow> (d, None) | Inl e \<Rightarrow> ([], Some e))"

definition capture_diagnostics ::
  "proc_env \<Rightarrow> bool \<Rightarrow> child_guard \<Rightarrow> proc_world \<Rightarrow> (bytes \<times> bytes \<times> io_err option) \<times> proc_world" where
  "capture_diagnostics E redact g w =
     (case snapshot E g False w of
        (r, w1) \<Rightarrow>
          (case snapshot E g True w1 of
             (r', w2) \<Rightarrow>
               (case (captured r, captured r') of
                  ((stdout, stdout_error), (stderr, stderr_error)) \<Rightarrow>
                    ((if redact then redact_values (g_redactions g) stdout else stdout,
                      if redact then redact_values (g_redactions g) stderr else stderr,
                      opt_or stdout_error stderr_error), w2))))"

definition capture_output ::
  "proc_env \<Rightarrow> int \<Rightarrow> bool \<Rightarrow> child_guard \<Rightarrow> proc_world \<Rightarrow> (child_output \<times> io_err option) \<times> proc_world" where
  "capture_output E status redact g w =
     (case capture_diagnostics E redact g w of
        ((stdout, stderr, capture_error), w1) \<Rightarrow>
          ((\<lparr>co_status = status, co_stdout = stdout, co_stderr = stderr\<rparr>, capture_error), w1))"

definition cap_remaining_timeout :: "proc_env \<Rightarrow> duration \<Rightarrow> child_guard \<Rightarrow> proc_world \<Rightarrow> child_guard \<times> proc_world" where
  "cap_remaining_timeout E timeout g w =
     (case clock_now E w of
        (now, w1) \<Rightarrow>
          (let requested = (case instant_add E now timeout of Some t \<Rightarrow> t | None \<Rightarrow> now);
               deadline = min (g_deadline g) requested
           in (g\<lparr>g_deadline := deadline, g_timeout := deadline - now\<rparr>, w1)))"

type_synonym 'a guard_op = "child_guard \<Rightarrow> proc_world \<Rightarrow> ('a, child_guard_error) result \<times> child_guard \<times> proc_world"

text \<open>The tail of the three operations that hand an unreaped child to the reaper.\<close>

definition defer_child ::
  "proc_env \<Rightarrow> string \<Rightarrow> io_err \<Rightarrow> (io_err option \<Rightarrow> io_err option) \<Rightarrow> child \<Rightarrow> child_output guard_op" where
  "defer_child E operation source secondary c g w =
     (case capture_diagnostics E True g w of
        ((stdout, stderr, capture_error), w1) \<Rightarrow>
          (Err (GuardCleanupDeferred operation source (secondary capture_error) stdout stderr),
           take_child g, enqueue c w1))"

definition unwrap_error :: "io_err option \<Rightarrow> string \<Rightarrow> io_err" where
  "unwrap_error last_error text = (case last_error of Some e \<Rightarrow> e | None \<Rightarrow> IoErr IoTimedOut text)"

definition guard_terminate :: "proc_env \<Rightarrow> child_output guard_op" where
  "guard_terminate E g w =
     (case clock_now E w of
        (now, w1) \<Rightarrow>
          (let grace = explicit_termination_grace (g_deadline g) now in
           case g_child g of
             None \<Rightarrow> (Err (missing_child_error ''terminate and reap''), g, w1)
           | Some c \<Rightarrow>
               (case bounded_cleanup E c grace w1 of
                  (Reaped status last_error, w2) \<Rightarrow>
                    (case capture_output E status True (take_child g) w2 of
                       ((out, capture_error), w3) \<Rightarrow>
                         ((case (last_error, capture_error) of
                             (None, None) \<Rightarrow> Ok out
                           | (Some source, secondary) \<Rightarrow> Err (GuardIo ''terminate and reap'' source secondary (Some out))
                           | (None, Some source) \<Rightarrow> Err (build_completed_capture_error out source (g_redactions g))),
                          take_child g, w3))
                | (Deferred last_error, w2) \<Rightarrow>
                    defer_child E ''explicit termination cleanup delegated to background reaper''
                      (unwrap_error last_error ''child remained unreaped after explicit termination'')
                      (\<lambda>capture_error. capture_error) c g w2)))"

definition terminate_after_timeout :: "proc_env \<Rightarrow> child_output guard_op" where
  "terminate_after_timeout E g w =
     (case g_child g of
        None \<Rightarrow> (Err (missing_child_error ''terminate after timeout''), g, w)
      | Some c \<Rightarrow>
          (case bounded_cleanup E c CLEANUP_GRACE w of
             (Reaped status last_error, w1) \<Rightarrow>
               (case capture_output E status True (take_child g) w1 of
                  ((out, capture_error), w2) \<Rightarrow>
                    (Err (build_timeout_error (g_timeout g) out last_error capture_error), take_child g, w2))
           | (Deferred last_error, w1) \<Rightarrow>
               defer_child E ''cleanup deadline expired; delegated to background reaper''
                 (unwrap_error last_error ''child remained unreaped after kill and cleanup grace'')
                 (\<lambda>capture_error. capture_error) c g w1))"

definition terminate_after_observation_error :: "proc_env \<Rightarrow> io_err \<Rightarrow> child_output guard_op" where
  "terminate_after_observation_error E observation_error g w =
     (case g_child g of
        None \<Rightarrow> (Err (missing_child_error ''clean up after observation error''), g, w)
      | Some c \<Rightarrow>
          (case bounded_cleanup E c CLEANUP_GRACE w of
             (Reaped status last_error, w1) \<Rightarrow>
               (case capture_output E status True (take_child g) w1 of
                  ((out, capture_error), w2) \<Rightarrow>
                    (Err (build_observation_error out observation_error last_error capture_error), take_child g, w2))
           | (Deferred last_error, w1) \<Rightarrow>
               defer_child E ''observation cleanup deferred to background reaper'' observation_error
                 (combine_secondary_errors last_error) c g w1))"

text \<open>The child has exited by itself.\<close>

definition completed :: "proc_env \<Rightarrow> int \<Rightarrow> child_output guard_op" where
  "completed E status g w =
     (case capture_output E status False (take_child g) w of
        ((out, capture_error), w1) \<Rightarrow>
          (case capture_error of
             Some source \<Rightarrow> Err (build_completed_capture_error out source (g_redactions g))
           | None \<Rightarrow> Ok out, take_child g, w1))"

definition guard_try_wait :: "proc_env \<Rightarrow> child_output option guard_op" where
  "guard_try_wait E g w =
     (case g_child g of
        None \<Rightarrow> (Err (missing_child_error ''poll''), g, w)
      | Some c \<Rightarrow>
          (case child_try_wait E c w of
             (Inr (Some status), w1) \<Rightarrow> (case completed E status g w1 of (r, g', w2) \<Rightarrow> (map_ok Some r, g', w2))
           | (Inr None, w1) \<Rightarrow> (Ok None, g, w1)
           | (Inl source, w1) \<Rightarrow>
               (case terminate_after_observation_error E source g w1 of (r, g', w2) \<Rightarrow> (map_ok Some r, g', w2))))"

function guard_wait_loop :: "proc_env \<Rightarrow> child_output guard_op" where
  "guard_wait_loop E g w =
     (case g_child g of
        None \<Rightarrow> (Err (missing_child_error ''poll''), g, w)
      | Some c \<Rightarrow>
          (case child_try_wait E c w of
             (r, w1) \<Rightarrow>
               (case r of
                  Inl source \<Rightarrow> terminate_after_observation_error E source g w1
                | Inr seen \<Rightarrow>
                    (case seen of
                       Some status \<Rightarrow> completed E status g w1
                     | None \<Rightarrow>
                         (case clock_now E w1 of
                            (now, w2) \<Rightarrow>
                              if now < g_deadline g then
                                (case clock_now E w2 of
                                   (now, w3) \<Rightarrow> guard_wait_loop E g
                                     (clock_sleep E (min (g_deadline g - now) POLL_INTERVAL) w3))
                              else terminate_after_timeout E g w2)))))"
  by pat_completeness auto

lemma wait_round_time:
  assumes "child_try_wait E c w = (r, w1)" and "clock_now E w1 = (now, w2)" and "now < deadline"
    and "clock_now E w2 = (now', w3)"
  shows "min deadline (pw_time w + POLL_INTERVAL) \<le> pw_time (clock_sleep E (min (deadline - now') POLL_INTERVAL) w3)"
    and "pw_time w < deadline"
  using round_time [OF assms(1,2,3), of True None True None w2 now' w3] assms(4) by (simp_all add: retry_kill_def)

termination guard_wait_loop
proof (relation "measure (\<lambda>(E, g, w). g_deadline g - pw_time w)", goal_cases)
  case 1
  show ?case by simp
next
  case (2 E g w c r w1 seen now w2 now' w3)
  then have "min (g_deadline g) (pw_time w + POLL_INTERVAL)
      \<le> pw_time (clock_sleep E (min (g_deadline g - now') POLL_INTERVAL) w3)" "pw_time w < g_deadline g"
    using wait_round_time [of E c w r w1 now w2 "g_deadline g" now' w3] by auto
  then show ?case using POLL_INTERVAL_pos by auto
qed

declare guard_wait_loop.simps [simp del]

text \<open>\<open>Drop\<close>, and the operations that take the guard by value, which drop it at their end.\<close>

definition drop_child_guard :: "proc_env \<Rightarrow> child_guard \<Rightarrow> proc_world \<Rightarrow> proc_world" where
  "drop_child_guard E g w =
     (case g_child g of
        None \<Rightarrow> w
      | Some c \<Rightarrow>
          (case bounded_cleanup E c CLEANUP_GRACE w of
             (Reaped status last_error, w1) \<Rightarrow> w1
           | (Deferred last_error, w1) \<Rightarrow> enqueue c w1))"

definition consume :: "proc_env \<Rightarrow> 'a guard_op \<Rightarrow> child_guard \<Rightarrow> proc_world \<Rightarrow> ('a, child_guard_error) result \<times> proc_world" where
  "consume E m g w = (case m g w of (r, g', w') \<Rightarrow> (r, drop_child_guard E g' w'))"

definition guard_wait where "guard_wait E = consume E (guard_wait_loop E)"

definition terminate_guard where "terminate_guard E = consume E (guard_terminate E)"

section \<open>Starting a child\<close>

text \<open>\<open>global_reaper\<close>: the thread of the reaper is started once; a failure is remembered.\<close>

definition initialize_reaper :: "proc_env \<Rightarrow> proc_world \<Rightarrow> reaper_initialization \<times> proc_world" where
  "initialize_reaper E w =
     ((case pe_setup E (pw_calls w) of Inr _ \<Rightarrow> ReaperReady | Inl e \<Rightarrow> ReaperFailed (io_text e)), pass E w)"

definition global_reaper :: "proc_env \<Rightarrow> proc_world \<Rightarrow> (unit, io_err) result \<times> proc_world" where
  "global_reaper E w =
     (case (case pw_reaper w of
              Some i \<Rightarrow> (i, w)
            | None \<Rightarrow> (case initialize_reaper E w of (i, w1) \<Rightarrow> (i, w1\<lparr>pw_reaper := Some i\<rparr>))) of
        (ReaperReady, w1) \<Rightarrow> (Ok (), w1)
      | (ReaperFailed message, w1) \<Rightarrow> (Err (IoErr IoOther message), w1))"

definition setup_call :: "proc_env \<Rightarrow> string \<Rightarrow> proc_world \<Rightarrow> (unit, child_guard_error) result \<times> proc_world" where
  "setup_call E operation w =
     (map_err (\<lambda>source. GuardIo operation source None None) (pe_setup E (pw_calls w)), pass E w)"

fun setup_calls :: "proc_env \<Rightarrow> string list \<Rightarrow> proc_world \<Rightarrow> (unit, child_guard_error) result \<times> proc_world" where
  "setup_calls E [] w = (Ok (), w)"
| "setup_calls E (operation # operations) w =
     (case setup_call E operation w of
        (Inl e, w1) \<Rightarrow> (Err e, w1)
      | (Inr _, w1) \<Rightarrow> setup_calls E operations w1)"

definition guard_spawn :: "proc_env \<Rightarrow> proc_command \<Rightarrow> duration \<Rightarrow> proc_world \<Rightarrow> (child_guard, child_guard_error) result \<times> proc_world" where
  "guard_spawn E command timeout w =
     (case global_reaper E w of
        (Inl source, w1) \<Rightarrow> (Err (GuardIo ''initialize background child reaper'' source None None), w1)
      | (Inr _, w1) \<Rightarrow>
          (case clock_now E w1 of
             (now, w2) \<Rightarrow>
               (case instant_add E now timeout of
                  None \<Rightarrow> (Err (GuardIo ''deadline setup''
                    (IoErr IoInvalidInput ''child timeout exceeds the platform Instant range'') None None), w2)
                | Some deadline \<Rightarrow>
                    (case setup_calls E [''stdout capture setup'', ''stderr capture setup'',
                            ''stdout capture reopen'', ''stderr capture reopen''] w2 of
                       (Inl e, w3) \<Rightarrow> (Err e, w3)
                     | (Inr _, w3) \<Rightarrow>
                         (case pe_spawn E command (pw_calls w3) of
                            Inl source \<Rightarrow> (Err (GuardIo ''spawn'' source None None), pass E w3)
                          | Inr c \<Rightarrow>
                              (Ok \<lparr>g_child = Some c, g_deadline = deadline, g_timeout = timeout,
                                 g_files = pw_calls w3, g_redactions = command_redactions command\<rparr>, pass E w3))))))"

end
