(* ===== verification/Child_Owned.thy ===== *)
theory Child_Owned
  imports Child_Guard
begin

text \<open>
  What the guard of a child process guarantees: the child is reaped or handed to the reaper,
  exactly once; polling is bounded; and errors carry bounded output without the redacted values.
\<close>

section \<open>What happens to a child\<close>

definition is_exit :: "child \<Rightarrow> proc_event \<Rightarrow> bool" where
  "is_exit c e = (case e of Polled c' r \<Rightarrow> c' = c \<and> exit_seen r \<noteq> None | _ \<Rightarrow> False)"

definition is_poll :: "proc_event \<Rightarrow> bool" where
  "is_poll e = (case e of Polled c r \<Rightarrow> True | _ \<Rightarrow> False)"

text \<open>Between two worlds: nothing was decided about the child, it was reaped, or it was handed to
  the reaper after an attempt to kill it.\<close>

definition undecided :: "child \<Rightarrow> proc_world \<Rightarrow> proc_world \<Rightarrow> bool" where
  "undecided c w w' \<longleftrightarrow> (\<exists>es. pw_log w' = pw_log w @ es \<and> filter (is_exit c) es = [] \<and> pw_pending w' = pw_pending w)"

definition reaped_once :: "child \<Rightarrow> proc_world \<Rightarrow> proc_world \<Rightarrow> bool" where
  "reaped_once c w w' \<longleftrightarrow> (\<exists>es. pw_log w' = pw_log w @ es \<and> length (filter (is_exit c) es) = 1 \<and>
     pw_pending w' = pw_pending w)"

definition handed_over :: "child \<Rightarrow> proc_world \<Rightarrow> proc_world \<Rightarrow> bool" where
  "handed_over c w w' \<longleftrightarrow> (\<exists>es. pw_log w' = pw_log w @ es \<and> filter (is_exit c) es = [] \<and>
     (\<exists>r. Killed c r \<in> set es) \<and> pw_pending w' = pw_pending w @ [c])"

lemma undecided_then:
  assumes "undecided c w w1"
  shows "undecided c w1 w' \<Longrightarrow> undecided c w w'" "reaped_once c w1 w' \<Longrightarrow> reaped_once c w w'"
    "handed_over c w1 w' \<Longrightarrow> handed_over c w w'"
  using assms unfolding undecided_def reaped_once_def handed_over_def by force+

lemma reaped_then: "reaped_once c w w1 \<Longrightarrow> undecided c w1 w' \<Longrightarrow> reaped_once c w w'"
  unfolding undecided_def reaped_once_def by force

lemma undecided_pass [simp]: "undecided c w (pass E w)" "undecided c w w"
  by (auto simp: undecided_def pass_def)

lemma clock_effects:
  "clock_now E w = (t, w') \<Longrightarrow> undecided c w w'" "undecided c w (clock_sleep E d w)"
  by (auto simp: clock_now_def clock_sleep_def undecided_def pass_def)

lemma kill_effects: "child_kill E c w = (r, w') \<Longrightarrow> undecided c w w'"
  by (auto simp: child_kill_def Let_def undecided_def pass_def logged_def is_exit_def)

lemma retry_effects: "retry_kill E c killed e w = (k, e', w') \<Longrightarrow> undecided c w w'"
  using kill_effects by (auto simp: retry_kill_def split: if_splits prod.splits sum.splits)

lemma poll_effects:
  assumes "child_try_wait E c w = (r, w')"
  shows "exit_seen r = None \<Longrightarrow> undecided c w w'" "exit_seen r \<noteq> None \<Longrightarrow> reaped_once c w w'"
  using assms by (auto simp: child_try_wait_def Let_def undecided_def reaped_once_def pass_def logged_def is_exit_def)

lemma capture_effects:
  "capture_diagnostics E redact g w = (x, w') \<Longrightarrow> undecided c w w'"
  "capture_output E status redact g w = (y, w') \<Longrightarrow> undecided c w w'"
  by (auto simp: capture_output_def capture_diagnostics_def snapshot_def undecided_def pass_def split: prod.splits)

text \<open>The rounds of the loop, as an induction rule.\<close>

lemma cleanup_loop_rounds:
  assumes run: "cleanup_loop E c deadline killed e w = (out, w')"
    and seen: "\<And>killed e w r w1 s. child_try_wait E c w = (r, w1) \<Longrightarrow> exit_seen r = Some s \<Longrightarrow> P killed e w (Reaped s e) w1"
    and late: "\<And>killed e w r w1 now w2. child_try_wait E c w = (r, w1) \<Longrightarrow> exit_seen r = None \<Longrightarrow>
      clock_now E w1 = (now, w2) \<Longrightarrow> deadline \<le> now \<Longrightarrow> P killed e w (Deferred (later_error r e)) w2"
    and again: "\<And>killed e w r w1 now w2 k e' w3 now' w4. child_try_wait E c w = (r, w1) \<Longrightarrow> exit_seen r = None \<Longrightarrow>
      clock_now E w1 = (now, w2) \<Longrightarrow> now < deadline \<Longrightarrow> retry_kill E c killed (later_error r e) w2 = (k, e', w3) \<Longrightarrow>
      clock_now E w3 = (now', w4) \<Longrightarrow> P k e' (clock_sleep E (min (deadline - now') POLL_INTERVAL) w4) out w' \<Longrightarrow>
      P killed e w out w'"
  shows "P killed e w out w'"
proof -
  have "P killed e w out w'"
    if "cleanup_loop F x d killed e w = (out, w')" "F = E" "x = c" "d = deadline" for F x d killed e w
    using that
  proof (induction F x d killed e w rule: cleanup_loop.induct)
    case (1 F x d killed e w)
    note [simp] = 1(3-5)
    obtain r w1 where r: "child_try_wait E c w = (r, w1)" by fastforce
    obtain now w2 where now: "clock_now E w1 = (now, w2)" by fastforce
    obtain k e' w3 where k: "retry_kill E c killed (later_error r e) w2 = (k, e', w3)" by (metis prod_cases3)
    obtain now' w4 where now': "clock_now E w3 = (now', w4)" by fastforce
    note unfold = cleanup_loop.simps [of E c deadline killed e w]
    consider s where "exit_seen r = Some s" | "exit_seen r = None" "deadline \<le> now" | "exit_seen r = None" "now < deadline"
      by (cases "exit_seen r") force+
    then show ?case
    proof cases
      case 1
      with \<open>cleanup_loop F x d killed e w = (out, w')\<close> seen [OF r] r show ?thesis by (auto simp: unfold)
    next
      case 2
      with \<open>cleanup_loop F x d killed e w = (out, w')\<close> late [OF r _ now] r now show ?thesis by (auto simp: unfold)
    next
      case 3
      with \<open>cleanup_loop F x d killed e w = (out, w')\<close> r now k now'
      have "cleanup_loop E c deadline k e' (clock_sleep E (min (deadline - now') POLL_INTERVAL) w4) = (out, w')"
        by (simp add: unfold)
      then show ?thesis
        using again [OF r 3(1) now 3(2) k now'] 1(1) [of r w1 now w2 k _ e' w3 now' w4] r now k now' 3 by simp
    qed
  qed
  with run show ?thesis by blast
qed

lemma cleanup_loop_effects:
  assumes "cleanup_loop E c deadline killed e w = (out, w')"
  shows "case out of Reaped s e \<Rightarrow> reaped_once c w w' | Deferred e \<Rightarrow> undecided c w w'"
  using assms
proof (rule cleanup_loop_rounds [where P = "\<lambda>killed e w out w'.
      case out of Reaped s e \<Rightarrow> reaped_once c w w' | Deferred e \<Rightarrow> undecided c w w'"], goal_cases)
  case (1 killed e w r w1 s)
  then show ?case using poll_effects(2) [OF 1(1)] by simp
next
  case (2 killed e w r w1 now w2)
  then show ?case using undecided_then(1) [OF poll_effects(1) [OF 2(1)] clock_effects(1) [OF 2(3)]] by simp
next
  case (3 killed e w r w1 now w2 k e' w3 now' w4)
  have "undecided c w (clock_sleep E (min (deadline - now') POLL_INTERVAL) w4)"
    using undecided_then(1) [OF poll_effects(1) [OF 3(1,2)] undecided_then(1) [OF clock_effects(1) [OF 3(3)]
          undecided_then(1) [OF retry_effects [OF 3(5)] undecided_then(1) [OF clock_effects(1) [OF 3(6)] clock_effects(2)]]]] .
  from undecided_then [OF this] 3(7) show ?case by (auto split: cleanup_outcome.splits)
qed

text \<open>The polls of a loop: one for each interval that is left, and one.\<close>

definition polls :: "proc_world \<Rightarrow> nat" where
  "polls w = length (filter is_poll (pw_log w))"

definition intervals :: "nat \<Rightarrow> nat" where
  "intervals d = (d + POLL_INTERVAL - 1) div POLL_INTERVAL"

lemma polls_simps [simp]: "polls (pass E w) = polls w" "polls (w\<lparr>pw_time := t\<rparr>) = polls w"
  "polls (logged e w) = polls w + (if is_poll e then 1 else 0)" "polls (w\<lparr>pw_pending := q\<rparr>) = polls w"
  by (simp_all add: polls_def pass_def logged_def)

lemma polls_calls:
  "clock_now E w = (t, w') \<Longrightarrow> polls w' = polls w" "polls (clock_sleep E d w) = polls w"
  "child_kill E c w = (r, w') \<Longrightarrow> polls w' = polls w"
  "child_try_wait E c w = (x, w') \<Longrightarrow> polls w' = Suc (polls w)"
  "retry_kill E c killed e w = (k, e', w') \<Longrightarrow> polls w' = polls w"
  by (auto simp: clock_now_def clock_sleep_def child_kill_def child_try_wait_def retry_kill_def Let_def is_poll_def
      split: if_splits sum.splits)

lemma intervals_less: "0 < d \<Longrightarrow> Suc (intervals (d - POLL_INTERVAL)) \<le> intervals d"
proof (cases "POLL_INTERVAL \<le> d")
  case True
  define x where "x = d - POLL_INTERVAL"
  have "d + POLL_INTERVAL - 1 = (x + POLL_INTERVAL - 1) + POLL_INTERVAL"
    using True POLL_INTERVAL_pos by (simp add: x_def)
  then have "intervals d = (x + POLL_INTERVAL - 1 + POLL_INTERVAL) div POLL_INTERVAL" by (simp only: intervals_def)
  also have "\<dots> = Suc (intervals x)" unfolding intervals_def using POLL_INTERVAL_pos by (subst div_add_self2) simp_all
  finally have "intervals d = Suc (intervals x)" .
  then show ?thesis by (simp add: x_def)
next
  case False
  moreover assume "0 < d"
  ultimately have "intervals (d - POLL_INTERVAL) = 0" "POLL_INTERVAL \<le> d + POLL_INTERVAL - 1"
    using POLL_INTERVAL_pos by (simp_all add: intervals_def)
  then show ?thesis unfolding intervals_def using POLL_INTERVAL_pos by (simp add: Suc_le_eq div_greater_zero_iff)
qed

lemma intervals_mono: "a \<le> b \<Longrightarrow> intervals a \<le> intervals b"
  unfolding intervals_def by (intro div_le_mono diff_le_mono add_le_mono) simp_all

lemma intervals_step:
  assumes "t < deadline" and "min deadline (t + POLL_INTERVAL) \<le> t'"
  shows "Suc (intervals (deadline - t')) \<le> intervals (deadline - t)"
proof -
  have "deadline - t' \<le> (deadline - t) - POLL_INTERVAL" using assms by linarith
  then have "intervals (deadline - t') \<le> intervals ((deadline - t) - POLL_INTERVAL)" by (rule intervals_mono)
  also have "Suc \<dots> \<le> intervals (deadline - t)" by (rule intervals_less) (use assms(1) in simp)
  finally show ?thesis by simp
qed

lemma cleanup_loop_polls:
  assumes "cleanup_loop E c deadline killed e w = (out, w')"
  shows "polls w' \<le> polls w + intervals (deadline - pw_time w) + 1"
  using assms
proof (rule cleanup_loop_rounds [where P = "\<lambda>killed e w out w'.
      polls w' \<le> polls w + intervals (deadline - pw_time w) + 1"], goal_cases)
  case (3 killed e w r w1 now w2 k e' w3 now' w4)
  have "Suc (intervals (deadline - pw_time (clock_sleep E (min (deadline - now') POLL_INTERVAL) w4))) \<le> intervals (deadline - pw_time w)"
    using intervals_step round_time [OF 3(1,3,4,5,6)] by blast
  with 3(7) polls_calls(2) [of E "min (deadline - now') POLL_INTERVAL" w4] polls_calls(1) [OF 3(6)] polls_calls(5) [OF 3(5)]
    polls_calls(1) [OF 3(3)] polls_calls(4) [OF 3(1)] show ?case by simp
qed (simp_all add: polls_calls)

section \<open>Cleanup\<close>

definition kill_tried :: "child \<Rightarrow> proc_world \<Rightarrow> proc_world \<Rightarrow> bool" where
  "kill_tried c w w' \<longleftrightarrow> (\<exists>es. pw_log w' = pw_log w @ es \<and> filter (is_exit c) es = [] \<and>
     (\<exists>r. Killed c r \<in> set es) \<and> pw_pending w' = pw_pending w)"

lemma kill_tried_then: "kill_tried c w w1 \<Longrightarrow> undecided c w1 w' \<Longrightarrow> kill_tried c w w'"
  unfolding kill_tried_def undecided_def by force

lemma undecided_kill_tried: "undecided c w w1 \<Longrightarrow> kill_tried c w1 w' \<Longrightarrow> kill_tried c w w'"
  unfolding kill_tried_def undecided_def by force

lemma kill_tried_enqueue: "kill_tried c w w' \<Longrightarrow> handed_over c w (enqueue c w')"
  unfolding kill_tried_def handed_over_def by (force simp: enqueue_def logged_def is_exit_def)

lemma kill_tried_kill: "child_kill E c w = (r, w') \<Longrightarrow> kill_tried c w w'"
  by (auto simp: child_kill_def Let_def kill_tried_def pass_def logged_def is_exit_def)

lemma bounded_cleanup_effects:
  assumes "bounded_cleanup E c grace w = (out, w')"
  shows "case out of Reaped s e \<Rightarrow> reaped_once c w w' | Deferred e \<Rightarrow> kill_tried c w w'"
    and "polls w' \<le> polls w + intervals grace + 1"
proof -
  obtain started w1 where s: "clock_now E w = (started, w1)" by fastforce
  obtain r w2 where k: "child_kill E c w1 = (r, w2)" by fastforce
  let ?d = "case instant_add E started grace of Some d \<Rightarrow> d | None \<Rightarrow> started"
  have loop: "cleanup_loop E c ?d (is_ok r) (later_error r None) w2 = (out, w')"
    using assms s k by (simp add: bounded_cleanup_def Let_def)
  have "kill_tried c w w2" using undecided_kill_tried clock_effects(1) [OF s] kill_tried_kill [OF k] by blast
  moreover have "undecided c w w2" using undecided_then(1) clock_effects(1) [OF s] kill_effects [OF k] by blast
  ultimately show "case out of Reaped s e \<Rightarrow> reaped_once c w w' | Deferred e \<Rightarrow> kill_tried c w w'"
    using cleanup_loop_effects [OF loop] undecided_then(2) kill_tried_then by (auto split: cleanup_outcome.splits)
  have "?d - pw_time w2 \<le> grace"
    using s k by (auto simp: clock_now_def child_kill_def instant_add_def Let_def pass_def logged_def)
  from intervals_mono [OF this] cleanup_loop_polls [OF loop] polls_calls(1) [OF s] polls_calls(3) [OF k]
  show "polls w' \<le> polls w + intervals grace + 1" by linarith
qed

section \<open>Operations of the guard\<close>

fun is_deferred :: "('a, child_guard_error) result \<Rightarrow> bool" where
  "is_deferred (Inl (GuardCleanupDeferred operation source secondary stdout stderr)) = True"
| "is_deferred r = False"

text \<open>The child is reaped, or handed over and the result says so.\<close>

definition settled :: "child \<Rightarrow> ('a, child_guard_error) result \<Rightarrow> proc_world \<Rightarrow> proc_world \<Rightarrow> bool" where
  "settled c r w w' \<longleftrightarrow> (if is_deferred r then handed_over c w w' else reaped_once c w w')"

text \<open>The output that comes with an error is bounded and has no redacted value.\<close>

definition safe_text :: "bytes list \<Rightarrow> bytes \<Rightarrow> bool" where
  "safe_text rs out \<longleftrightarrow> length out \<le> CAPTURE_LIMIT \<and> (\<forall>r \<in> set rs. marker_free r \<longrightarrow> \<not> sublist r out)"

definition safe_error :: "bytes list \<Rightarrow> ('a, child_guard_error) result \<Rightarrow> bool" where
  "safe_error rs r \<longleftrightarrow> (\<forall>e out. r = Err e \<longrightarrow> error_stdout e = Some out \<or> error_stderr e = Some out \<longrightarrow> safe_text rs out)"

lemma safe_redacted [simp]: "safe_text rs (redact_values rs bs)"
  by (simp add: safe_text_def redact_values_length redact_values_absent)

lemma take_child_simps [simp]: "g_child (take_child g) = None" "g_redactions (take_child g) = g_redactions g"
  by (simp_all add: take_child_def)

lemma captured_safe:
  assumes "capture_output E status True g w = ((out, e), w')"
  shows "safe_text (g_redactions g) (co_stdout out)" "safe_text (g_redactions g) (co_stderr out)"
  using assms by (auto simp: capture_output_def capture_diagnostics_def split: prod.splits)

lemma capture_polls:
  "capture_diagnostics E redact g w = (x, w') \<Longrightarrow> polls w' = polls w"
  "capture_output E status redact g w = (y, w') \<Longrightarrow> polls w' = polls w"
  by (auto simp: capture_output_def capture_diagnostics_def snapshot_def split: prod.splits)

lemma enqueue_polls [simp]: "polls (enqueue c w) = polls w"
  by (simp add: enqueue_def is_poll_def)

lemma defer_effects:
  assumes "defer_child E operation source secondary c g w1 = (r, g', w')" and "kill_tried c w w1"
  shows "settled c r w w'" and "g_child g' = None" and "safe_error (g_redactions g) r" and "polls w' = polls w1"
proof -
  obtain x w2 where x: "capture_diagnostics E True g w1 = (x, w2)" by fastforce
  have "handed_over c w (enqueue c w2)"
    using kill_tried_enqueue kill_tried_then assms(2) capture_effects(1) [OF x] by blast
  then show "settled c r w w'" "g_child g' = None" "safe_error (g_redactions g) r" "polls w' = polls w1"
    using assms(1) x capture_polls(1) [OF x]
    by (auto simp: defer_child_def settled_def safe_error_def capture_diagnostics_def split: prod.splits)
qed

text \<open>What every operation that ends the guard's ownership does.\<close>

definition ends_well :: "child \<Rightarrow> nat \<Rightarrow> child_guard \<Rightarrow> proc_world \<Rightarrow> ('a, child_guard_error) result \<times> child_guard \<times> proc_world \<Rightarrow> bool" where
  "ends_well c n g w x \<longleftrightarrow> (case x of (r, g', w') \<Rightarrow>
     settled c r w w' \<and> g_child g' = None \<and> safe_error (g_redactions g) r \<and> polls w' \<le> polls w + n)"

lemma cleanup_ends:
  assumes op: "op = (case bounded_cleanup E c grace w of
      (Reaped s e, w1) \<Rightarrow> (case capture_output E s True (take_child g) w1 of
         ((out, ce), w2) \<Rightarrow> (k e out ce, take_child g, w2))
    | (Deferred e, w1) \<Rightarrow> defer_child E operation (source e) (secondary e) c g w1)"
    and k: "\<And>e out ce. safe_text (g_redactions g) (co_stdout out) \<Longrightarrow> safe_text (g_redactions g) (co_stderr out) \<Longrightarrow>
      safe_error (g_redactions g) (k e out ce) \<and> \<not> is_deferred (k e out ce)"
  shows "ends_well c (intervals grace + 1) g w op"
proof -
  obtain out w1 where b: "bounded_cleanup E c grace w = (out, w1)" by fastforce
  note eff = bounded_cleanup_effects [OF b]
  show ?thesis
  proof (cases out)
    case (Reaped s e)
    obtain o2 ce w2 where cap: "capture_output E s True (take_child g) w1 = ((o2, ce), w2)" by (metis prod.collapse)
    have "reaped_once c w w2" using reaped_then eff(1) capture_effects(2) [OF cap] Reaped by auto
    with b Reaped cap k [of o2 e ce] captured_safe [OF cap] capture_polls(2) [OF cap] eff(2) show ?thesis
      by (simp add: ends_well_def op settled_def)
  next
    case (Deferred e)
    then have kt: "kill_tried c w w1" using eff(1) by simp
    show ?thesis
      using b Deferred eff(2) defer_effects [OF _ kt] by (auto simp: ends_well_def op split: prod.splits)
  qed
qed

lemma safe_errorI:
  "safe_text rs (co_stdout out) \<Longrightarrow> safe_text rs (co_stderr out) \<Longrightarrow> safe_error rs (Err (GuardIo operation source secondary (Some out)))"
  "safe_text rs (co_stdout out) \<Longrightarrow> safe_text rs (co_stderr out) \<Longrightarrow> safe_error rs (Err (GuardTimedOut timeout out ce se))"
  "safe_error rs (Ok v)" "safe_error rs (Err (build_completed_capture_error out source rs))"
  "safe_error rs (Err (missing_child_error operation))"
  by (auto simp: safe_error_def build_completed_capture_error_def missing_child_error_def)

lemma not_deferred [simp]:
  "\<not> is_deferred (Err (build_completed_capture_error out source rs))" "\<not> is_deferred (Err (missing_child_error operation))"
  by (simp_all add: build_completed_capture_error_def missing_child_error_def)

lemma timeout_ends:
  assumes "g_child g = Some c"
  shows "ends_well c (intervals CLEANUP_GRACE + 1) g w (terminate_after_timeout E g w)"
  unfolding terminate_after_timeout_def assms option.case
  by (rule cleanup_ends [OF refl]) (auto simp: build_timeout_error_def intro: safe_errorI)

lemma observation_ends:
  assumes "g_child g = Some c"
  shows "ends_well c (intervals CLEANUP_GRACE + 1) g w (terminate_after_observation_error E source g w)"
  unfolding terminate_after_observation_error_def assms option.case
  by (rule cleanup_ends [OF refl]) (auto simp: build_observation_error_def intro: safe_errorI)

lemma ends_well_after:
  assumes "undecided c w w1" and "polls w1 + n \<le> polls w + m" and "ends_well c n g w1 x"
  shows "ends_well c m g w x"
  using assms undecided_then(2,3) [OF assms(1)]
  by (auto simp: ends_well_def settled_def split: prod.splits if_splits)

lemma terminate_ends:
  assumes "g_child g = Some c"
  shows "ends_well c (intervals EXPLICIT_TERMINATION_GRACE + 1) g w (guard_terminate E g w)"
proof -
  obtain now w1 where now: "clock_now E w = (now, w1)" by fastforce
  let ?grace = "explicit_termination_grace (g_deadline g) now"
  have "ends_well c (intervals ?grace + 1) g w1 (guard_terminate E g w)"
    unfolding guard_terminate_def now prod.case Let_def assms option.case
    by (rule cleanup_ends [OF refl]) (auto split: option.split intro: safe_errorI)
  moreover have "intervals ?grace \<le> intervals EXPLICIT_TERMINATION_GRACE"
    by (rule intervals_mono) (simp add: explicit_termination_grace_def)
  ultimately show ?thesis
    using polls_calls(1) [OF now] by (intro ends_well_after [OF clock_effects(1) [OF now]]) simp_all
qed

lemma completed_ends:
  assumes "exit_seen r = Some status" and "child_try_wait E c w = (r, w1)"
  shows "ends_well c 1 g w (completed E status g w1)"
proof -
  obtain out ce w2 where cap: "capture_output E status False (take_child g) w1 = ((out, ce), w2)" by (metis prod.collapse)
  have "reaped_once c w w2"
    using reaped_then poll_effects(2) [OF assms(2)] assms(1) capture_effects(2) [OF cap] by auto
  moreover have "polls w2 = Suc (polls w)" using capture_polls(2) [OF cap] polls_calls(4) [OF assms(2)] by simp
  ultimately show ?thesis
    by (auto simp: completed_def cap ends_well_def settled_def build_completed_capture_error_def safe_error_def
        split: option.split)
qed

lemma wait_ends:
  "g_child g = Some c \<Longrightarrow>
    ends_well c (intervals (g_deadline g - pw_time w) + intervals CLEANUP_GRACE + 2) g w (guard_wait_loop E g w)"
proof (induction E g w rule: guard_wait_loop.induct)
  case (1 E g w)
  obtain r w1 where r: "child_try_wait E c w = (r, w1)" by fastforce
  obtain now w2 where now: "clock_now E w1 = (now, w2)" by fastforce
  obtain now' w3 where now': "clock_now E w2 = (now', w3)" by fastforce
  note unfold = guard_wait_loop.simps [of E g w]
  have polls: "polls w1 = Suc (polls w)" "polls w2 = Suc (polls w)" "polls w3 = Suc (polls w)"
    using polls_calls(4) [OF r] polls_calls(1) [OF now] polls_calls(1) [OF now'] by simp_all
  have u1: "undecided c w w1" if "exit_seen r = None" using poll_effects(1) [OF r that] .
  consider source where "r = Err source" | status where "r = Ok (Some status)" | "r = Ok None" "g_deadline g \<le> now"
    | "r = Ok None" "now < g_deadline g" by (metis not_None_eq not_less sum.exhaust)
  then show ?case
  proof cases
    case 1
    have "ends_well c (intervals (g_deadline g - pw_time w) + intervals CLEANUP_GRACE + 2) g w
        (terminate_after_observation_error E source g w1)"
      by (rule ends_well_after [OF u1 _ observation_ends [OF \<open>g_child g = Some c\<close>]])
        (simp_all add: 1 exit_seen_def polls)
    with 1 \<open>g_child g = Some c\<close> r show ?thesis by (simp add: unfold)
  next
    case 2
    have "ends_well c 1 g w (completed E status g w1)" using completed_ends [OF _ r] 2 by (simp add: exit_seen_def)
    from ends_well_after [OF undecided_pass(2) _ this] 2 \<open>g_child g = Some c\<close> r show ?thesis by (simp add: unfold)
  next
    case 3
    have u2: "undecided c w w2" using undecided_then(1) [OF u1 clock_effects(1) [OF now]] 3 by (simp add: exit_seen_def)
    have "ends_well c (intervals (g_deadline g - pw_time w) + intervals CLEANUP_GRACE + 2) g w (terminate_after_timeout E g w2)"
      by (rule ends_well_after [OF u2 _ timeout_ends [OF \<open>g_child g = Some c\<close>]]) (simp add: polls)
    with 3 \<open>g_child g = Some c\<close> r now show ?thesis by (simp add: unfold)
  next
    case 4
    let ?w = "clock_sleep E (min (g_deadline g - now') POLL_INTERVAL) w3"
    have u: "undecided c w ?w"
      using undecided_then(1) [OF u1 undecided_then(1) [OF clock_effects(1) [OF now]
          undecided_then(1) [OF clock_effects(1) [OF now'] clock_effects(2)]]] 4 by (simp add: exit_seen_def)
    have step: "Suc (intervals (g_deadline g - pw_time ?w)) \<le> intervals (g_deadline g - pw_time w)"
      using intervals_step wait_round_time [OF r now 4(2) now'] by blast
    have "ends_well c (intervals (g_deadline g - pw_time ?w) + intervals CLEANUP_GRACE + 2) g ?w (guard_wait_loop E g ?w)"
      using 1(1) [of c r w1 None now w2 now' w3] \<open>g_child g = Some c\<close> r now now' 4 by simp
    from ends_well_after [OF u _ this] step polls(3) polls_calls(2) [of E "min (g_deadline g - now') POLL_INTERVAL" w3]
      4 \<open>g_child g = Some c\<close> r now now' show ?thesis by (simp add: unfold)
  qed
qed

section \<open>The life of a guard\<close>

datatype guard_call = TryWait | CapTimeout duration

datatype guard_end = Wait | Terminate | DropGuard

fun guard_calls :: "proc_env \<Rightarrow> guard_call list \<Rightarrow> child_guard \<Rightarrow> proc_world \<Rightarrow> child_guard \<times> proc_world" where
  "guard_calls E [] g w = (g, w)"
| "guard_calls E (TryWait # calls) g w = (case guard_try_wait E g w of (r, g', w') \<Rightarrow> guard_calls E calls g' w')"
| "guard_calls E (CapTimeout d # calls) g w = (case cap_remaining_timeout E d g w of (g', w') \<Rightarrow> guard_calls E calls g' w')"

definition guard_finish :: "proc_env \<Rightarrow> guard_end \<Rightarrow> child_guard \<Rightarrow> proc_world \<Rightarrow> proc_world" where
  "guard_finish E e g w =
     (case e of
        Wait \<Rightarrow> snd (guard_wait E g w)
      | Terminate \<Rightarrow> snd (terminate_guard E g w)
      | DropGuard \<Rightarrow> drop_child_guard E g w)"

text \<open>The guard has its child and nothing is decided, or the child is settled.\<close>

definition holds_or_settled :: "child \<Rightarrow> child_guard \<Rightarrow> proc_world \<Rightarrow> proc_world \<Rightarrow> bool" where
  "holds_or_settled c g w w' \<longleftrightarrow>
     (if g_child g = None then reaped_once c w w' \<or> handed_over c w w' else g_child g = Some c \<and> undecided c w w')"

lemma settled_cases: "settled c r w w' \<Longrightarrow> reaped_once c w w' \<or> handed_over c w w'"
  by (auto simp: settled_def split: if_splits)

lemma try_wait_effects:
  assumes "guard_try_wait E g w = (r, g', w')" and "g_child g = Some c"
  shows "g_child g' = None \<and> (reaped_once c w w' \<or> handed_over c w w') \<or> g' = g \<and> undecided c w w'"
    and "safe_error (g_redactions g) r"
proof -
  obtain x w1 where x: "child_try_wait E c w = (x, w1)" by fastforce
  have "(g_child g' = None \<and> (reaped_once c w w' \<or> handed_over c w w') \<or> g' = g \<and> undecided c w w') \<and>
    safe_error (g_redactions g) r"
  proof (cases x)
    case (Inl source)
    then have u: "undecided c w w1" using poll_effects(1) [OF x] by (simp add: exit_seen_def)
    obtain y where y: "terminate_after_observation_error E source g w1 = (y, g', w')" "r = map_ok Some y"
      using assms x Inl by (auto simp: guard_try_wait_def split: prod.splits)
    have "ends_well c (intervals CLEANUP_GRACE + 2) g w (y, g', w')"
      using ends_well_after [OF u _ observation_ends [OF assms(2), of w1 E source]] y(1) polls_calls(4) [OF x] by simp
    then show ?thesis using y(2) by (cases y) (auto simp: ends_well_def safe_error_def dest: settled_cases)
  next
    case (Inr seen)
    show ?thesis
    proof (cases seen)
      case None
      with Inr assms x poll_effects(1) [OF x] show ?thesis by (auto simp: guard_try_wait_def exit_seen_def safe_error_def)
    next
      case (Some status)
      obtain y where y: "completed E status g w1 = (y, g', w')" "r = map_ok Some y"
        using assms x Inr Some by (auto simp: guard_try_wait_def split: prod.splits)
      have "ends_well c 1 g w (y, g', w')" using completed_ends [OF _ x, of status g] Inr Some y(1) by (simp add: exit_seen_def)
      then show ?thesis using y(2) by (cases y) (auto simp: ends_well_def safe_error_def dest: settled_cases)
    qed
  qed
  then show "g_child g' = None \<and> (reaped_once c w w' \<or> handed_over c w w') \<or> g' = g \<and> undecided c w w'"
    "safe_error (g_redactions g) r" by blast+
qed

lemma handed_then: "handed_over c w w1 \<Longrightarrow> undecided c w1 w' \<Longrightarrow> handed_over c w w'"
  unfolding undecided_def handed_over_def by force

lemma holds_step:
  assumes "holds_or_settled c g w w1"
    and "g_child g = None \<Longrightarrow> g_child g' = None \<and> undecided c w1 w'"
    and "g_child g = Some c \<Longrightarrow> g_child g' = None \<and> (reaped_once c w1 w' \<or> handed_over c w1 w') \<or>
      g_child g' = Some c \<and> undecided c w1 w'"
  shows "holds_or_settled c g' w w'"
proof (cases "g_child g = None")
  case True
  with assms(1,2) reaped_then handed_then show ?thesis by (auto simp: holds_or_settled_def)
next
  case False
  with assms(1) have "g_child g = Some c" "undecided c w w1" by (auto simp: holds_or_settled_def)
  with assms(3) undecided_then [OF this(2)] show ?thesis by (auto simp: holds_or_settled_def)
qed

lemma calls_hold:
  "guard_calls E calls g w1 = (g', w') \<Longrightarrow> holds_or_settled c g w w1 \<Longrightarrow> holds_or_settled c g' w w'"
proof (induction E calls g w1 rule: guard_calls.induct)
  case (2 E calls g w1)
  obtain r h u where r: "guard_try_wait E g w1 = (r, h, u)" by (metis prod_cases3)
  have "holds_or_settled c h w u"
    by (rule holds_step [OF 2(3)]) (use r try_wait_effects [OF r] in \<open>auto simp: guard_try_wait_def\<close>)
  with 2(1) [OF r [symmetric] refl] 2(2) r show ?case by simp
next
  case (3 E d calls g w1)
  obtain h u where r: "cap_remaining_timeout E d g w1 = (h, u)" by fastforce
  have "g_child h = g_child g" "undecided c w1 u"
    using r by (auto simp: cap_remaining_timeout_def Let_def clock_now_def)
  then have "holds_or_settled c h w u" by (intro holds_step [OF 3(3)]) auto
  with 3(1) [OF r [symmetric]] 3(2) r show ?case by simp
qed simp

lemma drop_effects:
  "g_child g = None \<Longrightarrow> drop_child_guard E g w = w"
  "g_child g = Some c \<Longrightarrow> reaped_once c w (drop_child_guard E g w) \<or> handed_over c w (drop_child_guard E g w)"
  "polls (drop_child_guard E g w) \<le> polls w + intervals CLEANUP_GRACE + 1"
proof -
  show "g_child g = None \<Longrightarrow> drop_child_guard E g w = w" by (simp add: drop_child_guard_def)
  define out w1 where "out d = fst (bounded_cleanup E d CLEANUP_GRACE w)" and "w1 d = snd (bounded_cleanup E d CLEANUP_GRACE w)" for d
  then have b: "bounded_cleanup E d CLEANUP_GRACE w = (out d, w1 d)" for d by simp
  note eff = bounded_cleanup_effects [OF b]
  show "g_child g = Some c \<Longrightarrow> reaped_once c w (drop_child_guard E g w) \<or> handed_over c w (drop_child_guard E g w)"
    using eff(1) [of c] kill_tried_enqueue by (cases "out c") (auto simp: drop_child_guard_def b)
  show "polls (drop_child_guard E g w) \<le> polls w + intervals CLEANUP_GRACE + 1"
    using eff(2) [of "the (g_child g)"]
    by (cases "g_child g"; cases "out (the (g_child g))") (auto simp: drop_child_guard_def b)
qed

text \<open>An operation that takes the guard and settles its child leaves nothing to drop.\<close>

lemma consume_ends:
  assumes "ends_well c n g w (m g w)" and "consume E m g w = (r, w')"
  shows "settled c r w w'" "safe_error (g_redactions g) r" "polls w' \<le> polls w + n"
  using assms drop_effects(1) by (auto simp: ends_well_def consume_def split: prod.splits)

lemma guard_wait_ends:
  assumes "g_child g = Some c" and "guard_wait E g w = (r, w')"
  shows "settled c r w w'" "safe_error (g_redactions g) r"
    "polls w' \<le> polls w + (intervals (g_deadline g - pw_time w) + intervals CLEANUP_GRACE + 2)"
  using consume_ends [where m = "guard_wait_loop E", OF wait_ends [OF assms(1)]] assms(2) by (simp_all add: guard_wait_def)

lemma terminate_guard_ends:
  assumes "g_child g = Some c" and "terminate_guard E g w = (r, w')"
  shows "settled c r w w'" "safe_error (g_redactions g) r"
    "polls w' \<le> polls w + (intervals EXPLICIT_TERMINATION_GRACE + 1)"
  using consume_ends [where m = "guard_terminate E", OF terminate_ends [OF assms(1)]] assms(2) by (simp_all add: terminate_guard_def)

lemma finish_settles:
  assumes "holds_or_settled c g w w1"
  shows "reaped_once c w (guard_finish E e g w1) \<or> handed_over c w (guard_finish E e g w1)"
proof (cases "g_child g = None")
  case True
  have "undecided c w1 (guard_finish E e g w1)"
    using True drop_effects(1) [OF True]
    by (cases e) (simp_all add: guard_finish_def guard_wait_def terminate_guard_def consume_def
      guard_wait_loop.simps [of E g] guard_terminate_def clock_now_def Let_def)
  with assms True reaped_then handed_then show ?thesis by (auto simp: holds_or_settled_def)
next
  case False
  with assms have c: "g_child g = Some c" and u: "undecided c w w1" by (auto simp: holds_or_settled_def)
  have "reaped_once c w1 (guard_finish E e g w1) \<or> handed_over c w1 (guard_finish E e g w1)"
    using settled_cases [OF guard_wait_ends(1) [OF c]] settled_cases [OF terminate_guard_ends(1) [OF c]] drop_effects(2) [OF c]
    unfolding guard_finish_def by (cases e) (simp_all, metis prod.collapse, metis prod.collapse)
  with undecided_then [OF u] show ?thesis by blast
qed

text \<open>C12. No child is lost: from the moment a child has been spawned, through any polls and
  shortened deadlines, until its guard has been waited for, terminated or dropped, exactly one
  of two things happens, whatever fails: an exit of the child is seen, exactly once, and the
  reaper is not given it; or no exit is seen, a kill was attempted, and the child is handed to
  the background reaper exactly once.\<close>

theorem child_accounted:
  assumes "guard_spawn E command timeout v = (Ok g, w)" and "guard_calls E calls g w = (g', w1)"
  shows "\<exists>c. g_child g = Some c \<and>
    (let w' = guard_finish E e g' w1 in reaped_once c w w' \<and> \<not> handed_over c w w' \<or> handed_over c w w' \<and> \<not> reaped_once c w w')"
proof -
  obtain c where c: "g_child g = Some c"
    using assms(1) by (auto simp: guard_spawn_def split: prod.splits sum.splits option.splits reaper_initialization.splits)
  then have "holds_or_settled c g w w" by (simp add: holds_or_settled_def)
  from finish_settles [OF calls_hold [OF assms(2) this]]
  have "reaped_once c w (guard_finish E e g' w1) \<or> handed_over c w (guard_finish E e g' w1)" .
  moreover have "\<not> (reaped_once c w u \<and> handed_over c w u)" for u
    by (auto simp: reaped_once_def handed_over_def)
  ultimately show ?thesis using c by (auto simp: Let_def)
qed

text \<open>C15. Supervision ends: waiting for a child polls it at most once for each 10 ms that are left
  until the deadline and 52 times more, an explicit termination at most 201 times and dropping
  the guard at most 51 times, however the child and the clock behave.\<close>

theorem guard_polls_bounded:
  "polls (snd (guard_wait E g w)) \<le> polls w + (g_deadline g - pw_time w + 9999999) div 10000000 + 52 \<and>
   polls (snd (terminate_guard E g w)) \<le> polls w + 201 \<and> polls (drop_child_guard E g w) \<le> polls w + 51"
proof -
  have i: "intervals d = (d + 9999999) div 10000000" for d by (simp add: intervals_def POLL_INTERVAL_def)
  show ?thesis
  proof (cases "g_child g")
    case None
    then show ?thesis
      by (simp add: drop_effects(1) guard_wait_def terminate_guard_def consume_def guard_wait_loop.simps [of E g]
        guard_terminate_def clock_now_def Let_def)
  next
    case (Some c)
    have "polls (snd (guard_wait E g w)) \<le> polls w + (intervals (g_deadline g - pw_time w) + intervals CLEANUP_GRACE + 2)"
      by (rule guard_wait_ends(3) [OF Some, of E w "fst (guard_wait E g w)"]) simp
    moreover have "polls (snd (terminate_guard E g w)) \<le> polls w + (intervals EXPLICIT_TERMINATION_GRACE + 1)"
      by (rule terminate_guard_ends(3) [OF Some, of E w "fst (terminate_guard E g w)"]) simp
    moreover note drop_effects(3) [of E g w]
    ultimately show ?thesis by (simp add: i CLEANUP_GRACE_def EXPLICIT_TERMINATION_GRACE_def)
  qed
qed

section \<open>Redacted errors\<close>

lemma command_redactions_env:
  assumes "(key, Some value) \<in> set (pc_envs command)" and "sensitive_environment_name key" and "to_string_lossy value \<noteq> []"
  shows "as_bytes (to_string_lossy value) \<in> set (command_redactions command)"
proof -
  have "value \<in> set (List.map_filter snd (filter (\<lambda>(key, _). sensitive_environment_name key) (pc_envs command)))"
    using assms(1,2) by (force simp: List.map_filter_def)
  then show ?thesis using assms(3) by (auto simp: command_redactions_def Let_def)
qed

lemma spawn_redactions:
  "guard_spawn E command timeout v = (Ok g, w) \<Longrightarrow> g_redactions g = command_redactions command \<and> g_child g \<noteq> None"
  by (auto simp: guard_spawn_def split: prod.splits sum.splits option.splits)

text \<open>C13. The output that an error of a guarded child carries is at most 256 KiB long, and no value
  of a sensitive variable of its environment occurs in it, for all values without angle brackets
  that are no part of the replacement text.\<close>

theorem child_errors_redacted:
  assumes "guard_spawn E command timeout v = (Ok g, w1)"
    and "(key, Some value) \<in> set (pc_envs command)" and "sensitive_environment_name key"
    and "marker_free (as_bytes (to_string_lossy value))"
    and "fst (guard_wait E g w) = Err e \<or> fst (terminate_guard E g w) = Err e"
    and "error_stdout e = Some out \<or> error_stderr e = Some out"
  shows "length out \<le> 262144 \<and> \<not> sublist (as_bytes (to_string_lossy value)) out"
proof -
  obtain c where c: "g_child g = Some c" using spawn_redactions [OF assms(1)] by blast
  have "to_string_lossy value \<noteq> []" using assms(4) by (auto simp: marker_free_def as_bytes_def)
  then have secret: "as_bytes (to_string_lossy value) \<in> set (g_redactions g)"
    using command_redactions_env [OF assms(2,3)] spawn_redactions [OF assms(1)] by simp
  have "safe_error (g_redactions g) (fst (guard_wait E g w))" "safe_error (g_redactions g) (fst (terminate_guard E g w))"
    by (rule guard_wait_ends(2) [OF c, of E w _ "snd (guard_wait E g w)"],
        simp, rule terminate_guard_ends(2) [OF c, of E w _ "snd (terminate_guard E g w)"], simp)
  then have "safe_text (g_redactions g) out" using assms(5,6) unfolding safe_error_def by metis
  with secret assms(4) show ?thesis by (simp add: safe_text_def CAPTURE_LIMIT_def)
qed

section \<open>Examples\<close>

text \<open>A child with a secret in its environment that exits at once; its error output cannot be read.\<close>

definition sample_command :: proc_command where
  "sample_command = \<lparr>pc_envs = [(''API_TOKEN'', Some ''hunter2'')], pc_current_dir = None\<rparr>"

definition sample_proc :: proc_env where
  "sample_proc = \<lparr>pe_kill = (\<lambda>_ _. Ok ()), pe_poll = (\<lambda>_ _. Ok (Some 1)),
     pe_capture = (\<lambda>_ err _ _. if err then Err (IoErr IoOther ''gone'') else Ok (as_bytes ''token=hunter2'')),
     pe_setup = (\<lambda>_. Ok ()), pe_spawn = (\<lambda>_ _. Ok 7), pe_delay = (\<lambda>_. 1), pe_instant_max = 1000\<rparr>"

definition sample_world :: proc_world where
  "sample_world = \<lparr>pw_time = 0, pw_calls = 0, pw_reaper = None, pw_pending = [], pw_log = []\<rparr>"

definition sample_guard :: child_guard where
  "sample_guard = \<lparr>g_child = Some 7, g_deadline = 102, g_timeout = 100, g_files = 6,
     g_redactions = command_redactions sample_command\<rparr>"

lemma sample_spawn: "\<exists>w. guard_spawn sample_proc sample_command 100 sample_world = (Ok sample_guard, w)"
  by (simp add: guard_spawn_def global_reaper_def initialize_reaper_def clock_now_def instant_add_def setup_call_def
      pass_def sample_proc_def sample_world_def sample_guard_def)

theorem child_accounted_witness:
  "\<exists>w. let w' = guard_finish sample_proc Wait (fst (guard_calls sample_proc [CapTimeout 5] sample_guard w))
        (snd (guard_calls sample_proc [CapTimeout 5] sample_guard w))
      in reaped_once 7 w w' \<and> \<not> handed_over 7 w w' \<or> handed_over 7 w w' \<and> \<not> reaped_once 7 w w'"
proof -
  obtain w where w: "guard_spawn sample_proc sample_command 100 sample_world = (Ok sample_guard, w)"
    using sample_spawn by blast
  have "g_child sample_guard = Some 7" by (simp add: sample_guard_def)
  with child_accounted [OF w, of "[CapTimeout 5]" _ _ Wait, OF prod.collapse [symmetric]] show ?thesis by auto
qed

lemma sample_wait:
  "fst (guard_wait sample_proc sample_guard sample_world) = Err (build_completed_capture_error
     \<lparr>co_status = 1, co_stdout = as_bytes ''token=hunter2'', co_stderr = []\<rparr> (IoErr IoOther ''gone'')
     (command_redactions sample_command))"
  unfolding guard_wait_def consume_def guard_wait_loop.simps [of sample_proc sample_guard sample_world]
  by (simp add: child_try_wait_def completed_def capture_output_def capture_diagnostics_def snapshot_def read_bounded_def captured_def opt_or_def Let_def
      CAPTURE_LIMIT_def sample_proc_def sample_guard_def take_child_def as_bytes_def)

lemma sample_text: "to_string_lossy ''hunter2'' = ''hunter2''"
  by code_simp

theorem child_errors_redacted_witness:
  "\<not> sublist (as_bytes ''hunter2'') (redact_values (command_redactions sample_command) (as_bytes ''token=hunter2''))"
proof -
  obtain w where w: "guard_spawn sample_proc sample_command 100 sample_world = (Ok sample_guard, w)"
    using sample_spawn by blast
  have "sensitive_environment_name ''API_TOKEN''" by code_simp
  moreover have "marker_free (as_bytes (to_string_lossy ''hunter2''))"
    unfolding sample_text by (simp add: marker_free_def REDACTED_def as_bytes_def sublist_code)
  moreover have "(''API_TOKEN'', Some ''hunter2'') \<in> set (pc_envs sample_command)" by (simp add: sample_command_def)
  ultimately show ?thesis
    using child_errors_redacted [OF w _ _ _ disjI1 [OF sample_wait], of "''API_TOKEN''" "''hunter2''"]
    by (simp add: build_completed_capture_error_def sample_text)
qed

end
