(* ===== verification/Vec_Ops.thy ===== *)
theory Vec_Ops
  imports Main "HOL-Library.Multiset"
begin

text \<open>
  Operations of Rust vectors that the supervisors use: \<open>Vec::swap_remove\<close>, which takes an element
  out and puts the last one in its place.
\<close>

definition swap_remove :: "'a list \<Rightarrow> nat \<Rightarrow> 'a list" where
  "swap_remove xs i = (if Suc i = length xs then butlast xs else (butlast xs)[i := last xs])"

lemma mset_swap_remove:
  assumes "i < length xs"
  shows "mset xs = add_mset (xs ! i) (mset (swap_remove xs i))"
proof -
  obtain ys y where xs: "xs = ys @ [y]" using assms by (metis length_greater_0_conv not_less_zero rev_exhaust less_nat_zero_code list.size(3))
  show ?thesis
  proof (cases "i < length ys")
    case True
    then have "mset (ys[i := y]) = add_mset y (mset ys - {#ys ! i#})" by (simp add: mset_update)
    with True show ?thesis by (simp add: swap_remove_def xs nth_append)
  next
    case False
    with assms xs have "i = length ys" by simp
    then show ?thesis by (simp add: swap_remove_def xs)
  qed
qed

lemma swap_remove_later:
  assumes "i < length xs"
  shows "set (drop i (swap_remove xs i)) \<subseteq> set (drop (Suc i) xs)" and "i \<le> length (swap_remove xs i)"
proof -
  obtain ys y where xs: "xs = ys @ [y]" using assms by (metis length_greater_0_conv not_less_zero rev_exhaust less_nat_zero_code list.size(3))
  show "set (drop i (swap_remove xs i)) \<subseteq> set (drop (Suc i) xs)"
    using assms by (auto simp: swap_remove_def xs drop_update_swap Cons_nth_drop_Suc [symmetric])
  show "i \<le> length (swap_remove xs i)" using assms by (auto simp: swap_remove_def)
qed

lemma length_swap_remove [simp]: "i < length xs \<Longrightarrow> length (swap_remove xs i) = length xs - 1"
  by (simp add: swap_remove_def)

lemma sum_swap_remove:
  assumes "i < length xs"
  shows "(\<Sum>x\<leftarrow>swap_remove xs i. f x) = (\<Sum>x\<leftarrow>xs. f x) - (f (xs ! i) :: int)"
proof -
  have "(\<Sum>x\<leftarrow>ys. f x) = (\<Sum>x\<in>#mset ys. f x)" for ys :: "'a list"
    by (simp add: sum_mset_sum_list [symmetric])
  with mset_swap_remove [OF assms] show ?thesis by simp
qed

end
