(* ===== verification/Child_Reaper.thy ===== *)
theory Child_Reaper
  imports Child_Owned Vec_Ops
begin

text \<open>
  The background reaper of child processes, \<open>crates/rssh-test-support/src/process.rs\<close> lines 646 to 669 and 714 to 759:
  a thread that waits on a queue, polls the children it was given and kills those that are still
  running. The mutex of the queue makes the check of the queue and the wait one step, so that
  the thread and the guards that enqueue children interleave as a machine.
\<close>

section \<open>A round of the loop\<close>

text \<open>The scan from the last index down to the first; it also collects the children whose exit it
  has seen.\<close>

fun reaper_scan :: "proc_env \<Rightarrow> nat \<Rightarrow> child list \<Rightarrow> child list \<Rightarrow> proc_world \<Rightarrow> child list \<times> child list \<times> proc_world" where
  "reaper_scan E 0 active reaped w = (active, reaped, w)"
| "reaper_scan E (Suc index) active reaped w =
     (case child_try_wait E (active ! index) w of
        (r, w1) \<Rightarrow>
          if exit_seen r \<noteq> None
          then reaper_scan E index (swap_remove active index) (active ! index # reaped) w1
          else (case child_kill E (active ! index) w1 of (_, w2) \<Rightarrow> reaper_scan E index active reaped w2))"

definition reaper_round :: "proc_env \<Rightarrow> child list \<Rightarrow> proc_world \<Rightarrow> child list \<times> child list \<times> proc_world" where
  "reaper_round E active w =
     (let active = active @ pw_pending w in
      reaper_scan E (length active) active [] (w\<lparr>pw_pending := []\<rparr>))"

section \<open>The machine\<close>

text \<open>The thread is at the top of its loop, asleep until it is woken (with a notification that has
  arrived or not), or asleep with a timeout.\<close>

datatype reaper_phase = AtTop | Sleeping bool | TimedWait

record reaper_state =
  rs_phase :: reaper_phase
  rs_active :: "child list"
  rs_world :: proc_world
  rs_given :: "child list"
  rs_reaped :: "child list"

definition reaper_new :: "proc_world \<Rightarrow> reaper_state" where
  "reaper_new w = \<lparr>rs_phase = AtTop, rs_active = [], rs_world = w\<lparr>pw_pending := []\<rparr>, rs_given = [], rs_reaped = []\<rparr>"

definition notify_one :: "reaper_phase \<Rightarrow> reaper_phase" where
  "notify_one p = (case p of Sleeping _ \<Rightarrow> Sleeping True | _ \<Rightarrow> p)"

definition give :: "child \<Rightarrow> reaper_state \<Rightarrow> reaper_state" where
  "give c s = s\<lparr>rs_world := enqueue c (rs_world s), rs_given := c # rs_given s, rs_phase := notify_one (rs_phase s)\<rparr>"

definition do_round :: "proc_env \<Rightarrow> reaper_state \<Rightarrow> reaper_state" where
  "do_round E s =
     (case reaper_round E (rs_active s) (rs_world s) of
        (active, reaped, w) \<Rightarrow>
          s\<lparr>rs_active := active, rs_reaped := reaped @ rs_reaped s, rs_world := w, rs_phase := AtTop\<rparr>)"

inductive reaper_step :: "proc_env \<Rightarrow> reaper_state \<Rightarrow> reaper_state \<Rightarrow> bool" for E where
  Given: "reaper_step E s (give c s)"
| FallAsleep: "rs_phase s = AtTop \<Longrightarrow> rs_active s = [] \<Longrightarrow> pw_pending (rs_world s) = [] \<Longrightarrow>
    reaper_step E s (s\<lparr>rs_phase := Sleeping False\<rparr>)"
| Woken: "rs_phase s = Sleeping notified \<Longrightarrow> reaper_step E s (s\<lparr>rs_phase := AtTop\<rparr>)"
| WaitTimed: "rs_phase s = AtTop \<Longrightarrow> rs_active s \<noteq> [] \<Longrightarrow> pw_pending (rs_world s) = [] \<Longrightarrow>
    reaper_step E s (s\<lparr>rs_phase := TimedWait\<rparr>)"
| TimedRound: "rs_phase s = TimedWait \<Longrightarrow> reaper_step E s (do_round E s)"
| TopRound: "rs_phase s = AtTop \<Longrightarrow> pw_pending (rs_world s) \<noteq> [] \<Longrightarrow> reaper_step E s (do_round E s)"

inductive_cases reaper_stepE: "reaper_step E s s'"

section \<open>No child is lost\<close>

text \<open>What a scan does from an index on: the children are kept or reaped, and each one that is
  kept is polled and killed.\<close>

definition scanned :: "nat \<Rightarrow> child list \<Rightarrow> child list \<Rightarrow> proc_world \<Rightarrow> child list \<Rightarrow> child list \<Rightarrow> proc_world \<Rightarrow> bool" where
  "scanned k active reaped w active' reaped' w' \<longleftrightarrow>
     mset active + mset reaped = mset active' + mset reaped' \<and> pw_pending w' = pw_pending w \<and>
     (\<exists>es. pw_log w' = pw_log w @ es \<and>
        (\<forall>c \<in> set active'. c \<in> set (drop k active) \<or> (\<exists>r. Killed c r \<in> set es)) \<and>
        (\<forall>c \<in> set reaped'. c \<in> set reaped \<or> (\<exists>e \<in> set es. is_exit c e)))"

lemma scan_effects:
  "reaper_scan E k active reaped w = (active', reaped', w') \<Longrightarrow> k \<le> length active \<Longrightarrow>
    scanned k active reaped w active' reaped' w'"
proof (induction E k active reaped w rule: reaper_scan.induct)
  case (1 E active reaped w)
  then show ?case by (auto simp: scanned_def)
next
  case (2 E i active reaped w)
  let ?c = "active ! i"
  have i: "i < length active" using 2(4) by simp
  obtain r w1 where r: "child_try_wait E ?c w = (r, w1)" by fastforce
  have w1: "pw_log w1 = pw_log w @ [Polled ?c r]" "pw_pending w1 = pw_pending w"
    using r by (auto simp: child_try_wait_def Let_def logged_def pass_def)
  show ?case
  proof (cases "exit_seen r = None")
    case True
    obtain k w2 where k: "child_kill E ?c w1 = (k, w2)" by fastforce
    have w2: "pw_log w2 = pw_log w1 @ [Killed ?c k]" "pw_pending w2 = pw_pending w1"
      using k by (auto simp: child_kill_def Let_def logged_def pass_def)
    have "scanned i active reaped w2 active' reaped' w'"
      using 2(2) [OF r [symmetric] _ k [symmetric]] 2(3) r k True i by simp
    then obtain es where es: "mset active + mset reaped = mset active' + mset reaped'" "pw_pending w' = pw_pending w2"
      "pw_log w' = pw_log w2 @ es" "\<forall>c \<in> set active'. c \<in> set (drop i active) \<or> (\<exists>r. Killed c r \<in> set es)"
      "\<forall>c \<in> set reaped'. c \<in> set reaped \<or> (\<exists>e \<in> set es. is_exit c e)"
      by (auto simp: scanned_def)
    have "drop i active = ?c # drop (Suc i) active" using i by (simp add: Cons_nth_drop_Suc)
    with es w1 w2 show ?thesis
      unfolding scanned_def by (intro conjI exI [of _ "Polled ?c r # Killed ?c k # es"]) auto
  next
    case False
    then have x: "is_exit ?c (Polled ?c r)" by (simp add: is_exit_def)
    have "scanned i (swap_remove active i) (?c # reaped) w1 active' reaped' w'"
      using 2(1) [OF r [symmetric]] 2(3) r False swap_remove_later(2) [OF i] by simp
    then obtain es where es: "mset (swap_remove active i) + mset (?c # reaped) = mset active' + mset reaped'"
      "pw_pending w' = pw_pending w1" "pw_log w' = pw_log w1 @ es"
      "\<forall>c \<in> set active'. c \<in> set (drop i (swap_remove active i)) \<or> (\<exists>r. Killed c r \<in> set es)"
      "\<forall>c \<in> set reaped'. c \<in> set (?c # reaped) \<or> (\<exists>e \<in> set es. is_exit c e)"
      by (auto simp: scanned_def)
    have "mset active + mset reaped = mset active' + mset reaped'"
      using es(1) mset_swap_remove [OF i] by simp
    with es w1 x swap_remove_later(1) [OF i] show ?thesis
      unfolding scanned_def by (intro conjI exI [of _ "Polled ?c r # es"]) auto
  qed
qed

lemma round_effects:
  assumes "reaper_round E active w = (active', reaped, w')"
  shows "mset active + mset (pw_pending w) = mset active' + mset reaped" and "pw_pending w' = []"
    and "\<exists>es. pw_log w' = pw_log w @ es \<and> (\<forall>c \<in> set active'. \<exists>r. Killed c r \<in> set es) \<and>
      (\<forall>c \<in> set reaped. \<exists>e \<in> set es. is_exit c e)"
proof -
  have "scanned (length (active @ pw_pending w)) (active @ pw_pending w) [] (w\<lparr>pw_pending := []\<rparr>) active' reaped w'"
    using assms by (intro scan_effects [of E]) (simp_all add: reaper_round_def)
  then have s: "mset (active @ pw_pending w) + mset [] = mset active' + mset reaped" "pw_pending w' = []"
    "\<exists>es. pw_log w' = pw_log w @ es \<and> (\<forall>c \<in> set active'. c \<in> set [] \<or> (\<exists>r. Killed c r \<in> set es)) \<and>
      (\<forall>c \<in> set reaped. c \<in> set [] \<or> (\<exists>e \<in> set es. is_exit c e))"
    by (simp_all add: scanned_def)
  from s(1) show "mset active + mset (pw_pending w) = mset active' + mset reaped" by simp
  from s(2) show "pw_pending w' = []" .
  from s(3) show "\<exists>es. pw_log w' = pw_log w @ es \<and> (\<forall>c \<in> set active'. \<exists>r. Killed c r \<in> set es) \<and>
      (\<forall>c \<in> set reaped. \<exists>e \<in> set es. is_exit c e)" by simp
qed

definition reaper_inv :: "reaper_state \<Rightarrow> bool" where
  "reaper_inv s \<longleftrightarrow>
     mset (rs_given s) = mset (pw_pending (rs_world s)) + mset (rs_active s) + mset (rs_reaped s) \<and>
     (rs_phase s = Sleeping False \<longrightarrow> pw_pending (rs_world s) = [] \<and> rs_active s = []) \<and>
     (\<forall>c \<in> set (rs_reaped s). \<exists>e \<in> set (pw_log (rs_world s)). is_exit c e)"

lemma round_keeps:
  assumes "reaper_inv s"
  shows "reaper_inv (do_round E s)"
proof -
  obtain active reaped w where r: "reaper_round E (rs_active s) (rs_world s) = (active, reaped, w)" by (metis prod_cases3)
  note eff = round_effects [OF r]
  obtain es where es: "pw_log w = pw_log (rs_world s) @ es" "\<forall>c \<in> set reaped. \<exists>e \<in> set es. is_exit c e" using eff(3) by blast
  have "\<forall>c \<in> set (reaped @ rs_reaped s). \<exists>e \<in> set (pw_log w). is_exit c e"
    using es assms by (auto simp: reaper_inv_def)
  moreover have "mset (rs_given s) = mset (pw_pending w) + mset active + mset (reaped @ rs_reaped s)"
    using eff(1,2) assms by (simp add: reaper_inv_def union_ac)
  ultimately show ?thesis by (simp add: reaper_inv_def do_round_def r)
qed

lemma step_keeps: "reaper_step E s s' \<Longrightarrow> reaper_inv s \<Longrightarrow> reaper_inv s'"
proof (induction rule: reaper_step.induct)
  case (Given s c)
  then show ?case
    by (auto simp: reaper_inv_def give_def enqueue_def logged_def notify_one_def split: reaper_phase.splits)
next
  case (TimedRound s)
  then show ?case using round_keeps by blast
next
  case (TopRound s)
  then show ?case using round_keeps by blast
qed (auto simp: reaper_inv_def)

text \<open>C14. In every interleaving of the reaper with the guards that give it children, every child
  that was given is in the queue, among the children the reaper works on, or has been reaped
  after its exit was seen; and when the reaper sleeps until it is notified, all children it was
  given have been reaped.\<close>

theorem reaper_loses_nothing:
  assumes "(reaper_step E)\<^sup>*\<^sup>* (reaper_new w) s"
  shows "mset (rs_given s) = mset (pw_pending (rs_world s)) + mset (rs_active s) + mset (rs_reaped s) \<and>
    (\<forall>c. c \<in> set (rs_reaped s) \<longrightarrow> (\<exists>e \<in> set (pw_log (rs_world s)). is_exit c e)) \<and>
    (rs_phase s = Sleeping False \<longrightarrow> mset (rs_given s) = mset (rs_reaped s))"
proof -
  have "reaper_inv (reaper_new w)" by (simp add: reaper_inv_def reaper_new_def)
  with assms have "reaper_inv s" by (induction rule: rtranclp_induct) (blast intro: step_keeps)+
  then show ?thesis by (auto simp: reaper_inv_def)
qed

theorem reaper_loses_nothing_witness:
  "let s = do_round sample_proc (give 3 (reaper_new sample_world)) in
   mset (rs_given s) = mset (pw_pending (rs_world s)) + mset (rs_active s) + mset (rs_reaped s)"
proof -
  let ?s = "give 3 (reaper_new sample_world)"
  have "rs_phase ?s = AtTop" "pw_pending (rs_world ?s) \<noteq> []"
    by (simp_all add: give_def reaper_new_def notify_one_def enqueue_def logged_def)
  then have "reaper_step sample_proc ?s (do_round sample_proc ?s)" by (rule TopRound)
  moreover have "reaper_step sample_proc (reaper_new sample_world) ?s" by (rule Given)
  ultimately have "(reaper_step sample_proc)\<^sup>*\<^sup>* (reaper_new sample_world) (do_round sample_proc ?s)" by auto
  from reaper_loses_nothing [OF this] show ?thesis by (simp add: Let_def reaper_new_def)
qed

end
