(* ===== verification/Loopback.thy ===== *)
theory Loopback
  imports Rust_Text
begin

text \<open>
  Loopback endpoints, \<open>crates/rssh-test-support/src/ssh/forward.rs\<close> lines 19 to 91: the hosts that
  \<open>LoopbackEndpoint::new\<close> accepts and the socket addresses it gives for them. The text of an
  address is read by \<open>str::parse::<IpAddr>()\<close> of the standard library, whose parser is
  translated here: a number stops at the first character that is no digit, an IPv4 address has
  four decimal numbers without leading zeros, an IPv6 address has eight groups of hexadecimal
  digits, of which one run may be left out and the last two may be an IPv4 address.
\<close>

section \<open>Addresses and their text\<close>

datatype ip_addr = V4 u8 u8 u8 u8 | V6 "u16 list"

type_synonym socket_addr = "ip_addr \<times> u16"

fun is_loopback :: "ip_addr \<Rightarrow> bool" where
  "is_loopback (V4 a b c d) = (a = 127)"
| "is_loopback (V6 groups) = (groups = [0, 0, 0, 0, 0, 0, 0, 1])"

definition to_digit :: "nat \<Rightarrow> char \<Rightarrow> nat option" where
  "to_digit radix c =
     (let v = (of_char c :: nat);
          d = (if 48 \<le> v \<and> v \<le> 57 then Some (v - 48)
               else if 65 \<le> v \<and> v \<le> 90 then Some (v - 55)
               else if 97 \<le> v \<and> v \<le> 122 then Some (v - 87) else None)
      in case d of Some n \<Rightarrow> if n < radix then Some n else None | None \<Rightarrow> None)"

text \<open>The digits of a number, with their count; a value or a count that is too large fails.\<close>

fun read_digits :: "nat \<Rightarrow> nat \<Rightarrow> nat \<Rightarrow> nat \<Rightarrow> nat \<Rightarrow> string \<Rightarrow> (nat \<times> nat \<times> string) option" where
  "read_digits radix hi most count acc [] = Some (count, acc, [])"
| "read_digits radix hi most count acc (c # cs) =
     (case to_digit radix c of
        None \<Rightarrow> Some (count, acc, c # cs)
      | Some d \<Rightarrow>
          if hi < radix * acc + d \<or> most < Suc count then None
          else read_digits radix hi most (Suc count) (radix * acc + d) cs)"

definition read_number :: "nat \<Rightarrow> nat \<Rightarrow> nat \<Rightarrow> bool \<Rightarrow> string \<Rightarrow> (nat \<times> string) option" where
  "read_number radix hi most allow_zero_prefix s =
     (case read_digits radix hi most 0 0 s of
        None \<Rightarrow> None
      | Some (count, n, rest) \<Rightarrow>
          if count = 0 \<or> \<not> allow_zero_prefix \<and> hd s = CHR ''0'' \<and> 1 < count then None else Some (n, rest))"

definition read_separator :: "char \<Rightarrow> nat \<Rightarrow> (string \<Rightarrow> ('a \<times> string) option) \<Rightarrow> string \<Rightarrow> ('a \<times> string) option" where
  "read_separator sep index inner s =
     (if 0 < index then (case s of [] \<Rightarrow> None | c # cs \<Rightarrow> if c = sep then inner cs else None) else inner s)"

definition read_octet :: "nat \<Rightarrow> string \<Rightarrow> (nat \<times> string) option" where
  "read_octet index = read_separator (CHR ''.'') index (read_number 10 255 3 False)"

definition read_ipv4_addr :: "string \<Rightarrow> (ip_addr \<times> string) option" where
  "read_ipv4_addr s =
     (case read_octet 0 s of None \<Rightarrow> None | Some (a, s1) \<Rightarrow>
      (case read_octet 1 s1 of None \<Rightarrow> None | Some (b, s2) \<Rightarrow>
      (case read_octet 2 s2 of None \<Rightarrow> None | Some (c, s3) \<Rightarrow>
      (case read_octet 3 s3 of None \<Rightarrow> None | Some (d, s4) \<Rightarrow>
         Some (V4 (of_nat a) (of_nat b) (of_nat c) (of_nat d), s4)))))"

text \<open>The groups that can be read, at most as many as given, whether they end in an IPv4
  address, and the rest of the text.\<close>

definition v4_groups :: "ip_addr \<Rightarrow> u16 list" where
  "v4_groups a = (case a of V4 a b c d \<Rightarrow> [push_bit 8 (ucast a) + ucast b, push_bit 8 (ucast c) + ucast d] | V6 _ \<Rightarrow> [])"

fun read_groups :: "nat \<Rightarrow> nat \<Rightarrow> string \<Rightarrow> u16 list \<times> bool \<times> string" where
  "read_groups index 0 s = ([], False, s)"
| "read_groups index (Suc left) s =
     (case (if 0 < left then read_separator (CHR '':'') index read_ipv4_addr s else None) of
        Some (v4, s1) \<Rightarrow> (v4_groups v4, True, s1)
      | None \<Rightarrow>
          (case read_separator (CHR '':'') index (read_number 16 65535 4 True) s of
             None \<Rightarrow> ([], False, s)
           | Some (g, s1) \<Rightarrow>
               (case read_groups (Suc index) left s1 of (gs, v4, s2) \<Rightarrow> (of_nat g # gs, v4, s2))))"

definition read_ipv6_addr :: "string \<Rightarrow> (ip_addr \<times> string) option" where
  "read_ipv6_addr s =
     (case read_groups 0 8 s of
        (head, head_ipv4, s1) \<Rightarrow>
          if length head = 8 then Some (V6 head, s1)
          else if head_ipv4 \<or> take 2 s1 \<noteq> ''::'' then None
          else (case read_groups 0 (8 - (length head + 1)) (drop 2 s1) of
                  (tail, _, s2) \<Rightarrow> Some (V6 (head @ replicate (8 - length tail - length head) 0 @ tail), s2)))"

definition parse_ip_addr :: "string \<Rightarrow> ip_addr option" where
  "parse_ip_addr s =
     (case (case read_ipv4_addr s of Some r \<Rightarrow> Some r | None \<Rightarrow> read_ipv6_addr s) of
        Some (a, rest) \<Rightarrow> if rest = [] then Some a else None
      | None \<Rightarrow> None)"

section \<open>Endpoints\<close>

record loopback_endpoint =
  le_host :: string
  le_port :: u16
  le_addresses :: "socket_addr list"

datatype loopback_policy_error = LoopbackPolicyError string

abbreviation V6_LOCALHOST :: ip_addr where "V6_LOCALHOST \<equiv> V6 [0, 0, 0, 0, 0, 0, 0, 1]"

definition loopback_endpoint_new :: "string \<Rightarrow> u16 \<Rightarrow> (loopback_endpoint, loopback_policy_error) result" where
  "loopback_endpoint_new host port =
     map_ok (\<lambda>addresses. \<lparr>le_host = host, le_port = port, le_addresses = addresses\<rparr>)
       (if host = ''localhost'' then Ok [(V4 127 0 0 1, port), (V6_LOCALHOST, port)]
        else (case parse_ip_addr host of
                None \<Rightarrow> Err (LoopbackPolicyError host)
              | Some address \<Rightarrow>
                  if \<not> is_loopback address then Err (LoopbackPolicyError host) else Ok [(address, port)]))"

definition socket_addrs :: "loopback_endpoint \<Rightarrow> socket_addr list" where
  "socket_addrs e = le_addresses e"

section \<open>Reading decimal numbers\<close>

definition no_digit :: "string \<Rightarrow> bool" where
  "no_digit s \<longleftrightarrow> s = [] \<or> to_digit 10 (hd s) = None"

lemma to_digit_10: "to_digit 10 c = digit_val 10 c"
  by (auto simp: to_digit_def digit_val_def Let_def)

lemma parse_digits_mono: "parse_digits 10 acc ds = Some n \<Longrightarrow> acc \<le> n"
  by (induction ds arbitrary: acc) (fastforce split: option.splits)+

lemma read_digits_iff:
  "acc \<le> hi \<Longrightarrow> count \<le> most \<Longrightarrow>
   read_digits 10 hi most count acc s = Some (k, n, rest) \<longleftrightarrow>
     (\<exists>ds. s = ds @ rest \<and> k = count + length ds \<and> k \<le> most \<and> parse_digits 10 acc ds = Some n \<and> n \<le> hi \<and> no_digit rest)"
proof (induction s arbitrary: count acc)
  case Nil
  then show ?case by (auto simp: no_digit_def)
next
  case (Cons c cs)
  show ?case
  proof (cases "digit_val 10 c")
    case None
    have "ds = []" if "c # cs = ds @ rest" "parse_digits 10 acc ds = Some n" for ds
      using that None by (cases ds) auto
    with None Cons.prems show ?thesis by (auto simp: to_digit_10 no_digit_def)
  next
    case (Some d)
    have shift: "(\<exists>ds. c # cs = ds @ rest \<and> k = count + length ds \<and> k \<le> most \<and> parse_digits 10 acc ds = Some n \<and> n \<le> hi \<and> no_digit rest) \<longleftrightarrow>
      (\<exists>ds. cs = ds @ rest \<and> k = Suc count + length ds \<and> k \<le> most \<and> parse_digits 10 (10 * acc + d) ds = Some n \<and> n \<le> hi \<and> no_digit rest)"
      (is "?l \<longleftrightarrow> ?r")
    proof
      assume ?l
      then obtain ds where ds: "c # cs = ds @ rest" "k = count + length ds" "k \<le> most"
        "parse_digits 10 acc ds = Some n" "n \<le> hi" "no_digit rest" by blast
      then obtain ds' where "ds = c # ds'" using Some by (cases ds) (auto simp: no_digit_def to_digit_10)
      with ds Some show ?r by auto
    next
      assume ?r
      then obtain ds where "cs = ds @ rest" "k = Suc count + length ds" "k \<le> most"
        "parse_digits 10 (10 * acc + d) ds = Some n" "n \<le> hi" "no_digit rest" by blast
      with Some show ?l by (intro exI [of _ "c # ds"]) simp
    qed
    show ?thesis
    proof (cases "hi < 10 * acc + d \<or> most < Suc count")
      case True
      then have "\<not> ?thesis \<longrightarrow> False" unfolding shift using parse_digits_mono Some by (fastforce simp: to_digit_10)
      then show ?thesis by blast
    next
      case False
      with Some Cons.IH [of "10 * acc + d" "Suc count"] show ?thesis unfolding shift by (simp add: to_digit_10)
    qed
  qed
qed

text \<open>A decimal number without a leading zero is the text of its value.\<close>

lemma digit_char_val: "digit_val 10 c = Some d \<Longrightarrow> digit_char d = c \<and> d < 10"
  by (auto simp: digit_val_def digit_char_def Let_def split: if_splits)

lemma digit_char_0: "digit_char 0 = CHR ''0''"
  by code_simp

lemma show_digit: "d < 10 \<Longrightarrow> show_nat d = [digit_char d]"
  by (simp add: show_radix.simps)

lemma digits_canonical:
  "parse_digits 10 0 ds = Some n \<Longrightarrow> ds \<noteq> [] \<Longrightarrow> hd ds \<noteq> CHR ''0'' \<or> length ds = 1 \<Longrightarrow> ds = show_nat n"
proof (induction ds arbitrary: n rule: rev_induct)
  case (snoc c ds)
  then obtain m d where m: "parse_digits 10 0 ds = Some m" and d: "digit_val 10 c = Some d" and n: "n = 10 * m + d"
    by (auto simp: parse_digits_append split: option.splits)
  note c = digit_char_val [OF d]
  show ?case
  proof (cases "ds = []")
    case True
    with m n c show ?thesis by (simp add: show_digit)
  next
    case False
    with snoc.prems have "hd ds \<noteq> CHR ''0''" by auto
    with snoc.IH [OF m] False have ds: "ds = show_nat m" by simp
    have "m \<noteq> 0"
    proof
      assume "m = 0"
      with ds have "ds = [digit_char 0]" by (simp add: show_digit)
      with \<open>hd ds \<noteq> CHR ''0''\<close> show False by (simp add: digit_char_0)
    qed
    with n c have "10 \<le> n" "n div 10 = m" "n mod 10 = d" by auto
    with ds c show ?thesis by (simp add: show_radix.simps [of 10 n])
  qed
qed simp

lemma show_nat_hd: "hd (show_nat n) = CHR ''0'' \<Longrightarrow> length (show_nat n) = 1"
proof (induction n rule: less_induct)
  case (less n)
  show ?case
  proof (cases "n < 10")
    case True
    then show ?thesis by (simp add: show_digit)
  next
    case False
    then have n: "show_nat n = show_nat (n div 10) @ [digit_char (n mod 10)]" by (simp add: show_radix.simps [of 10 n])
    with less False have "length (show_nat (n div 10)) = 1" by simp
    moreover have "n div 10 \<noteq> 0" using False by auto
    ultimately have small: "n div 10 < 10" "0 < n div 10"
      by (auto simp: show_radix.simps [of 10 "n div 10"] split: if_splits)
    with n less.prems have "digit_char (n div 10) = CHR ''0''" by (simp add: show_digit)
    then have "(of_char (digit_char (n div 10)) :: nat) = 48" by simp
    with small show ?thesis by (simp add: digit_char_def)
  qed
qed

lemma read_decimal_iff:
  "read_number 10 255 3 False s = Some (n, rest) \<longleftrightarrow> n \<le> 255 \<and> s = show_nat n @ rest \<and> no_digit rest"
proof
  assume "read_number 10 255 3 False s = Some (n, rest)"
  then obtain k where "read_digits 10 255 3 0 0 s = Some (k, n, rest)" "k \<noteq> 0" "hd s = CHR ''0'' \<longrightarrow> k = 1"
    by (auto simp: read_number_def split: option.splits if_splits)
  then obtain ds where "s = ds @ rest" "k = length ds" "parse_digits 10 0 ds = Some n" "n \<le> 255" "no_digit rest"
    by (auto simp: read_digits_iff)
  with \<open>k \<noteq> 0\<close> \<open>hd s = CHR ''0'' \<longrightarrow> k = 1\<close> digits_canonical [of ds n]
  show "n \<le> 255 \<and> s = show_nat n @ rest \<and> no_digit rest" by (cases ds) auto
next
  assume n: "n \<le> 255 \<and> s = show_nat n @ rest \<and> no_digit rest"
  then have "length (show_nat n) \<le> 3" using show_radix_length [of 10 n 2] by simp
  with n have "read_digits 10 255 3 0 0 s = Some (length (show_nat n), n, rest)"
    by (simp add: read_digits_iff parse_digits_show)
  with n show_nat_hd [of n] show "read_number 10 255 3 False s = Some (n, rest)" by (auto simp: read_number_def)
qed

section \<open>Reading IPv4 addresses\<close>

definition show_ipv4 :: "u8 \<Rightarrow> u8 \<Rightarrow> u8 \<Rightarrow> u8 \<Rightarrow> string" where
  "show_ipv4 a b c d =
     show_nat (unat a) @ ''.'' @ show_nat (unat b) @ ''.'' @ show_nat (unat c) @ ''.'' @ show_nat (unat d)"

lemma read_octet_iff:
  "read_octet 0 s = Some (n, rest) \<longleftrightarrow> n \<le> 255 \<and> s = show_nat n @ rest \<and> no_digit rest"
  "0 < i \<Longrightarrow> read_octet i s = Some (n, rest) \<longleftrightarrow> n \<le> 255 \<and> s = CHR ''.'' # show_nat n @ rest \<and> no_digit rest"
  by (auto simp: read_octet_def read_separator_def read_decimal_iff split: list.splits)

lemma dot_no_digit [simp]: "no_digit (CHR ''.'' # s)"
  by (simp add: no_digit_def to_digit_def)

lemma unat_octet: "n \<le> 255 \<Longrightarrow> unat (of_nat n :: u8) = n"
  by (simp add: unsigned_of_nat take_bit_nat_eq_self)

lemma octet_bound [simp]: "unat (a :: u8) \<le> 255"
  using unsigned_less [of a, where ?'a = nat] by simp

lemma read_ipv4_iff:
  "read_ipv4_addr s = Some (V4 a b c d, rest) \<longleftrightarrow> s = show_ipv4 a b c d @ rest \<and> no_digit rest"
proof
  assume "read_ipv4_addr s = Some (V4 a b c d, rest)"
  then obtain na nb nc nd r1 r2 r3 where "read_octet 0 s = Some (na, r1)" "read_octet 1 r1 = Some (nb, r2)"
    "read_octet 2 r2 = Some (nc, r3)" "read_octet 3 r3 = Some (nd, rest)"
    "a = of_nat na" "b = of_nat nb" "c = of_nat nc" "d = of_nat nd"
    by (auto simp: read_ipv4_addr_def split: option.splits)
  then show "s = show_ipv4 a b c d @ rest \<and> no_digit rest"
    by (auto simp: read_octet_iff show_ipv4_def unat_octet)
next
  assume s: "s = show_ipv4 a b c d @ rest \<and> no_digit rest"
  then have "read_octet 0 s = Some (unat a, CHR ''.'' # show_nat (unat b) @ CHR ''.'' # show_nat (unat c) @ CHR ''.'' # show_nat (unat d) @ rest)"
    by (simp add: read_octet_iff show_ipv4_def)
  moreover have "read_octet 1 (CHR ''.'' # show_nat (unat b) @ CHR ''.'' # show_nat (unat c) @ CHR ''.'' # show_nat (unat d) @ rest) =
      Some (unat b, CHR ''.'' # show_nat (unat c) @ CHR ''.'' # show_nat (unat d) @ rest)"
    by (simp add: read_octet_iff)
  moreover have "read_octet 2 (CHR ''.'' # show_nat (unat c) @ CHR ''.'' # show_nat (unat d) @ rest) =
      Some (unat c, CHR ''.'' # show_nat (unat d) @ rest)"
    by (simp add: read_octet_iff)
  moreover have "read_octet 3 (CHR ''.'' # show_nat (unat d) @ rest) = Some (unat d, rest)"
    using s by (simp add: read_octet_iff)
  ultimately show "read_ipv4_addr s = Some (V4 a b c d, rest)" by (simp add: read_ipv4_addr_def)
qed

lemma read_ipv4_shape: "read_ipv4_addr s = Some (x, rest) \<Longrightarrow> \<exists>a b c d. x = V4 a b c d"
  by (auto simp: read_ipv4_addr_def split: option.splits)

lemma read_ipv6_shape: "read_ipv6_addr s = Some (x, rest) \<Longrightarrow> \<exists>gs. x = V6 gs"
  by (auto simp: read_ipv6_addr_def split: prod.splits if_splits)

lemma parse_ipv4_iff: "parse_ip_addr s = Some (V4 a b c d) \<longleftrightarrow> s = show_ipv4 a b c d"
proof -
  have "parse_ip_addr s = Some (V4 a b c d) \<longleftrightarrow> read_ipv4_addr s = Some (V4 a b c d, [])"
    using read_ipv6_shape [of s] by (fastforce simp: parse_ip_addr_def split: option.splits if_splits)
  then show ?thesis by (simp add: read_ipv4_iff no_digit_def)
qed

section \<open>Accepted hosts\<close>

lemma endpoint_loopback:
  "loopback_endpoint_new host port = Ok e \<Longrightarrow> socket_addrs e \<noteq> [] \<and> (\<forall>(a, q) \<in> set (socket_addrs e). is_loopback a \<and> q = port)"
  by (auto simp: loopback_endpoint_new_def socket_addrs_def split: if_splits option.splits)

lemma localhost_no_address: "parse_ip_addr ''localhost'' = None"
proof -
  have d: "to_digit 10 (CHR ''l'') = None" "to_digit 16 (CHR ''l'') = None" by (simp_all add: to_digit_def)
  have v4: "read_ipv4_addr ''localhost'' = None" by (simp add: read_ipv4_addr_def read_octet_def read_separator_def read_number_def d)
  have "read_groups 0 8 ''localhost'' = ([], False, ''localhost'')"
    using read_groups.simps(2) [of 0 7 "''localhost''"] by (simp add: read_separator_def read_number_def d v4)
  with v4 show ?thesis by (simp add: parse_ip_addr_def read_ipv6_addr_def)
qed

lemma parse_v6_localhost: "parse_ip_addr ''::1'' = Some V6_LOCALHOST"
proof -
  have d: "to_digit 10 (CHR '':'') = None" "to_digit 16 (CHR '':'') = None"
    "to_digit 10 (CHR ''1'') = Some 1" "to_digit 16 (CHR ''1'') = Some 1" by (simp_all add: to_digit_def)
  have v4: "read_ipv4_addr ''::1'' = None" "read_ipv4_addr ''1'' = None" by (simp_all add: read_ipv4_addr_def read_octet_def read_separator_def read_number_def d)
  have "read_groups 0 8 ''::1'' = ([], False, ''::1'')"
    using read_groups.simps(2) [of 0 7 "''::1''"] by (simp add: read_separator_def read_number_def d v4)
  moreover have "read_groups 1 6 [] = ([], False, [])"
    using read_groups.simps(2) [of 1 5 "[]"] by (simp add: read_separator_def)
  then have "read_groups 0 7 ''1'' = ([1], False, [])"
    using read_groups.simps(2) [of 0 6 "''1''"] by (simp add: read_separator_def read_number_def d v4)
  ultimately show ?thesis using v4 by (simp add: parse_ip_addr_def read_ipv6_addr_def numeral_eq_Suc)
qed

text \<open>The endpoints that \<open>LoopbackEndpoint::new\<close> accepts are exactly these: the name
  \<open>localhost\<close>, with the two loopback addresses; the texts \<open>127.b.c.d\<close> of four decimal numbers
  without leading zeros, with that address; and the texts of the IPv6 address 1, such as
  \<open>::1\<close>. Host and port are kept.\<close>

theorem loopback_endpoints_exact:
  "loopback_endpoint_new host port = Ok e \<longleftrightarrow>
     le_host e = host \<and> le_port e = port \<and> loopback_endpoint.more e = () \<and>
     (host = ''localhost'' \<and> socket_addrs e = [(V4 127 0 0 1, port), (V6_LOCALHOST, port)] \<or>
      (\<exists>b c d. host = show_ipv4 127 b c d \<and> socket_addrs e = [(V4 127 b c d, port)]) \<or>
      parse_ip_addr host = Some V6_LOCALHOST \<and> socket_addrs e = [(V6_LOCALHOST, port)])"
proof -
  note none = localhost_no_address
  have v4: "(\<exists>a. is_loopback a \<and> parse_ip_addr host = Some a \<and> socket_addrs e = [(a, port)]) \<longleftrightarrow>
      (\<exists>b c d. host = show_ipv4 127 b c d \<and> socket_addrs e = [(V4 127 b c d, port)]) \<or>
      parse_ip_addr host = Some V6_LOCALHOST \<and> socket_addrs e = [(V6_LOCALHOST, port)]" (is "?l \<longleftrightarrow> ?r")
  proof
    assume ?l
    then obtain a where a: "is_loopback a" "parse_ip_addr host = Some a" "socket_addrs e = [(a, port)]" by blast
    then show ?r by (cases a) (auto simp: parse_ipv4_iff)
  next
    assume ?r
    then show ?l using parse_ipv4_iff is_loopback.simps by metis
  qed
  have new: "loopback_endpoint_new host port = Ok e \<longleftrightarrow> le_host e = host \<and> le_port e = port \<and> loopback_endpoint.more e = () \<and>
     (host = ''localhost'' \<and> socket_addrs e = [(V4 127 0 0 1, port), (V6_LOCALHOST, port)] \<or>
      (\<exists>a. is_loopback a \<and> parse_ip_addr host = Some a \<and> socket_addrs e = [(a, port)]))"
  proof (cases "host = ''localhost''")
    case True
    with none show ?thesis by (cases e) (simp add: loopback_endpoint_new_def socket_addrs_def, blast)
  next
    case False
    then show ?thesis
      by (cases "parse_ip_addr host"; cases e) (simp_all add: loopback_endpoint_new_def socket_addrs_def, blast)
  qed
  show ?thesis unfolding new v4 by blast
qed

end
