(* ===== verification/Session_Config.thy ===== *)
theory Session_Config
  imports Rust_Text
begin

text \<open>
  The connection vocabulary of the client: \<open>crates/rssh-types/src/lib.rs\<close> and the first
  part of \<open>crates/rssh-ssh/src/lib.rs\<close> (lines 20 to 645 and 1001 to 1022). Terminal sizes,
  host-key challenges and decisions, secret prompts, the validated session configuration,
  authentication methods with their redacting \<open>Debug\<close> output, startup modes, connection
  requests, exit metadata and the channel-open plan derived from a request.
\<close>

section \<open>Terminal size\<close>

record terminal_size =
  columns :: u16
  rows :: u16

definition terminal_size_new :: "u16 \<Rightarrow> u16 \<Rightarrow> terminal_size" where
  "terminal_size_new c r = \<lparr>columns = c, rows = r\<rparr>"

text \<open>\<open>TerminalSize::cells\<close> multiplies after widening both sides to \<open>usize\<close>.\<close>

definition cells :: "terminal_size \<Rightarrow> u64" where
  "cells s = ucast (columns s) * ucast (rows s)"

section \<open>Secret prompts\<close>

datatype secret_prompt_kind = PasswordKind | PrivateKeyPassphraseKind

record secret_prompt =
  prompt_username :: string
  prompt_kind :: secret_prompt_kind

definition secret_prompt_password :: "string \<Rightarrow> secret_prompt" where
  "secret_prompt_password u = \<lparr>prompt_username = u, prompt_kind = PasswordKind\<rparr>"

definition secret_prompt_private_key_passphrase :: "string \<Rightarrow> secret_prompt" where
  "secret_prompt_private_key_passphrase u =
     \<lparr>prompt_username = u, prompt_kind = PrivateKeyPassphraseKind\<rparr>"

text \<open>A provider is a shared callback; \<open>None\<close> is a cancelled prompt.\<close>

datatype secret_provider = SecretProvider "secret_prompt \<Rightarrow> string option"

fun provider_prompt :: "secret_provider \<Rightarrow> secret_prompt \<Rightarrow> string option" where
  "provider_prompt (SecretProvider f) p = f p"

section \<open>Host-key challenges and decisions\<close>

datatype host_key_decision = AcceptOnce | AcceptAndStore | Reject | Cancel

fun decision_accepts :: "host_key_decision \<Rightarrow> bool" where
  "decision_accepts AcceptOnce = True"
| "decision_accepts AcceptAndStore = True"
| "decision_accepts Reject = False"
| "decision_accepts Cancel = False"

fun decision_stores :: "host_key_decision \<Rightarrow> bool" where
  "decision_stores AcceptAndStore = True"
| "decision_stores AcceptOnce = False"
| "decision_stores Reject = False"
| "decision_stores Cancel = False"

lemma stores_accepts: "decision_stores d \<Longrightarrow> decision_accepts d"
  by (cases d) auto

datatype host_key_status = Known | Unknown | Changed

record host_key_challenge =
  challenge_host :: string
  challenge_port :: u16
  challenge_algorithm :: string
  challenge_fingerprint :: string
  challenge_status :: host_key_status
  challenge_known_hosts_path :: "path option"

definition host_key_challenge_new ::
  "string \<Rightarrow> u16 \<Rightarrow> string \<Rightarrow> string \<Rightarrow> host_key_status \<Rightarrow> host_key_challenge" where
  "host_key_challenge_new h p alg fp st =
     \<lparr>challenge_host = h, challenge_port = p, challenge_algorithm = alg,
      challenge_fingerprint = fp, challenge_status = st, challenge_known_hosts_path = None\<rparr>"

definition challenge_with_known_hosts_path :: "path \<Rightarrow> host_key_challenge \<Rightarrow> host_key_challenge" where
  "challenge_with_known_hosts_path p c = c\<lparr>challenge_known_hosts_path := Some p\<rparr>"

datatype host_key_verifier = HostKeyVerifier "host_key_challenge \<Rightarrow> host_key_decision"

fun verifier_verify :: "host_key_verifier \<Rightarrow> host_key_challenge \<Rightarrow> host_key_decision" where
  "verifier_verify (HostKeyVerifier f) c = f c"

datatype ssh_connection_phase = Connecting | Authenticating | Opening | Connected

section \<open>Errors of the configuration layer\<close>

datatype ssh_config_error = EmptyHost | EmptyUsername | InvalidPort | InvalidTerminalSize

fun display_config_error :: "ssh_config_error \<Rightarrow> string" where
  "display_config_error EmptyHost = ''SSH host cannot be empty''"
| "display_config_error EmptyUsername = ''SSH username cannot be empty''"
| "display_config_error InvalidPort = ''SSH port must be greater than zero''"
| "display_config_error InvalidTerminalSize =
     ''SSH terminal size must have non-zero columns and rows''"

datatype ssh_auth_error = EmptyPassword | EmptyPrivateKeyPath

fun display_auth_error :: "ssh_auth_error \<Rightarrow> string" where
  "display_auth_error EmptyPassword = ''SSH password cannot be empty''"
| "display_auth_error EmptyPrivateKeyPath = ''SSH private key path cannot be empty''"

datatype ssh_startup_error = EmptyCommand

fun display_startup_error :: "ssh_startup_error \<Rightarrow> string" where
  "display_startup_error EmptyCommand = ''SSH remote command cannot be empty''"

datatype ssh_session_error = SshSessionError (error_message: string)

definition display_session_error :: "ssh_session_error \<Rightarrow> string" where
  "display_session_error e = error_message e"

section \<open>Authentication methods\<close>

datatype ssh_auth_method =
    PasswordPrompt
  | Password string
  | PrivateKey path "string option"
  | Agent

definition auth_password :: "string \<Rightarrow> (ssh_auth_method, ssh_auth_error) result" where
  "auth_password p = (if trim p = [] then Err EmptyPassword else Ok (Password p))"

definition auth_private_key ::
  "path \<Rightarrow> string option \<Rightarrow> (ssh_auth_method, ssh_auth_error) result" where
  "auth_private_key p pass =
     (if p = [] then Err EmptyPrivateKeyPath else Ok (PrivateKey p pass))"

text \<open>
  What a \<open>Debug\<close> implementation hands to the formatter: texts, and structures with named
  fields. Rendering such a value is the formatter's business and is not modelled.
\<close>

datatype debug_value =
    DebugText string
  | DebugStruct string "(string \<times> debug_value) list"
  | DebugNone
  | DebugSome debug_value
  | DebugList "debug_value list"

fun debug_option :: "('a \<Rightarrow> debug_value) \<Rightarrow> 'a option \<Rightarrow> debug_value" where
  "debug_option f None = DebugNone"
| "debug_option f (Some x) = DebugSome (f x)"

definition REDACTED_SECRET :: string where
  "REDACTED_SECRET = ''<redacted>''"

fun debug_auth_method :: "ssh_auth_method \<Rightarrow> debug_value" where
  "debug_auth_method PasswordPrompt = DebugText ''PasswordPrompt''"
| "debug_auth_method (Password _) =
     DebugStruct ''Password'' [(''password'', DebugText REDACTED_SECRET)]"
| "debug_auth_method (PrivateKey p pass) =
     DebugStruct ''PrivateKey''
       [(''path'', DebugText p),
        (''passphrase'', debug_option DebugText (map_option (\<lambda>_. REDACTED_SECRET) pass))]"
| "debug_auth_method Agent = DebugText ''Agent''"

section \<open>Startup modes, configuration and connection requests\<close>

datatype ssh_session_startup = Shell | Command "string list" | NoShell

definition startup_command :: "string list \<Rightarrow> (ssh_session_startup, ssh_startup_error) result" where
  "startup_command args =
     (if list_all (\<lambda>a. trim a = []) args then Err EmptyCommand else Ok (Command args))"

record ssh_session_config =
  config_host :: string
  config_port :: u16
  config_username :: string
  config_initial_size :: terminal_size

definition session_config_new ::
  "string \<Rightarrow> u16 \<Rightarrow> string \<Rightarrow> terminal_size \<Rightarrow> ssh_session_config" where
  "session_config_new h p u sz =
     \<lparr>config_host = h, config_port = p, config_username = u, config_initial_size = sz\<rparr>"

definition session_config_try_new ::
  "string \<Rightarrow> u16 \<Rightarrow> string \<Rightarrow> terminal_size \<Rightarrow> (ssh_session_config, ssh_config_error) result" where
  "session_config_try_new h p u sz =
     (let host = trim h; username = trim u in
      if host = [] then Err EmptyHost
      else if username = [] then Err EmptyUsername
      else if p = 0 then Err InvalidPort
      else if columns sz = 0 \<or> rows sz = 0 then Err InvalidTerminalSize
      else Ok (session_config_new host p username sz))"

record ssh_connect_request =
  request_config :: ssh_session_config
  request_auth :: ssh_auth_method
  request_startup :: ssh_session_startup

definition connect_request_new :: "ssh_session_config \<Rightarrow> ssh_auth_method \<Rightarrow> ssh_connect_request" where
  "connect_request_new c a = \<lparr>request_config = c, request_auth = a, request_startup = Shell\<rparr>"

definition connect_request_with_startup ::
  "ssh_session_startup \<Rightarrow> ssh_connect_request \<Rightarrow> ssh_connect_request" where
  "connect_request_with_startup s r = r\<lparr>request_startup := s\<rparr>"

definition connect_request_password ::
  "ssh_session_config \<Rightarrow> string \<Rightarrow> (ssh_connect_request, ssh_auth_error) result" where
  "connect_request_password c p = and_then (auth_password p) (\<lambda>a. Ok (connect_request_new c a))"

definition connect_request_password_prompt :: "ssh_session_config \<Rightarrow> ssh_connect_request" where
  "connect_request_password_prompt c = connect_request_new c PasswordPrompt"

definition connect_request_private_key ::
  "ssh_session_config \<Rightarrow> path \<Rightarrow> string option \<Rightarrow> (ssh_connect_request, ssh_auth_error) result" where
  "connect_request_private_key c p pass =
     and_then (auth_private_key p pass) (\<lambda>a. Ok (connect_request_new c a))"

definition connect_request_agent :: "ssh_session_config \<Rightarrow> ssh_connect_request" where
  "connect_request_agent c = connect_request_new c Agent"

text \<open>The derived \<open>Debug\<close> of a request prints every field of its three parts.\<close>

definition debug_session_config :: "ssh_session_config \<Rightarrow> debug_value" where
  "debug_session_config c = DebugStruct ''SshSessionConfig''
     [(''host'', DebugText (config_host c)),
      (''port'', DebugText (show_nat (unat (config_port c)))),
      (''username'', DebugText (config_username c)),
      (''initial_size'', DebugStruct ''TerminalSize''
         [(''columns'', DebugText (show_nat (unat (columns (config_initial_size c))))),
          (''rows'', DebugText (show_nat (unat (rows (config_initial_size c)))))])]"

fun debug_session_startup :: "ssh_session_startup \<Rightarrow> debug_value" where
  "debug_session_startup Shell = DebugText ''Shell''"
| "debug_session_startup (Command args) =
     DebugStruct ''Command'' [(''0'', DebugList (map DebugText args))]"
| "debug_session_startup NoShell = DebugText ''NoShell''"

definition debug_connect_request :: "ssh_connect_request \<Rightarrow> debug_value" where
  "debug_connect_request r = DebugStruct ''SshConnectRequest''
     [(''config'', debug_session_config (request_config r)),
      (''auth'', debug_auth_method (request_auth r)),
      (''startup'', debug_session_startup (request_startup r))]"

section \<open>Exit metadata, input events, outcome\<close>

record ssh_exit_signal =
  signal_name :: string
  signal_core_dumped :: bool
  signal_error_message :: string
  signal_lang_tag :: string

record ssh_session_result =
  exit_status :: "u32 option"
  exit_signal :: "ssh_exit_signal option"

definition session_result_default :: ssh_session_result where
  "session_result_default = \<lparr>exit_status = None, exit_signal = None\<rparr>"

datatype ssh_input_event =
    EvData bytes
  | EvResize terminal_size
  | EvCancel
  | EvEof
  | EvError string

text \<open>The bounded input channel: its capacity and the queued events.\<close>

record ssh_input_channel =
  channel_capacity :: nat
  channel_queue :: "ssh_input_event list"

definition ssh_input_event_channel :: "nat \<Rightarrow> ssh_input_channel" where
  "ssh_input_event_channel capacity =
     \<lparr>channel_capacity = max capacity 1, channel_queue = []\<rparr>"

record ssh_session_outcome =
  outcome_result :: ssh_session_result
  outcome_input_bytes :: u64
  outcome_output_bytes :: u64

section \<open>The channel-open plan\<close>

record ssh_channel_open_plan =
  plan_pty_size :: "terminal_size option"
  plan_startup :: ssh_session_startup

definition channel_open_plan_from_request :: "ssh_connect_request \<Rightarrow> ssh_channel_open_plan" where
  "channel_open_plan_from_request r =
     (let pty_size = (case request_startup r of
                        Shell \<Rightarrow> Some (config_initial_size (request_config r))
                      | Command _ \<Rightarrow> Some (config_initial_size (request_config r))
                      | NoShell \<Rightarrow> None)
      in \<lparr>plan_pty_size = pty_size, plan_startup = request_startup r\<rparr>)"

section \<open>Well-formed configurations\<close>

text \<open>What \<open>try_new\<close> promises of every configuration it returns.\<close>

definition config_wf :: "ssh_session_config \<Rightarrow> bool" where
  "config_wf c \<longleftrightarrow>
     config_host c \<noteq> [] \<and> trim (config_host c) = config_host c \<and>
     config_username c \<noteq> [] \<and> trim (config_username c) = config_username c \<and>
     config_port c \<noteq> 0 \<and>
     columns (config_initial_size c) \<noteq> 0 \<and> rows (config_initial_size c) \<noteq> 0"

text \<open>A method with its secrets replaced by fixed ones.\<close>

fun erase_secrets :: "ssh_auth_method \<Rightarrow> ssh_auth_method" where
  "erase_secrets PasswordPrompt = PasswordPrompt"
| "erase_secrets (Password _) = Password []"
| "erase_secrets (PrivateKey p pass) = PrivateKey p (map_option (\<lambda>_. []) pass)"
| "erase_secrets Agent = Agent"

lemma debug_auth_method_erase [simp]:
  "debug_auth_method (erase_secrets a) = debug_auth_method a"
  by (cases a rule: erase_secrets.cases) (auto simp: option.map_comp comp_def)

section \<open>Properties\<close>

text \<open>
  \<open>SshSessionConfig::try_new\<close> succeeds exactly when the trimmed host and user name are
  non-empty, the port and both terminal dimensions are non-zero, and then returns the trimmed
  fields; such a configuration is well formed and passes the same check again unchanged.
\<close>

theorem try_new_ok_iff:
  "session_config_try_new h p u sz = Ok c \<longleftrightarrow>
     trim h \<noteq> [] \<and> trim u \<noteq> [] \<and> p \<noteq> 0 \<and> columns sz \<noteq> 0 \<and> rows sz \<noteq> 0 \<and>
     c = session_config_new (trim h) p (trim u) sz"
  by (auto simp: session_config_try_new_def Let_def)

lemma try_new_wf:
  assumes "session_config_try_new h p u sz = Ok c"
  shows "config_wf c \<and> session_config_try_new (config_host c) (config_port c) (config_username c)
    (config_initial_size c) = Ok c"
  using assms by (auto simp: session_config_try_new_def session_config_new_def config_wf_def Let_def split: if_splits)

text \<open>
  When \<open>try_new\<close> fails, the error names the first violated requirement in the order
  host, user name, port, terminal size.
\<close>

theorem try_new_error_order:
  "session_config_try_new h p u sz = Err e \<longleftrightarrow>
     (e = EmptyHost \<and> trim h = []) \<or>
     (e = EmptyUsername \<and> trim h \<noteq> [] \<and> trim u = []) \<or>
     (e = InvalidPort \<and> trim h \<noteq> [] \<and> trim u \<noteq> [] \<and> p = 0) \<or>
     (e = InvalidTerminalSize \<and> trim h \<noteq> [] \<and> trim u \<noteq> [] \<and> p \<noteq> 0 \<and>
        (columns sz = 0 \<or> rows sz = 0))"
  by (auto simp: session_config_try_new_def Let_def)

text \<open>
  The \<open>Debug\<close> output of a connection request does not depend on the password or the
  private-key passphrase it carries: erasing the secrets leaves the output unchanged.
\<close>

theorem connect_request_debug_redacted:
  "debug_connect_request (r\<lparr>request_auth := erase_secrets (request_auth r)\<rparr>) =
   debug_connect_request r"
  by (simp add: debug_connect_request_def)

end
