(* ===== verification/Shell_Traits.thy ===== *)
theory Shell_Traits
  imports Session_Config
begin

text \<open>
  The trait interfaces of \<open>crates/rssh-ssh/src/lib.rs\<close> lines 648 to 1070: readers, writers,
  sessions and channels. A trait object is its state together with a record of its methods.
  Provided methods are definitions over the required ones, the mutex-sharing adapters are
  method records built from a session's or channel's methods, and the contracts the runner
  relies on are locales.

  A method that may block for ever returns an option, \<open>None\<close> meaning that it has not
  returned. An \<open>AtomicBool\<close> another thread may set is the stream of the values that later
  loads will see; a load takes the first one.
\<close>

section \<open>Flags\<close>

type_synonym flag = "nat \<Rightarrow> bool"

definition flag_load :: "flag \<Rightarrow> bool" where
  "flag_load f = f 0"

definition flag_next :: "flag \<Rightarrow> flag" where
  "flag_next f = (\<lambda>i. f (Suc i))"

definition flag_drop :: "nat \<Rightarrow> flag \<Rightarrow> flag" where
  "flag_drop n f = (\<lambda>i. f (n + i))"

definition flag_never :: flag where
  "flag_never = (\<lambda>_. False)"

text \<open>\<open>store(true)\<close>: every later load sees it.\<close>

definition flag_set :: "flag \<Rightarrow> flag" where
  "flag_set f = (\<lambda>_. True)"

section \<open>Method records\<close>

type_synonym 'a io = "('a, ssh_session_error) result"

record 'r shell_reader =
  rd_read :: "nat \<Rightarrow> 'r \<Rightarrow> (bytes io \<times> 'r) option"
  rd_read_cancellable :: "nat \<Rightarrow> flag \<Rightarrow> 'r \<Rightarrow> (bytes option io \<times> flag \<times> 'r) option"
  rd_session_result :: "'r \<Rightarrow> ssh_session_result"

record 'w shell_writer =
  wr_write :: "bytes \<Rightarrow> 'w \<Rightarrow> nat io \<times> 'w"
  wr_write_cancellable :: "bytes \<Rightarrow> flag \<Rightarrow> 'w \<Rightarrow> (nat option io \<times> flag \<times> 'w) option"
  wr_resize :: "terminal_size \<Rightarrow> 'w \<Rightarrow> unit io \<times> 'w"
  wr_resize_cancellable :: "terminal_size \<Rightarrow> flag \<Rightarrow> 'w \<Rightarrow> (unit option io \<times> flag \<times> 'w) option"
  wr_keepalive :: "'w \<Rightarrow> unit io \<times> 'w"
  wr_finish_input :: "'w \<Rightarrow> unit io \<times> 'w"
  wr_close :: "'w \<Rightarrow> unit io \<times> 'w"

text \<open>A session or channel that has not been split.\<close>

record 's shell_session =
  ss_read :: "nat \<Rightarrow> 's \<Rightarrow> (bytes io \<times> 's) option"
  ss_write :: "bytes \<Rightarrow> 's \<Rightarrow> nat io \<times> 's"
  ss_resize :: "terminal_size \<Rightarrow> 's \<Rightarrow> unit io \<times> 's"
  ss_keepalive :: "'s \<Rightarrow> unit io \<times> 's"
  ss_close :: "'s \<Rightarrow> unit io \<times> 's"

record 'c ssh_channel =
  ch_read_channel :: "nat \<Rightarrow> 'c \<Rightarrow> (bytes io \<times> 'c) option"
  ch_write_channel :: "bytes \<Rightarrow> 'c \<Rightarrow> nat io \<times> 'c"
  ch_resize_pty :: "terminal_size \<Rightarrow> 'c \<Rightarrow> unit io \<times> 'c"
  ch_send_keepalive :: "'c \<Rightarrow> unit io \<times> 'c"
  ch_close_channel :: "'c \<Rightarrow> unit io \<times> 'c"

section \<open>Provided methods\<close>

definition default_read_cancellable ::
  "(nat \<Rightarrow> 'r \<Rightarrow> (bytes io \<times> 'r) option) \<Rightarrow> nat \<Rightarrow> flag \<Rightarrow> 'r \<Rightarrow>
   (bytes option io \<times> flag \<times> 'r) option" where
  "default_read_cancellable read n f r =
     (if flag_load f then Some (Ok None, flag_next f, r)
      else map_option (\<lambda>(res, r'). (map_ok Some res, flag_next f, r')) (read n r))"

definition default_write_cancellable ::
  "(bytes \<Rightarrow> 'w \<Rightarrow> nat io \<times> 'w) \<Rightarrow> bytes \<Rightarrow> flag \<Rightarrow> 'w \<Rightarrow> (nat option io \<times> flag \<times> 'w) option" where
  "default_write_cancellable write bs f w =
     (if flag_load f then Some (Ok None, flag_next f, w)
      else (case write bs w of (res, w') \<Rightarrow> Some (map_ok Some res, flag_next f, w')))"

definition default_resize_cancellable ::
  "(terminal_size \<Rightarrow> 'w \<Rightarrow> unit io \<times> 'w) \<Rightarrow> terminal_size \<Rightarrow> flag \<Rightarrow> 'w \<Rightarrow>
   (unit option io \<times> flag \<times> 'w) option" where
  "default_resize_cancellable resize sz f w =
     (if flag_load f then Some (Ok None, flag_next f, w)
      else (case resize sz w of (res, w') \<Rightarrow> Some (map_ok Some res, flag_next f, w')))"

section \<open>Sharing behind a mutex\<close>

record 's mutex =
  mutex_value :: 's
  mutex_poisoned :: bool

text \<open>\<open>lock().map_err(..)?.method(..)\<close>.\<close>

definition with_lock :: "string \<Rightarrow> ('s \<Rightarrow> 'a io \<times> 's) \<Rightarrow> 's mutex \<Rightarrow> 'a io \<times> 's mutex" where
  "with_lock what method m =
     (if mutex_poisoned m then (Err (SshSessionError what), m)
      else (case method (mutex_value m) of (res, s') \<Rightarrow> (res, m\<lparr>mutex_value := s'\<rparr>)))"

definition with_lock_read ::
  "string \<Rightarrow> ('s \<Rightarrow> (bytes io \<times> 's) option) \<Rightarrow> 's mutex \<Rightarrow> (bytes io \<times> 's mutex) option" where
  "with_lock_read what method m =
     (if mutex_poisoned m then Some (Err (SshSessionError what), m)
      else map_option (\<lambda>(res, s'). (res, m\<lparr>mutex_value := s'\<rparr>)) (method (mutex_value m)))"

definition session_lock_poisoned :: string where
  "session_lock_poisoned = ''shared SSH session lock poisoned''"

definition channel_lock_poisoned :: string where
  "channel_lock_poisoned = ''shared SSH channel lock poisoned''"

definition shared_session_reader :: "'s shell_session \<Rightarrow> 's mutex shell_reader" where
  "shared_session_reader S =
     \<lparr>rd_read = \<lambda>n. with_lock_read session_lock_poisoned (ss_read S n),
      rd_read_cancellable =
        default_read_cancellable (\<lambda>n. with_lock_read session_lock_poisoned (ss_read S n)),
      rd_session_result = \<lambda>m. session_result_default\<rparr>"

definition shared_session_writer :: "'s shell_session \<Rightarrow> 's mutex shell_writer" where
  "shared_session_writer S =
     \<lparr>wr_write = \<lambda>bs. with_lock session_lock_poisoned (ss_write S bs),
      wr_write_cancellable =
        default_write_cancellable (\<lambda>bs. with_lock session_lock_poisoned (ss_write S bs)),
      wr_resize = \<lambda>sz. with_lock session_lock_poisoned (ss_resize S sz),
      wr_resize_cancellable =
        default_resize_cancellable (\<lambda>sz. with_lock session_lock_poisoned (ss_resize S sz)),
      wr_keepalive = with_lock session_lock_poisoned (ss_keepalive S),
      wr_finish_input = \<lambda>m. (Ok (), m),
      wr_close = with_lock session_lock_poisoned (ss_close S)\<rparr>"

definition shared_channel_reader :: "'c ssh_channel \<Rightarrow> 'c mutex shell_reader" where
  "shared_channel_reader C =
     \<lparr>rd_read = \<lambda>n. with_lock_read channel_lock_poisoned (ch_read_channel C n),
      rd_read_cancellable =
        default_read_cancellable (\<lambda>n. with_lock_read channel_lock_poisoned (ch_read_channel C n)),
      rd_session_result = \<lambda>m. session_result_default\<rparr>"

definition shared_channel_writer :: "'c ssh_channel \<Rightarrow> 'c mutex shell_writer" where
  "shared_channel_writer C =
     \<lparr>wr_write = \<lambda>bs. with_lock channel_lock_poisoned (ch_write_channel C bs),
      wr_write_cancellable =
        default_write_cancellable (\<lambda>bs. with_lock channel_lock_poisoned (ch_write_channel C bs)),
      wr_resize = \<lambda>sz. with_lock channel_lock_poisoned (ch_resize_pty C sz),
      wr_resize_cancellable =
        default_resize_cancellable (\<lambda>sz. with_lock channel_lock_poisoned (ch_resize_pty C sz)),
      wr_keepalive = with_lock channel_lock_poisoned (ch_send_keepalive C),
      wr_finish_input = \<lambda>m. (Ok (), m),
      wr_close = with_lock channel_lock_poisoned (ch_close_channel C)\<rparr>"

text \<open>\<open>SshChannelSession\<close> is a session whose methods are its channel's.\<close>

definition channel_session :: "'c ssh_channel \<Rightarrow> 'c shell_session" where
  "channel_session C =
     \<lparr>ss_read = ch_read_channel C, ss_write = ch_write_channel C, ss_resize = ch_resize_pty C,
      ss_keepalive = ch_send_keepalive C, ss_close = ch_close_channel C\<rparr>"

section \<open>Contracts\<close>

text \<open>\<open>flag_after f f'\<close>: \<open>f'\<close> is what is left of the stream \<open>f\<close> after some loads.\<close>

definition flag_after :: "flag \<Rightarrow> flag \<Rightarrow> bool" where
  "flag_after f f' \<longleftrightarrow> (\<exists>n. f' = flag_drop n f)"

text \<open>
  What the runner relies on of a writer. \<open>accepted\<close> is the sequence of bytes the remote side
  has accepted from it: a write appends the bytes it reports and never more than it was
  given, and nothing else touches the sequence. A write or a resize may be blocked, but not
  once the flag has been set for good.
\<close>

locale shell_writer_contract =
  fixes W :: "'w shell_writer"
    and accepted :: "'w \<Rightarrow> bytes"
  assumes write_cancellable_some:
      "wr_write_cancellable W bs f w = Some (Ok (Some n), f', w') \<Longrightarrow>
       n \<le> length bs \<and> accepted w' = accepted w @ take n bs"
    and write_cancellable_none:
      "wr_write_cancellable W bs f w = Some (Ok None, f', w') \<Longrightarrow> accepted w' = accepted w"
    and write_cancellable_err:
      "wr_write_cancellable W bs f w = Some (Err e, f', w') \<Longrightarrow> accepted w' = accepted w"
    and write_cancellable_flag:
      "wr_write_cancellable W bs f w = Some (res, f', w') \<Longrightarrow> flag_after f f'"
    and resize_cancellable_accepted:
      "wr_resize_cancellable W sz f w = Some (r, f', w') \<Longrightarrow> accepted w' = accepted w \<and> flag_after f f'"
    and write_cancellable_returns: "(\<And>i. k \<le> i \<Longrightarrow> f i) \<Longrightarrow> wr_write_cancellable W bs f w \<noteq> None"
    and resize_cancellable_returns: "(\<And>i. k \<le> i \<Longrightarrow> f i) \<Longrightarrow> wr_resize_cancellable W sz f w \<noteq> None"
    and finish_input_accepted: "accepted (snd (wr_finish_input W w)) = accepted w"
    and close_accepted: "accepted (snd (wr_close W w)) = accepted w"

text \<open>The same of an unsplit session.\<close>

locale shell_session_contract =
  fixes S :: "'s shell_session"
    and sent :: "'s \<Rightarrow> bytes"
  assumes session_write_ok:
      "ss_write S bs s = (Ok n, s') \<Longrightarrow> n \<le> length bs \<and> sent s' = sent s @ take n bs"
    and session_write_err: "ss_write S bs s = (Err e, s') \<Longrightarrow> sent s' = sent s"
    and session_resize_sent: "sent (snd (ss_resize S sz s)) = sent s"
    and session_close_sent: "sent (snd (ss_close S s)) = sent s"

text \<open>
  What the runner relies on of a reader. \<open>remaining\<close> is the output still to be read: a read
  of at most \<open>n\<close> bytes takes a prefix of at most \<open>n\<close> bytes off it.
\<close>

locale shell_reader_contract =
  fixes R :: "'r shell_reader"
    and remaining :: "'r \<Rightarrow> bytes"
  assumes read_prefix:
      "rd_read R n r = Some (Ok bs, r') \<Longrightarrow> length bs \<le> n \<and> remaining r = bs @ remaining r'"

section \<open>Facts\<close>

lemma flag_drop_0 [simp]: "flag_drop 0 f = f"
  by (simp add: flag_drop_def)

lemma flag_drop_drop [simp]: "flag_drop m (flag_drop n f) = flag_drop (n + m) f"
  by (simp add: flag_drop_def add.assoc)

lemma flag_next_drop: "flag_next f = flag_drop 1 f"
  by (simp add: flag_next_def flag_drop_def)

lemma flag_after_refl [simp, intro]: "flag_after f f"
  unfolding flag_after_def by (rule exI [of _ 0]) simp

lemma flag_after_next [simp, intro]: "flag_after f (flag_next f)"
  unfolding flag_after_def by (rule exI [of _ 1]) (simp add: flag_next_drop)

lemma flag_after_trans: "flag_after f g \<Longrightarrow> flag_after g h \<Longrightarrow> flag_after f h"
  unfolding flag_after_def by auto

lemma flag_after_next_trans [intro]: "flag_after (flag_next f) g \<Longrightarrow> flag_after f g"
  using flag_after_trans by blast

text \<open>From the contract of a session to that of the writer half made by sharing it.\<close>

sublocale shell_session_contract \<subseteq> shared:
  shell_writer_contract "shared_session_writer S" "\<lambda>m. sent (mutex_value m)"
proof
  fix bs f n f' and w w' :: "'s mutex"
  assume "wr_write_cancellable (shared_session_writer S) bs f w = Some (Ok (Some n), f', w')"
  then show "n \<le> length bs \<and> sent (mutex_value w') = sent (mutex_value w) @ take n bs"
    using session_write_ok [of bs "mutex_value w"]
    by (auto simp: shared_session_writer_def default_write_cancellable_def with_lock_def
        split: if_splits prod.splits)
next
  fix bs f f' and w w' :: "'s mutex"
  assume "wr_write_cancellable (shared_session_writer S) bs f w = Some (Ok None, f', w')"
  then show "sent (mutex_value w') = sent (mutex_value w)"
    by (auto simp: shared_session_writer_def default_write_cancellable_def split: if_splits prod.splits)
next
  fix bs f e f' and w w' :: "'s mutex"
  assume "wr_write_cancellable (shared_session_writer S) bs f w = Some (Err e, f', w')"
  then obtain res where "with_lock session_lock_poisoned (ss_write S bs) w = (res, w')" "map_ok Some res = Err e"
    by (auto simp: shared_session_writer_def default_write_cancellable_def split: if_splits prod.splits)
  then show "sent (mutex_value w') = sent (mutex_value w)"
    using session_write_err [of bs "mutex_value w"]
    by (cases res) (auto simp: with_lock_def split: if_splits prod.splits)
next
  fix bs f res f' and w w' :: "'s mutex"
  assume "wr_write_cancellable (shared_session_writer S) bs f w = Some (res, f', w')"
  then show "flag_after f f'"
    by (auto simp: shared_session_writer_def default_write_cancellable_def split: if_splits prod.splits)
next
  fix sz f r f' and w w' :: "'s mutex"
  assume "wr_resize_cancellable (shared_session_writer S) sz f w = Some (r, f', w')"
  then show "sent (mutex_value w') = sent (mutex_value w) \<and> flag_after f f'"
    using session_resize_sent [of sz "mutex_value w"]
    by (auto simp: shared_session_writer_def default_resize_cancellable_def with_lock_def
        split: if_splits prod.splits)
next
  fix k f bs sz and w :: "'s mutex"
  show "wr_write_cancellable (shared_session_writer S) bs f w \<noteq> None"
    by (auto simp: shared_session_writer_def default_write_cancellable_def split: prod.splits)
next
  fix k f bs sz and w :: "'s mutex"
  show "wr_resize_cancellable (shared_session_writer S) sz f w \<noteq> None"
    by (auto simp: shared_session_writer_def default_resize_cancellable_def split: prod.splits)
next
  fix w :: "'s mutex"
  show "sent (mutex_value (snd (wr_finish_input (shared_session_writer S) w))) = sent (mutex_value w)"
    by (simp add: shared_session_writer_def)
next
  fix w :: "'s mutex"
  show "sent (mutex_value (snd (wr_close (shared_session_writer S) w))) = sent (mutex_value w)"
    using session_close_sent [of "mutex_value w"]
    by (auto simp: shared_session_writer_def with_lock_def split: prod.splits)
qed

end
