(* ===== verification/Channel_IO.thy ===== *)
theory Channel_IO
  imports Shell_Traits
begin

text \<open>
  The two halves of an open channel, \<open>crates/rssh-ssh/src/russh_client.rs\<close> lines 2287 to
  2807: the blocking reader with its pending bytes and exit metadata, the writer with its
  lifecycle flags, and the unsplit channel. The \<open>russh\<close> channel is the environment: the
  sequence of events the reader's waits will see, and for each request of the writer its
  answer and how often it is polled before the answer is ready. The requests and their
  answers are logged in order.
\<close>

section \<open>Messages\<close>

datatype sig =
    SigABRT | SigALRM | SigFPE | SigHUP | SigILL | SigINT | SigKILL | SigPIPE | SigQUIT
  | SigSEGV | SigTERM | SigUSR1 | SigCustom string

text \<open>\<open>russh::ChannelMsg\<close>, as far as the code tells the messages apart.\<close>

datatype channel_msg =
    MsgData bytes
  | MsgExtendedData bytes u32
  | MsgEof
  | MsgClose
  | MsgExitStatus u32
  | MsgExitSignal sig bool string string
  | MsgOther

datatype russh_read_action = ActData bytes | ActContinue | ActFinished

fun signal_name_text :: "sig \<Rightarrow> string" where
  "signal_name_text SigABRT = ''ABRT''"
| "signal_name_text SigALRM = ''ALRM''"
| "signal_name_text SigFPE = ''FPE''"
| "signal_name_text SigHUP = ''HUP''"
| "signal_name_text SigILL = ''ILL''"
| "signal_name_text SigINT = ''INT''"
| "signal_name_text SigKILL = ''KILL''"
| "signal_name_text SigPIPE = ''PIPE''"
| "signal_name_text SigQUIT = ''QUIT''"
| "signal_name_text SigSEGV = ''SEGV''"
| "signal_name_text SigTERM = ''TERM''"
| "signal_name_text SigUSR1 = ''USR1''"
| "signal_name_text (SigCustom name) = name"

fun apply_channel_message ::
  "ssh_session_result \<Rightarrow> channel_msg \<Rightarrow> russh_read_action \<times> ssh_session_result" where
  "apply_channel_message res (MsgData d) = (ActData d, res)"
| "apply_channel_message res (MsgExtendedData d _) = (ActData d, res)"
| "apply_channel_message res (MsgExitStatus s) = (ActContinue, res\<lparr>exit_status := Some s\<rparr>)"
| "apply_channel_message res (MsgExitSignal name core msg lang) =
     (ActContinue, res\<lparr>exit_signal := Some \<lparr>signal_name = signal_name_text name,
        signal_core_dumped = core, signal_error_message = msg, signal_lang_tag = lang\<rparr>\<rparr>)"
| "apply_channel_message res MsgClose = (ActFinished, res)"
| "apply_channel_message res MsgEof = (ActContinue, res)"
| "apply_channel_message res MsgOther = (ActContinue, res)"

section \<open>Reader\<close>

text \<open>
  One poll of the reader's \<open>select!\<close>: nothing yet, a message, the end of the channel, or
  the expiry of the inactivity timer (which exists only when a timeout is configured).
\<close>

datatype read_wake = WakePending | WakeMessage channel_msg | WakeEnded | WakeElapsed

record russh_channel_reader =
  reader_inbox :: "read_wake list"
  reader_pending :: bytes
  reader_result :: ssh_session_result
  reader_finished :: bool
  reader_inactivity :: "duration option"

definition channel_reader_new :: "read_wake list \<Rightarrow> duration option \<Rightarrow> russh_channel_reader" where
  "channel_reader_new inbox inactivity =
     \<lparr>reader_inbox = inbox, reader_pending = [], reader_result = session_result_default,
      reader_finished = False, reader_inactivity = inactivity\<rparr>"

text \<open>The bytes copied into a buffer of the given length (their number is the count
  returned), and the reader without them.\<close>

definition fill_from_pending ::
  "nat \<Rightarrow> russh_channel_reader \<Rightarrow> bytes \<times> russh_channel_reader" where
  "fill_from_pending len r =
     (let count = min len (length (reader_pending r)) in
      (take count (reader_pending r), r\<lparr>reader_pending := drop count (reader_pending r)\<rparr>))"

definition queue_read_bytes :: "bytes \<Rightarrow> russh_channel_reader \<Rightarrow> russh_channel_reader" where
  "queue_read_bytes bs r = r\<lparr>reader_pending := reader_pending r @ bs\<rparr>"

definition inactivity_error :: "duration \<Rightarrow> ssh_session_error" where
  "inactivity_error d = SshSessionError
     (''SSH channel read inactivity deadline exceeded after '' @ debug_duration d)"

text \<open>The loop of \<open>read_cancellable_blocking\<close> over the coming polls. Each poll looks at the
  cancellation flag first (\<open>biased\<close>); \<open>None\<close> is a read that is still waiting.\<close>

fun read_loop ::
  "nat \<Rightarrow> flag \<Rightarrow> russh_channel_reader \<Rightarrow> read_wake list \<Rightarrow>
   (bytes option io \<times> flag \<times> russh_channel_reader) option" where
  "read_loop len f r [] =
     (if flag_load f then Some (Ok None, flag_next f, r\<lparr>reader_inbox := []\<rparr>) else None)"
| "read_loop len f r (w # ws) =
     (if flag_load f then Some (Ok None, flag_next f, r\<lparr>reader_inbox := w # ws\<rparr>)
      else (case w of
        WakePending \<Rightarrow> read_loop len (flag_next f) r ws
      | WakeElapsed \<Rightarrow>
          (case reader_inactivity r of
             Some d \<Rightarrow> Some (Err (inactivity_error d), flag_next f, r\<lparr>reader_inbox := ws\<rparr>)
           | None \<Rightarrow> read_loop len (flag_next f) r ws)
      | WakeEnded \<Rightarrow>
          Some (Ok (Some []), flag_next f, r\<lparr>reader_finished := True, reader_inbox := ws\<rparr>)
      | WakeMessage m \<Rightarrow>
          (case apply_channel_message (reader_result r) m of
             (ActData d, res) \<Rightarrow>
               (let (out, r') = fill_from_pending len
                      (queue_read_bytes d (r\<lparr>reader_result := res, reader_inbox := ws\<rparr>))
                in Some (Ok (Some out), flag_next f, r'))
           | (ActFinished, res) \<Rightarrow>
               Some (Ok (Some []), flag_next f,
                 r\<lparr>reader_result := res, reader_finished := True, reader_inbox := ws\<rparr>)
           | (ActContinue, res) \<Rightarrow>
               read_loop len (flag_next f) (r\<lparr>reader_result := res\<rparr>) ws)))"

definition read_cancellable_blocking ::
  "nat \<Rightarrow> flag \<Rightarrow> russh_channel_reader \<Rightarrow> (bytes option io \<times> flag \<times> russh_channel_reader) option" where
  "read_cancellable_blocking len f r =
     (if len = 0 then Some (Ok (Some []), f, r)
      else (let (out, r') = fill_from_pending len r in
            if 0 < length out then Some (Ok (Some out), f, r')
            else if reader_finished r' then Some (Ok (Some []), f, r')
            else read_loop len f r' (reader_inbox r')))"

text \<open>\<open>read_blocking\<close> uses a flag of its own that nothing sets.\<close>

definition read_blocking ::
  "nat \<Rightarrow> russh_channel_reader \<Rightarrow> (bytes io \<times> russh_channel_reader) option" where
  "read_blocking len r =
     map_option (\<lambda>(res, f, r').
         (and_then res (ok_or (SshSessionError ''SSH channel read unexpectedly cancelled'')), r'))
       (read_cancellable_blocking len flag_never r)"

definition russh_reader :: "russh_channel_reader shell_reader" where
  "russh_reader =
     \<lparr>rd_read = read_blocking, rd_read_cancellable = read_cancellable_blocking,
      rd_session_result = reader_result\<rparr>"

section \<open>Writer\<close>

datatype russh_writer_action = Execute | AlreadyDone

record russh_writer_lifecycle =
  input_finished :: bool
  closed :: bool

definition lifecycle_default :: russh_writer_lifecycle where
  "lifecycle_default = \<lparr>input_finished = False, closed = False\<rparr>"

definition ensure_write_allowed :: "russh_writer_lifecycle \<Rightarrow> unit io" where
  "ensure_write_allowed l =
     (if closed l then Err (SshSessionError ''SSH channel is closed'')
      else if input_finished l
      then Err (SshSessionError ''SSH channel input is already finished'')
      else Ok ())"

definition prepare_finish_input :: "russh_writer_lifecycle \<Rightarrow> russh_writer_action" where
  "prepare_finish_input l = (if closed l \<or> input_finished l then AlreadyDone else Execute)"

definition mark_input_finished :: "russh_writer_lifecycle \<Rightarrow> russh_writer_lifecycle" where
  "mark_input_finished l = l\<lparr>input_finished := True\<rparr>"

definition prepare_close :: "russh_writer_lifecycle \<Rightarrow> russh_writer_action" where
  "prepare_close l = (if closed l then AlreadyDone else Execute)"

definition mark_closed :: "russh_writer_lifecycle \<Rightarrow> russh_writer_lifecycle" where
  "mark_closed l = l\<lparr>input_finished := True, closed := True\<rparr>"

datatype wire_op = WireData bytes | WireWindowChange u32 u32 u32 u32 | WireKeepalive | WireEof | WireClose
datatype wire_answer = Answered "(unit, string) result" | Interrupted

text \<open>\<open>wire_result k\<close> is the answer to the \<open>k\<close>th request, and \<open>wire_polls k\<close> the number of polls it takes,
  none for a request that the peer's window blocks for ever; \<open>wire_log\<close> has the requests made,
  oldest first, and what came of each.\<close>

record russh_channel_writer =
  writer_lifecycle :: russh_writer_lifecycle
  wire_result :: "nat \<Rightarrow> (unit, string) result"
  wire_polls :: "nat \<Rightarrow> nat option"
  wire_log :: "(wire_op \<times> wire_answer) list"

definition channel_writer_new ::
  "(nat \<Rightarrow> (unit, string) result) \<Rightarrow> (nat \<Rightarrow> nat option) \<Rightarrow> russh_channel_writer" where
  "channel_writer_new result polls =
     \<lparr>writer_lifecycle = lifecycle_default, wire_result = result, wire_polls = polls, wire_log = []\<rparr>"

definition log_wire :: "wire_op \<Rightarrow> wire_answer \<Rightarrow> russh_channel_writer \<Rightarrow> russh_channel_writer" where
  "log_wire op a w = w\<lparr>wire_log := wire_log w @ [(op, a)]\<rparr>"

text \<open>\<open>runtime.block_on(request)\<close>, its error as text. A request that is made without a way to cancel it is
  taken to complete.\<close>

definition block_on_wire ::
  "wire_op \<Rightarrow> russh_channel_writer \<Rightarrow> (unit, string) result \<times> russh_channel_writer" where
  "block_on_wire op w =
     (let res = wire_result w (length (wire_log w)) in (res, log_wire op (Answered res) w))"

text \<open>\<open>select_write_or_cancellation\<close>: each poll looks at the flag first, then at the request.
  A request that was never polled was never made.\<close>

fun select_polls :: "nat \<Rightarrow> flag \<Rightarrow> bool \<times> flag" where
  "select_polls 0 f = (\<not> flag_load f, flag_next f)"
| "select_polls (Suc k) f =
     (if flag_load f then (False, flag_next f) else select_polls k (flag_next f))"

partial_function (option) wait_for_write_cancellation :: "flag \<Rightarrow> flag option" where
  "wait_for_write_cancellation f =
     (if flag_load f then Some (flag_next f) else wait_for_write_cancellation (flag_next f))"

definition select_write_or_cancellation ::
  "wire_op \<Rightarrow> flag \<Rightarrow> russh_channel_writer \<Rightarrow>
   ((unit, string) result option \<times> flag \<times> russh_channel_writer) option" where
  "select_write_or_cancellation op f w =
     (if flag_load f then Some (None, flag_next f, w)
      else (case wire_polls w (length (wire_log w)) of
        Some k \<Rightarrow>
          (case select_polls k f of
            (True, f') \<Rightarrow> (let (res, w') = block_on_wire op w in Some (Some res, f', w'))
          | (False, f') \<Rightarrow> Some (None, f', log_wire op Interrupted w))
      | None \<Rightarrow> map_option (\<lambda>f'. (None, f', log_wire op Interrupted w)) (wait_for_write_cancellation f)))"

definition session_err :: "string \<Rightarrow> string \<Rightarrow> ssh_session_error" where
  "session_err what e = SshSessionError (what @ '': '' @ e)"

definition write_blocking :: "bytes \<Rightarrow> russh_channel_writer \<Rightarrow> nat io \<times> russh_channel_writer" where
  "write_blocking bs w =
     (case ensure_write_allowed (writer_lifecycle w) of
        Inl e \<Rightarrow> (Err e, w)
      | Inr _ \<Rightarrow>
          (let (res, w') = block_on_wire (WireData bs) w in
           (map_ok (\<lambda>_. length bs) (map_err (session_err ''SSH channel write failed'') res), w')))"

definition write_cancellable_blocking ::
  "bytes \<Rightarrow> flag \<Rightarrow> russh_channel_writer \<Rightarrow> (nat option io \<times> flag \<times> russh_channel_writer) option" where
  "write_cancellable_blocking bs f w =
     (case ensure_write_allowed (writer_lifecycle w) of
        Inl e \<Rightarrow> Some (Err e, f, w)
      | Inr _ \<Rightarrow>
          if flag_load f then Some (Ok None, flag_next f, w)
          else map_option (\<lambda>(write_result, f', w').
             case write_result of
               Some res \<Rightarrow>
                 (map_ok (\<lambda>_. Some (length bs)) (map_err (session_err ''SSH channel write failed'') res), f', w')
             | None \<Rightarrow> (Ok None, f', w')) (select_write_or_cancellation (WireData bs) (flag_next f) w))"

definition window_change :: "terminal_size \<Rightarrow> wire_op" where
  "window_change sz = WireWindowChange (ucast (columns sz)) (ucast (rows sz)) 0 0"

definition resize_pty :: "terminal_size \<Rightarrow> russh_channel_writer \<Rightarrow> unit io \<times> russh_channel_writer" where
  "resize_pty sz w =
     (let (res, w') = block_on_wire (window_change sz) w in
      (map_err (session_err ''SSH PTY resize failed'') res, w'))"

definition resize_cancellable_blocking ::
  "terminal_size \<Rightarrow> flag \<Rightarrow> russh_channel_writer \<Rightarrow> (unit option io \<times> flag \<times> russh_channel_writer) option" where
  "resize_cancellable_blocking sz f w =
     (if flag_load f then Some (Ok None, flag_next f, w)
      else map_option (\<lambda>(resize_result, f', w').
         case resize_result of
           Some res \<Rightarrow> (map_ok Some (map_err (session_err ''SSH PTY resize failed'') res), f', w')
         | None \<Rightarrow> (Ok None, f', w')) (select_write_or_cancellation (window_change sz) (flag_next f) w))"

definition send_keepalive :: "russh_channel_writer \<Rightarrow> unit io \<times> russh_channel_writer" where
  "send_keepalive w =
     (let (res, w') = block_on_wire WireKeepalive w in
      (map_err (session_err ''SSH keepalive failed'') res, w'))"

definition close_channel :: "russh_channel_writer \<Rightarrow> unit io \<times> russh_channel_writer" where
  "close_channel w =
     (if prepare_close (writer_lifecycle w) = AlreadyDone then (Ok (), w)
      else (case block_on_wire WireClose w of
         (Inl e, w') \<Rightarrow> (Err (session_err ''SSH channel close failed'' e), w')
       | (Inr _, w') \<Rightarrow> (Ok (), w'\<lparr>writer_lifecycle := mark_closed (writer_lifecycle w')\<rparr>)))"

definition finish_input_blocking :: "russh_channel_writer \<Rightarrow> unit io \<times> russh_channel_writer" where
  "finish_input_blocking w =
     (if prepare_finish_input (writer_lifecycle w) = AlreadyDone then (Ok (), w)
      else (case block_on_wire WireEof w of
         (Inl e, w') \<Rightarrow> (Err (session_err ''SSH channel EOF failed'' e), w')
       | (Inr _, w') \<Rightarrow> (Ok (), w'\<lparr>writer_lifecycle := mark_input_finished (writer_lifecycle w')\<rparr>)))"

definition russh_writer :: "russh_channel_writer shell_writer" where
  "russh_writer =
     \<lparr>wr_write = write_blocking, wr_write_cancellable = write_cancellable_blocking,
      wr_resize = resize_pty, wr_resize_cancellable = resize_cancellable_blocking,
      wr_keepalive = send_keepalive, wr_finish_input = finish_input_blocking,
      wr_close = close_channel\<rparr>"

section \<open>The unsplit channel\<close>

record russh_ssh_channel =
  channel_reader :: russh_channel_reader
  channel_writer :: russh_channel_writer

text \<open>Methods that act on one half only.\<close>

definition on_writer ::
  "(russh_channel_writer \<Rightarrow> 'a \<times> russh_channel_writer) \<Rightarrow> russh_ssh_channel \<Rightarrow> 'a \<times> russh_ssh_channel" where
  "on_writer m c = (case m (channel_writer c) of (res, w') \<Rightarrow> (res, c\<lparr>channel_writer := w'\<rparr>))"

definition russh_channel :: "russh_ssh_channel ssh_channel" where
  "russh_channel =
     \<lparr>ch_read_channel = \<lambda>n c. map_option (\<lambda>(res, r'). (res, c\<lparr>channel_reader := r'\<rparr>))
                                (read_blocking n (channel_reader c)),
      ch_write_channel = \<lambda>bs. on_writer (write_blocking bs),
      ch_resize_pty = \<lambda>sz. on_writer (resize_pty sz),
      ch_send_keepalive = on_writer send_keepalive,
      ch_close_channel = on_writer close_channel\<rparr>"

definition into_read_writer :: "russh_ssh_channel \<Rightarrow> russh_channel_reader \<times> russh_channel_writer" where
  "into_read_writer c = (channel_reader c, channel_writer c)"

text \<open>The \<open>std::io::Read\<close> and \<open>std::io::Write\<close> implementations turn the error into its text.\<close>

definition io_read :: "nat \<Rightarrow> russh_channel_reader \<Rightarrow> ((bytes, string) result \<times> russh_channel_reader) option" where
  "io_read n r = map_option (\<lambda>(res, r'). (map_err display_session_error res, r')) (read_blocking n r)"

definition io_write :: "bytes \<Rightarrow> russh_channel_writer \<Rightarrow> (nat, string) result \<times> russh_channel_writer" where
  "io_write bs w = (case write_blocking bs w of (res, w') \<Rightarrow> (map_err display_session_error res, w'))"

definition io_flush :: "russh_channel_writer \<Rightarrow> (unit, string) result \<times> russh_channel_writer" where
  "io_flush w = (Ok (), w)"

section \<open>What is still to come on the reader\<close>

text \<open>The bytes of the coming data messages, up to the close or the end of the channel.\<close>

fun upcoming :: "read_wake list \<Rightarrow> bytes" where
  "upcoming [] = []"
| "upcoming (WakeEnded # ws) = []"
| "upcoming (WakeMessage m # ws) =
     (case m of MsgData d \<Rightarrow> d @ upcoming ws
      | MsgExtendedData d _ \<Rightarrow> d @ upcoming ws
      | MsgClose \<Rightarrow> []
      | _ \<Rightarrow> upcoming ws)"
| "upcoming (_ # ws) = upcoming ws"

definition remaining_output :: "russh_channel_reader \<Rightarrow> bytes" where
  "remaining_output r =
     reader_pending r @ (if reader_finished r then [] else upcoming (reader_inbox r))"

text \<open>The exit metadata once the coming messages, up to the close, have been applied.\<close>

fun upcoming_result :: "ssh_session_result \<Rightarrow> read_wake list \<Rightarrow> ssh_session_result" where
  "upcoming_result res [] = res"
| "upcoming_result res (WakeEnded # ws) = res"
| "upcoming_result res (WakeMessage m # ws) =
     (if m = MsgClose then res else upcoming_result (snd (apply_channel_message res m)) ws)"
| "upcoming_result res (_ # ws) = upcoming_result res ws"

definition final_result :: "russh_channel_reader \<Rightarrow> ssh_session_result" where
  "final_result r =
     (if reader_finished r then reader_result r
      else upcoming_result (reader_result r) (reader_inbox r))"

text \<open>A data message without bytes, which a read reports like the end of the stream.\<close>

fun empty_data :: "read_wake \<Rightarrow> bool" where
  "empty_data (WakeMessage (MsgData d)) \<longleftrightarrow> d = []"
| "empty_data (WakeMessage (MsgExtendedData d _)) \<longleftrightarrow> d = []"
| "empty_data _ \<longleftrightarrow> False"

definition no_empty_data :: "russh_channel_reader \<Rightarrow> bool" where
  "no_empty_data r \<longleftrightarrow> list_all (\<lambda>w. \<not> empty_data w) (reader_inbox r)"

lemma fill_from_pending_eq:
  "fill_from_pending len r =
     (take len (reader_pending r), r\<lparr>reader_pending := drop len (reader_pending r)\<rparr>)"
  by (simp add: fill_from_pending_def Let_def min_def)

lemma fill_empty [simp]: "reader_pending r = [] \<Longrightarrow> fill_from_pending len r = ([], r)"
  by (simp add: fill_from_pending_eq)

lemma apply_cases:
  obtains (Data) d where "m = MsgData d \<or> (\<exists>c. m = MsgExtendedData d c)"
      "apply_channel_message res m = (ActData d, res)"
  | (Finished) "m = MsgClose" "apply_channel_message res m = (ActFinished, res)"
  | (Continue) res' where "apply_channel_message res m = (ActContinue, res')" "m \<noteq> MsgClose"
      "\<And>ws. upcoming (WakeMessage m # ws) = upcoming ws"
  by (cases m) (auto simp: that)

text \<open>The loop, started with no pending bytes on an unfinished reader.\<close>

lemma read_loop_ok:
  assumes "read_loop len f r ws = Some (Ok x, f', r')"
    and "reader_pending r = []" and "\<not> reader_finished r" and "0 < len"
  shows "final_result r' = upcoming_result (reader_result r) ws \<and>
    reader_inactivity r' = reader_inactivity r \<and> flag_after f f' \<and>
    (case x of
       None \<Rightarrow> remaining_output r' = upcoming ws \<and> \<not> reader_finished r'
     | Some bs \<Rightarrow> length bs \<le> len \<and> upcoming ws = bs @ remaining_output r' \<and>
         (bs = [] \<longrightarrow> reader_pending r' = []) \<and>
         (bs = [] \<longrightarrow> reader_finished r' \<or> (\<exists>w \<in> set ws. empty_data w)) \<and>
         set (reader_inbox r') \<subseteq> set ws)"
  using assms
proof (induction ws arbitrary: f r)
  case Nil
  then show ?case
    by (auto simp: remaining_output_def final_result_def split: if_splits)
next
  case (Cons w ws)
  show ?case
  proof (cases "flag_load f")
    case True
    with Cons.prems show ?thesis
      by (auto simp: remaining_output_def final_result_def)
  next
    case nf: False
    show ?thesis
    proof (cases w)
      case WakePending
      with nf Cons.prems Cons.IH [of "flag_next f" r] show ?thesis
        by (auto split: option.splits)
    next
      case WakeElapsed
      with nf Cons.prems Cons.IH [of "flag_next f" r] show ?thesis
        by (auto split: option.splits)
    next
      case WakeEnded
      with nf Cons.prems show ?thesis
        by (auto simp: remaining_output_def final_result_def)
    next
      case (WakeMessage m)
      show ?thesis
      proof (cases rule: apply_cases [of m "reader_result r"])
        case (Data d)
        then have "upcoming (w # ws) = d @ upcoming ws"
          and "upcoming_result (reader_result r) (w # ws) = upcoming_result (reader_result r) ws"
          and "d = [] \<longrightarrow> empty_data w"
          using WakeMessage by auto
        moreover have "x = Some (take len d)" "f' = flag_next f"
          "r' = r\<lparr>reader_inbox := ws, reader_pending := drop len d\<rparr>"
          using nf Cons.prems WakeMessage Data(2)
          by (auto simp: fill_from_pending_eq queue_read_bytes_def Let_def)
        ultimately show ?thesis
          using Cons.prems
          by (auto simp: remaining_output_def final_result_def simp del: upcoming.simps
              upcoming_result.simps)
      next
        case Finished
        then show ?thesis
          using nf Cons.prems WakeMessage
          by (auto simp: remaining_output_def final_result_def)
      next
        case (Continue res')
        then have "read_loop len (flag_next f) (r\<lparr>reader_result := res'\<rparr>) ws = Some (Ok x, f', r')"
          using nf Cons.prems WakeMessage by simp
        from Cons.IH [OF this] Continue show ?thesis
          using Cons.prems WakeMessage by (auto split: option.splits)
      qed
    qed
  qed
qed

lemma read_cancellable_ok:
  assumes "read_cancellable_blocking len f r = Some (Ok x, f', r')"
  shows "final_result r' = final_result r \<and> flag_after f f' \<and>
    (case x of
       None \<Rightarrow> remaining_output r' = remaining_output r
     | Some bs \<Rightarrow> length bs \<le> len \<and> remaining_output r = bs @ remaining_output r' \<and>
         (bs = [] \<longrightarrow> len = 0 \<or> reader_pending r' = []) \<and>
         (bs = [] \<longrightarrow> len = 0 \<or> reader_finished r' \<or> \<not> no_empty_data r) \<and>
         (no_empty_data r \<longrightarrow> no_empty_data r'))"
proof (cases "len = 0 \<or> reader_pending r \<noteq> [] \<or> reader_finished r")
  case True
  then show ?thesis
    using assms
    by (cases "len = 0"; cases "reader_pending r = []")
      (auto simp: read_cancellable_blocking_def fill_from_pending_eq Let_def remaining_output_def
        final_result_def no_empty_data_def split: if_splits)
next
  case False
  then have "read_loop len f r (reader_inbox r) = Some (Ok x, f', r')"
    using assms by (simp add: read_cancellable_blocking_def)
  from read_loop_ok [OF this] False show ?thesis
    by (auto simp: remaining_output_def final_result_def no_empty_data_def list_all_iff
        split: option.splits)
qed

text \<open>With a flag that is never set a read is not cancelled.\<close>

lemma flag_never_next [simp]: "flag_load flag_never = False" "flag_next flag_never = flag_never"
  by (simp_all add: flag_never_def flag_load_def flag_next_def)

lemma read_loop_never:
  "read_loop len flag_never r ws \<noteq> Some (Ok None, f', r')"
proof (induction ws arbitrary: r)
  case (Cons w ws)
  then show ?case
    by (auto simp: Let_def split: read_wake.splits option.splits russh_read_action.splits prod.splits)
qed simp

lemma read_cancellable_never:
  "read_cancellable_blocking len flag_never r \<noteq> Some (Ok None, f', r')"
  by (auto simp: read_cancellable_blocking_def Let_def read_loop_never split: prod.splits)

lemma read_blocking_ok:
  "read_blocking len r = Some (Ok bs, r') \<longleftrightarrow>
     (\<exists>f'. read_cancellable_blocking len flag_never r = Some (Ok (Some bs), f', r'))"
  by (auto simp: read_blocking_def)

text \<open>A data message without bytes reads as the end of the stream although output may follow.\<close>

lemma empty_data_reads_as_end:
  "0 < len \<Longrightarrow> read_blocking len (channel_reader_new (WakeMessage (MsgData []) # ws) d) =
     Some (Ok [], channel_reader_new ws d)"
  by (simp add: read_blocking_def read_cancellable_blocking_def channel_reader_new_def
      queue_read_bytes_def Let_def)

interpretation russh_reader: shell_reader_contract russh_reader remaining_output
proof
  fix n r bs r'
  assume "rd_read russh_reader n r = Some (Ok bs, r')"
  then obtain f' where "read_cancellable_blocking n flag_never r = Some (Ok (Some bs), f', r')"
    by (auto simp: russh_reader_def read_blocking_ok)
  from read_cancellable_ok [OF this]
  show "length bs \<le> n \<and> remaining_output r = bs @ remaining_output r'" by simp
qed

section \<open>What the writer has put on the wire\<close>

text \<open>The bytes accepted by the channel, and the successful end-of-input and close requests.\<close>

fun accepted_data :: "wire_op \<times> wire_answer \<Rightarrow> bytes" where
  "accepted_data (WireData bs, Answered (Inr _)) = bs"
| "accepted_data _ = []"

definition accepted_bytes :: "russh_channel_writer \<Rightarrow> bytes" where
  "accepted_bytes w = concat (map accepted_data (wire_log w))"

abbreviation eof_sent :: "(wire_op \<times> wire_answer) list \<Rightarrow> bool" where
  "eof_sent log \<equiv> (WireEof, Answered (Ok ())) \<in> set log"

abbreviation close_sent :: "(wire_op \<times> wire_answer) list \<Rightarrow> bool" where
  "close_sent log \<equiv> (WireClose, Answered (Ok ())) \<in> set log"

text \<open>May a request follow what has been sent: no data and no second end of input after the end
  of input or the close, no second close.\<close>

fun may_follow :: "(wire_op \<times> wire_answer) list \<Rightarrow> wire_op \<Rightarrow> bool" where
  "may_follow log (WireData _) \<longleftrightarrow> \<not> eof_sent log \<and> \<not> close_sent log"
| "may_follow log WireEof \<longleftrightarrow> \<not> eof_sent log \<and> \<not> close_sent log"
| "may_follow log WireClose \<longleftrightarrow> \<not> close_sent log"
| "may_follow log (WireWindowChange _ _ _ _) \<longleftrightarrow> True"
| "may_follow log WireKeepalive \<longleftrightarrow> True"

definition wire_ordered :: "(wire_op \<times> wire_answer) list \<Rightarrow> bool" where
  "wire_ordered log \<longleftrightarrow> (\<forall>i < length log. may_follow (take i log) (fst (log ! i)))"

text \<open>The lifecycle flags say exactly what has been sent, and what was sent is in order.\<close>

definition writer_inv :: "russh_channel_writer \<Rightarrow> bool" where
  "writer_inv w \<longleftrightarrow>
     (closed (writer_lifecycle w) \<longleftrightarrow> close_sent (wire_log w)) \<and>
     (input_finished (writer_lifecycle w) \<longleftrightarrow> eof_sent (wire_log w) \<or> close_sent (wire_log w)) \<and>
     wire_ordered (wire_log w)"

text \<open>Every sequence of method calls on a new writer, whatever the channel answers.\<close>

inductive writer_reachable :: "russh_channel_writer \<Rightarrow> bool" where
  w_created: "writer_reachable (channel_writer_new result polls)"
| w_write: "writer_reachable w \<Longrightarrow> writer_reachable (snd (write_blocking bs w))"
| w_write_cancellable:
    "writer_reachable w \<Longrightarrow> write_cancellable_blocking bs f w = Some (res, f', w') \<Longrightarrow> writer_reachable w'"
| w_resize: "writer_reachable w \<Longrightarrow> writer_reachable (snd (resize_pty sz w))"
| w_resize_cancellable:
    "writer_reachable w \<Longrightarrow> resize_cancellable_blocking sz f w = Some (res', f', w') \<Longrightarrow> writer_reachable w'"
| w_keepalive: "writer_reachable w \<Longrightarrow> writer_reachable (snd (send_keepalive w))"
| w_finish_input: "writer_reachable w \<Longrightarrow> writer_reachable (snd (finish_input_blocking w))"
| w_close: "writer_reachable w \<Longrightarrow> writer_reachable (snd (close_channel w))"

lemmas lifecycle_defs = ensure_write_allowed_def prepare_finish_input_def prepare_close_def
  mark_input_finished_def mark_closed_def

lemma wire_ordered_Nil [simp]: "wire_ordered []"
  by (simp add: wire_ordered_def)

lemma wire_ordered_snoc [simp]:
  "wire_ordered (log @ [(op, a)]) \<longleftrightarrow> wire_ordered log \<and> may_follow log op"
  unfolding wire_ordered_def by (auto simp: nth_append less_Suc_eq)

lemma log_wire_simps [simp]:
  "wire_log (log_wire op a w) = wire_log w @ [(op, a)]"
  "writer_lifecycle (log_wire op a w) = writer_lifecycle w"
  by (simp_all add: log_wire_def)

lemma accepted_log_wire [simp]:
  "accepted_bytes (log_wire op a w) = accepted_bytes w @ accepted_data (op, a)"
  by (simp add: accepted_bytes_def)

lemma accepted_lifecycle [simp]: "accepted_bytes (w\<lparr>writer_lifecycle := l\<rparr>) = accepted_bytes w"
  by (simp add: accepted_bytes_def)

text \<open>A request that changes no lifecycle flag and is not an end of input or close.\<close>

lemma writer_inv_log:
  "writer_inv w \<Longrightarrow> may_follow (wire_log w) op \<Longrightarrow>
     (op = WireEof \<or> op = WireClose \<longrightarrow> a \<noteq> Answered (Ok ())) \<Longrightarrow> writer_inv (log_wire op a w)"
  by (auto simp: writer_inv_def)

lemma wait_returns: "(\<And>i. k \<le> i \<Longrightarrow> f i) \<Longrightarrow> wait_for_write_cancellation f \<noteq> None"
proof (induction k arbitrary: f)
  case 0
  then show ?case by (subst wait_for_write_cancellation.simps) (simp add: flag_load_def)
next
  case (Suc k)
  from Suc.IH [of "flag_next f"] Suc.prems show ?case
    by (subst wait_for_write_cancellation.simps) (simp add: flag_next_def)
qed

lemma wait_after: "wait_for_write_cancellation f = Some f' \<Longrightarrow> flag_after f f'"
proof (induction f f' rule: wait_for_write_cancellation.raw_induct [rotated, consumes 1, case_names step])
  case (step rec f f')
  then show ?case by (cases "flag_load f") auto
qed

lemma select_write_cases:
  obtains (Blocked) "select_write_or_cancellation op f w = None" "wait_for_write_cancellation f = None"
  | (Early) f' where "select_write_or_cancellation op f w = Some (None, f', w)" "flag_after f f'"
  | (Late) f' where "select_write_or_cancellation op f w = Some (None, f', log_wire op Interrupted w)"
      "flag_after f f'"
  | (Done) f' res where "select_write_or_cancellation op f w = Some (Some res, f', log_wire op (Answered res) w)"
      "flag_after f f'"
proof (cases "wire_polls w (length (wire_log w))")
  case None
  then show ?thesis
    using that wait_after [of f]
    by (cases "flag_load f"; cases "wait_for_write_cancellation f") (auto simp: select_write_or_cancellation_def)
next
  case (Some k)
  have after: "flag_after f (snd (select_polls k f))"
    by (induction k f rule: select_polls.induct) auto
  obtain b f' where "select_polls k f = (b, f')"
    by (metis surj_pair)
  with after Some show ?thesis
    by (cases "flag_load f"; cases b)
      (auto simp: select_write_or_cancellation_def block_on_wire_def Let_def
        intro: Early Late Done)
qed

lemma write_allowed_iff:
  "ensure_write_allowed l = Ok () \<longleftrightarrow> \<not> closed l \<and> \<not> input_finished l"
  by (simp add: ensure_write_allowed_def)

lemma write_cancellable_cases:
  obtains (Blocked) "write_cancellable_blocking bs f w = None" "wait_for_write_cancellation (flag_next f) = None"
  | (Refused) e where "write_cancellable_blocking bs f w = Some (Err e, f, w)"
      "ensure_write_allowed (writer_lifecycle w) = Err e"
  | (Cancelled) f' w' where "write_cancellable_blocking bs f w = Some (Ok None, f', w')"
      "ensure_write_allowed (writer_lifecycle w) = Ok ()"
      "w' = w \<or> w' = log_wire (WireData bs) Interrupted w" "flag_after f f'"
  | (Answered) f' res where "write_cancellable_blocking bs f w =
        Some (map_ok (\<lambda>_. Some (length bs)) (map_err (session_err ''SSH channel write failed'') res), f',
         log_wire (WireData bs) (Answered res) w)"
      "ensure_write_allowed (writer_lifecycle w) = Ok ()" "flag_after f f'"
proof (cases "ensure_write_allowed (writer_lifecycle w)")
  case (Inl e)
  then show ?thesis by (intro Refused) (simp_all add: write_cancellable_blocking_def)
next
  case (Inr u)
  then show ?thesis
    using Blocked Cancelled Answered
    by (cases "flag_load f"; cases rule: select_write_cases [of "WireData bs" "flag_next f" w])
      (auto simp: write_cancellable_blocking_def)
qed

lemma resize_cancellable_cases:
  obtains (Blocked) "resize_cancellable_blocking sz f w = None" "wait_for_write_cancellation (flag_next f) = None"
  | (Cancelled) f' w' where "resize_cancellable_blocking sz f w = Some (Ok None, f', w')"
      "w' = w \<or> w' = log_wire (window_change sz) Interrupted w" "flag_after f f'"
  | (Answered) f' res where "resize_cancellable_blocking sz f w =
        Some (map_ok Some (map_err (session_err ''SSH PTY resize failed'') res), f',
         log_wire (window_change sz) (Answered res) w)" "flag_after f f'"
  using that
  by (cases "flag_load f"; cases rule: select_write_cases [of "window_change sz" "flag_next f" w])
    (auto simp: resize_cancellable_blocking_def)

lemma may_follow_window_change [simp]: "may_follow log (window_change sz)"
  by (simp add: window_change_def)

lemma window_change_simps [simp]:
  "window_change sz \<noteq> WireEof" "window_change sz \<noteq> WireClose" "WireEof \<noteq> window_change sz"
  "WireClose \<noteq> window_change sz" "accepted_data (window_change sz, a) = []"
  by (simp_all add: window_change_def)

lemma writer_inv_write_allowed:
  "writer_inv w \<Longrightarrow> ensure_write_allowed (writer_lifecycle w) = Ok () \<Longrightarrow>
     may_follow (wire_log w) (WireData bs)"
  by (auto simp: writer_inv_def write_allowed_iff)

lemma writer_inv_reachable: "writer_reachable w \<Longrightarrow> writer_inv w"
proof (induction rule: writer_reachable.induct)
  case (w_created result polls)
  then show ?case by (simp add: writer_inv_def channel_writer_new_def lifecycle_default_def)
next
  case (w_write w bs)
  then show ?case
    by (cases "ensure_write_allowed (writer_lifecycle w)")
      (auto simp: write_blocking_def block_on_wire_def Let_def
        intro: writer_inv_log writer_inv_write_allowed)
next
  case (w_write_cancellable w bs f res f' w')
  then show ?case
    by (cases rule: write_cancellable_cases [of bs f w])
      (auto intro!: writer_inv_log intro: writer_inv_write_allowed)
next
  case (w_resize w sz)
  then show ?case by (auto simp: resize_pty_def block_on_wire_def Let_def intro!: writer_inv_log)
next
  case (w_resize_cancellable w sz f res f' w')
  then show ?case
    by (cases rule: resize_cancellable_cases [of sz f w]) (auto intro!: writer_inv_log)
next
  case (w_keepalive w)
  then show ?case by (auto simp: send_keepalive_def block_on_wire_def Let_def intro!: writer_inv_log)
next
  case (w_finish_input w)
  then show ?case
    by (auto simp: finish_input_blocking_def block_on_wire_def Let_def lifecycle_defs writer_inv_def
        split: sum.splits if_splits)
next
  case (w_close w)
  then show ?case
    by (auto simp: close_channel_def block_on_wire_def Let_def lifecycle_defs writer_inv_def
        split: sum.splits if_splits)
qed

interpretation russh_writer: shell_writer_contract russh_writer accepted_bytes
proof
  fix bs f n f' and w w' :: russh_channel_writer
  assume "wr_write_cancellable russh_writer bs f w = Some (Ok (Some n), f', w')"
  then show "n \<le> length bs \<and> accepted_bytes w' = accepted_bytes w @ take n bs"
    by (cases rule: write_cancellable_cases [of bs f w]) (auto simp: russh_writer_def)
next
  fix bs f f' and w w' :: russh_channel_writer
  assume "wr_write_cancellable russh_writer bs f w = Some (Ok None, f', w')"
  then show "accepted_bytes w' = accepted_bytes w"
    by (cases rule: write_cancellable_cases [of bs f w]) (auto simp: russh_writer_def)
next
  fix bs f e f' and w w' :: russh_channel_writer
  assume "wr_write_cancellable russh_writer bs f w = Some (Err e, f', w')"
  then show "accepted_bytes w' = accepted_bytes w"
  proof (cases rule: write_cancellable_cases [of bs f w])
    case (Answered f'' res)
    then show ?thesis
      using \<open>wr_write_cancellable russh_writer bs f w = Some (Err e, f', w')\<close>
      by (cases res) (auto simp: russh_writer_def)
  qed (auto simp: russh_writer_def)
next
  fix bs f f' res and w w' :: russh_channel_writer
  assume "wr_write_cancellable russh_writer bs f w = Some (res, f', w')"
  then show "flag_after f f'"
    by (cases rule: write_cancellable_cases [of bs f w]) (auto simp: russh_writer_def)
next
  fix sz f r f' and w w' :: russh_channel_writer
  assume "wr_resize_cancellable russh_writer sz f w = Some (r, f', w')"
  then show "accepted_bytes w' = accepted_bytes w \<and> flag_after f f'"
    by (cases rule: resize_cancellable_cases [of sz f w]) (auto simp: russh_writer_def)
next
  fix k :: nat and f bs and w :: russh_channel_writer
  assume "\<And>i. k \<le> i \<Longrightarrow> f i"
  then show "wr_write_cancellable russh_writer bs f w \<noteq> None"
    using wait_returns [of k "flag_next f"]
    by (cases rule: write_cancellable_cases [of bs f w]) (auto simp: russh_writer_def flag_next_def)
next
  fix k :: nat and f sz and w :: russh_channel_writer
  assume "\<And>i. k \<le> i \<Longrightarrow> f i"
  then show "wr_resize_cancellable russh_writer sz f w \<noteq> None"
    using wait_returns [of k "flag_next f"]
    by (cases rule: resize_cancellable_cases [of sz f w]) (auto simp: russh_writer_def flag_next_def)
next
  fix w :: russh_channel_writer
  show "accepted_bytes (snd (wr_finish_input russh_writer w)) = accepted_bytes w"
    by (auto simp: russh_writer_def finish_input_blocking_def block_on_wire_def Let_def
        split: sum.splits)
next
  fix w :: russh_channel_writer
  show "accepted_bytes (snd (wr_close russh_writer w)) = accepted_bytes w"
    by (auto simp: russh_writer_def close_channel_def block_on_wire_def Let_def split: sum.splits)
qed

interpretation russh_session: shell_session_contract "channel_session russh_channel"
  "\<lambda>c. accepted_bytes (channel_writer c)"
proof
  fix bs n and s s' :: russh_ssh_channel
  assume "ss_write (channel_session russh_channel) bs s = (Ok n, s')"
  then show "n \<le> length bs \<and>
      accepted_bytes (channel_writer s') = accepted_bytes (channel_writer s) @ take n bs"
    by (auto simp: channel_session_def russh_channel_def on_writer_def write_blocking_def
        block_on_wire_def Let_def split: sum.splits prod.splits)
next
  fix bs e and s s' :: russh_ssh_channel
  assume a: "ss_write (channel_session russh_channel) bs s = (Err e, s')"
  then show "accepted_bytes (channel_writer s') = accepted_bytes (channel_writer s)"
    by (cases "wire_result (channel_writer s) (length (wire_log (channel_writer s)))")
      (auto simp: channel_session_def russh_channel_def on_writer_def write_blocking_def
        block_on_wire_def Let_def split: sum.splits prod.splits)
next
  fix sz and s :: russh_ssh_channel
  show "accepted_bytes (channel_writer (snd (ss_resize (channel_session russh_channel) sz s))) =
      accepted_bytes (channel_writer s)"
    by (simp add: channel_session_def russh_channel_def on_writer_def resize_pty_def
        block_on_wire_def Let_def)
next
  fix s :: russh_ssh_channel
  show "accepted_bytes (channel_writer (snd (ss_close (channel_session russh_channel) s))) =
      accepted_bytes (channel_writer s)"
    using russh_writer.close_accepted [of "channel_writer s"]
    by (auto simp: channel_session_def russh_channel_def on_writer_def russh_writer_def split: prod.splits)
qed

section \<open>Properties\<close>

text \<open>
  C27. A read of the channel takes a prefix of at most the buffer's length off the bytes the
  remote side sent, in order and without loss (bytes that do not fit stay pending), a
  cancelled read takes nothing, and neither changes the exit metadata the session will end
  with. An empty read of a non-empty buffer is the end of the stream, unless the peer sent a
  data message without bytes: the reader is then finished, nothing remains, its metadata is
  final, and every later read returns the same.
\<close>

theorem read_takes_stream_prefix:
  assumes "read_cancellable_blocking len f r = Some (Ok x, f', r')" and "no_empty_data r"
  shows "final_result r' = final_result r \<and>
    (case x of
       None \<Rightarrow> remaining_output r' = remaining_output r
     | Some bs \<Rightarrow>
         length bs \<le> len \<and> remaining_output r = bs @ remaining_output r' \<and>
         (bs = [] \<longrightarrow> 0 < len \<longrightarrow>
            remaining_output r' = [] \<and> reader_result r' = final_result r \<and>
            (\<forall>len' f''. read_cancellable_blocking len' f'' r' = Some (Ok (Some []), f'', r'))))"
proof (cases x)
  case None
  then show ?thesis using read_cancellable_ok [OF assms(1)] by simp
next
  case (Some bs)
  have ok: "final_result r' = final_result r" "length bs \<le> len"
    "remaining_output r = bs @ remaining_output r'"
    using read_cancellable_ok [OF assms(1)] Some by auto
  have "reader_pending r' = [] \<and> reader_finished r'" if "bs = []" "0 < len"
    using read_cancellable_ok [OF assms(1)] Some that assms(2) by auto
  then show ?thesis
    using ok Some
    by (auto simp: final_result_def remaining_output_def read_cancellable_blocking_def)
qed

theorem read_takes_stream_prefix_witness:
  "\<exists>f' r'. read_cancellable_blocking 2 flag_never
       (channel_reader_new [WakePending, WakeMessage MsgEof, WakeMessage (MsgData [1, 2, 3])] None) =
         Some (Ok (Some [1, 2]), f', r') \<and> remaining_output r' = [3]"
proof -
  let ?r = "channel_reader_new [WakePending, WakeMessage MsgEof, WakeMessage (MsgData [1, 2, 3])] None"
  obtain f' r' where "read_cancellable_blocking 2 flag_never ?r = Some (Ok (Some [1, 2]), f', r')"
    by (simp add: read_cancellable_blocking_def channel_reader_new_def fill_from_pending_def
        queue_read_bytes_def Let_def)
  moreover have "no_empty_data ?r" by (simp add: no_empty_data_def channel_reader_new_def)
  ultimately show ?thesis
    using read_takes_stream_prefix [of 2 flag_never ?r "Some [1, 2]" f' r']
    by (auto simp: remaining_output_def channel_reader_new_def)
qed

text \<open>
  C24. The writer's lifecycle flags are exact and keep the SSH channel protocol: after any
  sequence of method calls, whatever the channel answered to each request and whichever
  requests were interrupted, the writer is marked closed exactly when a close was
  acknowledged and its input finished exactly when an end of input or a close was, and on
  the wire no data and no end of input follows either of them and no close follows a close.
\<close>

theorem writer_wire_protocol:
  assumes "writer_reachable w"
  defines "log \<equiv> wire_log w"
  shows "(closed (writer_lifecycle w) \<longleftrightarrow> (WireClose, Answered (Ok ())) \<in> set log) \<and>
    (input_finished (writer_lifecycle w) \<longleftrightarrow>
       (WireEof, Answered (Ok ())) \<in> set log \<or> (WireClose, Answered (Ok ())) \<in> set log) \<and>
    (\<forall>i j. i < j \<longrightarrow> j < length log \<longrightarrow>
       (log ! i = (WireEof, Answered (Ok ())) \<or> log ! i = (WireClose, Answered (Ok ())) \<longrightarrow>
          fst (log ! j) \<noteq> WireEof \<and> (\<forall>bs. fst (log ! j) \<noteq> WireData bs)) \<and>
       (log ! i = (WireClose, Answered (Ok ())) \<longrightarrow> fst (log ! j) \<noteq> WireClose))"
proof -
  have inv: "writer_inv w" using assms(1) by (rule writer_inv_reachable)
  have "may_follow (take j log) (fst (log ! j))" "log ! i \<in> set (take j log)"
    if "i < j" "j < length log" for i j
    using inv that by (auto simp: writer_inv_def wire_ordered_def log_def in_set_conv_nth)
  then have "(log ! i = (WireEof, Answered (Ok ())) \<or> log ! i = (WireClose, Answered (Ok ())) \<longrightarrow>
          fst (log ! j) \<noteq> WireEof \<and> (\<forall>bs. fst (log ! j) \<noteq> WireData bs)) \<and>
       (log ! i = (WireClose, Answered (Ok ())) \<longrightarrow> fst (log ! j) \<noteq> WireClose)"
    if "i < j" "j < length log" for i j
    using that by (cases "fst (log ! j)") (metis may_follow.simps)+
  with inv show ?thesis by (auto simp: writer_inv_def log_def)
qed

theorem writer_wire_protocol_witness:
  "closed (writer_lifecycle (snd (close_channel (snd (write_blocking [1]
     (channel_writer_new (\<lambda>_. Ok ()) (\<lambda>_. Some 0)))))))"
proof -
  let ?w = "snd (write_blocking [1] (channel_writer_new (\<lambda>_. Ok ()) (\<lambda>_. Some 0)))"
  have "writer_reachable (snd (close_channel ?w))"
    by (intro w_created w_write w_close)
  from writer_wire_protocol [OF this] show ?thesis
    by (simp add: write_blocking_def close_channel_def block_on_wire_def Let_def log_wire_def
        channel_writer_new_def lifecycle_default_def lifecycle_defs)
qed

text \<open>
  Closing is final and idempotent, and a failed close can be retried: after a successful
  close, every further close and end of input succeeds without another request on the wire
  and every write is refused without one; after a failed close the lifecycle is as before.
\<close>

theorem close_final_and_retryable:
  "(case close_channel w of
      (Inr _, w') \<Rightarrow>
        close_channel w' = (Ok (), w') \<and> finish_input_blocking w' = (Ok (), w') \<and>
        write_blocking bs w' = (Err (SshSessionError ''SSH channel is closed''), w') \<and>
        write_cancellable_blocking bs f w' = Some (Err (SshSessionError ''SSH channel is closed''), f, w')
    | (Inl e, w') \<Rightarrow>
        writer_lifecycle w' = writer_lifecycle w \<and> prepare_close (writer_lifecycle w') = Execute)"
  by (auto simp: close_channel_def finish_input_blocking_def write_blocking_def
      write_cancellable_blocking_def block_on_wire_def Let_def lifecycle_defs split: sum.splits)

end
