(* ===== verification/Server_Handler.thy ===== *)
theory Server_Handler
  imports Loopback Scp_Transfer Capture Channel_IO
begin

text \<open>
  The handler of the fixture's SSH server: \<open>crates/rssh-test-support/src/ssh/server/handler.rs\<close> and
  \<open>server/forwarding.rs\<close> lines 6 to 41, with the configuration and the events of
  \<open>ssh/server.rs\<close>. \<open>russh\<close> calls one method of the handler for each request of the client. A
  method works on the state of its session: the open channels nobody serves yet, the channels
  with a shell and their input, and the remote forwards. Everything it does outside that state is
  logged in order: answers on the session, tasks it starts, addresses it connects to or binds,
  and what it tells a forwarding task. The environment answers each of these from the log so far.
\<close>

section \<open>Configuration\<close>

type_synonym channel_id = u32

datatype command_termination = TermStatus u32 | TermStall | TermSignal sig bool string

record command_response =
  cr_stdout :: bytes
  cr_stderr :: bytes
  cr_termination :: command_termination

definition response_status :: "bytes \<Rightarrow> bytes \<Rightarrow> u32 \<Rightarrow> command_response" where
  "response_status stdout stderr status =
     \<lparr>cr_stdout = stdout, cr_stderr = stderr, cr_termination = TermStatus status\<rparr>"

definition response_signal :: "bytes \<Rightarrow> bytes \<Rightarrow> sig \<Rightarrow> bool \<Rightarrow> string \<Rightarrow> command_response" where
  "response_signal stdout stderr signal core_dumped message =
     \<lparr>cr_stdout = stdout, cr_stderr = stderr, cr_termination = TermSignal signal core_dumped message\<rparr>"

record 'k server_builder =
  sb_passwords :: "string \<rightharpoonup> string"
  sb_authorized_keys :: "'k list"
  sb_commands :: "string \<rightharpoonup> command_response"
  sb_authentication_delay :: "duration option"
  sb_channel_open_delay :: "duration option"

definition server_builder_default :: "'k server_builder" where
  "server_builder_default = \<lparr>sb_passwords = Map.empty, sb_authorized_keys = [], sb_commands = Map.empty,
     sb_authentication_delay = None, sb_channel_open_delay = None\<rparr>"

definition builder_password :: "string \<Rightarrow> string \<Rightarrow> 'k server_builder \<Rightarrow> 'k server_builder" where
  "builder_password user password b = b\<lparr>sb_passwords := (sb_passwords b)(user \<mapsto> password)\<rparr>"

definition authorize_public_key :: "'k \<Rightarrow> 'k server_builder \<Rightarrow> 'k server_builder" where
  "authorize_public_key public_key b = b\<lparr>sb_authorized_keys := sb_authorized_keys b @ [public_key]\<rparr>"

definition builder_command :: "string \<Rightarrow> command_response \<Rightarrow> 'k server_builder \<Rightarrow> 'k server_builder" where
  "builder_command command response b = b\<lparr>sb_commands := (sb_commands b)(command \<mapsto> response)\<rparr>"

definition authentication_delay :: "duration \<Rightarrow> 'k server_builder \<Rightarrow> 'k server_builder" where
  "authentication_delay delay b = b\<lparr>sb_authentication_delay := Some delay\<rparr>"

definition channel_open_delay :: "duration \<Rightarrow> 'k server_builder \<Rightarrow> 'k server_builder" where
  "channel_open_delay delay b = b\<lparr>sb_channel_open_delay := Some delay\<rparr>"

definition stalled_command :: "string \<Rightarrow> 'k server_builder \<Rightarrow> 'k server_builder" where
  "stalled_command command b = b\<lparr>sb_commands := (sb_commands b)(command \<mapsto>
     \<lparr>cr_stdout = [], cr_stderr = [], cr_termination = TermStall\<rparr>)\<rparr>"

text \<open>What a handler is built from.\<close>

record 'k fixture_behavior =
  fb_authorized_keys :: "'k list"
  fb_passwords :: "string \<rightharpoonup> string"
  fb_commands :: "string \<rightharpoonup> command_response"
  fb_authentication_delay :: "duration option"
  fb_channel_open_delay :: "duration option"
  fb_sftp_root :: tpath

definition build_fixture_handler :: "'k server_builder \<Rightarrow> 'k \<Rightarrow> tpath \<Rightarrow> 'k fixture_behavior" where
  "build_fixture_handler b agent_public_key sftp_root =
     \<lparr>fb_authorized_keys = sb_authorized_keys b @ [agent_public_key], fb_passwords = sb_passwords b,
      fb_commands = sb_commands b, fb_authentication_delay = sb_authentication_delay b,
      fb_channel_open_delay = sb_channel_open_delay b, fb_sftp_root = sftp_root\<rparr>"

section \<open>State and effects\<close>

datatype ssh_event =
    SevConnection socket_addr
  | SevPublicKeyAuth string string bool
  | SevSessionOpened
  | SevPty string u32 u32 u32 u32
  | SevShell
  | SevExec string bool
  | SevResize u32 u32 u32 u32
  | SevDirectTcpip string u32 bool
  | SevRemoteForward string u32 bool
  | SevRemoteForwardCancelled string u32 bool
  | SevAgentForward bool
  | SevSubsystem string bool

text \<open>Calls on the \<open>russh\<close> session, and its errors.\<close>

datatype session_call =
    ChannelSuccess channel_id
  | ChannelFailure channel_id
  | SessionData channel_id bytes
  | SessionExtendedData channel_id u32 bytes
  | ExitStatusRequest channel_id u32
  | ExitSignalRequest channel_id sig bool string string
  | SessionEof channel_id
  | SessionClose channel_id

datatype server_error = Inconsistent | ServerIo io_err | ServerOther string

text \<open>Tasks: an SCP or SFTP service on a channel, the bridge of a direct connection, and a
  listener of a remote forward.\<close>

datatype fixture_task =
    ServeScp channel_id tpath "(scp_request, scp_protocol_error) result"
  | ServeSftp channel_id tpath
  | BridgeDirect channel_id "socket_addr list"
  | ListenRemote string u32 socket_addr

datatype fixture_effect =
    Slept duration
  | Called session_call
  | Spawned fixture_task
  | SpawnRefused fixture_task
  | Connecting "socket_addr list"
  | Binding socket_addr
  | AskedAddress socket_addr
  | CancelSent nat
  | AwaitedCompletion nat
  | TaskAborted nat

record fixture_state =
  fs_channels :: "channel_id set"
  fs_shells :: "channel_id set"
  fs_buffers :: "channel_id \<rightharpoonup> bytes"
  fs_forwards :: "string \<times> u32 \<rightharpoonup> nat"
  fs_events :: "ssh_event list"
  fs_log :: "fixture_effect list"

text \<open>The answers of the environment: of session calls, of connecting, of binding an address and
  of asking a listener for its port, whether the tracker has been closed, and whether a
  forwarding task completes in time.\<close>

record 'k fixture_env =
  fe_fingerprint :: "'k \<Rightarrow> string"
  fe_call :: "fixture_effect list \<Rightarrow> session_call \<Rightarrow> (unit, server_error) result"
  fe_connect :: "fixture_effect list \<Rightarrow> socket_addr list \<Rightarrow> bool"
  fe_bind :: "fixture_effect list \<Rightarrow> socket_addr \<Rightarrow> (unit, io_err) result"
  fe_local_port :: "fixture_effect list \<Rightarrow> socket_addr \<Rightarrow> (u16, io_err) result"
  fe_closed :: "fixture_effect list \<Rightarrow> bool"
  fe_completes :: "fixture_effect list \<Rightarrow> nat \<Rightarrow> bool"

type_synonym 'a handler = "(fixture_state, server_error, 'a) run"

text \<open>The state of a handler that \<open>clone_for_session\<close> gives a new session, the events being shared.\<close>

definition clone_for_session :: "ssh_event list \<Rightarrow> fixture_state" where
  "clone_for_session events = \<lparr>fs_channels = {}, fs_shells = {}, fs_buffers = Map.empty, fs_forwards = Map.empty,
     fs_events = events, fs_log = []\<rparr>"

definition effect :: "fixture_effect \<Rightarrow> unit handler" where
  "effect e s = (Ok (), s\<lparr>fs_log := fs_log s @ [e]\<rparr>)"

definition record_event :: "ssh_event \<Rightarrow> unit handler" where
  "record_event e s = (Ok (), s\<lparr>fs_events := fs_events s @ [e]\<rparr>)"

definition call :: "'k fixture_env \<Rightarrow> session_call \<Rightarrow> unit handler" where
  "call E c s = (fe_call E (fs_log s) c, s\<lparr>fs_log := fs_log s @ [Called c]\<rparr>)"

definition delayed :: "duration option \<Rightarrow> unit handler" where
  "delayed d = (case d of Some d \<Rightarrow> effect (Slept d) | None \<Rightarrow> do_ret ())"

text \<open>\<open>ChildTaskTracker::spawn\<close>: a closed tracker drops the task. A task is named by the length of
  the log when it starts.\<close>

definition tracker_spawn :: "'k fixture_env \<Rightarrow> fixture_task \<Rightarrow> nat option handler" where
  "tracker_spawn E t s =
     (if fe_closed E (fs_log s) then (Ok None, s\<lparr>fs_log := fs_log s @ [SpawnRefused t]\<rparr>)
      else (Ok (Some (length (fs_log s))), s\<lparr>fs_log := fs_log s @ [Spawned t]\<rparr>))"

section \<open>Commands\<close>

record command_outcome =
  cm_accepted :: bool
  cm_stdout :: bytes
  cm_stderr :: bytes
  cm_termination :: command_termination
  cm_closes :: bool

definition outcome_rejected :: command_outcome where
  "outcome_rejected = \<lparr>cm_accepted = False, cm_stdout = [],
     cm_stderr = as_bytes (''command rejected by hermetic SSH fixture'' @ [NL]),
     cm_termination = TermStatus 126, cm_closes = True\<rparr>"

definition outcome_accepted :: "bytes \<Rightarrow> bytes \<Rightarrow> command_termination \<Rightarrow> command_outcome" where
  "outcome_accepted stdout stderr termination = \<lparr>cm_accepted = True, cm_stdout = stdout, cm_stderr = stderr,
     cm_termination = termination, cm_closes = True\<rparr>"

text \<open>The argument after a prefix, when it is short and printable.\<close>

definition short_argument :: "string \<Rightarrow> string \<Rightarrow> string option" where
  "short_argument pre command =
     (case strip_prefix pre command of
        Some rest \<Rightarrow> if length rest \<le> 1024 \<and> \<not> has_control rest then Some rest else None
      | None \<Rightarrow> None)"

definition configured_command :: "string \<Rightarrow> (string \<rightharpoonup> command_response) \<Rightarrow> command_outcome" where
  "configured_command command commands =
     (case commands command of
        Some response \<Rightarrow> outcome_accepted (cr_stdout response) (cr_stderr response) (cr_termination response)
      | None \<Rightarrow>
     (case short_argument ''rssh-test-marker '' command of
        Some marker \<Rightarrow> outcome_accepted (as_bytes marker) [] (TermStatus 0)
      | None \<Rightarrow>
     (case short_argument ''echo '' command of
        Some message \<Rightarrow> outcome_accepted (as_bytes message @ [10]) [] (TermStatus 0)
      | None \<Rightarrow>
     (case Option.bind (strip_prefix ''exit '' command) (parse_uint 10 255) of
        Some code \<Rightarrow> outcome_accepted [] [] (TermStatus (of_nat code))
      | None \<Rightarrow> outcome_rejected))))"

definition finish_command :: "'k fixture_env \<Rightarrow> channel_id \<Rightarrow> command_outcome \<Rightarrow> unit handler" where
  "finish_command E channel outcome =
     do_then (call E (if cm_accepted outcome then ChannelSuccess channel else ChannelFailure channel)) (\<lambda>_.
     do_then (if cm_stdout outcome \<noteq> [] then call E (SessionData channel (cm_stdout outcome)) else do_ret ()) (\<lambda>_.
     do_then (if cm_stderr outcome \<noteq> [] then call E (SessionExtendedData channel 1 (cm_stderr outcome)) else do_ret ()) (\<lambda>_.
       (let close = do_then (call E (SessionEof channel)) (\<lambda>_. call E (SessionClose channel)) in
        case cm_termination outcome of
          TermStatus status \<Rightarrow> do_then (call E (ExitStatusRequest channel status)) (\<lambda>_. close)
        | TermStall \<Rightarrow> do_ret ()
        | TermSignal signal core_dumped message \<Rightarrow>
            do_then (call E (ExitSignalRequest channel signal core_dumped message [])) (\<lambda>_. close)))))"

section \<open>Authentication and channels\<close>

datatype server_auth = AuthAccept | AuthReject

definition auth_publickey :: "'k fixture_behavior \<Rightarrow> 'k fixture_env \<Rightarrow> string \<Rightarrow> 'k \<Rightarrow> server_auth handler" where
  "auth_publickey B E user public_key =
     do_then (delayed (fb_authentication_delay B)) (\<lambda>_.
       (let accepted = public_key \<in> set (fb_authorized_keys B) in
        do_then (record_event (SevPublicKeyAuth user (fe_fingerprint E public_key) accepted)) (\<lambda>_.
        do_ret (if accepted then AuthAccept else AuthReject))))"

definition server_auth_password :: "'k fixture_behavior \<Rightarrow> string \<Rightarrow> string \<Rightarrow> server_auth handler" where
  "server_auth_password B user password =
     do_then (delayed (fb_authentication_delay B)) (\<lambda>_.
       do_ret (if fb_passwords B user = Some password then AuthAccept else AuthReject))"

definition channel_open_session :: "'k fixture_behavior \<Rightarrow> channel_id \<Rightarrow> bool handler" where
  "channel_open_session B channel =
     do_then (delayed (fb_channel_open_delay B)) (\<lambda>_.
     do_then (record_event SevSessionOpened) (\<lambda>_ s.
       (Ok True, s\<lparr>fs_channels := insert channel (fs_channels s)\<rparr>)))"

definition channel_close :: "channel_id \<Rightarrow> unit handler" where
  "channel_close channel s =
     (Ok (), s\<lparr>fs_channels := fs_channels s - {channel}, fs_shells := fs_shells s - {channel},
        fs_buffers := (fs_buffers s)(channel := None)\<rparr>)"

definition pty_request :: "'k fixture_env \<Rightarrow> channel_id \<Rightarrow> string \<Rightarrow> u32 \<Rightarrow> u32 \<Rightarrow> u32 \<Rightarrow> u32 \<Rightarrow> unit handler" where
  "pty_request E channel terminal col_width row_height pix_width pix_height =
     do_then (record_event (SevPty terminal col_width row_height pix_width pix_height)) (\<lambda>_.
     call E (ChannelSuccess channel))"

text \<open>The input buffer of a shell, created empty.\<close>

definition buffer_of :: "fixture_state \<Rightarrow> channel_id \<Rightarrow> bytes" where
  "buffer_of s channel = (case fs_buffers s channel of Some b \<Rightarrow> b | None \<Rightarrow> [])"

definition put_buffer :: "channel_id \<Rightarrow> bytes \<Rightarrow> unit handler" where
  "put_buffer channel b s = (Ok (), s\<lparr>fs_buffers := (fs_buffers s)(channel \<mapsto> b)\<rparr>)"

definition shell_request :: "'k fixture_env \<Rightarrow> channel_id \<Rightarrow> unit handler" where
  "shell_request E channel =
     do_then (record_event SevShell) (\<lambda>_ s.
     do_then (put_buffer channel (buffer_of s channel)) (\<lambda>_.
     call E (ChannelSuccess channel)) (s\<lparr>fs_shells := insert channel (fs_shells s)\<rparr>))"

definition exec_request :: "'k fixture_behavior \<Rightarrow> 'k fixture_env \<Rightarrow> channel_id \<Rightarrow> bytes \<Rightarrow> unit handler" where
  "exec_request B E channel data =
     (let command = to_string_lossy (str_of_bytes data) in
      case parse_scp_request command of
        Some request \<Rightarrow>
          do_then (record_event (SevExec command (is_ok request))) (\<lambda>_ s.
            if channel \<in> fs_channels s
            then do_then (call E (ChannelSuccess channel)) (\<lambda>_.
                 do_then (tracker_spawn E (ServeScp channel (fb_sftp_root B) request)) (\<lambda>_. do_ret ()))
                   (s\<lparr>fs_channels := fs_channels s - {channel}\<rparr>)
            else call E (ChannelFailure channel) s)
      | None \<Rightarrow>
          (let outcome = configured_command command (fb_commands B) in
           do_then (record_event (SevExec command (cm_accepted outcome))) (\<lambda>_.
           finish_command E channel outcome)))"

section \<open>Shells\<close>

definition MAX_SHELL_COMMAND :: nat where "MAX_SHELL_COMMAND = 4096"

text \<open>The first line of a buffer, with its end of line, and the rest.\<close>

definition drain_line :: "bytes \<Rightarrow> (bytes \<times> bytes) option" where
  "drain_line buffer =
     (if 10 \<in> set buffer then Some (takeWhile (\<lambda>b. b \<noteq> 10) buffer @ [10], tl (dropWhile (\<lambda>b. b \<noteq> 10) buffer)) else None)"

definition strip_line_end :: "bytes \<Rightarrow> bytes" where
  "strip_line_end line = rev (dropWhile (\<lambda>b. b = 10 \<or> b = 13) (rev line))"

lemma drain_line_shorter: "drain_line buffer = Some (line, rest) \<Longrightarrow> length rest < length buffer"
proof -
  assume "drain_line buffer = Some (line, rest)"
  then have "10 \<in> set buffer" "rest = tl (dropWhile (\<lambda>b. b \<noteq> 10) buffer)" by (auto simp: drain_line_def split: if_splits)
  moreover have "dropWhile (\<lambda>b. b \<noteq> 10) buffer \<noteq> []" using calculation(1) by (simp add: dropWhile_eq_Nil_conv)
  moreover have "length (dropWhile (\<lambda>b. b \<noteq> 10) buffer) \<le> length buffer" by (rule length_dropWhile_le)
  ultimately show ?thesis by (simp, metis Suc_le_eq Suc_pred length_greater_0_conv)
qed

function shell_lines :: "'k fixture_behavior \<Rightarrow> 'k fixture_env \<Rightarrow> channel_id \<Rightarrow> bytes \<Rightarrow> unit handler" where
  "shell_lines B E channel buffer s =
     (case drain_line buffer of
        None \<Rightarrow> (Ok (), s)
      | Some (line, rest) \<Rightarrow>
          (let command = to_string_lossy (str_of_bytes (strip_line_end line));
               outcome = configured_command command (fb_commands B)
           in case do_then (put_buffer channel rest) (\<lambda>_.
                   do_then (record_event (SevExec command (cm_accepted outcome))) (\<lambda>_.
                   finish_command E channel outcome)) s of
                (Inl e, s1) \<Rightarrow> (Err e, s1)
              | (Inr _, s1) \<Rightarrow>
                  if cm_closes outcome then (Ok (), s1\<lparr>fs_shells := fs_shells s1 - {channel}\<rparr>)
                  else shell_lines B E channel rest s1))"
  by pat_completeness auto
termination
  by (relation "measure (\<lambda>(B, E, channel, buffer, s). length buffer)") (auto dest: drain_line_shorter)

declare shell_lines.simps [simp del]

definition shell_data :: "'k fixture_behavior \<Rightarrow> 'k fixture_env \<Rightarrow> channel_id \<Rightarrow> bytes \<Rightarrow> unit handler" where
  "shell_data B E channel data s =
     (if channel \<notin> fs_shells s then (Ok (), s)
      else if MAX_SHELL_COMMAND < length (buffer_of s channel) + length data
      then do_then (put_buffer channel []) (\<lambda>_. finish_command E channel outcome_rejected) s
      else do_then (put_buffer channel (buffer_of s channel @ data)) (\<lambda>_.
           shell_lines B E channel (buffer_of s channel @ data)) s)"

section \<open>Other requests\<close>

definition window_change_request :: "u32 \<Rightarrow> u32 \<Rightarrow> u32 \<Rightarrow> u32 \<Rightarrow> unit handler" where
  "window_change_request col_width row_height pix_width pix_height =
     record_event (SevResize col_width row_height pix_width pix_height)"

definition agent_request :: "'k fixture_env \<Rightarrow> channel_id \<Rightarrow> bool handler" where
  "agent_request E channel =
     do_then (record_event (SevAgentForward False)) (\<lambda>_.
     do_then (call E (ChannelFailure channel)) (\<lambda>_. do_ret False))"

definition subsystem_request :: "'k fixture_behavior \<Rightarrow> 'k fixture_env \<Rightarrow> channel_id \<Rightarrow> string \<Rightarrow> unit handler" where
  "subsystem_request B E channel name s =
     (let accepted = (name = ''sftp'' \<and> channel \<in> fs_channels s) in
      do_then (record_event (SevSubsystem name accepted)) (\<lambda>_ s.
        if accepted
        then (if channel \<in> fs_channels s
              then do_then (call E (ChannelSuccess channel)) (\<lambda>_.
                   do_then (tracker_spawn E (ServeSftp channel (fb_sftp_root B))) (\<lambda>_. do_ret ()))
                     (s\<lparr>fs_channels := fs_channels s - {channel}\<rparr>)
              else (Err Inconsistent, s))
        else call E (ChannelFailure channel) s) s)"

section \<open>Forwarding\<close>

definition requested_endpoint :: "string \<Rightarrow> u32 \<Rightarrow> loopback_endpoint option" where
  "requested_endpoint host port =
     Option.bind (u16_try_from port) (\<lambda>port. case loopback_endpoint_new host port of Inr e \<Rightarrow> Some e | Inl _ \<Rightarrow> None)"

definition tcp_connect :: "'k fixture_env \<Rightarrow> socket_addr list \<Rightarrow> bool handler" where
  "tcp_connect E addrs s = (Ok (fe_connect E (fs_log s) addrs), s\<lparr>fs_log := fs_log s @ [Connecting addrs]\<rparr>)"

definition channel_open_direct_tcpip :: "'k fixture_env \<Rightarrow> channel_id \<Rightarrow> string \<Rightarrow> u32 \<Rightarrow> bool handler" where
  "channel_open_direct_tcpip E channel host_to_connect port_to_connect =
     (let endpoint = requested_endpoint host_to_connect port_to_connect in
      do_then (case endpoint of Some e \<Rightarrow> tcp_connect E (socket_addrs e) | None \<Rightarrow> do_ret False) (\<lambda>accepted.
      do_then (record_event (SevDirectTcpip host_to_connect port_to_connect accepted)) (\<lambda>_.
      do_then (case endpoint of
                 Some e \<Rightarrow> if accepted then do_then (tracker_spawn E (BridgeDirect channel (socket_addrs e))) (\<lambda>_. do_ret ())
                           else do_ret ()
               | None \<Rightarrow> do_ret ()) (\<lambda>_.
      do_ret accepted))))"

definition tcp_bind :: "'k fixture_env \<Rightarrow> socket_addr \<Rightarrow> (unit, io_err) result handler" where
  "tcp_bind E addr s = (Ok (fe_bind E (fs_log s) addr), s\<lparr>fs_log := fs_log s @ [Binding addr]\<rparr>)"

text \<open>A listener is named by the address it was bound to.\<close>

fun bind_from :: "'k fixture_env \<Rightarrow> io_err option \<Rightarrow> socket_addr list \<Rightarrow> (socket_addr, io_err) result handler" where
  "bind_from E last_error [] =
     do_ret (Err (case last_error of
                    Some e \<Rightarrow> e | None \<Rightarrow> IoErr IoInvalidInput ''no loopback address to bind''))"
| "bind_from E last_error (address # addresses) =
     do_then (tcp_bind E address) (\<lambda>r.
       case r of Inr _ \<Rightarrow> do_ret (Ok address) | Inl e \<Rightarrow> bind_from E (Some e) addresses)"

definition bind_first :: "'k fixture_env \<Rightarrow> socket_addr list \<Rightarrow> (socket_addr, io_err) result handler" where
  "bind_first E = bind_from E None"

definition local_port :: "'k fixture_env \<Rightarrow> socket_addr \<Rightarrow> u16 handler" where
  "local_port E addr s = (map_err ServerIo (fe_local_port E (fs_log s) addr), s\<lparr>fs_log := fs_log s @ [AskedAddress addr]\<rparr>)"

text \<open>\<open>RemoteForwardTask\<close>: dropping it, and stopping it (which drops it at the end).\<close>

definition forward_task_drop :: "nat \<Rightarrow> unit handler" where
  "forward_task_drop t = do_then (effect (CancelSent t)) (\<lambda>_. effect (TaskAborted t))"

definition await_completion :: "'k fixture_env \<Rightarrow> nat \<Rightarrow> bool handler" where
  "await_completion E t s = (Ok (fe_completes E (fs_log s) t), s\<lparr>fs_log := fs_log s @ [AwaitedCompletion t]\<rparr>)"

definition forward_task_stop :: "'k fixture_env \<Rightarrow> nat \<Rightarrow> unit handler" where
  "forward_task_stop E t =
     do_then (effect (CancelSent t)) (\<lambda>_.
     do_then (await_completion E t) (\<lambda>completed.
     do_then (if completed then do_ret ()
              else do_then (effect (TaskAborted t)) (\<lambda>_. do_then (await_completion E t) (\<lambda>_. do_ret ()))) (\<lambda>_.
     forward_task_drop t)))"

definition refuse_forward :: "string \<Rightarrow> u32 \<Rightarrow> (bool \<times> u32) handler" where
  "refuse_forward address requested_port =
     do_then (record_event (SevRemoteForward address requested_port False)) (\<lambda>_. do_ret (False, requested_port))"

text \<open>Inserting into the table drops the task it replaces.\<close>

definition insert_forward :: "string \<times> u32 \<Rightarrow> nat \<Rightarrow> unit handler" where
  "insert_forward key t s =
     (case fs_forwards s key of None \<Rightarrow> do_ret () | Some old \<Rightarrow> forward_task_drop old)
       (s\<lparr>fs_forwards := (fs_forwards s)(key \<mapsto> t)\<rparr>)"

text \<open>The result is the answer and the value left in \<open>port\<close>.\<close>

definition tcpip_forward :: "'k fixture_env \<Rightarrow> string \<Rightarrow> u32 \<Rightarrow> (bool \<times> u32) handler" where
  "tcpip_forward E address requested_port =
     (case requested_endpoint address requested_port of
        None \<Rightarrow> refuse_forward address requested_port
      | Some endpoint \<Rightarrow>
          do_then (bind_first E (socket_addrs endpoint)) (\<lambda>listener.
            case listener of
              Inl _ \<Rightarrow> refuse_forward address requested_port
            | Inr listener \<Rightarrow>
                do_then (local_port E listener) (\<lambda>port.
                  (let allocated = ucast port in
                   do_then (tracker_spawn E (ListenRemote address allocated listener)) (\<lambda>task.
                     case task of
                       None \<Rightarrow> refuse_forward address requested_port
                     | Some t \<Rightarrow>
                         do_then (insert_forward (address, allocated) t) (\<lambda>_.
                         do_then (record_event (SevRemoteForward address allocated True)) (\<lambda>_.
                         do_ret (True, allocated))))))))"

definition cancel_tcpip_forward :: "'k fixture_env \<Rightarrow> string \<Rightarrow> u32 \<Rightarrow> bool handler" where
  "cancel_tcpip_forward E address port s =
     (case fs_forwards s (address, port) of
        None \<Rightarrow> do_then (record_event (SevRemoteForwardCancelled address port False)) (\<lambda>_. do_ret False) s
      | Some t \<Rightarrow>
          do_then (forward_task_stop E t) (\<lambda>_.
          do_then (record_event (SevRemoteForwardCancelled address port True)) (\<lambda>_. do_ret True))
            (s\<lparr>fs_forwards := (fs_forwards s)((address, port) := None)\<rparr>))"

end
