(* ===== verification/Server_Policy.thy ===== *)
theory Server_Policy
  imports Server_Handler "HOL-Library.Multiset"
begin

text \<open>
  What the fixture's SSH server allows its clients: sessions of requests on the handler, the
  invariant that every request keeps, and the confinement of its connections, tasks and buffers.
\<close>

section \<open>Sessions\<close>

datatype 'k fixture_request =
    RqPublicKey string 'k
  | RqPassword string string
  | RqOpenSession channel_id
  | RqClose channel_id
  | RqPty channel_id string u32 u32 u32 u32
  | RqShell channel_id
  | RqExec channel_id bytes
  | RqData channel_id bytes
  | RqWindowChange u32 u32 u32 u32
  | RqAgent channel_id
  | RqSubsystem channel_id string
  | RqDirectTcpip channel_id string u32
  | RqForward string u32
  | RqCancelForward string u32

definition forget :: "'a handler \<Rightarrow> unit handler" where
  "forget m = do_then m (\<lambda>_. do_ret ())"

fun handle_request :: "'k fixture_behavior \<Rightarrow> 'k fixture_env \<Rightarrow> 'k fixture_request \<Rightarrow> unit handler" where
  "handle_request B E (RqPublicKey user key) = forget (auth_publickey B E user key)"
| "handle_request B E (RqPassword user password) = forget (server_auth_password B user password)"
| "handle_request B E (RqOpenSession c) = forget (channel_open_session B c)"
| "handle_request B E (RqClose c) = channel_close c"
| "handle_request B E (RqPty c t w h pw ph) = pty_request E c t w h pw ph"
| "handle_request B E (RqShell c) = shell_request E c"
| "handle_request B E (RqExec c data) = exec_request B E c data"
| "handle_request B E (RqData c data) = shell_data B E c data"
| "handle_request B E (RqWindowChange w h pw ph) = window_change_request w h pw ph"
| "handle_request B E (RqAgent c) = forget (agent_request E c)"
| "handle_request B E (RqSubsystem c name) = subsystem_request B E c name"
| "handle_request B E (RqDirectTcpip c host port) = forget (channel_open_direct_tcpip E c host port)"
| "handle_request B E (RqForward address port) = forget (tcpip_forward E address port)"
| "handle_request B E (RqCancelForward address port) = forget (cancel_tcpip_forward E address port)"

text \<open>A session ends with the first error.\<close>

fun run_requests :: "'k fixture_behavior \<Rightarrow> 'k fixture_env \<Rightarrow> 'k fixture_request list \<Rightarrow> fixture_state \<Rightarrow> fixture_state" where
  "run_requests B E [] s = s"
| "run_requests B E (q # qs) s =
     (case handle_request B E q s of (Inl e, s') \<Rightarrow> s' | (Inr _, s') \<Rightarrow> run_requests B E qs s')"

fun opened_by :: "'k fixture_request \<Rightarrow> channel_id list" where
  "opened_by (RqOpenSession c) = [c]"
| "opened_by _ = []"

definition sessions_opened :: "'k fixture_request list \<Rightarrow> channel_id list" where
  "sessions_opened qs = concat (map opened_by qs)"

section \<open>The invariant\<close>

definition loopback_addr :: "socket_addr \<Rightarrow> bool" where
  "loopback_addr a = is_loopback (fst a)"

text \<open>A task works on the configured root or on loopback addresses only.\<close>

fun task_ok :: "tpath \<Rightarrow> fixture_task \<Rightarrow> bool" where
  "task_ok root (ServeScp c r request) = (r = root)"
| "task_ok root (ServeSftp c r) = (r = root)"
| "task_ok root (BridgeDirect c addrs) = list_all loopback_addr addrs"
| "task_ok root (ListenRemote address port listener) = loopback_addr listener"

fun effect_ok :: "tpath \<Rightarrow> fixture_effect \<Rightarrow> bool" where
  "effect_ok root (Spawned t) = task_ok root t"
| "effect_ok root (SpawnRefused t) = task_ok root t"
| "effect_ok root (Connecting addrs) = list_all loopback_addr addrs"
| "effect_ok root (Binding a) = loopback_addr a"
| "effect_ok root (AskedAddress a) = loopback_addr a"
| "effect_ok root _ = True"

text \<open>The channels that file services have been started on.\<close>

fun served_by :: "fixture_effect \<Rightarrow> channel_id list" where
  "served_by (Spawned (ServeScp c r request)) = [c]"
| "served_by (Spawned (ServeSftp c r)) = [c]"
| "served_by _ = []"

definition served :: "fixture_effect list \<Rightarrow> channel_id list" where
  "served log = concat (map served_by log)"

definition session_ok :: "tpath \<Rightarrow> fixture_state \<Rightarrow> bool" where
  "session_ok root s \<longleftrightarrow> list_all (effect_ok root) (fs_log s) \<and> (\<forall>c. length (buffer_of s c) \<le> MAX_SHELL_COMMAND)"

text \<open>The channels served or waiting to be served: only opening a channel adds one.\<close>

definition held :: "fixture_state \<Rightarrow> channel_id multiset" where
  "held s = mset (served (fs_log s)) + mset_set (fs_channels s)"

definition held_less :: "fixture_state \<Rightarrow> fixture_state \<Rightarrow> bool" where
  "held_less s s' \<longleftrightarrow> held s' \<subseteq># held s"

interpretation fixture: guarded_runs "session_ok root" held_less for root
  by unfold_locales (auto simp: held_less_def)

abbreviation keeps_session :: "tpath \<Rightarrow> 'a handler \<Rightarrow> bool" where
  "keeps_session root m \<equiv> fixture.guarded root (\<lambda>_. True) m (\<lambda>_ _. True)"

named_theorems kept \<open>programs of the handler that keep the invariant of a session\<close>

lemma served_simps [simp]: "served [] = []" "served (e # es) = served_by e @ served es" "served (es @ fs) = served es @ served fs"
  by (simp_all add: served_def)

lemma buffer_of_update [simp]: "buffer_of (s\<lparr>fs_log := x\<rparr>) c = buffer_of s c"
  "buffer_of (s\<lparr>fs_events := y\<rparr>) c = buffer_of s c" "buffer_of (s\<lparr>fs_channels := z\<rparr>) c = buffer_of s c"
  "buffer_of (s\<lparr>fs_shells := z\<rparr>) c = buffer_of s c" "buffer_of (s\<lparr>fs_forwards := f\<rparr>) c = buffer_of s c"
  by (simp_all add: buffer_of_def)

lemma kept_then [kept]:
  assumes "keeps_session root m" and "\<And>v. keeps_session root (k v)"
  shows "keeps_session root (do_then m k)"
  by (rule fixture.guarded_then [OF assms(1)]) (use assms(2) in simp)

lemma kept_ret [kept]: "keeps_session root (do_ret v)"
  by (simp add: fixture.guarded_ret)

lemma kept_fail [kept]: "keeps_session root (\<lambda>s. (Err e, s))"
  by (rule fixture.guardedI) (auto simp: held_less_def)

lemma kept_effect [kept]: "effect_ok root e \<Longrightarrow> served_by e = [] \<Longrightarrow> keeps_session root (effect e)"
  by (rule fixture.guardedI) (auto simp: effect_def session_ok_def held_less_def held_def)

lemma kept_logged [kept]:
  "keeps_session root (record_event ev)" "keeps_session root (call E c)"
  "list_all loopback_addr addrs \<Longrightarrow> keeps_session root (tcp_connect E addrs)"
  "loopback_addr a \<Longrightarrow> keeps_session root (tcp_bind E a)"
  "loopback_addr a \<Longrightarrow> keeps_session root (local_port E a)"
  "keeps_session root (await_completion E t)"
  by (rule fixture.guardedI; auto simp: record_event_def call_def tcp_connect_def tcp_bind_def local_port_def
      await_completion_def session_ok_def held_less_def held_def)+

lemma kept_spawn [kept]:
  "task_ok root t \<Longrightarrow> served_by (Spawned t) = [] \<Longrightarrow> keeps_session root (tracker_spawn E t)"
  by (rule fixture.guardedI) (auto simp: tracker_spawn_def session_ok_def held_less_def held_def split: if_splits)

lemma kept_put_buffer [kept]: "length b \<le> MAX_SHELL_COMMAND \<Longrightarrow> keeps_session root (put_buffer c b)"
  by (rule fixture.guardedI) (auto simp: put_buffer_def session_ok_def held_less_def held_def buffer_of_def)

text \<open>Parts of the state that the invariant does not look at may change first.\<close>

lemma kept_on:
  assumes "keeps_session root m" and "\<And>s. session_ok root s \<Longrightarrow> session_ok root (f s) \<and> held (f s) \<subseteq># held s"
  shows "keeps_session root (\<lambda>s. m (f s))"
proof (rule fixture.guardedI)
  fix s r s'
  assume run: "m (f s) = (r, s')" and s: "session_ok root s"
  then show "session_ok root s' \<and> held_less s s' \<and> (\<forall>v. r = Ok v \<longrightarrow> True)"
    using fixture.guardedD [OF assms(1) run] assms(2) [OF s]
    by (auto simp: held_less_def intro: subset_mset.order_trans)
qed

text \<open>A program may be chosen by the state it starts in.\<close>

lemma kept_choice:
  assumes "\<And>x. keeps_session root (F x)" and "\<And>s. m s = F s s"
  shows "keeps_session root m"
  using assms(1) unfolding fixture.guarded_def by (metis assms(2))

text \<open>Starting a service takes the channel from the open ones.\<close>

lemma kept_serve:
  assumes "task_ok root t" and "served_by (Spawned t) = [c]" and m: "keeps_session root m"
  shows "keeps_session root (\<lambda>s. if c \<in> fs_channels s
      then do_then (call E (ChannelSuccess c)) (\<lambda>_. do_then (tracker_spawn E t) (\<lambda>_. do_ret ()))
             (s\<lparr>fs_channels := fs_channels s - {c}\<rparr>)
      else m s)"
proof (rule fixture.guardedI)
  fix s r s'
  assume run: "(if c \<in> fs_channels s
      then do_then (call E (ChannelSuccess c)) (\<lambda>_. do_then (tracker_spawn E t) (\<lambda>_. do_ret ()))
             (s\<lparr>fs_channels := fs_channels s - {c}\<rparr>) else m s) = (r, s')" and s: "session_ok root s"
  show "session_ok root s' \<and> held_less s s' \<and> (\<forall>v. r = Ok v \<longrightarrow> True)"
  proof (cases "c \<in> fs_channels s")
    case True
    then have "mset_set (fs_channels s) = add_mset c (mset_set (fs_channels s - {c}))"
      by (simp add: mset_set.remove)
    with run True s assms(1,2) show ?thesis
      by (auto simp: do_then_def do_ret_def call_def tracker_spawn_def session_ok_def held_less_def held_def
          split: if_splits sum.splits)
  qed (use run s fixture.guardedD [OF m] in auto)
qed

section \<open>Every request keeps it\<close>

lemma kept_delayed [kept]: "keeps_session root (delayed d)"
  by (auto simp: delayed_def intro!: kept split: option.splits)

lemma kept_forget [kept]: "keeps_session root m \<Longrightarrow> keeps_session root (forget m)"
  unfolding forget_def by (intro kept)

lemma kept_finish_command [kept]: "keeps_session root (finish_command E c outcome)"
  unfolding finish_command_def Let_def by (auto intro!: kept split: command_termination.splits)

lemma kept_forward_task [kept]: "keeps_session root (forward_task_drop t)" "keeps_session root (forward_task_stop E t)"
  unfolding forward_task_stop_def forward_task_drop_def by (auto intro!: kept)

lemma kept_bind_from [kept]: "list_all loopback_addr addrs \<Longrightarrow> keeps_session root (bind_from E e addrs)"
  by (induction addrs arbitrary: e) (auto intro!: kept split: sum.splits)

lemma bind_from_result:
  "bind_from E e addrs s = (Ok (Ok a), s') \<Longrightarrow> a \<in> set addrs"
  by (induction addrs arbitrary: e s) (auto simp: do_then_def do_ret_def tcp_bind_def split: sum.splits)

lemma requested_loopback:
  "requested_endpoint host port = Some e \<Longrightarrow> list_all loopback_addr (socket_addrs e)"
  using endpoint_loopback
  by (fastforce simp: requested_endpoint_def list_all_iff loopback_addr_def split: sum.splits bind_splits)

lemma kept_auth [kept]: "keeps_session root (auth_publickey B E user key)" "keeps_session root (server_auth_password B user pw)"
  unfolding auth_publickey_def server_auth_password_def Let_def by (auto intro!: kept)

lemma kept_simple [kept]: "keeps_session root (pty_request E c t w h pw ph)"
  "keeps_session root (window_change_request w h pw ph)" "keeps_session root (agent_request E c)"
  unfolding pty_request_def window_change_request_def agent_request_def by (auto intro!: kept)

lemma kept_close [kept]: "keeps_session root (channel_close c)"
  by (rule fixture.guardedI)
     (auto simp: channel_close_def session_ok_def held_less_def held_def buffer_of_def split: if_splits
       intro!: subset_imp_msubset_mset_set)

lemma kept_shell_request [kept]: "keeps_session root (shell_request E c)"
proof -
  have "keeps_session root (\<lambda>s. do_then (put_buffer c (buffer_of s c)) (\<lambda>_. call E (ChannelSuccess c))
      (s\<lparr>fs_shells := insert c (fs_shells s)\<rparr>))"
    by (rule fixture.guardedI) (auto simp: do_then_def put_buffer_def call_def session_ok_def held_less_def held_def
        buffer_of_def split: if_splits option.splits)
  then show ?thesis unfolding shell_request_def by (intro kept)
qed

lemma kept_exec [kept]: "keeps_session (fb_sftp_root B) (exec_request B E c data)"
  unfolding exec_request_def Let_def
  by (auto intro!: kept kept_serve split: option.splits)

lemma kept_subsystem [kept]: "keeps_session (fb_sftp_root B) (subsystem_request B E c name)"
proof -
  have "keeps_session (fb_sftp_root B) (do_then (record_event ev) (\<lambda>_ s. if acc then (if c \<in> fs_channels s
      then do_then (call E (ChannelSuccess c)) (\<lambda>_. do_then (tracker_spawn E (ServeSftp c (fb_sftp_root B))) (\<lambda>_. do_ret ()))
             (s\<lparr>fs_channels := fs_channels s - {c}\<rparr>)
      else (Err Inconsistent, s)) else call E (ChannelFailure c) s))" for ev acc
    by (cases acc) (auto intro!: kept kept_serve)
  then show ?thesis by (rule kept_choice) (simp add: subsystem_request_def Let_def)
qed

lemma kept_direct_tcpip [kept]: "keeps_session root (channel_open_direct_tcpip E c host port)"
proof (cases "requested_endpoint host port")
  case (Some e)
  then show ?thesis unfolding channel_open_direct_tcpip_def Let_def
    using requested_loopback [OF Some] by (auto intro!: kept)
qed (auto intro!: kept simp: channel_open_direct_tcpip_def)

lemma kept_insert_forward [kept]: "keeps_session root (insert_forward key t)"
proof -
  have "keeps_session root (\<lambda>s. (case old of None \<Rightarrow> do_ret () | Some x \<Rightarrow> forward_task_drop x)
      (s\<lparr>fs_forwards := (fs_forwards s)(key \<mapsto> t)\<rparr>))" for old
    by (rule kept_on) (auto intro!: kept simp: session_ok_def held_def split: option.splits)
  then show ?thesis by (rule kept_choice) (simp add: insert_forward_def)
qed

lemma kept_refuse [kept]: "keeps_session root (refuse_forward address port)"
  unfolding refuse_forward_def by (intro kept)

lemma kept_tcpip_forward [kept]: "keeps_session root (tcpip_forward E address port)"
proof (cases "requested_endpoint address port")
  case None
  then show ?thesis by (simp add: tcpip_forward_def kept)
next
  case (Some e)
  note lo = requested_loopback [OF Some]
  let ?then = "\<lambda>listener. do_then (local_port E listener) (\<lambda>p. do_then (tracker_spawn E (ListenRemote address (ucast p) listener)) (\<lambda>task.
     case task of None \<Rightarrow> refuse_forward address port
     | Some t \<Rightarrow> do_then (insert_forward (address, ucast p) t) (\<lambda>_.
         do_then (record_event (SevRemoteForward address (ucast p) True)) (\<lambda>_. do_ret (True, ucast p)))))"
  have bind: "fixture.guarded root (\<lambda>_. True) (bind_first E (socket_addrs e))
      (\<lambda>r _. \<forall>a. r = Ok a \<longrightarrow> loopback_addr a)"
  proof (rule fixture.guardedI)
    fix s r s'
    assume run: "bind_first E (socket_addrs e) s = (r, s')" and s: "session_ok root s"
    from fixture.guardedD [OF kept_bind_from [OF lo] run [unfolded bind_first_def] s]
    show "session_ok root s' \<and> held_less s s' \<and> (\<forall>v. r = Ok v \<longrightarrow> (\<forall>a. v = Ok a \<longrightarrow> loopback_addr a))"
      using bind_from_result [of E None "socket_addrs e" s] run lo by (auto simp: bind_first_def list_all_iff)
  qed
  have rest: "loopback_addr a \<Longrightarrow> keeps_session root (?then a)" for a
    by (auto intro!: kept split: option.splits)
  have "fixture.guarded root (\<lambda>_. True) (do_then (bind_first E (socket_addrs e)) (\<lambda>r.
      case r of Inl _ \<Rightarrow> refuse_forward address port | Inr a \<Rightarrow> ?then a)) (\<lambda>_ _. True)"
  proof (rule fixture.guarded_then [OF bind])
    fix r :: "(socket_addr, io_err) result"
    show "fixture.guarded root (\<lambda>_. \<forall>a. r = Ok a \<longrightarrow> loopback_addr a)
        (case r of Inl _ \<Rightarrow> refuse_forward address port | Inr a \<Rightarrow> ?then a) (\<lambda>_ _. True)"
      using rest kept_refuse by (cases r) (auto simp: fixture.guarded_def)
  qed
  then show ?thesis by (simp add: tcpip_forward_def Some Let_def)
qed

lemma kept_cancel_forward [kept]: "keeps_session root (cancel_tcpip_forward E address port)"
proof -
  have "keeps_session root (\<lambda>s. do_then (forward_task_stop E t) (\<lambda>_.
      do_then (record_event (SevRemoteForwardCancelled address port True)) (\<lambda>_. do_ret True))
        (s\<lparr>fs_forwards := (fs_forwards s)((address, port) := None)\<rparr>))" for t
    by (rule kept_on) (auto intro!: kept simp: session_ok_def held_def)
  note stop = this
  let ?F = "\<lambda>x. case fs_forwards x (address, port) of
      None \<Rightarrow> do_then (record_event (SevRemoteForwardCancelled address port False)) (\<lambda>_. do_ret False)
    | Some t \<Rightarrow> (\<lambda>s. do_then (forward_task_stop E t) (\<lambda>_.
      do_then (record_event (SevRemoteForwardCancelled address port True)) (\<lambda>_. do_ret True))
        (s\<lparr>fs_forwards := (fs_forwards s)((address, port) := None)\<rparr>))"
  show ?thesis
  proof (rule kept_choice [where F = ?F])
    fix x
    show "keeps_session root (?F x)" using stop by (cases "fs_forwards x (address, port)") (auto intro!: kept)
  qed (simp add: cancel_tcpip_forward_def split: option.splits)
qed

text \<open>Every command ends its shell.\<close>

lemma closes [simp]: "cm_closes (configured_command command commands)"
  by (simp add: configured_command_def outcome_accepted_def outcome_rejected_def split: option.splits)

text \<open>A line of a shell runs one command, after which the shell is gone.\<close>

lemma shell_lines_once:
  "shell_lines B E c buffer s = (case drain_line buffer of
     None \<Rightarrow> (Ok (), s)
   | Some (line, rest) \<Rightarrow>
       (let command = to_string_lossy (str_of_bytes (strip_line_end line));
            outcome = configured_command command (fb_commands B)
        in do_then (put_buffer c rest) (\<lambda>_.
           do_then (record_event (SevExec command (cm_accepted outcome))) (\<lambda>_.
           do_then (finish_command E c outcome) (\<lambda>_ s. (Ok (), s\<lparr>fs_shells := fs_shells s - {c}\<rparr>)))) s))"
  by (subst shell_lines.simps) (auto simp: do_then_def Let_def split: option.splits prod.splits sum.splits)

lemma kept_leave_shell [kept]: "keeps_session root (\<lambda>s. (Ok (), s\<lparr>fs_shells := fs_shells s - {c}\<rparr>))"
  by (rule fixture.guardedI) (auto simp: session_ok_def held_less_def held_def)

lemma kept_shell_lines:
  assumes "length buffer \<le> MAX_SHELL_COMMAND"
  shows "keeps_session root (shell_lines B E c buffer)"
proof (cases "drain_line buffer")
  case None
  then have "shell_lines B E c buffer = do_ret ()" by (intro ext) (simp add: shell_lines_once do_ret_def)
  then show ?thesis by (simp add: kept_ret)
next
  case (Some lr)
  obtain line rest where lr: "lr = (line, rest)" by (cases lr)
  with Some assms have "length rest \<le> MAX_SHELL_COMMAND" using drain_line_shorter by force
  then have "keeps_session root (do_then (put_buffer c rest) (\<lambda>_. do_then (record_event ev) (\<lambda>_.
      do_then (finish_command E c outcome) (\<lambda>_ s. (Ok (), s\<lparr>fs_shells := fs_shells s - {c}\<rparr>)))))" for ev outcome
    by (intro kept)
  then show ?thesis by (rule kept_choice [where F = "\<lambda>_. _"]) (simp add: shell_lines_once Some lr Let_def)
qed

lemma kept_shell_data [kept]: "keeps_session root (shell_data B E c data)"
proof -
  let ?F = "\<lambda>x. if c \<notin> fs_shells x then do_ret ()
      else if MAX_SHELL_COMMAND < length (buffer_of x c) + length data
      then do_then (put_buffer c []) (\<lambda>_. finish_command E c outcome_rejected)
      else do_then (put_buffer c (buffer_of x c @ data)) (\<lambda>_. shell_lines B E c (buffer_of x c @ data))"
  show ?thesis
    by (rule kept_choice [where F = ?F]) (auto intro!: kept kept_shell_lines simp: shell_data_def do_ret_def)
qed

text \<open>Only opening a session adds a channel.\<close>

lemma open_session_effects:
  assumes "session_ok root s" and "channel_open_session B c s = (r, s')"
  shows "session_ok root s' \<and> held s' \<subseteq># add_mset c (held s)"
proof -
  have sub: "mset_set (insert c A) \<subseteq># add_mset c (mset_set A)" for A :: "channel_id set"
    by (cases "c \<in> A") (simp_all add: insert_absorb)
  from assms show ?thesis
    by (auto simp: channel_open_session_def delayed_def do_then_def do_ret_def effect_def record_event_def session_ok_def
        held_def sub split: option.splits)
qed

lemma handle_request_keeps:
  assumes "session_ok (fb_sftp_root B) s" and "handle_request B E q s = (r, s')"
  shows "session_ok (fb_sftp_root B) s' \<and> held s' \<subseteq># held s + mset (opened_by q)"
proof (cases "\<exists>c. q = RqOpenSession c")
  case True
  with assms open_session_effects show ?thesis
    by (fastforce simp: forget_def do_then_def do_ret_def split: prod.splits sum.splits)
next
  case False
  then have "keeps_session (fb_sftp_root B) (handle_request B E q)" by (cases q) (auto intro: kept)
  moreover have "opened_by q = []" using False by (cases q) auto
  ultimately show ?thesis using fixture.guardedD assms by (fastforce simp: held_less_def)
qed

lemma run_requests_keeps:
  "session_ok (fb_sftp_root B) s \<Longrightarrow>
   session_ok (fb_sftp_root B) (run_requests B E qs s) \<and> held (run_requests B E qs s) \<subseteq># held s + mset (sessions_opened qs)"
proof (induction qs arbitrary: s)
  case (Cons q qs)
  obtain r s1 where h: "handle_request B E q s = (r, s1)" by fastforce
  note step = handle_request_keeps [OF Cons.prems h]
  show ?case
  proof (cases r)
    case (Inl e)
    have "held s + mset (opened_by q) \<subseteq># held s + mset (sessions_opened (q # qs))" by (simp add: sessions_opened_def)
    with step h Inl show ?thesis by (auto intro: subset_mset.order_trans)
  next
    case (Inr v)
    with step h Cons.IH [of s1] show ?thesis
      by (auto simp: sessions_opened_def) (metis (no_types, lifting) subset_mset.add_right_mono subset_mset.order_trans union_assoc)
  qed
qed (simp add: sessions_opened_def)

lemma session_start_ok: "session_ok root (clone_for_session events)" "held (clone_for_session events) = {#}"
  by (simp_all add: session_ok_def clone_for_session_def buffer_of_def held_def)

section \<open>Commands and their answers\<close>

lemma finish_command_state:
  "finish_command E c outcome s = (r, s') \<Longrightarrow> fs_events s' = fs_events s \<and> fs_shells s' = fs_shells s \<and> fs_buffers s' = fs_buffers s"
  by (auto simp: finish_command_def do_then_def do_ret_def call_def Let_def
      split: if_splits sum.splits prod.splits command_termination.splits)

fun is_exec :: "ssh_event \<Rightarrow> bool" where
  "is_exec (SevExec command accepted) = True"
| "is_exec _ = False"

definition execs :: "fixture_state \<Rightarrow> nat" where
  "execs s = length (filter is_exec (fs_events s))"

lemma shell_lines_execs: "execs (snd (shell_lines B E c buffer s)) \<le> Suc (execs s)"
proof (cases "drain_line buffer")
  case None
  then show ?thesis by (simp add: shell_lines_once)
next
  case (Some lr)
  then show ?thesis using finish_command_state
    by (cases lr) (fastforce simp: shell_lines_once Let_def do_then_def put_buffer_def record_event_def execs_def
        split: prod.splits sum.splits)
qed

lemma shell_data_execs: "execs (snd (shell_data B E c data s)) \<le> Suc (execs s)"
proof -
  have "execs (snd (finish_command E c outcome_rejected s')) = execs s'" for s'
    using finish_command_state [of E c outcome_rejected s'] by (cases "finish_command E c outcome_rejected s'") (simp add: execs_def)
  moreover have "execs (s\<lparr>fs_buffers := b\<rparr>) = execs s" for b by (simp add: execs_def)
  ultimately show ?thesis
    using shell_lines_execs [of B E c "buffer_of s c @ data" "s\<lparr>fs_buffers := (fs_buffers s)(c \<mapsto> buffer_of s c @ data)\<rparr>"]
    by (simp add: shell_data_def do_then_def put_buffer_def)
qed

text \<open>The session accepts what it is told.\<close>

definition session_accepts :: "'k fixture_env \<Rightarrow> bool" where
  "session_accepts E \<longleftrightarrow> (\<forall>log c. fe_call E log c = Ok ())"

lemma accepted_call: "session_accepts E \<Longrightarrow> call E c s = (Ok (), s\<lparr>fs_log := fs_log s @ [Called c]\<rparr>)"
  by (simp add: session_accepts_def call_def)

text \<open>The calls that finish a command, in order.\<close>

definition answer_calls :: "channel_id \<Rightarrow> command_outcome \<Rightarrow> session_call list" where
  "answer_calls c outcome =
     (if cm_accepted outcome then ChannelSuccess c else ChannelFailure c) #
     (if cm_stdout outcome \<noteq> [] then [SessionData c (cm_stdout outcome)] else []) @
     (if cm_stderr outcome \<noteq> [] then [SessionExtendedData c 1 (cm_stderr outcome)] else []) @
     (case cm_termination outcome of
        TermStatus status \<Rightarrow> [ExitStatusRequest c status, SessionEof c, SessionClose c]
      | TermStall \<Rightarrow> []
      | TermSignal signal core_dumped message \<Rightarrow>
          [ExitSignalRequest c signal core_dumped message [], SessionEof c, SessionClose c])"

lemma finish_command_calls:
  assumes "session_accepts E"
  shows "finish_command E c outcome s = (Ok (), s\<lparr>fs_log := fs_log s @ map Called (answer_calls c outcome)\<rparr>)"
  by (cases "cm_termination outcome")
     (simp_all add: finish_command_def answer_calls_def do_then_def do_ret_def accepted_call [OF assms])

text \<open>What the channel of the client may receive for the calls on the channel of the server, which is the
  library's business: the messages come in the order of the calls, except that an exit status or signal
  may overtake data that waits for the window; data is cut into any pieces that are not empty; messages
  that concern neither output nor exit, and polls without a message, come at any time.\<close>

fun is_data_call :: "session_call \<Rightarrow> bool" where
  "is_data_call (SessionData c data) = True"
| "is_data_call (SessionExtendedData c ext data) = True"
| "is_data_call _ = False"

inductive carried :: "session_call list \<Rightarrow> read_wake list \<Rightarrow> bool" where
  nothing: "carried [] []"
| idle: "carried cs ws \<Longrightarrow> carried cs (WakePending # ws)"
| other: "carried cs ws \<Longrightarrow> carried cs (WakeMessage MsgOther # ws)"
| success: "carried cs ws \<Longrightarrow> carried (ChannelSuccess c # cs) (WakeMessage MsgOther # ws)"
| failure: "carried cs ws \<Longrightarrow> carried (ChannelFailure c # cs) (WakeMessage MsgOther # ws)"
| data_done: "carried cs ws \<Longrightarrow> carried (SessionData c [] # cs) ws"
| data: "carried (SessionData c rest # cs) ws \<Longrightarrow> piece \<noteq> [] \<Longrightarrow>
    carried (SessionData c (piece @ rest) # cs) (WakeMessage (MsgData piece) # ws)"
| extended_done: "carried cs ws \<Longrightarrow> carried (SessionExtendedData c ext [] # cs) ws"
| extended: "carried (SessionExtendedData c ext rest # cs) ws \<Longrightarrow> piece \<noteq> [] \<Longrightarrow>
    carried (SessionExtendedData c ext (piece @ rest) # cs) (WakeMessage (MsgExtendedData piece ext) # ws)"
| status: "carried (ds @ cs) ws \<Longrightarrow> list_all is_data_call ds \<Longrightarrow>
    carried (ds @ ExitStatusRequest c code # cs) (WakeMessage (MsgExitStatus code) # ws)"
| signal: "carried (ds @ cs) ws \<Longrightarrow> list_all is_data_call ds \<Longrightarrow>
    carried (ds @ ExitSignalRequest c signal core_dumped message lang # cs)
      (WakeMessage (MsgExitSignal signal core_dumped message lang) # ws)"
| eof: "carried cs ws \<Longrightarrow> carried (SessionEof c # cs) (WakeMessage MsgEof # ws)"
| closed: "carried cs ws \<Longrightarrow> carried (SessionClose c # cs) (WakeMessage MsgClose # ws)"

text \<open>The library as a parameter: what a client receives when the server makes some calls.\<close>

definition carries_calls :: "(session_call list \<Rightarrow> read_wake list) \<Rightarrow> bool" where
  "carries_calls transport \<longleftrightarrow> (\<forall>calls. carried calls (transport calls))"

text \<open>The output and the exit metadata that calls announce, up to the close.\<close>

fun calls_output :: "session_call list \<Rightarrow> bytes" where
  "calls_output [] = []"
| "calls_output (SessionData c data # cs) = data @ calls_output cs"
| "calls_output (SessionExtendedData c ext data # cs) = data @ calls_output cs"
| "calls_output (SessionClose c # cs) = []"
| "calls_output (_ # cs) = calls_output cs"

fun calls_result :: "ssh_session_result \<Rightarrow> session_call list \<Rightarrow> ssh_session_result" where
  "calls_result res [] = res"
| "calls_result res (ExitStatusRequest c code # cs) = calls_result (snd (apply_channel_message res (MsgExitStatus code))) cs"
| "calls_result res (ExitSignalRequest c signal core_dumped message lang # cs) =
     calls_result (snd (apply_channel_message res (MsgExitSignal signal core_dumped message lang))) cs"
| "calls_result res (SessionClose c # cs) = res"
| "calls_result res (_ # cs) = calls_result res cs"

lemma calls_overtaken:
  assumes "list_all is_data_call ds"
  shows "calls_output (ds @ ExitStatusRequest c code # cs) = calls_output (ds @ cs)"
    "calls_output (ds @ ExitSignalRequest c signal core_dumped message lang # cs) = calls_output (ds @ cs)"
    "calls_result res (ds @ x # cs) = calls_result res (x # cs)" "calls_result res (ds @ cs) = calls_result res cs"
  using assms by (induction ds rule: calls_output.induct) simp_all

lemma carried_calls:
  assumes "carried calls ws"
  shows "upcoming ws = calls_output calls" "upcoming_result res ws = calls_result res calls"
    "list_all (\<lambda>w. \<not> empty_data w) ws"
proof -
  from assms have "upcoming ws = calls_output calls \<and> (\<forall>res. upcoming_result res ws = calls_result res calls) \<and>
      list_all (\<lambda>w. \<not> empty_data w) ws"
    by induction (simp_all add: calls_overtaken)
  then show "upcoming ws = calls_output calls" "upcoming_result res ws = calls_result res calls"
    "list_all (\<lambda>w. \<not> empty_data w) ws" by simp_all
qed

text \<open>The exit metadata a client is meant to see.\<close>

definition announced :: "command_termination \<Rightarrow> ssh_session_result" where
  "announced t =
     (case t of
        TermStatus status \<Rightarrow> \<lparr>exit_status = Some status, exit_signal = None\<rparr>
      | TermStall \<Rightarrow> \<lparr>exit_status = None, exit_signal = None\<rparr>
      | TermSignal signal core_dumped message \<Rightarrow>
          \<lparr>exit_status = None, exit_signal = Some \<lparr>signal_name = signal_name_text signal,
             signal_core_dumped = core_dumped, signal_error_message = message, signal_lang_tag = []\<rparr>\<rparr>)"

lemma answer_announced:
  "calls_output (answer_calls c outcome) = cm_stdout outcome @ cm_stderr outcome"
  "calls_result session_result_default (answer_calls c outcome) = announced (cm_termination outcome)"
  by (cases "cm_termination outcome"; simp add: answer_calls_def session_result_default_def announced_def)+

lemma carried_answer:
  fixes c :: channel_id and outcome :: command_outcome and transport :: "session_call list \<Rightarrow> read_wake list"
  assumes "carries_calls transport"
  defines "r \<equiv> channel_reader_new (transport (answer_calls c outcome)) None"
  shows "no_empty_data r" "remaining_output r = cm_stdout outcome @ cm_stderr outcome"
    "final_result r = announced (cm_termination outcome)"
proof -
  have "carried (answer_calls c outcome) (transport (answer_calls c outcome))"
    using assms(1) by (simp add: carries_calls_def)
  from carried_calls [OF this] answer_announced show "no_empty_data r"
    "remaining_output r = cm_stdout outcome @ cm_stderr outcome" "final_result r = announced (cm_termination outcome)"
    by (simp_all add: r_def channel_reader_new_def no_empty_data_def remaining_output_def final_result_def)
qed

section \<open>Properties\<close>

text \<open>C16. The fixture server is confined, whatever requests its clients send and however its
  environment behaves: it connects to, binds and forwards loopback addresses only; the SCP and
  SFTP services it starts work on the configured root; and a channel is given to at most one
  such service for each time it was opened as a session.\<close>

theorem fixture_server_confined:
  "let s = run_requests B E qs (clone_for_session events) in
     list_all (effect_ok (fb_sftp_root B)) (fs_log s) \<and> mset (served (fs_log s)) \<subseteq># mset (sessions_opened qs)"
proof -
  let ?s = "run_requests B E qs (clone_for_session events)"
  have "session_ok (fb_sftp_root B) ?s" "held ?s \<subseteq># mset (sessions_opened qs)"
    using run_requests_keeps [of B "clone_for_session events" E qs, OF session_start_ok(1)] session_start_ok(2) [of events] by auto
  moreover have "mset (served (fs_log ?s)) \<subseteq># held ?s" by (simp add: held_def)
  ultimately show ?thesis unfolding Let_def session_ok_def by (meson subset_mset.order_trans)
qed

text \<open>C36. The input of a shell is bounded and runs one command at a time: after any requests, no
  channel has more than 4096 bytes of input waiting; and one data message runs at most one
  command, in any state.\<close>

theorem shell_input_bounded:
  "length (buffer_of (run_requests B E qs (clone_for_session events)) c) \<le> 4096 \<and>
   execs (snd (shell_data B E c' data s)) \<le> Suc (execs s)"
  using run_requests_keeps [of B "clone_for_session events" E qs, OF session_start_ok(1)] shell_data_execs
  by (simp add: session_ok_def MAX_SHELL_COMMAND_def)

text \<open>C17. A client sees exactly the configured answer of a command. When the session accepts the
  handler's calls, a command that is not an SCP command adds one event and the calls of its
  answer, in order; and over every transport that carries calls the way SSH channels do (in order,
  exit metadata possibly ahead of waiting data, data in pieces that are not empty, other messages
  anywhere in between) the reader of the client will deliver the standard output, then the standard
  error, of the answer, with no empty message, and report its exit status or signal.\<close>

theorem command_answer_observed:
  assumes "session_accepts E" and "to_string_lossy (str_of_bytes data) = command" and "parse_scp_request command = None"
    and "carries_calls transport"
  shows "\<exists>calls. let outcome = configured_command command (fb_commands B);
             s' = snd (exec_request B E c data s);
             r = channel_reader_new (transport calls) None
    in fst (exec_request B E c data s) = Ok () \<and>
       fs_events s' = fs_events s @ [SevExec command (cm_accepted outcome)] \<and>
       fs_log s' = fs_log s @ map Called calls \<and>
       hd calls = (if cm_accepted outcome then ChannelSuccess c else ChannelFailure c) \<and>
       no_empty_data r \<and> remaining_output r = cm_stdout outcome @ cm_stderr outcome \<and>
       final_result r = announced (cm_termination outcome)"
proof -
  let ?outcome = "configured_command command (fb_commands B)"
  have "hd (answer_calls c ?outcome) = (if cm_accepted ?outcome then ChannelSuccess c else ChannelFailure c)"
    by (simp add: answer_calls_def)
  with assms(2,3) carried_answer [OF assms(4), of c ?outcome] show ?thesis
    by (intro exI [of _ "answer_calls c ?outcome"])
      (simp add: exec_request_def do_then_def record_event_def finish_command_calls [OF assms(1)] Let_def)
qed

text \<open>Input that is too long is rejected and its channel closed, but unlike after a command the
  channel keeps its shell: a later line is still run, and answered after the close.\<close>

theorem rejected_shell_continues:
  assumes "session_accepts E" and "c \<in> fs_shells s" and "4096 < length (buffer_of s c) + length data"
  shows "let s1 = snd (shell_data B E c data s);
             outcome = configured_command (to_string_lossy ''exit 0'') (fb_commands B)
    in fs_log s1 = fs_log s @ map Called (answer_calls c outcome_rejected) \<and>
       last (answer_calls c outcome_rejected) = SessionClose c \<and> c \<in> fs_shells s1 \<and>
       fs_log (snd (shell_data B E c (as_bytes ''exit 0'' @ [10]) s1)) = fs_log s1 @ map Called (answer_calls c outcome)"
proof -
  let ?s1 = "s\<lparr>fs_buffers := (fs_buffers s)(c \<mapsto> []), fs_log := fs_log s @ map Called (answer_calls c outcome_rejected)\<rparr>"
  have s1: "shell_data B E c data s = (Ok (), ?s1)"
    using assms by (simp add: shell_data_def MAX_SHELL_COMMAND_def do_then_def put_buffer_def finish_command_calls)
  have line: "drain_line (as_bytes ''exit 0'' @ [10]) = Some (as_bytes ''exit 0'' @ [10], [])"
    "str_of_bytes (strip_line_end (as_bytes ''exit 0'' @ [10])) = ''exit 0''" by code_simp+
  have "fs_log (snd (shell_lines B E c (as_bytes ''exit 0'' @ [10]) t)) =
      fs_log t @ map Called (answer_calls c (configured_command (to_string_lossy ''exit 0'') (fb_commands B)))" for t
    by (simp add: shell_lines_once line do_then_def put_buffer_def record_event_def finish_command_calls [OF assms(1)] Let_def)
  then have "fs_log (snd (shell_data B E c (as_bytes ''exit 0'' @ [10]) ?s1)) = fs_log ?s1 @
      map Called (answer_calls c (configured_command (to_string_lossy ''exit 0'') (fb_commands B)))"
    using assms(2) by (simp add: shell_data_def MAX_SHELL_COMMAND_def do_then_def put_buffer_def buffer_of_def as_bytes_def)
  with s1 assms(2) show ?thesis by (simp add: Let_def answer_calls_def outcome_rejected_def)
qed

definition demo_behavior :: "string fixture_behavior" where
  "demo_behavior = build_fixture_handler
     (builder_command ''uptime'' (response_status [1, 2] [3] 7) server_builder_default) ''agent key'' [''srv'']"

definition demo_fixture_env :: "string fixture_env" where
  "demo_fixture_env = \<lparr>fe_fingerprint = (\<lambda>k. k), fe_call = (\<lambda>_ _. Ok ()), fe_connect = (\<lambda>_ _. True),
     fe_bind = (\<lambda>_ _. Ok ()), fe_local_port = (\<lambda>_ _. Ok 2222), fe_closed = (\<lambda>_. False), fe_completes = (\<lambda>_ _. True)\<rparr>"

text \<open>A transport that sends every byte alone.\<close>

fun in_bytes :: "session_call \<Rightarrow> read_wake list" where
  "in_bytes (ChannelSuccess c) = [WakeMessage MsgOther]"
| "in_bytes (ChannelFailure c) = [WakeMessage MsgOther]"
| "in_bytes (SessionData c data) = map (\<lambda>b. WakeMessage (MsgData [b])) data"
| "in_bytes (SessionExtendedData c ext data) = map (\<lambda>b. WakeMessage (MsgExtendedData [b] ext)) data"
| "in_bytes (ExitStatusRequest c code) = [WakeMessage (MsgExitStatus code)]"
| "in_bytes (ExitSignalRequest c signal core_dumped message lang) =
     [WakePending, WakeMessage (MsgExitSignal signal core_dumped message lang)]"
| "in_bytes (SessionEof c) = [WakeMessage MsgEof]"
| "in_bytes (SessionClose c) = [WakeMessage MsgClose]"

lemma in_bytes_carries: "carries_calls (\<lambda>calls. concat (map in_bytes calls))"
proof -
  have data: "carried (SessionData c d # cs) (map (\<lambda>b. WakeMessage (MsgData [b])) d @ ws)" if "carried cs ws" for c d cs ws
    using that by (induction d) (auto intro: carried.data_done carried.data [where piece = "[_]", simplified])
  have extended: "carried (SessionExtendedData c ext d # cs) (map (\<lambda>b. WakeMessage (MsgExtendedData [b] ext)) d @ ws)"
    if "carried cs ws" for c ext d cs ws
    using that by (induction d) (auto intro: carried.extended_done carried.extended [where piece = "[_]", simplified])
  have "carried calls (concat (map in_bytes calls))" for calls
  proof (induction calls)
    case (Cons x calls)
    then show ?case
      by (cases x) (auto intro: carried.success carried.failure data extended carried.eof carried.closed carried.idle
          carried.status [where ds = "[]", simplified] carried.signal [where ds = "[]", simplified])
  qed (simp add: carried.nothing)
  then show ?thesis by (simp add: carries_calls_def)
qed

theorem command_answer_observed_witness:
  "\<exists>calls. fs_log (snd (exec_request demo_behavior demo_fixture_env 0 (as_bytes ''uptime'') (clone_for_session []))) = map Called calls \<and>
   remaining_output (channel_reader_new (concat (map in_bytes calls)) None) = [1, 2, 3] \<and>
   final_result (channel_reader_new (concat (map in_bytes calls)) None) = \<lparr>exit_status = Some 7, exit_signal = None\<rparr>"
proof -
  have "configured_command ''uptime'' (fb_commands demo_behavior) = outcome_accepted [1, 2] [3] (TermStatus 7)"
    by (simp add: demo_behavior_def build_fixture_handler_def builder_command_def response_status_def
        server_builder_default_def configured_command_def)
  moreover have "session_accepts demo_fixture_env" by (simp add: session_accepts_def demo_fixture_env_def)
  moreover have "to_string_lossy (str_of_bytes (as_bytes ''uptime'')) = ''uptime''" by code_simp
  moreover have "parse_scp_request ''uptime'' = None" by code_simp
  ultimately show ?thesis
    using command_answer_observed [of demo_fixture_env "as_bytes ''uptime''" "''uptime''"
        "\<lambda>calls. concat (map in_bytes calls)" demo_behavior 0 "clone_for_session []"] in_bytes_carries
    by (auto simp: Let_def outcome_accepted_def announced_def clone_for_session_def)
qed

theorem rejected_shell_continues_witness:
  "0 \<in> fs_shells (snd (shell_data demo_behavior demo_fixture_env 0 (replicate 5000 65)
     ((clone_for_session [])\<lparr>fs_shells := {0}\<rparr>)))"
proof -
  have "session_accepts demo_fixture_env" by (simp add: session_accepts_def demo_fixture_env_def)
  then show ?thesis
    using rejected_shell_continues [of demo_fixture_env 0 "(clone_for_session [])\<lparr>fs_shells := {0}\<rparr>" "replicate 5000 65" demo_behavior]
    by (simp add: Let_def)
qed

end
