(* ===== verification/Fixture_Workers.thy ===== *)
theory Fixture_Workers
  imports Capture
begin

text \<open>
  Worker threads of the fixtures: \<open>crates/rssh-test-support/src/ssh/lifecycle.rs\<close> lines 12 to 160 (deadlines,
  joining a thread in bounded time, handing it to the process-wide reaper), and start, stop and
  drop of the agent (\<open>agent.rs\<close> 113-316), of the echo server (\<open>forward.rs\<close> 93-334) and of the SSH
  server (\<open>server.rs\<close> 306-454, 569-624, 651-758, 962-989), each of which owns a thread. A program here may wait for
  ever; it then has no result. The environment answers each call by its number: the clock,
  whether a thread has finished, what arrives on a channel, and which system calls fail.
\<close>

section \<open>Programs\<close>

type_synonym worker = nat

datatype worker_event =
    WorkerSpawned worker
  | ToldToStop worker
  | Joined worker bool
  | GivenToReaper worker
  | RetainedThread worker
  | AbortAsked worker
  | Detached worker

record life_world =
  lw_calls :: nat
  lw_log :: "worker_event list"
  lw_sender :: bool

datatype 'a recv_result = RecvGot 'a | RecvTimedOut | RecvDisconnected

datatype ssh_fixture_error =
    FixtureIo string io_err
  | FixtureTimedOut string duration
  | FixtureWorkerPanicked

datatype add_identity_result = IdentityAdded | AddTimedOut | AddFailed string

record life_env =
  lf_time :: "nat \<Rightarrow> nat"
  lf_latest :: nat
  lf_finished :: "worker \<Rightarrow> nat \<Rightarrow> bool"
  lf_join :: "worker \<Rightarrow> bool"
  lf_setup :: "nat \<Rightarrow> (unit, io_err) result"
  lf_spawn :: "nat \<Rightarrow> (worker, io_err) result"
  lf_gone :: "nat \<Rightarrow> bool"
  lf_add_identity :: "nat \<Rightarrow> add_identity_result"
  lf_io_completion :: "worker \<Rightarrow> nat \<Rightarrow> (unit, io_err) result recv_result"
  lf_io_ready :: "worker \<Rightarrow> nat \<Rightarrow> unit recv_result"
  lf_completion :: "worker \<Rightarrow> nat \<Rightarrow> (unit, ssh_fixture_error) result recv_result"
  lf_ready :: "worker \<Rightarrow> nat \<Rightarrow> (unit, ssh_fixture_error) result recv_result"

type_synonym 'a life = "life_world \<Rightarrow> ('a \<times> life_world) option"

definition life_ret :: "'a \<Rightarrow> 'a life" where
  "life_ret v w = Some (v, w)"

definition life_then :: "'a life \<Rightarrow> ('a \<Rightarrow> 'b life) \<Rightarrow> 'b life" where
  "life_then m k w = Option.bind (m w) (\<lambda>(v, w'). k v w')"

definition life_ask :: "(nat \<Rightarrow> 'a) \<Rightarrow> 'a life" where
  "life_ask q w = Some (q (lw_calls w), w\<lparr>lw_calls := Suc (lw_calls w)\<rparr>)"

definition life_emit :: "worker_event \<Rightarrow> unit life" where
  "life_emit e w = Some ((), w\<lparr>lw_log := lw_log w @ [e]\<rparr>)"

text \<open>The question-mark operator.\<close>

definition life_try :: "('a, 'e) result life \<Rightarrow> ('a \<Rightarrow> ('b, 'e) result life) \<Rightarrow> ('b, 'e) result life" where
  "life_try m k = life_then m (\<lambda>r. case r of Inl e \<Rightarrow> life_ret (Err e) | Inr v \<Rightarrow> k v)"

section \<open>Deadlines and threads\<close>

record shutdown_deadline =
  sd_at :: nat
  sd_budget :: duration

definition deadline_after :: "life_env \<Rightarrow> duration \<Rightarrow> shutdown_deadline life" where
  "deadline_after E budget =
     life_then (life_ask (lf_time E)) (\<lambda>now.
       if now + budget \<le> lf_latest E then life_ret \<lparr>sd_at = now + budget, sd_budget = budget\<rparr>
       else life_then (life_ask (lf_time E)) (\<lambda>now. life_ret \<lparr>sd_at = now, sd_budget = budget\<rparr>))"

definition remaining :: "life_env \<Rightarrow> shutdown_deadline \<Rightarrow> duration life" where
  "remaining E d = life_then (life_ask (lf_time E)) (\<lambda>now. life_ret (sd_at d - now))"

definition life_setup :: "life_env \<Rightarrow> (unit, io_err) result life" where
  "life_setup E = life_ask (lf_setup E)"

text \<open>The sender to the reaper is replaced when the receiver is gone.\<close>

definition ensure_process_reaper :: "life_env \<Rightarrow> (unit, io_err) result life" where
  "ensure_process_reaper E w =
     life_then (if lw_sender w then life_then (life_ask (lf_gone E)) (\<lambda>closed. life_ret (\<not> closed)) else life_ret False) (\<lambda>running.
       if running then life_ret (Ok ())
       else life_try (life_setup E) (\<lambda>_.
            life_try (life_setup E) (\<lambda>_ w. Some (Ok (), w\<lparr>lw_sender := True\<rparr>)))) w"

text \<open>Whether the thread has been handed over.\<close>

definition try_defer_thread :: "life_env \<Rightarrow> worker \<Rightarrow> bool life" where
  "try_defer_thread E x =
     life_then (ensure_process_reaper E) (\<lambda>r.
       if \<not> is_ok r then life_ret False
       else life_then (life_ask (lf_gone E)) (\<lambda>gone.
            if gone then life_ret False
            else life_then (life_emit (GivenToReaper x)) (\<lambda>_. life_ret True)))"

definition defer_thread :: "life_env \<Rightarrow> worker \<Rightarrow> unit life" where
  "defer_thread E x =
     life_then (try_defer_thread E x) (\<lambda>deferred. if deferred then life_ret ()
     else life_then (try_defer_thread E x) (\<lambda>deferred. if deferred then life_ret ()
     else life_emit (RetainedThread x)))"

datatype thread_join_outcome = JoinCompleted | JoinPanicked | JoinDeferred

text \<open>The waiting loop of \<open>join_thread_until\<close>. Parking may end at any time.\<close>

partial_function (option) join_wait :: "life_env \<Rightarrow> worker \<Rightarrow> shutdown_deadline \<Rightarrow> unit life" where
  "join_wait E x d w =
     Option.bind (life_ask (lf_finished E x) w) (\<lambda>(finished, w1).
       if finished then Some ((), w1)
       else Option.bind (remaining E d w1) (\<lambda>(left, w2).
         if left = 0 then Some ((), w2)
         else Option.bind (remaining E d w2) (\<lambda>(park, w3). join_wait E x d w3)))"

definition join_thread_until :: "life_env \<Rightarrow> worker \<Rightarrow> shutdown_deadline \<Rightarrow> thread_join_outcome life" where
  "join_thread_until E x d =
     life_then (join_wait E x d) (\<lambda>_.
     life_then (life_ask (lf_finished E x)) (\<lambda>finished.
       if finished
       then life_then (life_emit (Joined x (lf_join E x))) (\<lambda>_.
            life_ret (if lf_join E x then JoinCompleted else JoinPanicked))
       else life_then (defer_thread E x) (\<lambda>_. life_ret JoinDeferred)))"

section \<open>The agent\<close>

definition AGENT_DROP_DEADLINE :: duration where "AGENT_DROP_DEADLINE = 500000000"

record agent_fixture =
  af_connected :: bool
  af_sealed :: bool
  af_completion :: worker
  af_worker :: "worker option"

definition join_agent_worker_until :: "life_env \<Rightarrow> worker \<Rightarrow> shutdown_deadline \<Rightarrow> (unit, io_err) result life" where
  "join_agent_worker_until E x d =
     life_then (join_thread_until E x d) (\<lambda>outcome. life_ret
       (case outcome of
          JoinCompleted \<Rightarrow> Ok ()
        | JoinPanicked \<Rightarrow> Err (IoErr IoOther ''in-memory fixture agent worker panicked'')
        | JoinDeferred \<Rightarrow> Err (IoErr IoTimedOut
            (''in-memory fixture agent worker join exceeded '' @ debug_duration (sd_budget d)))))"

definition finish_missing_agent_completion :: "life_env \<Rightarrow> worker option \<Rightarrow> shutdown_deadline \<Rightarrow> (unit, io_err) result life" where
  "finish_missing_agent_completion E worker d =
     life_try (case worker of Some x \<Rightarrow> join_agent_worker_until E x d | None \<Rightarrow> life_ret (Ok ())) (\<lambda>_.
     life_ret (Err (IoErr IoBrokenPipe ''in-memory fixture agent worker exited without completion'')))"

definition agent_stop_inner :: "life_env \<Rightarrow> shutdown_deadline \<Rightarrow> agent_fixture \<Rightarrow> ((unit, io_err) result \<times> agent_fixture) life" where
  "agent_stop_inner E d a =
     (if af_worker a = None then life_ret (Ok (), a)
      else let a' = a\<lparr>af_connected := False, af_worker := None\<rparr> in
        life_then (life_emit (ToldToStop (af_completion a))) (\<lambda>_.
        life_then (remaining E d) (\<lambda>_.
        life_then (life_ask (lf_io_completion E (af_completion a))) (\<lambda>received.
          case received of
            RecvGot result \<Rightarrow>
              life_then (case af_worker a of Some x \<Rightarrow> join_agent_worker_until E x d | None \<Rightarrow> life_ret (Ok ())) (\<lambda>joined.
                life_ret (and_then joined (\<lambda>_. result), a'))
          | RecvTimedOut \<Rightarrow>
              life_then (case af_worker a of Some x \<Rightarrow> defer_thread E x | None \<Rightarrow> life_ret ()) (\<lambda>_.
                life_ret (Err (IoErr IoTimedOut
                  (''in-memory fixture agent teardown exceeded '' @ debug_duration (sd_budget d))), a'))
          | RecvDisconnected \<Rightarrow>
              life_then (finish_missing_agent_completion E (af_worker a) d) (\<lambda>r. life_ret (r, a'))))))"

definition agent_drop :: "life_env \<Rightarrow> agent_fixture \<Rightarrow> unit life" where
  "agent_drop E a =
     life_then (deadline_after E AGENT_DROP_DEADLINE) (\<lambda>d.
     life_then (agent_stop_inner E d a) (\<lambda>_. life_ret ()))"

definition agent_stop_until :: "life_env \<Rightarrow> shutdown_deadline \<Rightarrow> agent_fixture \<Rightarrow> (unit, io_err) result life" where
  "agent_stop_until E d a =
     life_then (agent_stop_inner E d a) (\<lambda>(r, a'). life_then (agent_drop E a') (\<lambda>_. life_ret r))"

definition agent_stop :: "life_env \<Rightarrow> duration \<Rightarrow> agent_fixture \<Rightarrow> (unit, io_err) result life" where
  "agent_stop E budget a = life_then (deadline_after E budget) (\<lambda>d. agent_stop_until E d a)"

definition agent_connect :: "life_env \<Rightarrow> agent_fixture \<Rightarrow> (unit, io_err) result life" where
  "agent_connect E a =
     (if \<not> af_connected a then life_ret (Err (IoErr IoNotConnected ''fixture agent stopped''))
      else life_then (life_ask (lf_gone E)) (\<lambda>gone.
        life_ret (if gone then Err (IoErr IoBrokenPipe ''fixture agent stopped'') else Ok ())))"

definition initialize_agent :: "life_env \<Rightarrow> agent_fixture \<Rightarrow> (unit, io_err) result life" where
  "initialize_agent E a =
     life_try (agent_connect E a) (\<lambda>_.
     life_try (life_setup E) (\<lambda>_.
     life_then (life_ask (lf_add_identity E)) (\<lambda>r. life_ret
       (case r of
          IdentityAdded \<Rightarrow> Ok ()
        | AddTimedOut \<Rightarrow> Err (IoErr IoTimedOut ''in-memory fixture agent startup exceeded its deadline'')
        | AddFailed e \<Rightarrow> Err (IoErr IoOther (''initialize fixture agent: '' @ e))))))"

text \<open>A thread is started.\<close>

definition spawn_worker :: "life_env \<Rightarrow> (worker, io_err) result life" where
  "spawn_worker E =
     life_then (life_ask (lf_spawn E)) (\<lambda>r.
       case r of Inl e \<Rightarrow> life_ret (Err e) | Inr x \<Rightarrow> life_then (life_emit (WorkerSpawned x)) (\<lambda>_. life_ret (Ok x)))"

text \<open>Fallible calls in order: a directory, a key, its encoding, its file, the file's permissions.\<close>

fun life_setups :: "life_env \<Rightarrow> nat \<Rightarrow> (unit, io_err) result life" where
  "life_setups E 0 = life_ret (Ok ())"
| "life_setups E (Suc n) = life_try (life_setup E) (\<lambda>_. life_setups E n)"

definition agent_new_configured :: "life_env \<Rightarrow> (agent_fixture, io_err) result life" where
  "agent_new_configured E =
     life_try (ensure_process_reaper E) (\<lambda>_.
     life_try (life_setups E 5) (\<lambda>_.
     life_try (spawn_worker E) (\<lambda>x.
       (let a = \<lparr>af_connected = True, af_sealed = False, af_completion = x, af_worker = Some x\<rparr> in
        life_then (initialize_agent E a) (\<lambda>r.
          case r of
            Inl e \<Rightarrow> life_then (agent_drop E a) (\<lambda>_. life_ret (Err e))
          | Inr _ \<Rightarrow> life_ret (Ok (a\<lparr>af_sealed := True\<rparr>)))))))"

text \<open>An identity whose file is encrypted: a directory, a key, its encryption and encoding, its file, the
  file's permissions.\<close>

record identity_fixture =
  if_passphrase :: "string option"

definition runtime_ed25519_encrypted :: "life_env \<Rightarrow> string \<Rightarrow> (identity_fixture, io_err) result life" where
  "runtime_ed25519_encrypted E passphrase =
     (if passphrase = [] then life_ret (Err (IoErr IoInvalidInput ''fixture identity passphrase must not be empty''))
      else life_try (life_setups E 6) (\<lambda>_. life_ret (Ok \<lparr>if_passphrase = Some passphrase\<rparr>)))"

text \<open>The thread of the agent: it builds a runtime and serves its connections until there are none.\<close>

definition run_agent :: "life_env \<Rightarrow> (unit, io_err) result life" where
  "run_agent E =
     life_try (life_setup E) (\<lambda>_.
     life_then (life_setup E) (\<lambda>served. life_ret
       (map_err (\<lambda>e. IoErr IoOther (''in-memory fixture agent failed: '' @ io_text e)) served)))"

text \<open>What the agent lets its clients do.\<close>

datatype agent_message = RequestKeys | AddKeys | RemoveKeys | RemoveAllKeys | Sign | LockAgent | UnlockAgent

definition confirm_request :: "bool \<Rightarrow> agent_message \<Rightarrow> bool" where
  "confirm_request sealed m =
     (case m of
        RequestKeys \<Rightarrow> True
      | Sign \<Rightarrow> True
      | AddKeys \<Rightarrow> \<not> sealed
      | RemoveKeys \<Rightarrow> False
      | RemoveAllKeys \<Rightarrow> False
      | LockAgent \<Rightarrow> False
      | UnlockAgent \<Rightarrow> False)"

section \<open>The echo server\<close>

definition ECHO_DROP_DEADLINE :: duration where "ECHO_DROP_DEADLINE = 500000000"

record echo_control =
  ec_cancelled :: bool
  ec_deadline :: "shutdown_deadline option"

definition echo_cancel :: "shutdown_deadline \<Rightarrow> echo_control \<Rightarrow> echo_control" where
  "echo_cancel d c = c\<lparr>ec_deadline := (case ec_deadline c of None \<Rightarrow> Some d | Some e \<Rightarrow> Some e), ec_cancelled := True\<rparr>"

record echo_server =
  es_control :: echo_control
  es_completion :: worker
  es_worker :: "worker option"

definition join_echo_worker_until :: "life_env \<Rightarrow> worker \<Rightarrow> shutdown_deadline \<Rightarrow> (unit, io_err) result life" where
  "join_echo_worker_until E x d =
     life_then (join_thread_until E x d) (\<lambda>outcome. life_ret
       (case outcome of
          JoinCompleted \<Rightarrow> Ok ()
        | JoinPanicked \<Rightarrow> Err (IoErr IoOther ''loopback echo worker panicked'')
        | JoinDeferred \<Rightarrow> Err (IoErr IoTimedOut
            (''loopback echo worker join exceeded '' @ debug_duration (sd_budget d)))))"

definition finish_missing_echo_completion :: "life_env \<Rightarrow> worker option \<Rightarrow> shutdown_deadline \<Rightarrow> (unit, io_err) result life" where
  "finish_missing_echo_completion E worker d =
     life_try (case worker of Some x \<Rightarrow> join_echo_worker_until E x d | None \<Rightarrow> life_ret (Ok ())) (\<lambda>_.
     life_ret (Err (IoErr IoBrokenPipe ''loopback echo worker exited without completion'')))"

definition finish_missing_echo_readiness :: "life_env \<Rightarrow> worker \<Rightarrow> shutdown_deadline \<Rightarrow> (echo_server, io_err) result life" where
  "finish_missing_echo_readiness E x d =
     life_try (join_echo_worker_until E x d) (\<lambda>_.
     life_ret (Err (IoErr IoBrokenPipe ''loopback echo worker exited without readiness'')))"

definition echo_stop_inner :: "life_env \<Rightarrow> duration \<Rightarrow> echo_server \<Rightarrow> ((unit, io_err) result \<times> echo_server) life" where
  "echo_stop_inner E budget v =
     life_then (deadline_after E budget) (\<lambda>d.
       (let v' = v\<lparr>es_control := echo_cancel d (es_control v), es_worker := None\<rparr> in
        life_then (life_emit (ToldToStop (es_completion v))) (\<lambda>_.
        life_then (remaining E d) (\<lambda>_.
        life_then (life_ask (lf_io_completion E (es_completion v))) (\<lambda>received.
          case received of
            RecvGot result \<Rightarrow>
              life_then (case es_worker v of Some x \<Rightarrow> join_echo_worker_until E x d | None \<Rightarrow> life_ret (Ok ())) (\<lambda>joined.
                life_ret (and_then joined (\<lambda>_. result), v'))
          | RecvTimedOut \<Rightarrow>
              life_then (case es_worker v of Some x \<Rightarrow> defer_thread E x | None \<Rightarrow> life_ret ()) (\<lambda>_.
                life_ret (Err (IoErr IoTimedOut (''loopback echo teardown exceeded '' @ debug_duration budget)), v'))
          | RecvDisconnected \<Rightarrow>
              life_then (finish_missing_echo_completion E (es_worker v) d) (\<lambda>r. life_ret (r, v')))))))"

definition echo_drop :: "life_env \<Rightarrow> echo_server \<Rightarrow> unit life" where
  "echo_drop E v =
     (if es_worker v \<noteq> None then life_then (echo_stop_inner E ECHO_DROP_DEADLINE v) (\<lambda>_. life_ret ()) else life_ret ())"

definition echo_stop :: "life_env \<Rightarrow> duration \<Rightarrow> echo_server \<Rightarrow> (unit, io_err) result life" where
  "echo_stop E budget v =
     life_then (echo_stop_inner E budget v) (\<lambda>(r, v'). life_then (echo_drop E v') (\<lambda>_. life_ret r))"

text \<open>Binding, making the listener nonblocking and asking its address can fail.\<close>

definition echo_start_configured :: "life_env \<Rightarrow> duration \<Rightarrow> (echo_server, io_err) result life" where
  "echo_start_configured E budget =
     life_then (deadline_after E budget) (\<lambda>startup.
     life_try (ensure_process_reaper E) (\<lambda>_.
     life_try (life_setups E 3) (\<lambda>_.
     life_try (spawn_worker E) (\<lambda>x.
     life_then (remaining E startup) (\<lambda>_.
     life_then (life_ask (lf_io_ready E x)) (\<lambda>ready.
       case ready of
         RecvGot _ \<Rightarrow> life_ret (Ok \<lparr>es_control = \<lparr>ec_cancelled = False, ec_deadline = None\<rparr>,
           es_completion = x, es_worker = Some x\<rparr>)
       | RecvTimedOut \<Rightarrow>
           life_then (life_emit (ToldToStop x)) (\<lambda>_.
           life_then (defer_thread E x) (\<lambda>_.
             life_ret (Err (IoErr IoTimedOut ''loopback echo server did not become ready before deadline''))))
       | RecvDisconnected \<Rightarrow> finish_missing_echo_readiness E x startup))))))"

section \<open>The SSH server\<close>

definition SERVER_DROP_DEADLINE :: duration where "SERVER_DROP_DEADLINE = 750000000"

record ssh_server =
  sv_cancellation :: "shutdown_deadline option"
  sv_agent :: "agent_fixture option"
  sv_completion :: worker
  sv_worker :: "worker option"

definition fixture_io :: "string \<Rightarrow> ('a, io_err) result life \<Rightarrow> ('a, ssh_fixture_error) result life" where
  "fixture_io operation m = life_then m (\<lambda>r. life_ret (map_err (FixtureIo operation) r))"

definition missing_server_completion :: "string \<Rightarrow> ssh_fixture_error" where
  "missing_server_completion operation = FixtureIo operation (IoErr IoBrokenPipe ''worker exited without completion'')"

definition finish_missing_server_completion ::
  "life_env \<Rightarrow> worker \<Rightarrow> shutdown_deadline \<Rightarrow> string \<Rightarrow> ('a, ssh_fixture_error) result life" where
  "finish_missing_server_completion E x d operation =
     life_then (join_thread_until E x d) (\<lambda>outcome. life_ret (Err
       (case outcome of
          JoinCompleted \<Rightarrow> missing_server_completion operation
        | JoinPanicked \<Rightarrow> FixtureWorkerPanicked
        | JoinDeferred \<Rightarrow> FixtureTimedOut operation (sd_budget d))))"

definition map_agent_teardown_error :: "io_err \<Rightarrow> shutdown_deadline \<Rightarrow> ssh_fixture_error" where
  "map_agent_teardown_error source d =
     (case source of IoErr kind _ \<Rightarrow>
        if kind = IoTimedOut then FixtureTimedOut ''agent teardown'' (sd_budget d)
        else FixtureIo ''agent teardown failed'' source)"

definition stop_ssh_worker :: "life_env \<Rightarrow> shutdown_deadline \<Rightarrow> ssh_server \<Rightarrow> ((unit, ssh_fixture_error) result \<times> ssh_server) life" where
  "stop_ssh_worker E d v =
     (case sv_worker v of
        None \<Rightarrow> life_ret (Ok (), v)
      | Some x \<Rightarrow>
          (let v' = v\<lparr>sv_cancellation := Some d, sv_worker := None\<rparr> in
           life_then (life_emit (ToldToStop (sv_completion v))) (\<lambda>_.
           life_then (remaining E d) (\<lambda>_.
           life_then (life_ask (lf_completion E (sv_completion v))) (\<lambda>received.
             case received of
               RecvGot result \<Rightarrow>
                 life_then (join_thread_until E x d) (\<lambda>outcome. life_ret
                   (case outcome of
                      JoinCompleted \<Rightarrow> result
                    | JoinPanicked \<Rightarrow> Err FixtureWorkerPanicked
                    | JoinDeferred \<Rightarrow> Err (FixtureTimedOut ''worker join'' (sd_budget d)), v'))
             | RecvTimedOut \<Rightarrow>
                 life_then (defer_thread E x) (\<lambda>_.
                   life_ret (Err (FixtureTimedOut ''teardown'' (sd_budget d)), v'))
             | RecvDisconnected \<Rightarrow>
                 life_then (finish_missing_server_completion E x d ''teardown completion'') (\<lambda>r. life_ret (r, v')))))))"

definition server_stop_inner :: "life_env \<Rightarrow> duration \<Rightarrow> ssh_server \<Rightarrow> ((unit, ssh_fixture_error) result \<times> ssh_server) life" where
  "server_stop_inner E budget v =
     life_then (deadline_after E budget) (\<lambda>d.
     life_then (stop_ssh_worker E d v) (\<lambda>(primary, v1).
     life_then (case sv_agent v1 of
                  None \<Rightarrow> life_ret (Ok ())
                | Some a \<Rightarrow> life_then (agent_stop_until E d a) (\<lambda>r.
                    life_ret (map_err (\<lambda>source. map_agent_teardown_error source d) r))) (\<lambda>agent.
     life_ret (case primary of Inl e \<Rightarrow> Err e | Inr _ \<Rightarrow> agent, v1\<lparr>sv_agent := None\<rparr>))))"

text \<open>Dropping the server stops it when it still has its worker, then drops its fields.\<close>

definition server_drop :: "life_env \<Rightarrow> ssh_server \<Rightarrow> unit life" where
  "server_drop E v =
     life_then (if sv_worker v \<noteq> None
                then life_then (server_stop_inner E SERVER_DROP_DEADLINE v) (\<lambda>(_, v'). life_ret v')
                else life_ret v) (\<lambda>v'.
     case sv_agent v' of None \<Rightarrow> life_ret () | Some a \<Rightarrow> agent_drop E a)"

definition server_stop :: "life_env \<Rightarrow> duration \<Rightarrow> ssh_server \<Rightarrow> (unit, ssh_fixture_error) result life" where
  "server_stop E budget v =
     life_then (server_stop_inner E budget v) (\<lambda>(r, v'). life_then (server_drop E v') (\<lambda>_. life_ret r))"

fun fixture_setups :: "life_env \<Rightarrow> string list \<Rightarrow> (unit, ssh_fixture_error) result life" where
  "fixture_setups E [] = life_ret (Ok ())"
| "fixture_setups E (operation # operations) =
     life_try (fixture_io operation (life_setup E)) (\<lambda>_. fixture_setups E operations)"

text \<open>The calls after the agent exists: the transfer root, the host key, the listener, the files for
  OpenSSH.\<close>

definition bind_fixture_listener :: "life_env \<Rightarrow> (unit, ssh_fixture_error) result life" where
  "bind_fixture_listener E = fixture_setups E
     [''loopback bind failed'', ''listener nonblocking setup failed'', ''listener address lookup failed'']"

definition create_openssh_state :: "life_env \<Rightarrow> (unit, ssh_fixture_error) result life" where
  "create_openssh_state E = fixture_setups E
     [''known-hosts directory setup failed'', ''host public key encoding failed'', ''known-hosts write failed'',
      ''isolated ssh_config write failed'', ''isolated HOME setup failed'']"

definition start_ssh_worker :: "life_env \<Rightarrow> duration \<Rightarrow> shutdown_deadline \<Rightarrow> agent_fixture \<Rightarrow> (ssh_server, ssh_fixture_error) result life" where
  "start_ssh_worker E budget startup a =
     life_try (fixture_setups E [''SFTP root setup failed'', ''host key generation failed'']) (\<lambda>_.
     life_try (bind_fixture_listener E) (\<lambda>_.
     life_try (create_openssh_state E) (\<lambda>_.
     life_try (fixture_io ''worker spawn failed'' (spawn_worker E)) (\<lambda>x.
     life_then (remaining E startup) (\<lambda>_.
     life_then (life_ask (lf_ready E x)) (\<lambda>ready.
       case ready of
         RecvGot r \<Rightarrow>
           (case r of
              Inr _ \<Rightarrow> life_ret (Ok \<lparr>sv_cancellation = None, sv_agent = Some a, sv_completion = x, sv_worker = Some x\<rparr>)
            | Inl e \<Rightarrow>
                life_then (join_thread_until E x startup) (\<lambda>outcome. life_ret (Err
                  (case outcome of
                     JoinCompleted \<Rightarrow> e
                   | JoinPanicked \<Rightarrow> FixtureWorkerPanicked
                   | JoinDeferred \<Rightarrow> FixtureTimedOut ''startup worker join'' budget))))
       | RecvTimedOut \<Rightarrow>
           life_then (life_emit (ToldToStop x)) (\<lambda>_.
           life_then (defer_thread E x) (\<lambda>_. life_ret (Err (FixtureTimedOut ''startup'' budget))))
       | RecvDisconnected \<Rightarrow> finish_missing_server_completion E x startup ''startup completion''))))))"

definition server_start_configured :: "life_env \<Rightarrow> duration \<Rightarrow> (ssh_server, ssh_fixture_error) result life" where
  "server_start_configured E budget =
     life_then (deadline_after E budget) (\<lambda>startup.
     life_try (fixture_io ''process reaper startup failed'' (ensure_process_reaper E)) (\<lambda>_.
     life_try (fixture_io ''client identity setup failed'' (agent_new_configured E)) (\<lambda>a.
     life_then (start_ssh_worker E budget startup a) (\<lambda>r.
       case r of
         Inl e \<Rightarrow> life_then (agent_drop E a) (\<lambda>_. life_ret (Err e))
       | Inr v \<Rightarrow> life_ret (Ok v)))))"

end
