(* ===== verification/Workers_Accounted.thy ===== *)
theory Workers_Accounted
  imports Fixture_Workers Vec_Ops
begin

text \<open>
  No fixture leaks its worker thread: from the start of an agent, an echo server or an SSH server
  to its end, every thread that was started is joined, handed to the reaper or retained, exactly
  once, whatever fails; and everything returns when the clock runs.
\<close>

section \<open>The balance of a thread\<close>

fun change :: "worker \<Rightarrow> worker_event \<Rightarrow> int" where
  "change x (WorkerSpawned y) = (if x = y then 1 else 0)"
| "change x (ToldToStop y) = 0"
| "change x (Joined y ok) = (if x = y then -1 else 0)"
| "change x (GivenToReaper y) = (if x = y then -1 else 0)"
| "change x (RetainedThread y) = (if x = y then -1 else 0)"
| "change x (AbortAsked y) = 0"
| "change x (Detached y) = (if x = y then -1 else 0)"

definition balance :: "worker \<Rightarrow> worker_event list \<Rightarrow> int" where
  "balance x es = (\<Sum>e\<leftarrow>es. change x e)"

lemma balance_simps [simp]: "balance x [] = 0" "balance x (e # es) = change x e + balance x es"
  "balance x (es @ fs) = balance x es + balance x fs"
  by (simp_all add: balance_def)

text \<open>A program returns, with a property of its result and a balance for each thread.\<close>

definition settles :: "'a life \<Rightarrow> ('a \<Rightarrow> bool) \<Rightarrow> ('a \<Rightarrow> worker \<Rightarrow> int) \<Rightarrow> bool" where
  "settles m Q h \<longleftrightarrow> (\<forall>w. \<exists>v w' es. m w = Some (v, w') \<and> lw_log w' = lw_log w @ es \<and>
     lw_calls w \<le> lw_calls w' \<and> Q v \<and> (\<forall>x. balance x es = h v x))"

abbreviation any :: "'a \<Rightarrow> bool" where "any \<equiv> \<lambda>_. True"

text \<open>Nothing happens to any thread.\<close>

abbreviation idle :: "'a \<Rightarrow> worker \<Rightarrow> int" where "idle \<equiv> \<lambda>_ _. 0"

definition takes :: "worker \<Rightarrow> worker \<Rightarrow> int" where
  "takes y x = (if x = y then -1 else 0)"

definition owns :: "worker option \<Rightarrow> worker \<Rightarrow> int" where
  "owns y x = (if y = Some x then 1 else 0)"

lemma owns_simps [simp]: "owns None x = 0" "owns (Some y) x = - takes y x"
  by (auto simp: owns_def takes_def)

text \<open>Threads or tasks held in a list.\<close>

definition conns :: "worker list \<Rightarrow> worker \<Rightarrow> int" where
  "conns xs x = (\<Sum>c\<leftarrow>xs. owns (Some c) x)"

lemma conns_simps [simp]: "conns [] x = 0" "conns (y # ys) x = owns (Some y) x + conns ys x"
  "conns (xs @ ys) x = conns xs x + conns ys x"
  by (simp_all add: conns_def)

lemma conns_swap_remove: "i < length xs \<Longrightarrow> conns (swap_remove xs i) x = conns xs x - owns (Some (xs ! i)) x"
  unfolding conns_def by (rule sum_swap_remove)

lemma settles_then:
  assumes m: "settles m Q f" and k: "\<And>v. Q v \<Longrightarrow> settles (k v) R (\<lambda>u x. h u x - f v x)"
  shows "settles (life_then m k) R h"
  unfolding settles_def
proof
  fix w
  obtain v w1 es where 1: "m w = Some (v, w1)" "lw_log w1 = lw_log w @ es" "lw_calls w \<le> lw_calls w1" "Q v" "\<forall>x. balance x es = f v x"
    using m unfolding settles_def by metis
  then obtain u w2 fs where 2: "k v w1 = Some (u, w2)" "lw_log w2 = lw_log w1 @ fs" "lw_calls w1 \<le> lw_calls w2" "R u" "\<forall>x. balance x fs = h u x - f v x"
    using k [OF 1(4)] unfolding settles_def by metis
  have "life_then m k w = Some (u, w2) \<and> lw_log w2 = lw_log w @ (es @ fs) \<and> lw_calls w \<le> lw_calls w2 \<and> R u \<and> (\<forall>x. balance x (es @ fs) = h u x)"
    using 1 2 by (simp add: life_then_def)
  then show "\<exists>v w' es. life_then m k w = Some (v, w') \<and> lw_log w' = lw_log w @ es \<and> lw_calls w \<le> lw_calls w' \<and>
      R v \<and> (\<forall>x. balance x es = h v x)"
    by blast
qed

lemma settles_conseq:
  "settles m Q f \<Longrightarrow> (\<And>v. Q v \<Longrightarrow> R v) \<Longrightarrow> (\<And>v x. Q v \<Longrightarrow> f v x = h v x) \<Longrightarrow> settles m R h"
  unfolding settles_def by metis

lemma settles_ret [simp]: "settles (life_ret v) Q h \<longleftrightarrow> Q v \<and> (\<forall>x. h v x = 0)"
  by (auto simp: settles_def life_ret_def)

lemma settles_ask: "settles (life_ask q) any idle"
  by (auto simp: settles_def life_ask_def)

lemma settles_emit: "settles (life_emit e) any (\<lambda>_ x. change x e)"
  unfolding settles_def life_emit_def by (auto intro!: exI [of _ "[e]"])

lemma settles_set: "settles (\<lambda>w. Some (v, w\<lparr>lw_sender := b\<rparr>)) any idle"
  by (auto simp: settles_def)

lemma life_then_ret [simp]: "life_then (life_ret v) k = k v"
  by (rule ext) (simp add: life_then_def life_ret_def)

text \<open>\<open>settles_then\<close> for a first program with no effect on the balance, and with one that is known.\<close>

lemma settles_first: "settles m any idle \<Longrightarrow> (\<And>v. settles (k v) R h) \<Longrightarrow> settles (life_then m k) R h"
  by (rule settles_then [where Q = any and f = idle]) simp_all

lemma settles_try:
  assumes "settles m any idle" and "\<And>e. R (Err e) \<and> (\<forall>x. h (Err e) x = 0)" and "\<And>v. settles (k v) R h"
  shows "settles (life_try m k) R h"
  unfolding life_try_def using assms by (intro settles_first) (auto split: sum.splits)

lemma settles_deadline_after: "settles (deadline_after E budget) any idle"
  unfolding deadline_after_def by (rule settles_first [OF settles_ask]) (auto intro!: settles_first [OF settles_ask])

lemma settles_remaining: "settles (remaining E d) any idle"
  unfolding remaining_def by (rule settles_first [OF settles_ask]) auto

lemma settles_setup: "settles (life_setup E) any idle" "settles (life_setups E n) any idle"
  unfolding life_setup_def by (rule settles_ask, induction n) (auto intro!: settles_try settles_ask simp: life_setup_def)

lemma settles_ensure: "settles (ensure_process_reaper E) any idle"
proof -
  have "settles (life_then (if b then life_then (life_ask (lf_gone E)) (\<lambda>closed. life_ret (\<not> closed)) else life_ret False) (\<lambda>running.
       if running then life_ret (Ok ())
       else life_try (life_setup E) (\<lambda>_.
            life_try (life_setup E) (\<lambda>_ w. Some (Ok (), w\<lparr>lw_sender := True\<rparr>))))) any idle" for b
    by (intro settles_first) (auto intro!: settles_first settles_ask settles_try settles_setup settles_set)
  then show ?thesis unfolding settles_def ensure_process_reaper_def by blast
qed

lemmas settles_quiet = settles_ask settles_deadline_after settles_remaining settles_setup settles_ensure

section \<open>Joining and deferring\<close>

lemma settles_try_defer: "settles (try_defer_thread E x) any (\<lambda>deferred y. if deferred then takes x y else 0)"
  unfolding try_defer_thread_def
  by (auto intro!: settles_first [OF settles_ensure] settles_first [OF settles_ask]
      settles_then [OF settles_emit] simp: takes_def)

lemma settles_defer: "settles (defer_thread E x) any (\<lambda>_ y. takes x y)"
  unfolding defer_thread_def
  by (rule settles_then [OF settles_try_defer])
     (auto intro!: settles_then [OF settles_try_defer] settles_conseq [OF settles_emit] simp: takes_def)

text \<open>The clock passes every deadline.\<close>

definition clock_runs :: "life_env \<Rightarrow> bool" where
  "clock_runs E \<longleftrightarrow> (\<forall>t. \<exists>n. \<forall>m \<ge> n. t \<le> lf_time E m)"

lemma join_wait_returns:
  assumes "\<forall>m \<ge> n. sd_at d \<le> lf_time E m"
  shows "\<exists>w'. join_wait E x d w = Some ((), w') \<and> lw_log w' = lw_log w \<and> lw_calls w \<le> lw_calls w'"
proof (induction "n - lw_calls w" arbitrary: w rule: less_induct)
  case less
  show ?case
  proof (cases "lf_finished E x (lw_calls w) \<or> sd_at d \<le> lf_time E (Suc (lw_calls w))")
    case True
    then show ?thesis
      by (subst join_wait.simps) (auto simp: life_ask_def remaining_def life_then_def life_ret_def)
  next
    case False
    let ?w = "w\<lparr>lw_calls := Suc (Suc (Suc (lw_calls w)))\<rparr>"
    have "join_wait E x d w = join_wait E x d ?w"
      using False by (subst join_wait.simps) (simp add: life_ask_def remaining_def life_then_def life_ret_def)
    moreover have "n - lw_calls ?w < n - lw_calls w" using False assms [rule_format, of "Suc (lw_calls w)"] by (cases "n \<le> Suc (lw_calls w)") auto
    ultimately show ?thesis using less [of ?w] by fastforce
  qed
qed

lemma settles_join_wait: "clock_runs E \<Longrightarrow> settles (join_wait E x d) any idle"
  using join_wait_returns unfolding settles_def clock_runs_def by (metis append_Nil2 balance_simps(1))

lemma settles_join: "clock_runs E \<Longrightarrow> settles (join_thread_until E x d) any (\<lambda>_ y. takes x y)"
  unfolding join_thread_until_def
  by (auto intro!: settles_first [OF settles_join_wait] settles_first [OF settles_ask] settles_then [OF settles_emit]
      settles_then [OF settles_defer] simp: takes_def)

section \<open>The contract of a fixture\<close>

text \<open>A fixture is started, and stopped within a time or dropped; its threads are its own.\<close>

definition fixture_life ::
  "(life_env \<Rightarrow> duration \<Rightarrow> ('f, 'e) result life) \<Rightarrow> (life_env \<Rightarrow> duration \<Rightarrow> 'f \<Rightarrow> 'r life) \<Rightarrow>
   (life_env \<Rightarrow> 'f \<Rightarrow> unit life) \<Rightarrow> life_env \<Rightarrow> duration \<Rightarrow> duration option \<Rightarrow> unit life" where
  "fixture_life start stop drop_it E budget ending =
     life_then (start E budget) (\<lambda>r.
       case r of
         Inl e \<Rightarrow> life_ret ()
       | Inr f \<Rightarrow> (case ending of
           Some time \<Rightarrow> life_then (stop E time f) (\<lambda>_. life_ret ())
         | None \<Rightarrow> drop_it E f))"

definition started :: "('f \<Rightarrow> worker \<Rightarrow> int) \<Rightarrow> ('f, 'e) result \<Rightarrow> worker \<Rightarrow> int" where
  "started held r x = (case r of Inl e \<Rightarrow> 0 | Inr f \<Rightarrow> held f x)"

lemma started_simps [simp]: "started held (Err e) x = 0" "started held (Ok f) x = held f x"
  by (simp_all add: started_def)

locale worker_fixture =
  fixes held :: "'f \<Rightarrow> worker \<Rightarrow> int"
    and start :: "life_env \<Rightarrow> duration \<Rightarrow> ('f, 'e) result life"
    and stop :: "life_env \<Rightarrow> duration \<Rightarrow> 'f \<Rightarrow> 'r life"
    and drop_it :: "life_env \<Rightarrow> 'f \<Rightarrow> unit life"
  assumes start_settles: "clock_runs E \<Longrightarrow> settles (start E budget) any (started held)"
    and stop_settles: "clock_runs E \<Longrightarrow> settles (stop E time f) any (\<lambda>_ x. - held f x)"
    and drop_settles: "clock_runs E \<Longrightarrow> settles (drop_it E f) any (\<lambda>_ x. - held f x)"
begin

lemma life_settles:
  assumes "clock_runs E"
  shows "settles (fixture_life start stop drop_it E budget ending) any idle"
  unfolding fixture_life_def
proof (rule settles_then [OF start_settles [OF assms]])
  fix r :: "('f, 'e) result"
  show "settles (case r of Inl e \<Rightarrow> life_ret () | Inr f \<Rightarrow> (case ending of
      Some time \<Rightarrow> life_then (stop E time f) (\<lambda>_. life_ret ()) | None \<Rightarrow> drop_it E f)) any (\<lambda>u x. 0 - started held r x)"
    using settles_then [OF stop_settles [OF assms], of "\<lambda>_. life_ret ()"] drop_settles [OF assms]
    by (auto split: sum.splits option.splits intro!: settles_then [OF stop_settles [OF assms]])
qed

text \<open>A thread is settled exactly as often as it was started.\<close>

lemma life_balanced:
  assumes "clock_runs E"
  shows "\<exists>w' es. fixture_life start stop drop_it E budget ending w = Some ((), w') \<and> lw_log w' = lw_log w @ es \<and>
    balance x es = 0"
  using life_settles [OF assms] unfolding settles_def by fastforce

end

section \<open>The agent\<close>

definition agent_held :: "agent_fixture \<Rightarrow> worker \<Rightarrow> int" where
  "agent_held a = owns (af_worker a)"

lemma settles_told: "(\<And>v. settles (k v) R h) \<Longrightarrow> settles (life_then (life_emit (ToldToStop x)) k) R h"
  by (rule settles_then [OF settles_emit]) simp

lemma settles_join_agent:
  assumes "clock_runs E"
  shows "settles (join_agent_worker_until E x d) any (\<lambda>_ y. takes x y)"
    and "settles (finish_missing_agent_completion E worker d) any (\<lambda>_ y. - owns worker y)"
proof -
  show 1: "settles (join_agent_worker_until E x d) any (\<lambda>_ y. takes x y)" for x
    unfolding join_agent_worker_until_def by (rule settles_then [OF settles_join [OF assms]]) simp
  show "settles (finish_missing_agent_completion E worker d) any (\<lambda>_ y. - owns worker y)"
    unfolding finish_missing_agent_completion_def life_try_def
    by (cases worker) (auto intro!: settles_then [OF 1] settles_first split: sum.splits)
qed

lemma settles_agent_stop:
  assumes "clock_runs E"
  shows "settles (agent_stop_inner E d a) (\<lambda>(r, a'). af_worker a' = None) (\<lambda>_ x. - agent_held a x)"
proof (cases "af_worker a")
  case (Some x)
  note [intro!] = settles_told settles_first [OF settles_remaining] settles_first [OF settles_ask]
    settles_then [OF settles_join_agent(1) [OF assms]] settles_then [OF settles_join_agent(2) [OF assms]]
    settles_then [OF settles_defer]
  show ?thesis unfolding agent_stop_inner_def by (auto simp: Some agent_held_def Let_def split: recv_result.splits)
qed (simp add: agent_stop_inner_def agent_held_def)

lemma settles_agent_drop: "clock_runs E \<Longrightarrow> settles (agent_drop E a) any (\<lambda>_ x. - agent_held a x)"
  unfolding agent_drop_def
  by (rule settles_first [OF settles_deadline_after]) (rule settles_then [OF settles_agent_stop], simp_all)

lemma settles_agent_stop_until:
  assumes "clock_runs E"
  shows "settles (agent_stop_until E d a) any (\<lambda>_ x. - agent_held a x)"
  unfolding agent_stop_until_def
  by (rule settles_then [OF settles_agent_stop [OF assms]])
     (auto intro!: settles_then [OF settles_agent_drop [OF assms]] simp: agent_held_def)

lemma settles_spawn: "settles (spawn_worker E) any (started (\<lambda>y. owns (Some y)))"
  unfolding spawn_worker_def
  by (rule settles_first [OF settles_ask]) (auto intro!: settles_then [OF settles_emit] simp: takes_def split: sum.splits)

lemma settles_initialize: "settles (initialize_agent E a) any idle"
  unfolding initialize_agent_def agent_connect_def
  by (auto intro!: settles_try settles_first [OF settles_ask] settles_setup)

lemma settles_agent_new:
  assumes "clock_runs E"
  shows "settles (agent_new_configured E) any (started agent_held)"
proof -
  have "settles (case r of
      Inl e \<Rightarrow> life_ret (Err e)
    | Inr x \<Rightarrow> (let a = \<lparr>af_connected = True, af_sealed = False, af_completion = x, af_worker = Some x\<rparr> in
        life_then (initialize_agent E a) (\<lambda>r.
          case r of
            Inl e \<Rightarrow> life_then (agent_drop E a) (\<lambda>_. life_ret (Err e))
          | Inr _ \<Rightarrow> life_ret (Ok (a\<lparr>af_sealed := True\<rparr>))))) any
      (\<lambda>u x. started agent_held u x - started (\<lambda>y. owns (Some y)) r x)" for r :: "(worker, io_err) result"
    by (auto simp: Let_def agent_held_def intro!: settles_first [OF settles_initialize]
        settles_then [OF settles_agent_drop [OF assms]] split: sum.splits)
  then show ?thesis unfolding agent_new_configured_def life_try_def [of "spawn_worker E"]
    by (intro settles_try settles_ensure settles_setup settles_then [OF settles_spawn]) simp_all
qed

interpretation agent: worker_fixture agent_held "\<lambda>E _. agent_new_configured E" agent_stop agent_drop
proof unfold_locales
  fix E budget a
  assume run: "clock_runs E"
  show "settles (agent_new_configured E) any (started agent_held)" by (rule settles_agent_new [OF run])
  show "settles (agent_stop E budget a) any (\<lambda>_ x. - agent_held a x)"
    unfolding agent_stop_def by (rule settles_first [OF settles_deadline_after settles_agent_stop_until [OF run]])
  show "settles (agent_drop E a) any (\<lambda>_ x. - agent_held a x)" by (rule settles_agent_drop [OF run])
qed

section \<open>The echo server\<close>

definition echo_held :: "echo_server \<Rightarrow> worker \<Rightarrow> int" where
  "echo_held v = owns (es_worker v)"

lemma settles_join_echo:
  assumes "clock_runs E"
  shows "settles (join_echo_worker_until E x d) any (\<lambda>_ y. takes x y)"
    and "settles (finish_missing_echo_completion E worker d) any (\<lambda>_ y. - owns worker y)"
    and "settles (finish_missing_echo_readiness E x d) (\<lambda>r. \<not> is_ok r) (\<lambda>_ y. takes x y)"
proof -
  show 1: "settles (join_echo_worker_until E x d) any (\<lambda>_ y. takes x y)" for x
    unfolding join_echo_worker_until_def by (rule settles_then [OF settles_join [OF assms]]) simp
  show "settles (finish_missing_echo_completion E worker d) any (\<lambda>_ y. - owns worker y)"
    unfolding finish_missing_echo_completion_def life_try_def
    by (cases worker) (auto intro!: settles_then [OF 1] settles_first split: sum.splits)
  show "settles (finish_missing_echo_readiness E x d) (\<lambda>r. \<not> is_ok r) (\<lambda>_ y. takes x y)"
    unfolding finish_missing_echo_readiness_def life_try_def by (auto intro!: settles_then [OF 1] split: sum.splits)
qed

lemma settles_echo_stop:
  assumes "clock_runs E"
  shows "settles (echo_stop_inner E budget v) (\<lambda>(r, v'). es_worker v' = None) (\<lambda>_ x. - echo_held v x)"
proof -
  note [intro!] = settles_told settles_first [OF settles_remaining] settles_first [OF settles_ask]
    settles_first [OF settles_deadline_after]
    settles_then [OF settles_join_echo(1) [OF assms]] settles_then [OF settles_join_echo(2) [OF assms]]
    settles_then [OF settles_defer]
  show ?thesis unfolding echo_stop_inner_def
    by (cases "es_worker v") (auto simp: echo_held_def Let_def split: recv_result.splits)
qed

lemma settles_echo_drop: "clock_runs E \<Longrightarrow> settles (echo_drop E v) any (\<lambda>_ x. - echo_held v x)"
  unfolding echo_drop_def by (auto intro!: settles_then [OF settles_echo_stop] simp: echo_held_def)

lemma settles_echo_start:
  assumes "clock_runs E"
  shows "settles (echo_start_configured E budget) any (started echo_held)"
proof -
  have ready: "settles (finish_missing_echo_readiness E x d) any (\<lambda>u y. started echo_held u y - owns (Some x) y)" for x d
    by (rule settles_conseq [OF settles_join_echo(3) [OF assms]]) (auto simp: started_def split: sum.splits)
  have "settles (case r of
      Inl e \<Rightarrow> life_ret (Err e)
    | Inr x \<Rightarrow> life_then (remaining E startup) (\<lambda>_.
     life_then (life_ask (lf_io_ready E x)) (\<lambda>ready.
       case ready of
         RecvGot _ \<Rightarrow> life_ret (Ok \<lparr>es_control = \<lparr>ec_cancelled = False, ec_deadline = None\<rparr>,
           es_completion = x, es_worker = Some x\<rparr>)
       | RecvTimedOut \<Rightarrow>
           life_then (life_emit (ToldToStop x)) (\<lambda>_.
           life_then (defer_thread E x) (\<lambda>_.
             life_ret (Err (IoErr IoTimedOut ''loopback echo server did not become ready before deadline''))))
       | RecvDisconnected \<Rightarrow> finish_missing_echo_readiness E x startup))) any
      (\<lambda>u x. started echo_held u x - started (\<lambda>y. owns (Some y)) r x)" for r :: "(worker, io_err) result" and startup
    using ready by (auto simp: echo_held_def intro!: settles_first [OF settles_remaining] settles_first [OF settles_ask]
        settles_told settles_then [OF settles_defer] split: sum.splits recv_result.splits)
  then show ?thesis unfolding echo_start_configured_def life_try_def [of "spawn_worker E"]
    by (intro settles_try settles_ensure settles_setup settles_first [OF settles_deadline_after]
        settles_then [OF settles_spawn]) simp_all
qed

interpretation echo: worker_fixture echo_held echo_start_configured echo_stop echo_drop
proof unfold_locales
  fix E budget v
  assume run: "clock_runs E"
  show "settles (echo_start_configured E budget) any (started echo_held)" by (rule settles_echo_start [OF run])
  show "settles (echo_stop E budget v) any (\<lambda>_ x. - echo_held v x)"
    unfolding echo_stop_def
    by (rule settles_then [OF settles_echo_stop [OF run]])
       (auto intro!: settles_then [OF settles_echo_drop [OF run]] simp: echo_held_def)
  show "settles (echo_drop E v) any (\<lambda>_ x. - echo_held v x)" by (rule settles_echo_drop [OF run])
qed

section \<open>The SSH server\<close>

definition server_held :: "ssh_server \<Rightarrow> worker \<Rightarrow> int" where
  "server_held v x = owns (sv_worker v) x + (case sv_agent v of None \<Rightarrow> 0 | Some a \<Rightarrow> agent_held a x)"

lemma settles_finish_missing_server:
  "clock_runs E \<Longrightarrow> settles (finish_missing_server_completion E x d operation) (\<lambda>r. \<not> is_ok r) (\<lambda>_ y. takes x y)"
  unfolding finish_missing_server_completion_def by (auto intro!: settles_then [OF settles_join])

lemma settles_stop_ssh_worker:
  assumes "clock_runs E"
  shows "settles (stop_ssh_worker E d v) (\<lambda>(r, v'). sv_worker v' = None \<and> sv_agent v' = sv_agent v) (\<lambda>_ x. - owns (sv_worker v) x)"
proof -
  note [intro!] = settles_told settles_first [OF settles_remaining] settles_first [OF settles_ask]
    settles_then [OF settles_join [OF assms]] settles_then [OF settles_finish_missing_server [OF assms]]
    settles_then [OF settles_defer]
  show ?thesis unfolding stop_ssh_worker_def
    by (cases "sv_worker v") (auto simp: Let_def split: recv_result.splits)
qed

lemma settles_server_stop:
  assumes "clock_runs E"
  shows "settles (server_stop_inner E budget v) (\<lambda>(r, v'). sv_worker v' = None \<and> sv_agent v' = None) (\<lambda>_ x. - server_held v x)"
proof -
  have "settles (life_then (case sv_agent v1 of None \<Rightarrow> life_ret (Ok ())
      | Some a \<Rightarrow> life_then (agent_stop_until E d a) (\<lambda>r. life_ret (map_err (\<lambda>source. map_agent_teardown_error source d) r))) (\<lambda>agent.
     life_ret (case primary of Inl e \<Rightarrow> Err e | Inr _ \<Rightarrow> agent, v1\<lparr>sv_agent := None\<rparr>)))
       (\<lambda>(r, v'). sv_worker v' = None \<and> sv_agent v' = None) (\<lambda>_ x. - server_held v x - - owns (sv_worker v) x)"
    if "sv_worker v1 = None" "sv_agent v1 = sv_agent v" for v1 d and primary :: "(unit, ssh_fixture_error) result"
  proof (rule settles_then [where Q = any and f = "\<lambda>_ x. - server_held v x - - owns (sv_worker v) x"])
    show "settles (case sv_agent v1 of None \<Rightarrow> life_ret (Ok ())
      | Some a \<Rightarrow> life_then (agent_stop_until E d a) (\<lambda>r. life_ret (map_err (\<lambda>source. map_agent_teardown_error source d) r)))
      any (\<lambda>_ x. - server_held v x - - owns (sv_worker v) x)"
      using that(2) by (cases "sv_agent v") (auto intro!: settles_then [OF settles_agent_stop_until [OF assms]] simp: server_held_def)
  qed (use that in simp)
  then show ?thesis unfolding server_stop_inner_def
    by (intro settles_first [OF settles_deadline_after] settles_then [OF settles_stop_ssh_worker [OF assms]]) auto
qed

lemma settles_server_drop:
  assumes "clock_runs E"
  shows "settles (server_drop E v) any (\<lambda>_ x. - server_held v x)"
proof (cases "sv_worker v")
  case None
  then show ?thesis unfolding server_drop_def
    by (cases "sv_agent v") (auto intro!: settles_conseq [OF settles_agent_drop [OF assms]] simp: server_held_def)
next
  case (Some x)
  have "settles (life_then (server_stop_inner E SERVER_DROP_DEADLINE v) (\<lambda>(_, v'). life_ret v')) (\<lambda>v'. sv_agent v' = None) (\<lambda>_ x. - server_held v x)"
    by (rule settles_then [OF settles_server_stop [OF assms]]) auto
  from settles_then [OF this, of "\<lambda>v'. case sv_agent v' of None \<Rightarrow> life_ret () | Some a \<Rightarrow> agent_drop E a" any "\<lambda>_ x. - server_held v x"]
  show ?thesis unfolding server_drop_def by (simp add: Some)
qed

lemma settles_fixture_io: "settles m any idle \<Longrightarrow> settles (fixture_io operation m) any idle"
  unfolding fixture_io_def by (rule settles_first) auto

lemma started_map_err: "started held (map_err f r) x = started held r x"
  by (cases r) simp_all

lemma settles_fixture_io_started:
  "settles m any (started held) \<Longrightarrow> settles (fixture_io operation m) any (started held)"
  unfolding fixture_io_def by (rule settles_then [where Q = any and f = "started held"]) (simp_all add: started_map_err)

lemma settles_fixture_setups: "settles (fixture_setups E operations) any idle"
  by (induction operations) (auto intro!: settles_try settles_fixture_io settles_setup)

lemma settles_start_ssh_worker:
  assumes "clock_runs E"
  shows "settles (start_ssh_worker E budget startup a) any (\<lambda>r x. started server_held r x - (if is_ok r then agent_held a x else 0))"
proof -
  let ?h = "\<lambda>r x. started server_held r x - (if is_ok r then agent_held a x else 0)"
  have missing: "settles (finish_missing_server_completion E x startup operation) any (\<lambda>u y. ?h u y - owns (Some x) y)" for x operation
    by (rule settles_conseq [OF settles_finish_missing_server [OF assms]]) (auto simp: started_def split: sum.splits)
  have "settles (case r of
      Inl e \<Rightarrow> life_ret (Err e)
    | Inr x \<Rightarrow> life_then (remaining E startup) (\<lambda>_.
     life_then (life_ask (lf_ready E x)) (\<lambda>ready.
       case ready of
         RecvGot r \<Rightarrow>
           (case r of
              Inr _ \<Rightarrow> life_ret (Ok \<lparr>sv_cancellation = None, sv_agent = Some a, sv_completion = x, sv_worker = Some x\<rparr>)
            | Inl e \<Rightarrow>
                life_then (join_thread_until E x startup) (\<lambda>outcome. life_ret (Err
                  (case outcome of
                     JoinCompleted \<Rightarrow> e
                   | JoinPanicked \<Rightarrow> FixtureWorkerPanicked
                   | JoinDeferred \<Rightarrow> FixtureTimedOut ''startup worker join'' budget))))
       | RecvTimedOut \<Rightarrow>
           life_then (life_emit (ToldToStop x)) (\<lambda>_.
           life_then (defer_thread E x) (\<lambda>_. life_ret (Err (FixtureTimedOut ''startup'' budget))))
       | RecvDisconnected \<Rightarrow> finish_missing_server_completion E x startup ''startup completion''))) any
      (\<lambda>u x. ?h u x - started (\<lambda>y. owns (Some y)) r x)" for r :: "(worker, ssh_fixture_error) result"
    using missing by (auto simp: server_held_def intro!: settles_first [OF settles_remaining] settles_first [OF settles_ask]
        settles_told settles_then [OF settles_defer] settles_then [OF settles_join [OF assms]] split: sum.splits recv_result.splits)
  then show ?thesis
    unfolding start_ssh_worker_def life_try_def [of "fixture_io ''worker spawn failed'' (spawn_worker E)"]
      bind_fixture_listener_def create_openssh_state_def
    by (intro settles_try settles_fixture_setups settles_then [OF settles_fixture_io_started [OF settles_spawn]]) simp_all
qed

lemma settles_server_start:
  assumes "clock_runs E"
  shows "settles (server_start_configured E budget) any (started server_held)"
proof -
  have "settles (case r of
      Inl e \<Rightarrow> life_ret (Err e)
    | Inr a \<Rightarrow> life_then (start_ssh_worker E budget startup a) (\<lambda>r.
       case r of Inl e \<Rightarrow> life_then (agent_drop E a) (\<lambda>_. life_ret (Err e)) | Inr v \<Rightarrow> life_ret (Ok v))) any
     (\<lambda>u x. started server_held u x - started agent_held r x)" for r :: "(agent_fixture, ssh_fixture_error) result" and startup
    by (auto intro!: settles_then [OF settles_start_ssh_worker [OF assms]] settles_then [OF settles_agent_drop [OF assms]]
        split: sum.splits)
  then show ?thesis
    unfolding server_start_configured_def life_try_def [of "fixture_io ''client identity setup failed'' (agent_new_configured E)"]
    by (intro settles_first [OF settles_deadline_after] settles_try settles_fixture_io [OF settles_ensure]
        settles_then [OF settles_fixture_io_started [OF settles_agent_new [OF assms]]]) simp_all
qed

interpretation server: worker_fixture server_held server_start_configured server_stop server_drop
proof unfold_locales
  fix E budget v
  assume run: "clock_runs E"
  show "settles (server_start_configured E budget) any (started server_held)" by (rule settles_server_start [OF run])
  show "settles (server_stop E budget v) any (\<lambda>_ x. - server_held v x)"
    unfolding server_stop_def
    by (rule settles_then [OF settles_server_stop [OF run]])
       (auto intro!: settles_then [OF settles_server_drop [OF run]] simp: server_held_def)
  show "settles (server_drop E v) any (\<lambda>_ x. - server_held v x)" by (rule settles_server_drop [OF run])
qed

section \<open>What success means\<close>

text \<open>A program whose good results mean that a thread was joined and did not panic.\<close>

definition joins :: "worker \<Rightarrow> ('a \<Rightarrow> bool) \<Rightarrow> 'a life \<Rightarrow> bool" where
  "joins x good m \<longleftrightarrow> (\<forall>w v w'. m w = Some (v, w') \<longrightarrow> good v \<longrightarrow> Joined x True \<in> set (lw_log w'))"

lemma joins_after:
  assumes "\<And>w v w'. m w = Some (v, w') \<Longrightarrow> joins x good (k v)"
  shows "joins x good (life_then m k)"
  unfolding joins_def
proof (intro allI impI)
  fix w u w'
  assume "life_then m k w = Some (u, w')" "good u"
  then obtain v w1 where "m w = Some (v, w1)" "k v w1 = Some (u, w')" by (auto simp: life_then_def bind_eq_Some_conv)
  with assms \<open>good u\<close> show "Joined x True \<in> set (lw_log w')" unfolding joins_def by blast
qed

lemma joins_last: "(\<And>v. joins x good (k v)) \<Longrightarrow> joins x good (life_then m k)"
  by (rule joins_after)

lemma joins_bad: "\<not> good v \<Longrightarrow> joins x good (life_ret v)"
  by (simp add: joins_def life_ret_def)

lemma joins_map: "joins x good m \<Longrightarrow> (\<And>v. good' (f v) \<Longrightarrow> good v) \<Longrightarrow> joins x good' (life_then m (\<lambda>v. life_ret (f v)))"
  by (fastforce simp: joins_def life_then_def life_ret_def bind_eq_Some_conv)

text \<open>What follows keeps the log.\<close>

lemma settles_grows: "settles m Q h \<Longrightarrow> m w = Some (v, w') \<Longrightarrow> Q v \<and> set (lw_log w) \<subseteq> set (lw_log w')"
  unfolding settles_def by (metis Un_upper1 option.inject prod.inject set_append)

lemma joins_first:
  assumes "joins x good m" and "\<And>v. settles (k v) (\<lambda>u. good' u \<longrightarrow> good v) (h v)"
  shows "joins x good' (life_then m k)"
  unfolding joins_def
proof (intro allI impI)
  fix w u w'
  assume "life_then m k w = Some (u, w')" and good: "good' u"
  then obtain v w1 where 1: "m w = Some (v, w1)" "k v w1 = Some (u, w')" by (auto simp: life_then_def bind_eq_Some_conv)
  with settles_grows [OF assms(2) 1(2)] good assms(1) show "Joined x True \<in> set (lw_log w')" by (auto simp: joins_def)
qed

lemma joins_join: "joins x (\<lambda>outcome. outcome = JoinCompleted) (join_thread_until E x d)"
proof -
  have "joins x (\<lambda>outcome. outcome = JoinCompleted)
      (life_then (life_emit (Joined x True)) (\<lambda>_. life_ret JoinCompleted))"
    by (auto simp: joins_def life_then_def life_emit_def life_ret_def)
  then show ?thesis unfolding join_thread_until_def
    by (intro joins_last) (auto intro: joins_last joins_bad)
qed

lemma joins_join_agent: "joins x is_ok (join_agent_worker_until E x d)"
  unfolding join_agent_worker_until_def by (rule joins_map [OF joins_join]) (auto split: thread_join_outcome.split_asm)

lemma joins_missing_agent: "joins x is_ok (finish_missing_agent_completion E worker d)"
  unfolding finish_missing_agent_completion_def life_try_def
  by (rule joins_last) (auto intro!: joins_bad split: sum.splits)

lemma joins_agent_stop: "af_worker a = Some x \<Longrightarrow> joins x (\<lambda>(r, a'). is_ok r) (agent_stop_inner E d a)"
  unfolding agent_stop_inner_def Let_def
  by (auto intro!: joins_last joins_bad joins_map [OF joins_missing_agent] joins_map [OF joins_join_agent] split: recv_result.splits)
     (metis and_then.simps(1) is_ok.elims(1))

lemma joins_agent_stop_until:
  assumes "clock_runs E" and "af_worker a = Some x"
  shows "joins x is_ok (agent_stop_until E d a)"
  unfolding agent_stop_until_def
proof (rule joins_first [OF joins_agent_stop [OF assms(2)]])
  fix v :: "(unit, io_err) result \<times> agent_fixture"
  show "settles (case v of (r, a') \<Rightarrow> life_then (agent_drop E a') (\<lambda>_. life_ret r))
      (\<lambda>u. is_ok u \<longrightarrow> (case v of (r, a') \<Rightarrow> is_ok r)) (\<lambda>_ y. - agent_held (snd v) y)"
    by (cases v) (auto intro!: settles_then [OF settles_agent_drop [OF assms(1)]])
qed

lemma joins_missing_server: "joins x is_ok (finish_missing_server_completion E y d operation)"
  unfolding finish_missing_server_completion_def by (rule joins_last) (auto intro: joins_bad)

lemma joins_ssh_worker: "sv_worker v = Some x \<Longrightarrow> joins x (\<lambda>(r, v'). is_ok r) (stop_ssh_worker E d v)"
  unfolding stop_ssh_worker_def Let_def
  by (auto intro!: joins_last joins_bad joins_map [OF joins_join] joins_map [OF joins_missing_server]
      split: recv_result.splits thread_join_outcome.split_asm)

lemma joins_server_stop_inner:
  assumes "clock_runs E" and "sv_worker v = Some x" and "sv_agent v = Some a" and "af_worker a = Some y"
  shows "joins x (\<lambda>(r, v'). is_ok r) (server_stop_inner E budget v)" "joins y (\<lambda>(r, v'). is_ok r) (server_stop_inner E budget v)"
proof -
  let ?rest = "\<lambda>d primary v1. life_then (case sv_agent v1 of None \<Rightarrow> life_ret (Ok ())
      | Some a \<Rightarrow> life_then (agent_stop_until E d a) (\<lambda>r. life_ret (map_err (\<lambda>source. map_agent_teardown_error source d) r)))
        (\<lambda>agent. life_ret (case primary :: (unit, ssh_fixture_error) result of Inl e \<Rightarrow> Err e | Inr _ \<Rightarrow> agent, v1\<lparr>sv_agent := None\<rparr>))"
  have agent: "settles (case sv_agent v1 of None \<Rightarrow> life_ret (Ok ())
      | Some a \<Rightarrow> life_then (agent_stop_until E d a) (\<lambda>r. life_ret (map_err (\<lambda>source. map_agent_teardown_error source d) r)))
      any (\<lambda>_ y. - (case sv_agent v1 of None \<Rightarrow> 0 | Some a \<Rightarrow> agent_held a y))" for v1 d
    by (auto intro!: settles_then [OF settles_agent_stop_until [OF assms(1)]] split: option.splits)
  have "settles (?rest d primary v1) (\<lambda>(r, v'). is_ok r \<longrightarrow> is_ok primary) (\<lambda>_ y. - (case sv_agent v1 of None \<Rightarrow> 0 | Some a \<Rightarrow> agent_held a y))" for d primary v1
    by (rule settles_then [OF agent]) (auto split: sum.splits)
  then have "joins x (\<lambda>(r, v'). is_ok r) (life_then (stop_ssh_worker E d v) (\<lambda>(primary, v1). ?rest d primary v1))" for d
    by (intro joins_first [OF joins_ssh_worker [OF assms(2)], where h = "\<lambda>(primary, v1) _ y. - (case sv_agent v1 of None \<Rightarrow> 0 | Some a \<Rightarrow> agent_held a y)"])
       (auto simp: case_prod_unfold)
  then show "joins x (\<lambda>(r, v'). is_ok r) (server_stop_inner E budget v)"
    unfolding server_stop_inner_def by (rule joins_last)
  have "joins y (\<lambda>(r, v'). is_ok r) (?rest d primary (v1 :: ssh_server))" if "sv_agent v1 = Some a" for d primary v1
  proof -
    have j: "joins y is_ok (life_then (agent_stop_until E d a) (\<lambda>r. life_ret (map_err (\<lambda>source. map_agent_teardown_error source d) r)))"
      by (rule joins_map [OF joins_agent_stop_until [OF assms(1,4)]]) (metis is_ok.elims(3) is_ok.simps(2) map_err.simps(1))
    show ?thesis using that by (simp, intro joins_map [OF j]) (auto split: sum.split_asm)
  qed
  note rest = this
  have "joins y (\<lambda>(r, v'). is_ok r) (life_then (stop_ssh_worker E d v) (\<lambda>(primary, v1). ?rest d primary v1))" for d
  proof (rule joins_after)
    fix w u w'
    assume "stop_ssh_worker E d v w = Some (u, w')"
    from settles_grows [OF settles_stop_ssh_worker [OF assms(1)] this] have "sv_agent (snd u) = Some a"
      using assms(3) by (simp add: case_prod_unfold)
    then show "joins y (\<lambda>(r, v'). is_ok r) (case u of (primary, v1) \<Rightarrow> ?rest d primary v1)"
      unfolding case_prod_beta [of "\<lambda>primary v1. ?rest d primary v1" u] by (rule rest)
  qed
  then show "joins y (\<lambda>(r, v'). is_ok r) (server_stop_inner E budget v)"
    unfolding server_stop_inner_def by (rule joins_last)
qed

lemma joins_server_stop:
  assumes "clock_runs E" and "joins x (\<lambda>(r, v'). is_ok r) (server_stop_inner E budget v)"
  shows "joins x is_ok (server_stop E budget v)"
  unfolding server_stop_def
proof (rule joins_first [OF assms(2)])
  fix u :: "(unit, ssh_fixture_error) result \<times> ssh_server"
  show "settles (case u of (r, v') \<Rightarrow> life_then (server_drop E v') (\<lambda>_. life_ret r))
      (\<lambda>q. is_ok q \<longrightarrow> (case u of (r, v') \<Rightarrow> is_ok r)) (\<lambda>_ y. - server_held (snd u) y)"
    by (cases u) (auto intro!: settles_then [OF settles_server_drop [OF assms(1)]])
qed

section \<open>Properties\<close>

text \<open>C18. No fixture leaks a thread. When the clock runs, starting an agent, an echo server or an SSH
  server and then stopping or dropping it (or failing to start it) returns, whatever threads do,
  channels deliver and system calls fail, and for every thread the joins, hand-overs to the
  reaper and retentions add up to exactly the number of times it was started.\<close>

theorem fixture_workers_accounted:
  assumes "clock_runs E"
  shows "(\<exists>w' es. fixture_life (\<lambda>E _. agent_new_configured E) agent_stop agent_drop E budget ending w = Some ((), w') \<and>
      lw_log w' = lw_log w @ es \<and> balance x es = 0) \<and>
    (\<exists>w' es. fixture_life echo_start_configured echo_stop echo_drop E budget ending w = Some ((), w') \<and>
      lw_log w' = lw_log w @ es \<and> balance x es = 0) \<and>
    (\<exists>w' es. fixture_life server_start_configured server_stop server_drop E budget ending w = Some ((), w') \<and>
      lw_log w' = lw_log w @ es \<and> balance x es = 0)"
  using agent.life_balanced [OF assms] echo.life_balanced [OF assms] server.life_balanced [OF assms] by blast

definition demo_life_env :: life_env where
  "demo_life_env = \<lparr>lf_time = (\<lambda>n. n), lf_latest = 10 ^ 20, lf_finished = (\<lambda>_ _. True), lf_join = (\<lambda>_. True),
     lf_setup = (\<lambda>_. Ok ()), lf_spawn = (\<lambda>n. Ok n), lf_gone = (\<lambda>_. False), lf_add_identity = (\<lambda>_. IdentityAdded),
     lf_io_completion = (\<lambda>_ _. RecvGot (Ok ())), lf_io_ready = (\<lambda>_ _. RecvGot ()),
     lf_completion = (\<lambda>_ _. RecvGot (Ok ())), lf_ready = (\<lambda>_ _. RecvGot (Ok ()))\<rparr>"

definition demo_life_world :: life_world where
  "demo_life_world = \<lparr>lw_calls = 0, lw_log = [], lw_sender = False\<rparr>"

lemma demo_clock_runs: "clock_runs demo_life_env"
  by (auto simp: clock_runs_def demo_life_env_def)

theorem fixture_workers_accounted_witness:
  "\<exists>w'. fixture_life server_start_configured server_stop server_drop demo_life_env 5 (Some 5) demo_life_world = Some ((), w') \<and>
     balance 8 (lw_log w') = 0"
  using fixture_workers_accounted [OF demo_clock_runs, of 5 "Some 5" demo_life_world 8] by (auto simp: demo_life_world_def)

text \<open>C34. Stopping an SSH server reports success only when its threads have really ended: its own
  thread and that of its agent have been joined and neither panicked.\<close>

theorem stopped_means_joined:
  assumes "clock_runs E" and "server_stop E budget v w = Some (Ok (), w')"
    and "sv_worker v = Some x" and "sv_agent v = Some a" and "af_worker a = Some y"
  shows "Joined x True \<in> set (lw_log w') \<and> Joined y True \<in> set (lw_log w')"
  using joins_server_stop [OF assms(1) joins_server_stop_inner(1) [OF assms(1,3,4,5)], of budget]
    joins_server_stop [OF assms(1) joins_server_stop_inner(2) [OF assms(1,3,4,5)], of budget] assms(2)
  by (auto simp: joins_def)

definition demo_server :: ssh_server where
  "demo_server = \<lparr>sv_cancellation = None,
     sv_agent = Some \<lparr>af_connected = True, af_sealed = True, af_completion = 1, af_worker = Some 1\<rparr>,
     sv_completion = 2, sv_worker = Some 2\<rparr>"

lemma demo_life_env_simps:
  "lf_time demo_life_env n = n" "lf_latest demo_life_env = 10 ^ 20" "lf_finished demo_life_env x n" "lf_join demo_life_env x"
  "lf_io_completion demo_life_env x n = RecvGot (Ok ())" "lf_completion demo_life_env x n = RecvGot (Ok ())"
  by (simp_all add: demo_life_env_def)

lemma demo_join: "join_wait demo_life_env x d w = Some ((), w\<lparr>lw_calls := Suc (lw_calls w)\<rparr>)"
  by (subst join_wait.simps) (simp add: life_ask_def demo_life_env_def)

theorem stopped_means_joined_witness:
  "\<exists>w'. server_stop demo_life_env 5 demo_server demo_life_world = Some (Ok (), w') \<and> Joined 2 True \<in> set (lw_log w')"
proof -
  have run: "\<exists>w'. server_stop demo_life_env 5 demo_server demo_life_world = Some (Ok (), w')"
    by (simp add: server_stop_def server_stop_inner_def stop_ssh_worker_def server_drop_def demo_server_def Let_def
        agent_stop_until_def agent_stop_inner_def agent_drop_def join_agent_worker_until_def join_thread_until_def
        demo_join life_then_def life_ret_def life_emit_def life_ask_def deadline_after_def remaining_def
        demo_life_env_simps demo_life_world_def AGENT_DROP_DEADLINE_def)
  then show ?thesis
    using stopped_means_joined [OF demo_clock_runs, of 5 demo_server demo_life_world] by (fastforce simp: demo_server_def)
qed

end
