(* ===== verification/Echo_Server.thy ===== *)
theory Echo_Server
  imports Workers_Accounted
begin

text \<open>
  The echo server behind forwarded connections, \<open>crates/rssh-test-support/src/ssh/forward.rs\<close> lines 335 to 558:
  the listener's loop, which gives every connection a thread, collects the threads that have
  finished and drains the rest at the end, and the loop of a connection. The counter of active
  connections, which a guard in the thread takes back, is not part of the state.
\<close>

section \<open>Connections\<close>

text \<open>What the environment answers: whether the owner has cancelled by now (with its deadline), the
  next connection, and what a finished connection reported.\<close>

record echo_env =
  ee_life :: life_env
  ee_owner :: "nat \<Rightarrow> shutdown_deadline option"
  ee_accept :: "nat \<Rightarrow> (unit, io_err) result"
  ee_report :: "worker \<Rightarrow> (unit, io_err) result option"

text \<open>The two timeouts of the stream, then the thread.\<close>

definition spawn_echo_connection :: "echo_env \<Rightarrow> (worker, io_err) result life" where
  "spawn_echo_connection E = life_try (life_setups (ee_life E) 2) (\<lambda>_. spawn_worker (ee_life E))"

definition join_connection :: "echo_env \<Rightarrow> worker \<Rightarrow> (unit, io_err) result life" where
  "join_connection E x =
     life_then (life_emit (Joined x (lf_join (ee_life E) x))) (\<lambda>_. life_ret
       (if \<not> lf_join (ee_life E) x then Err (IoErr IoOther ''loopback echo connection worker panicked'')
        else (case ee_report E x of
                Some r \<Rightarrow> r
              | None \<Rightarrow> Err (IoErr IoOther
                  ''loopback echo connection result missing: receiving on a closed channel''))))"

text \<open>\<open>Option::get_or_insert\<close> of the error of a result.\<close>

definition first_of :: "io_err option \<Rightarrow> (unit, io_err) result \<Rightarrow> io_err option" where
  "first_of first r = (case first of Some e \<Rightarrow> Some e | None \<Rightarrow> (case r of Inl e \<Rightarrow> Some e | Inr _ \<Rightarrow> None))"

definition as_result :: "io_err option \<Rightarrow> (unit, io_err) result" where
  "as_result e = (case e of Some e \<Rightarrow> Err e | None \<Rightarrow> Ok ())"

function join_finished_from :: "echo_env \<Rightarrow> worker list \<Rightarrow> nat \<Rightarrow> io_err option \<Rightarrow> (io_err option \<times> worker list) life" where
  "join_finished_from E connections index first =
     (if index < length connections
      then life_then (life_ask (lf_finished (ee_life E) (connections ! index))) (\<lambda>finished.
        if finished
        then life_then (join_connection E (connections ! index)) (\<lambda>r.
             join_finished_from E (swap_remove connections index) index (first_of first r))
        else join_finished_from E connections (Suc index) first)
      else life_ret (first, connections))"
  by pat_completeness auto
termination
  by (relation "measure (\<lambda>(E, connections, index, first). length connections - index)") auto

declare join_finished_from.simps [simp del]

definition join_finished_connections :: "echo_env \<Rightarrow> worker list \<Rightarrow> ((unit, io_err) result \<times> worker list) life" where
  "join_finished_connections E connections =
     life_then (join_finished_from E connections 0 None) (\<lambda>(first, connections). life_ret (as_result first, connections))"

section \<open>Draining\<close>

partial_function (option) drain_wait ::
  "echo_env \<Rightarrow> shutdown_deadline \<Rightarrow> worker list \<Rightarrow> io_err option \<Rightarrow> (io_err option \<times> worker list) life" where
  "drain_wait E d connections first w =
     (if connections = [] then Some ((first, connections), w)
      else Option.bind (remaining (ee_life E) d w) (\<lambda>(left, w1).
        if left = 0 then Some ((first, connections), w1)
        else Option.bind (join_finished_connections E connections w1) (\<lambda>((r, connections'), w2).
          if connections' = [] then drain_wait E d connections' (first_of first r) w2
          else Option.bind (remaining (ee_life E) d w2) (\<lambda>(park, w3).
            drain_wait E d connections' (first_of first r) w3))))"

fun defer_all :: "echo_env \<Rightarrow> worker list \<Rightarrow> unit life" where
  "defer_all E [] = life_ret ()"
| "defer_all E (x # xs) = life_then (defer_thread (ee_life E) x) (\<lambda>_. defer_all E xs)"

definition drain_connection_threads :: "echo_env \<Rightarrow> worker list \<Rightarrow> shutdown_deadline \<Rightarrow> (unit, io_err) result life" where
  "drain_connection_threads E connections d =
     life_then (drain_wait E d connections None) (\<lambda>(first, connections).
     life_then (join_finished_connections E connections) (\<lambda>(r, connections).
       (let first = first_of first r in
        if connections = [] then life_ret (as_result first)
        else life_then (defer_all E connections) (\<lambda>_. life_ret (as_result (first_of first
          (Err (IoErr IoTimedOut (''loopback echo connection drain exceeded '' @ debug_duration (sd_budget d))))))))))"

section \<open>The listener\<close>

record echo_listener =
  el_control :: echo_control
  el_connections :: "worker list"
  el_outcome :: "(unit, io_err) result"

text \<open>The owner may have cancelled.\<close>

definition look :: "echo_env \<Rightarrow> echo_control \<Rightarrow> echo_control life" where
  "look E c = life_then (life_ask (ee_owner E)) (\<lambda>owner. life_ret (case owner of Some d \<Rightarrow> echo_cancel d c | None \<Rightarrow> c))"

text \<open>A failure is kept and cancels the server.\<close>

definition fail_listener :: "echo_env \<Rightarrow> bool \<Rightarrow> io_err \<Rightarrow> echo_listener \<Rightarrow> echo_listener life" where
  "fail_listener E always e l =
     life_then (deadline_after (ee_life E) ECHO_DROP_DEADLINE) (\<lambda>d.
     life_then (look E (el_control l)) (\<lambda>c.
     life_ret (l\<lparr>el_outcome := (if always \<or> is_ok (el_outcome l) then Err e else el_outcome l),
       el_control := echo_cancel d c\<rparr>)))"

definition echo_accept :: "echo_env \<Rightarrow> echo_listener \<Rightarrow> echo_listener life" where
  "echo_accept E l =
     life_then (life_ask (ee_accept E)) (\<lambda>accepted.
       case accepted of
         Inr _ \<Rightarrow>
           life_then (spawn_echo_connection E) (\<lambda>r.
             case r of
               Inr x \<Rightarrow> life_ret (l\<lparr>el_connections := el_connections l @ [x]\<rparr>)
             | Inl e \<Rightarrow> fail_listener E True e l)
       | Inl (IoErr kind text) \<Rightarrow>
           if kind = IoWouldBlock \<or> kind = IoInterrupted then life_ret l else fail_listener E True (IoErr kind text) l)"

definition echo_turn :: "echo_env \<Rightarrow> echo_listener \<Rightarrow> echo_listener life" where
  "echo_turn E l =
     life_then (echo_accept E l) (\<lambda>l.
     life_then (join_finished_connections E (el_connections l)) (\<lambda>(r, connections).
       (let l = l\<lparr>el_connections := connections\<rparr> in
        case r of Inl e \<Rightarrow> fail_listener E False e l | Inr _ \<Rightarrow> life_ret l)))"

partial_function (option) echo_loop :: "echo_env \<Rightarrow> echo_listener \<Rightarrow> echo_listener life" where
  "echo_loop E l w =
     Option.bind (look E (el_control l) w) (\<lambda>(c, w1).
       if ec_cancelled c then Some (l\<lparr>el_control := c\<rparr>, w1)
       else Option.bind (echo_turn E (l\<lparr>el_control := c\<rparr>) w1) (\<lambda>(l', w2). echo_loop E l' w2))"

definition run_echo_listener :: "echo_env \<Rightarrow> (unit, io_err) result life" where
  "run_echo_listener E =
     life_then (echo_loop E \<lparr>el_control = \<lparr>ec_cancelled = False, ec_deadline = None\<rparr>, el_connections = [], el_outcome = Ok ()\<rparr>) (\<lambda>l.
     life_then (case ec_deadline (el_control l) of
                  Some d \<Rightarrow> life_ret d | None \<Rightarrow> deadline_after (ee_life E) ECHO_DROP_DEADLINE) (\<lambda>d.
     life_then (drain_connection_threads E (el_connections l) d) (\<lambda>r.
     life_ret (res_and (el_outcome l) r))))"

section \<open>One connection\<close>

text \<open>A turn of a connection's loop: whether the server is cancelled, what a read returns, and
  whether the write of those bytes succeeds or fails after some of them. The result is that of
  the connection and the bytes it sent.\<close>

type_synonym echo_turns = "(bool \<times> (bytes, io_err) result \<times> (unit, nat \<times> io_err) result) list"

fun echo_connection :: "echo_turns \<Rightarrow> ((unit, io_err) result \<times> bytes) option" where
  "echo_connection [] = None"
| "echo_connection ((cancelled, got, put) # turns) =
     (if cancelled then Some (Ok (), [])
      else case got of
        Inr data \<Rightarrow>
          if data = [] then Some (Ok (), [])
          else (case put of
                  Inr _ \<Rightarrow> map_option (\<lambda>(r, sent). (r, data @ sent)) (echo_connection turns)
                | Inl (n, e) \<Rightarrow> Some (Err e, take n data))
      | Inl (IoErr kind text) \<Rightarrow>
          if kind = IoWouldBlock \<or> kind = IoTimedOut then echo_connection turns
          else if kind = IoConnectionReset \<or> kind = IoConnectionAborted then Some (Ok (), [])
          else Some (Err (IoErr kind text), []))"

text \<open>The bytes that are read before the connection ends.\<close>

fun echo_input :: "echo_turns \<Rightarrow> bytes" where
  "echo_input [] = []"
| "echo_input ((cancelled, got, put) # turns) =
     (if cancelled then []
      else case got of
        Inr data \<Rightarrow> if data = [] then [] else data @ (if is_ok put then echo_input turns else [])
      | Inl (IoErr kind text) \<Rightarrow> if kind = IoWouldBlock \<or> kind = IoTimedOut then echo_input turns else [])"

lemma echo_connection_sent:
  "echo_connection turns = Some (r, sent) \<Longrightarrow> prefix sent (echo_input turns) \<and> (is_ok r \<longrightarrow> sent = echo_input turns)"
proof (induction turns arbitrary: sent)
  case (Cons t turns)
  obtain cancelled got put where t: "t = (cancelled, got, put)" by (cases t)
  show ?case
  proof (cases "cancelled \<or> (\<exists>e. got = Inl e)")
    case True
    with Cons t show ?thesis by (cases got) (auto split: if_splits io_err.splits)
  next
    case False
    then obtain data where "got = Inr data" "\<not> cancelled" by (cases got) auto
    with Cons t show ?thesis by (cases put) (auto simp: take_is_prefix split: if_splits)
  qed
qed simp

section \<open>No connection thread is lost\<close>

lemma settles_join_connection: "settles (join_connection E x) any (\<lambda>_ y. takes x y)"
  unfolding join_connection_def by (rule settles_then [OF settles_emit]) (simp add: takes_def)

lemma settles_join_finished_from:
  "settles (join_finished_from E connections index first) any (\<lambda>(first', cs) x. conns cs x - conns connections x)"
proof (induction E connections index first rule: join_finished_from.induct)
  case (1 E connections index first)
  show ?case
  proof (cases "index < length connections")
    case True
    let ?h = "\<lambda>(first', cs) x. conns cs x - conns connections x"
    have "settles (join_finished_from E (swap_remove connections index) index (first_of first r)) any
        (\<lambda>u x. ?h u x - takes (connections ! index) x)" for r
      by (rule settles_conseq [OF 1(1) [OF True]]) (use True in \<open>auto simp: conns_swap_remove\<close>)
    then have "settles (life_then (join_connection E (connections ! index)) (\<lambda>r.
        join_finished_from E (swap_remove connections index) index (first_of first r))) any ?h"
      by (rule settles_then [OF settles_join_connection])
    with True 1(2) [OF True] show ?thesis
      by (subst join_finished_from.simps) (auto intro!: settles_first [OF settles_ask])
  qed (simp add: join_finished_from.simps)
qed

lemma settles_join_finished:
  "settles (join_finished_connections E connections) any (\<lambda>(r, cs) x. conns cs x - conns connections x)"
  unfolding join_finished_connections_def by (rule settles_then [OF settles_join_finished_from]) auto

lemma settles_defer_all: "settles (defer_all E xs) any (\<lambda>_ x. - conns xs x)"
  by (induction xs) (auto intro!: settles_then [OF settles_defer] elim: settles_conseq)

text \<open>Loops: a loop that ends once a call has a high enough number returns, when each of its rounds
  makes a call.\<close>

definition settles_at :: "'a life \<Rightarrow> life_world \<Rightarrow> ('a \<Rightarrow> bool) \<Rightarrow> ('a \<Rightarrow> worker \<Rightarrow> int) \<Rightarrow> bool" where
  "settles_at m w Q h \<longleftrightarrow> (\<exists>v w' es. m w = Some (v, w') \<and> lw_log w' = lw_log w @ es \<and>
     lw_calls w \<le> lw_calls w' \<and> Q v \<and> (\<forall>x. balance x es = h v x))"

lemma settles_at_all: "(\<And>w. settles_at m w Q h) \<Longrightarrow> settles m Q h"
  by (simp add: settles_def settles_at_def)

lemma settles_round:
  assumes "settles m Q f" and "\<And>v w1. m w = Some (v, w1) \<Longrightarrow> Q v \<Longrightarrow> lw_calls w \<le> lw_calls w1 \<Longrightarrow>
      settles_at (k v) w1 R (\<lambda>u x. h u x - f v x)"
  shows "settles_at (\<lambda>w. Option.bind (m w) (\<lambda>(v, w1). k v w1)) w R h"
proof -
  obtain v w1 es where 1: "m w = Some (v, w1)" "lw_log w1 = lw_log w @ es" "lw_calls w \<le> lw_calls w1" "Q v"
    "\<forall>x. balance x es = f v x"
    using assms(1) unfolding settles_def by metis
  with assms(2) obtain u w2 fs where 2: "k v w1 = Some (u, w2)" "lw_log w2 = lw_log w1 @ fs" "lw_calls w1 \<le> lw_calls w2"
    "R u" "\<forall>x. balance x fs = h u x - f v x" unfolding settles_at_def by metis
  have "Option.bind (m w) (\<lambda>(v, w1). k v w1) = Some (u, w2) \<and> lw_log w2 = lw_log w @ (es @ fs) \<and>
      lw_calls w \<le> lw_calls w2 \<and> R u \<and> (\<forall>x. balance x (es @ fs) = h u x)"
    using 1 2 by simp
  then show ?thesis unfolding settles_at_def by blast
qed

lemma settles_at_ret: "R v \<Longrightarrow> (\<And>x. h v x = 0) \<Longrightarrow> settles_at (\<lambda>w. Some (v, w)) w R h"
  by (auto simp: settles_at_def)

lemma settles_at_cong: "m w = m' w \<Longrightarrow> settles_at m' w Q h \<Longrightarrow> settles_at m w Q h"
  by (simp add: settles_at_def)

lemma drain_wait_settles:
  assumes "\<forall>m \<ge> n. sd_at d \<le> lf_time (ee_life E) m"
  shows "settles_at (drain_wait E d connections first) w any (\<lambda>(first', cs) x. conns cs x - conns connections x)"
proof (induction "n - lw_calls w" arbitrary: w connections first rule: less_induct)
  case less
  let ?h = "\<lambda>(first', cs) x. conns cs x - conns connections x"
  show ?case
  proof (cases "connections = [] \<or> sd_at d \<le> lf_time (ee_life E) (lw_calls w)")
    case True
    then show ?thesis unfolding settles_at_def
      by (subst drain_wait.simps) (auto simp: remaining_def life_then_def life_ask_def life_ret_def)
  next
    case False
    let ?w1 = "w\<lparr>lw_calls := Suc (lw_calls w)\<rparr>"
    let ?k = "\<lambda>(r, connections') w2. if connections' = [] then drain_wait E d connections' (first_of first r) w2
          else Option.bind (remaining (ee_life E) d w2) (\<lambda>(park, w3). drain_wait E d connections' (first_of first r) w3)"
    have early: "lw_calls w < n" using False assms by (meson not_le)
    have again: "settles_at (drain_wait E d cs e) w2 any (\<lambda>(first', cs') x. conns cs' x - conns cs x)"
      if "lw_calls ?w1 \<le> lw_calls w2" for cs e w2
      using less that early by simp
    have k: "settles_at (?k v) w1 any (\<lambda>u x. ?h u x - (case v of (r, cs) \<Rightarrow> \<lambda>x. conns cs x - conns connections x) x)"
      if "lw_calls ?w1 \<le> lw_calls w1" for v w1
    proof -
      obtain r cs where v: "v = (r, cs)" by (cases v)
      have 1: "settles_at (drain_wait E d cs (first_of first r)) w2 any (\<lambda>u x. ?h u x - (conns cs x - conns connections x))"
        if "lw_calls ?w1 \<le> lw_calls w2" for w2
        using again [OF that, of cs "first_of first r"] by (simp add: case_prod_unfold)
      have 2: "settles_at (\<lambda>w2. Option.bind (remaining (ee_life E) d w2) (\<lambda>(park, w3). drain_wait E d cs (first_of first r) w3)) w1 any
          (\<lambda>u x. ?h u x - (conns cs x - conns connections x))"
        by (rule settles_round [OF settles_remaining]) (use 1 that in auto)
      show ?thesis unfolding v using 1 [OF that] 2 by (cases "cs = []") (auto intro: settles_at_cong)
    qed
    have "settles_at (\<lambda>w. Option.bind (join_finished_connections E connections w) (\<lambda>(v, w1). ?k v w1)) ?w1 any ?h"
      by (rule settles_round [OF settles_join_finished]) (rule k)
    moreover have "drain_wait E d connections first w = Option.bind (join_finished_connections E connections ?w1) (\<lambda>(v, w1). ?k v w1)"
      using False by (subst drain_wait.simps) (simp add: remaining_def life_then_def life_ask_def life_ret_def case_prod_unfold)
    ultimately show ?thesis unfolding settles_at_def by (force dest: Suc_leD)
  qed
qed

lemma settles_drain:
  assumes "clock_runs (ee_life E)"
  shows "settles (drain_connection_threads E connections d) any (\<lambda>_ x. - conns connections x)"
proof -
  have wait: "settles (drain_wait E d connections None) any (\<lambda>(first', cs) x. conns cs x - conns connections x)"
    using assms drain_wait_settles unfolding clock_runs_def by (intro settles_at_all) blast
  show ?thesis unfolding drain_connection_threads_def
    by (rule settles_then [OF wait], clarify, rule settles_then [OF settles_join_finished])
       (auto simp: Let_def intro!: settles_then [OF settles_defer_all])
qed

definition keeps_connections :: "echo_listener \<Rightarrow> echo_listener \<Rightarrow> worker \<Rightarrow> int" where
  "keeps_connections l l' x = conns (el_connections l') x - conns (el_connections l) x"

lemma settles_look: "settles (look E c) any idle"
  unfolding look_def by (rule settles_first [OF settles_ask]) simp

lemma settles_fail: "settles (fail_listener E always e l) any (keeps_connections l)"
  unfolding fail_listener_def
  by (rule settles_first [OF settles_deadline_after], rule settles_first [OF settles_look]) (simp add: keeps_connections_def)

lemma settles_spawn_connection: "settles (spawn_echo_connection E) any (started (\<lambda>y. owns (Some y)))"
  unfolding spawn_echo_connection_def
  by (rule settles_try [OF settles_setup(2) _ settles_spawn]) simp

lemma settles_accept: "settles (echo_accept E l) any (keeps_connections l)"
proof -
  have "settles (case r of Inr x \<Rightarrow> life_ret (l\<lparr>el_connections := el_connections l @ [x]\<rparr>) | Inl e \<Rightarrow> fail_listener E True e l) any
      (\<lambda>u x. keeps_connections l u x - started (\<lambda>y. owns (Some y)) r x)" for r :: "(worker, io_err) result"
    by (auto simp: keeps_connections_def intro!: settles_conseq [OF settles_fail] split: sum.splits)
  then have spawn: "settles (life_then (spawn_echo_connection E) (\<lambda>r.
      case r of Inr x \<Rightarrow> life_ret (l\<lparr>el_connections := el_connections l @ [x]\<rparr>) | Inl e \<Rightarrow> fail_listener E True e l)) any (keeps_connections l)"
    by (rule settles_then [OF settles_spawn_connection])
  show ?thesis unfolding echo_accept_def
    by (rule settles_first [OF settles_ask])
       (use spawn settles_fail in \<open>auto simp: keeps_connections_def split: sum.splits io_err.splits\<close>)
qed

lemma settles_turn: "settles (echo_turn E l) any (keeps_connections l)"
  unfolding echo_turn_def
proof (rule settles_then [OF settles_accept])
  fix l1
  have "settles (let l = l1\<lparr>el_connections := cs\<rparr> in case r of Inl e \<Rightarrow> fail_listener E False e l | Inr _ \<Rightarrow> life_ret l) any
      (\<lambda>u x. keeps_connections l u x - keeps_connections l l1 x - (conns cs x - conns (el_connections l1) x))"
    for r :: "(unit, io_err) result" and cs
    unfolding Let_def by (cases r) (auto intro!: settles_conseq [OF settles_fail] simp: keeps_connections_def)
  then show "settles (life_then (join_finished_connections E (el_connections l1)) (\<lambda>(r, connections).
      let l = l1\<lparr>el_connections := connections\<rparr> in case r of Inl e \<Rightarrow> fail_listener E False e l | Inr _ \<Rightarrow> life_ret l)) any
      (\<lambda>u x. keeps_connections l u x - keeps_connections l l1 x)"
    by (intro settles_then [OF settles_join_finished]) (auto simp: case_prod_unfold)
qed

lemma echo_loop_settles:
  assumes "\<forall>m \<ge> n. ee_owner E m \<noteq> None"
  shows "settles_at (echo_loop E l) w any (keeps_connections l)"
proof (induction "n - lw_calls w" arbitrary: w l rule: less_induct)
  case less
  let ?c = "case ee_owner E (lw_calls w) of Some d \<Rightarrow> echo_cancel d (el_control l) | None \<Rightarrow> el_control l"
  let ?w1 = "w\<lparr>lw_calls := Suc (lw_calls w)\<rparr>"
  have look: "look E (el_control l) w = Some (?c, ?w1)" by (simp add: look_def life_then_def life_ask_def life_ret_def)
  show ?case
  proof (cases "ec_cancelled ?c")
    case True
    then show ?thesis unfolding settles_at_def
      by (subst echo_loop.simps) (simp add: look keeps_connections_def)
  next
    case False
    then have "ee_owner E (lw_calls w) = None" by (auto simp: echo_cancel_def split: option.splits)
    with assms have early: "lw_calls w < n" by (meson not_le)
    have "settles_at (\<lambda>w. Option.bind (echo_turn E (l\<lparr>el_control := ?c\<rparr>) w) (\<lambda>(l', w2). echo_loop E l' w2)) ?w1 any (keeps_connections l)"
    proof (rule settles_round [OF settles_turn])
      fix l1 and w2 :: life_world
      assume "lw_calls ?w1 \<le> lw_calls w2"
      with early less [of w2 l1] have "settles_at (echo_loop E l1) w2 any (keeps_connections l1)" by simp
      then show "settles_at (echo_loop E l1) w2 any (\<lambda>u x. keeps_connections l u x - keeps_connections (l\<lparr>el_control := ?c\<rparr>) l1 x)"
        unfolding settles_at_def by (simp add: keeps_connections_def)
    qed
    moreover have "echo_loop E l w = Option.bind (echo_turn E (l\<lparr>el_control := ?c\<rparr>) ?w1) (\<lambda>(l', w2). echo_loop E l' w2)"
      using False by (subst echo_loop.simps) (simp add: look)
    ultimately show ?thesis unfolding settles_at_def by (force dest: Suc_leD)
  qed
qed

text \<open>The owner cancels at some time, for good.\<close>

definition owner_cancels :: "echo_env \<Rightarrow> bool" where
  "owner_cancels E \<longleftrightarrow> (\<exists>n. \<forall>m \<ge> n. ee_owner E m \<noteq> None)"

lemma settles_echo_listener:
  assumes "clock_runs (ee_life E)" and "owner_cancels E"
  shows "settles (run_echo_listener E) any idle"
proof -
  let ?l = "\<lparr>el_control = \<lparr>ec_cancelled = False, ec_deadline = None\<rparr>, el_connections = [], el_outcome = Ok ()\<rparr>"
  have loop: "settles (echo_loop E ?l) any (keeps_connections ?l)"
    using assms(2) echo_loop_settles unfolding owner_cancels_def by (intro settles_at_all) blast
  have deadline: "settles (case c of Some d \<Rightarrow> life_ret d | None \<Rightarrow> deadline_after (ee_life E) ECHO_DROP_DEADLINE) any idle" for c
    using settles_deadline_after by (auto split: option.splits)
  show ?thesis unfolding run_echo_listener_def
    by (rule settles_then [OF loop], rule settles_first [OF deadline], rule settles_then [OF settles_drain [OF assms(1)]])
       (simp add: keeps_connections_def)
qed

section \<open>Properties\<close>

text \<open>C21. The echo server ends and leaks no connection. When the clock runs and the owner cancels at
  some time, the listener returns, whatever clients, threads and system calls do, and for every
  connection thread the joins, hand-overs and retentions add up to the number of times it was
  started. A connection sends back what it has read: always the beginning of it, in order, and
  all of it when it ends without an error.\<close>

theorem echo_server_accounted:
  assumes "clock_runs (ee_life E)" and "owner_cancels E"
  shows "(\<exists>r w' es. run_echo_listener E w = Some (r, w') \<and> lw_log w' = lw_log w @ es \<and> balance x es = 0) \<and>
    (case echo_connection turns of
       None \<Rightarrow> True
     | Some (r, sent) \<Rightarrow> if is_ok r then sent = echo_input turns else prefix sent (echo_input turns))"
proof -
  have "\<exists>r w' es. run_echo_listener E w = Some (r, w') \<and> lw_log w' = lw_log w @ es \<and> balance x es = 0"
    using settles_echo_listener [OF assms] unfolding settles_def by blast
  moreover have "case echo_connection turns of None \<Rightarrow> True
     | Some (r, sent) \<Rightarrow> if is_ok r then sent = echo_input turns else prefix sent (echo_input turns)"
    using echo_connection_sent [of turns] by (auto split: option.splits)
  ultimately show ?thesis by blast
qed

definition demo_echo_env :: echo_env where
  "demo_echo_env = \<lparr>ee_life = demo_life_env, ee_owner = (\<lambda>n. if n < 8 then None else Some \<lparr>sd_at = 20, sd_budget = 5\<rparr>),
     ee_accept = (\<lambda>_. Ok ()), ee_report = (\<lambda>_. Some (Ok ()))\<rparr>"

theorem echo_server_accounted_witness:
  "\<exists>r w'. run_echo_listener demo_echo_env demo_life_world = Some (r, w') \<and> balance 4 (lw_log w') = 0"
proof -
  have "clock_runs (ee_life demo_echo_env)" by (simp add: demo_echo_env_def demo_clock_runs)
  moreover have "owner_cancels demo_echo_env" by (auto simp: owner_cancels_def demo_echo_env_def intro!: exI [of _ 8])
  ultimately show ?thesis
    using echo_server_accounted [of demo_echo_env demo_life_world 4 "[]"] by (simp add: demo_life_world_def)
qed

end
