(* ===== verification/Fixture_Tasks.thy ===== *)
theory Fixture_Tasks
  imports Workers_Accounted
begin

text \<open>
  Asynchronous tasks of the SSH server: owned tasks and the reaper of \<open>crates/rssh-test-support/src/ssh/lifecycle.rs\<close>
  lines 98 to 115 and 171 to 261, the tracker of child tasks, sessions, the accept loop and the worker of \<open>server.rs\<close>
  lines 760 to 1105, and the listener of a remote forward, \<open>server/forwarding.rs\<close> lines 43 to 85. A task is named by a number,
  like a thread; awaiting it to its end is a join. The environment decides which task ends
  first, which waits run into their deadline and which branch of a \<open>select!\<close> is taken.
\<close>

section \<open>Owned tasks\<close>

datatype joined_session = SessionDone "(unit, ssh_fixture_error) result" | SessionPanicked

datatype session_start = StartCancelled shutdown_deadline | StartFailed | StartRunning

datatype session_end = EndCancelled shutdown_deadline | EndCompleted

datatype accept_event =
    AcceptShutdown shutdown_deadline
  | AcceptConnection
  | AcceptFailed io_err
  | AcceptJoined nat joined_session

datatype bridge_event = BridgeCancelled | BridgeAccepted | BridgeAcceptFailed | BridgeJoined nat joined_session

datatype reap_event = ReapReceived worker | ReapEnded nat bool | ReapDisconnected

text \<open>\<open>te_ends\<close>: the time at which an awaited task ends, or none when it never does; \<open>te_disconnects\<close>: the
  same for the message that ends a session. \<open>te_start\<close> and \<open>te_running\<close>: which branch of the two \<open>select!\<close>
  of a session is ready first, or none when neither ever is. \<open>te_next\<close>: the task of a set that ends
  next, with its result, or none before the deadline. \<open>te_reap\<close>: what the reaper sees next, when it has
  no jobs or some.\<close>

record task_env =
  te_life :: life_env
  te_ends :: "worker \<Rightarrow> nat \<Rightarrow> nat option"
  te_next :: "nat \<Rightarrow> (nat \<times> joined_session) option"
  te_start :: "nat \<Rightarrow> session_start option"
  te_running :: "nat \<Rightarrow> session_end option"
  te_cancelled :: "nat \<Rightarrow> shutdown_deadline option"
  te_disconnects :: "nat \<Rightarrow> nat option"
  te_accept :: "nat \<Rightarrow> accept_event"
  te_bridge :: "nat \<Rightarrow> bridge_event"
  te_reap :: "bool \<Rightarrow> nat \<Rightarrow> reap_event"

text \<open>Awaiting without a limit does not return when the future is never ready; \<open>timeout_at\<close> returns at the
  deadline at the latest, and says whether the future was ready by then.\<close>

definition life_await :: "(nat \<Rightarrow> 'a option) \<Rightarrow> 'a life" where
  "life_await ready w = Option.bind (ready (lw_calls w)) (\<lambda>v. Some (v, w\<lparr>lw_calls := Suc (lw_calls w)\<rparr>))"

definition timeout_at :: "nat \<Rightarrow> (nat \<Rightarrow> nat option) \<Rightarrow> bool life" where
  "timeout_at at ready =
     life_then (life_ask ready) (\<lambda>r. life_ret (case r of Some t \<Rightarrow> t \<le> at | None \<Rightarrow> False))"

definition ABORT_RESERVE :: duration where "ABORT_RESERVE = 50000000"

definition abort_at :: "life_env \<Rightarrow> shutdown_deadline \<Rightarrow> nat life" where
  "abort_at E d =
     life_then (if ABORT_RESERVE \<le> sd_at d then life_ret (sd_at d - ABORT_RESERVE) else life_ask (lf_time E)) (\<lambda>at.
     life_then (life_ask (lf_time E)) (\<lambda>now. life_ret (max at now)))"

record owned_task =
  ot_task :: worker
  ot_join :: bool

text \<open>Whether the future has been handed over; otherwise the caller has it back.\<close>

definition defer_future :: "task_env \<Rightarrow> worker \<Rightarrow> bool life" where
  "defer_future E x =
     life_then (ensure_process_reaper (te_life E)) (\<lambda>r.
       if \<not> is_ok r then life_ret False
       else life_then (life_ask (lf_gone (te_life E))) (\<lambda>gone.
            if gone then life_ret False
            else life_then (life_emit (GivenToReaper x)) (\<lambda>_. life_ret True)))"

text \<open>A future that is dropped leaves its task running on its own.\<close>

definition defer_or_detach :: "task_env \<Rightarrow> worker \<Rightarrow> unit life" where
  "defer_or_detach E x =
     life_then (defer_future E x) (\<lambda>deferred. if deferred then life_ret () else life_emit (Detached x))"

text \<open>A task that panicked has ended too.\<close>

definition owned_wait_until :: "task_env \<Rightarrow> nat \<Rightarrow> owned_task \<Rightarrow> (bool \<times> owned_task) life" where
  "owned_wait_until E at t =
     (if \<not> ot_join t then life_ret (True, t)
      else life_then (timeout_at at (te_ends E (ot_task t))) (\<lambda>ended.
        if ended then life_then (life_emit (Joined (ot_task t) (lf_join (te_life E) (ot_task t)))) (\<lambda>_. life_ret (True, t\<lparr>ot_join := False\<rparr>))
        else life_ret (False, t)))"

definition owned_drop :: "task_env \<Rightarrow> owned_task \<Rightarrow> unit life" where
  "owned_drop E t = (if ot_join t then defer_or_detach E (ot_task t) else life_ret ())"

definition owned_defer :: "task_env \<Rightarrow> owned_task \<Rightarrow> unit life" where
  "owned_defer E t =
     (if ot_join t
      then life_then (defer_future E (ot_task t)) (\<lambda>deferred.
             if deferred then life_ret () else defer_or_detach E (ot_task t))
      else life_ret ())"

section \<open>The tracker\<close>

record child_task_tracker =
  ct_closed :: bool
  ct_tasks :: "owned_task list"

definition child_tracker_new :: child_task_tracker where
  "child_tracker_new = \<lparr>ct_closed = False, ct_tasks = []\<rparr>"

definition child_tracker_spawn :: "worker \<Rightarrow> child_task_tracker \<Rightarrow> child_task_tracker life" where
  "child_tracker_spawn x t =
     (if ct_closed t then life_ret t
      else life_then (life_emit (WorkerSpawned x)) (\<lambda>_.
        life_ret (t\<lparr>ct_tasks := ct_tasks t @ [\<lparr>ot_task = x, ot_join = True\<rparr>]\<rparr>)))"

text \<open>Tasks that have ended are dropped, the others are returned.\<close>

fun drain_owned_tasks :: "task_env \<Rightarrow> nat \<Rightarrow> owned_task list \<Rightarrow> owned_task list life" where
  "drain_owned_tasks E until [] = life_ret []"
| "drain_owned_tasks E until (t # ts) =
     life_then (owned_wait_until E until t) (\<lambda>(ended, t').
     life_then (if ended then life_then (owned_drop E t') (\<lambda>_. life_ret []) else life_ret [t']) (\<lambda>kept.
     life_then (drain_owned_tasks E until ts) (\<lambda>pending. life_ret (kept @ pending))))"

fun for_tasks :: "(owned_task \<Rightarrow> unit life) \<Rightarrow> owned_task list \<Rightarrow> unit life" where
  "for_tasks f [] = life_ret ()"
| "for_tasks f (t # ts) = life_then (f t) (\<lambda>_. for_tasks f ts)"

definition child_tracker_shutdown :: "task_env \<Rightarrow> shutdown_deadline \<Rightarrow> child_task_tracker \<Rightarrow> (bool \<times> child_task_tracker) life" where
  "child_tracker_shutdown E d t =
     life_then (abort_at (te_life E) d) (\<lambda>until.
     life_then (drain_owned_tasks E until (ct_tasks t)) (\<lambda>pending.
     life_then (for_tasks (\<lambda>x. life_emit (AbortAsked (ot_task x))) pending) (\<lambda>_.
     life_then (drain_owned_tasks E (sd_at d) pending) (\<lambda>pending.
     life_then (for_tasks (owned_defer E) pending) (\<lambda>_.
     life_ret (pending = [], t\<lparr>ct_closed := True, ct_tasks := []\<rparr>))))))"

section \<open>A session\<close>

definition session_timeout :: "string \<Rightarrow> shutdown_deadline \<Rightarrow> ssh_fixture_error" where
  "session_timeout operation d = FixtureTimedOut operation (sd_budget d)"

definition SESSION_TEARDOWN :: duration where "SESSION_TEARDOWN = 500000000"
definition SECONDARY_DRAIN :: duration where "SECONDARY_DRAIN = 100000000"

text \<open>\<open>ReapOnDrop\<close>: the future of the running session.\<close>

definition reap_wait_until :: "task_env \<Rightarrow> shutdown_deadline \<Rightarrow> owned_task \<Rightarrow> (bool \<times> owned_task) life" where
  "reap_wait_until E d t =
     (if \<not> ot_join t then life_ret (True, t)
      else life_then (timeout_at (sd_at d) (te_ends E (ot_task t))) (\<lambda>ended.
        if ended then life_then (life_emit (Joined (ot_task t) True)) (\<lambda>_. life_ret (True, t\<lparr>ot_join := False\<rparr>))
        else life_ret (False, t)))"

definition reap_wait :: "owned_task \<Rightarrow> owned_task life" where
  "reap_wait t =
     (if ot_join t then life_then (life_emit (Joined (ot_task t) True)) (\<lambda>_. life_ret (t\<lparr>ot_join := False\<rparr>))
      else life_ret t)"

definition reap_drop :: "task_env \<Rightarrow> owned_task \<Rightarrow> unit life" where
  "reap_drop E t = (if ot_join t then defer_or_detach E (ot_task t) else life_ret ())"

definition shut_tasks :: "task_env \<Rightarrow> child_task_tracker \<Rightarrow> string \<Rightarrow> shutdown_deadline \<Rightarrow> (unit, ssh_fixture_error) result life" where
  "shut_tasks E t operation d =
     life_then (child_tracker_shutdown E d t) (\<lambda>(completed, _).
       life_ret (if completed then Ok () else Err (session_timeout operation d)))"

text \<open>A session with the child tasks that its handler has started when it ends; \<open>session\<close> is the
  future of the protocol itself. When the second \<open>select!\<close> takes the branch of \<open>completion.wait()\<close>, that
  wait is over.\<close>

definition run_session :: "task_env \<Rightarrow> worker \<Rightarrow> child_task_tracker \<Rightarrow> (unit, ssh_fixture_error) result life" where
  "run_session E session tasks =
     life_then (life_await (te_start E)) (\<lambda>start.
       case start of
         StartCancelled d \<Rightarrow> shut_tasks E tasks ''session startup'' d
       | StartFailed \<Rightarrow>
           life_then (deadline_after (te_life E) SESSION_TEARDOWN) (\<lambda>d. shut_tasks E tasks ''session startup'' d)
       | StartRunning \<Rightarrow>
           life_then (life_emit (WorkerSpawned session)) (\<lambda>_.
           life_then (life_await (te_running E)) (\<lambda>running.
             (let completion = \<lparr>ot_task = session, ot_join = True\<rparr> in
              case running of
                EndCancelled d \<Rightarrow>
                  life_then (timeout_at (sd_at d) (te_disconnects E)) (\<lambda>disconnected.
                  life_then (reap_wait_until E d completion) (\<lambda>(session_completed, completion).
                  life_then (child_tracker_shutdown E d tasks) (\<lambda>(children_completed, _).
                  life_then (reap_drop E completion) (\<lambda>_.
                  life_ret (if disconnected \<and> session_completed \<and> children_completed then Ok ()
                            else Err (session_timeout ''session teardown'' d))))))
              | EndCompleted \<Rightarrow>
                  life_then (reap_wait completion) (\<lambda>completion.
                  life_then (deadline_after (te_life E) SESSION_TEARDOWN) (\<lambda>d.
                  life_then (shut_tasks E tasks ''session child drain'' d) (\<lambda>r.
                  life_then (reap_drop E completion) (\<lambda>_. life_ret r))))))))"

section \<open>The accept loop\<close>

definition record_session_result :: "joined_session \<Rightarrow> ssh_fixture_error option \<Rightarrow> ssh_fixture_error option" where
  "record_session_result joined first =
     (case first of
        Some e \<Rightarrow> Some e
      | None \<Rightarrow> (case joined of
          SessionDone r \<Rightarrow> (case r of Inl e \<Rightarrow> Some e | Inr _ \<Rightarrow> None)
        | SessionPanicked \<Rightarrow> Some FixtureWorkerPanicked))"

text \<open>One task of a set ends and leaves it.\<close>

definition join_one :: "worker list \<Rightarrow> nat \<Rightarrow> joined_session \<Rightarrow> worker list life" where
  "join_one sessions i joined =
     (let i = i mod length sessions in
      life_then (life_emit (Joined (sessions ! i) (joined \<noteq> SessionPanicked))) (\<lambda>_. life_ret (swap_remove sessions i)))"

text \<open>Waiting for the tasks of a set until all have ended or the deadline has passed.\<close>

function drain_sessions :: "task_env \<Rightarrow> worker list \<Rightarrow> ssh_fixture_error option \<Rightarrow> (worker list \<times> ssh_fixture_error option) life" where
  "drain_sessions E sessions first w =
     (if sessions = [] then Some ((sessions, first), w)
      else case te_next E (lw_calls w) of
        None \<Rightarrow> Some ((sessions, first), w\<lparr>lw_calls := Suc (lw_calls w)\<rparr>)
      | Some (i, joined) \<Rightarrow>
          drain_sessions E (swap_remove sessions (i mod length sessions)) (record_session_result joined first)
            (w\<lparr>lw_calls := Suc (lw_calls w),
               lw_log := lw_log w @ [Joined (sessions ! (i mod length sessions)) (joined \<noteq> SessionPanicked)]\<rparr>))"
  by pat_completeness auto
termination
  by (relation "measure (\<lambda>(E, sessions, first, w). length sessions)") auto

declare drain_sessions.simps [simp del]

definition abort_all :: "worker list \<Rightarrow> unit life" where
  "abort_all sessions w = Some ((), w\<lparr>lw_log := lw_log w @ map AbortAsked sessions\<rparr>)"

fun detach_all :: "worker list \<Rightarrow> unit life" where
  "detach_all [] = life_ret ()"
| "detach_all (x # xs) = life_then (life_emit (Detached x)) (\<lambda>_. detach_all xs)"

text \<open>The rest of a set is handed over as one future that awaits it.\<close>

fun give_all :: "worker list \<Rightarrow> unit life" where
  "give_all [] = life_ret ()"
| "give_all (x # xs) = life_then (life_emit (GivenToReaper x)) (\<lambda>_. give_all xs)"

definition defer_set :: "task_env \<Rightarrow> worker list \<Rightarrow> unit life" where
  "defer_set E sessions =
     life_then (ensure_process_reaper (te_life E)) (\<lambda>r.
     life_then (if is_ok r then life_ask (lf_gone (te_life E)) else life_ret True) (\<lambda>gone.
       if gone then detach_all sessions else give_all sessions))"

text \<open>After the listener is closed.\<close>

definition finish_sessions :: "task_env \<Rightarrow> shutdown_deadline \<Rightarrow> worker list \<Rightarrow> ssh_fixture_error option \<Rightarrow> (unit, ssh_fixture_error) result life" where
  "finish_sessions E d sessions first =
     life_then (drain_sessions E sessions first) (\<lambda>(sessions, first).
       if sessions \<noteq> []
       then life_then (abort_all sessions) (\<lambda>_.
            life_then (deadline_after (te_life E) SECONDARY_DRAIN) (\<lambda>_.
            life_then (drain_sessions E sessions first) (\<lambda>(sessions, first).
            life_then (if sessions \<noteq> [] then defer_set E sessions else life_ret ()) (\<lambda>_.
            life_ret (Err (FixtureTimedOut ''session drain'' (sd_budget d)))))))
       else life_ret (case first of Some e \<Rightarrow> Err e | None \<Rightarrow> Ok ()))"

text \<open>Dropping a set of tasks aborts and detaches them.\<close>

definition drop_set :: "worker list \<Rightarrow> unit life" where
  "drop_set sessions = life_then (abort_all sessions) (\<lambda>_. detach_all sessions)"

partial_function (option) accept_sessions ::
  "task_env \<Rightarrow> worker list \<Rightarrow> ssh_fixture_error option \<Rightarrow> (unit, ssh_fixture_error) result life" where
  "accept_sessions E sessions first w =
     Option.bind (life_ask (te_accept E) w) (\<lambda>(event, w1).
       case event of
         AcceptShutdown d \<Rightarrow> finish_sessions E d sessions first w1
       | AcceptFailed e \<Rightarrow>
           Option.bind (drop_set sessions w1) (\<lambda>(_, w2). Some (Err (FixtureIo ''accept failed'' e), w2))
       | AcceptConnection \<Rightarrow>
           Option.bind (life_emit (WorkerSpawned (lw_calls w)) w1) (\<lambda>(_, w2).
             accept_sessions E (sessions @ [lw_calls w]) first w2)
       | AcceptJoined i joined \<Rightarrow>
           if sessions = [] then accept_sessions E sessions first w1
           else Option.bind (join_one sessions i joined w1) (\<lambda>(sessions', w2).
             accept_sessions E sessions' (record_session_result joined first) w2))"

definition run_accept_loop :: "task_env \<Rightarrow> (unit, ssh_fixture_error) result life" where
  "run_accept_loop E = accept_sessions E [] None"

text \<open>The worker thread: what it reports as its readiness, and its result.\<close>

definition run_server_worker :: "task_env \<Rightarrow> ((unit, ssh_fixture_error) result \<times> (unit, ssh_fixture_error) result) life" where
  "run_server_worker E =
     life_then (fixture_io ''runtime setup failed'' (life_setup (te_life E))) (\<lambda>runtime.
       case runtime of
         Inl e \<Rightarrow> life_ret (Err e, Ok ())
       | Inr _ \<Rightarrow>
           life_then (fixture_io ''async listener setup failed'' (life_setup (te_life E))) (\<lambda>listener.
           life_then (case listener of
                        Inl e \<Rightarrow> life_ret (Err e, Ok ())
                      | Inr _ \<Rightarrow> life_then (run_accept_loop E) (\<lambda>result. life_ret (Ok (), result))) (\<lambda>outcome.
           life_then (life_ask (te_cancelled E)) (\<lambda>cancelled.
           life_then (case cancelled of Some d \<Rightarrow> life_ret d | None \<Rightarrow> deadline_after (te_life E) SESSION_TEARDOWN) (\<lambda>d.
           life_then (remaining (te_life E) d) (\<lambda>_. life_ret outcome))))))"

section \<open>Remote forwards\<close>

text \<open>The bridges of one listener until it is cancelled or cannot accept any more.\<close>

partial_function (option) accept_bridges :: "task_env \<Rightarrow> worker list \<Rightarrow> worker list life" where
  "accept_bridges E bridges w =
     Option.bind (life_ask (te_bridge E) w) (\<lambda>(event, w1).
       case event of
         BridgeCancelled \<Rightarrow> Some (bridges, w1)
       | BridgeAcceptFailed \<Rightarrow> Some (bridges, w1)
       | BridgeAccepted \<Rightarrow>
           Option.bind (life_emit (WorkerSpawned (lw_calls w)) w1) (\<lambda>(_, w2).
             accept_bridges E (bridges @ [lw_calls w]) w2)
       | BridgeJoined i joined \<Rightarrow>
           if bridges = [] then accept_bridges E bridges w1
           else Option.bind (join_one bridges i joined w1) (\<lambda>(bridges', w2). accept_bridges E bridges' w2))"

definition run_remote_forward :: "task_env \<Rightarrow> unit life" where
  "run_remote_forward E =
     life_then (accept_bridges E []) (\<lambda>bridges.
     life_then (abort_all bridges) (\<lambda>_.
     life_then (deadline_after (te_life E) SECONDARY_DRAIN) (\<lambda>_.
     life_then (drain_sessions E bridges None) (\<lambda>(bridges, _).
       if bridges \<noteq> [] then defer_set E bridges else life_ret ()))))"

section \<open>The reaper\<close>

text \<open>The thread that awaits what it is given: futures, and threads until they have finished. A task is
  started for each job, and is named like it. One turn of its loop gives the jobs that are left, or
  none when the loop ends, which needs that all senders are gone; the sender of the process is never
  dropped.\<close>

definition reaper_turn :: "task_env \<Rightarrow> worker list \<Rightarrow> worker list option life" where
  "reaper_turn E jobs =
     life_then (life_ask (te_reap E (jobs = []))) (\<lambda>event.
       case event of
         ReapReceived x \<Rightarrow> life_then (life_emit (WorkerSpawned x)) (\<lambda>_. life_ret (Some (jobs @ [x])))
       | ReapEnded i ok \<Rightarrow>
           if jobs = [] then life_ret (Some jobs)
           else life_then (life_emit (Joined (jobs ! (i mod length jobs)) ok)) (\<lambda>_.
             life_ret (Some (swap_remove jobs (i mod length jobs))))
       | ReapDisconnected \<Rightarrow> life_ret (if jobs = [] then None else Some jobs))"

partial_function (option) run_process_reaper :: "task_env \<Rightarrow> worker list \<Rightarrow> unit life" where
  "run_process_reaper E jobs w =
     Option.bind (reaper_turn E jobs w) (\<lambda>(left, w1).
       case left of
         Some jobs' \<Rightarrow> run_process_reaper E jobs' w1
       | None \<Rightarrow> Some ((), w1))"

end
