(* ===== verification/Tasks_Accounted.thy ===== *)
theory Tasks_Accounted
  imports Fixture_Tasks
begin

text \<open>
  No task of the SSH server is lost: the child tasks of a session, the session itself and the
  sessions of the accept loop are joined, handed to the reaper or (when the reaper cannot be
  started) detached, exactly once; and success means that all of them ended.
\<close>

section \<open>Tasks\<close>

definition task_held :: "owned_task \<Rightarrow> worker \<Rightarrow> int" where
  "task_held t = owns (if ot_join t then Some (ot_task t) else None)"

definition tasks_held :: "owned_task list \<Rightarrow> worker \<Rightarrow> int" where
  "tasks_held ts x = (\<Sum>t\<leftarrow>ts. task_held t x)"

lemma tasks_held_simps [simp]: "tasks_held [] x = 0" "tasks_held (t # ts) x = task_held t x + tasks_held ts x"
  "tasks_held (ts @ us) x = tasks_held ts x + tasks_held us x"
  by (simp_all add: tasks_held_def)

lemma settles_defer_future: "settles (defer_future E x) any (\<lambda>deferred y. if deferred then takes x y else 0)"
  unfolding defer_future_def
  by (auto intro!: settles_first [OF settles_ensure] settles_first [OF settles_ask]
      settles_then [OF settles_emit] simp: takes_def)

lemma settles_defer_or_detach: "settles (defer_or_detach E x) any (\<lambda>_ y. takes x y)"
  unfolding defer_or_detach_def
  by (rule settles_then [OF settles_defer_future]) (auto intro!: settles_conseq [OF settles_emit] simp: takes_def)

lemma settles_owned:
  "settles (owned_drop E t) any (\<lambda>_ x. - task_held t x)" "settles (reap_drop E t) any (\<lambda>_ x. - task_held t x)"
  "settles (owned_defer E t) any (\<lambda>_ x. - task_held t x)"
  unfolding owned_drop_def reap_drop_def owned_defer_def
  using settles_defer_or_detach settles_then [OF settles_defer_future, of "\<lambda>deferred. if deferred then life_ret () else defer_or_detach E (ot_task t)"]
  by (auto simp: task_held_def intro!: settles_then [OF settles_defer_future])

lemma settles_timeout: "settles (timeout_at at ready) any idle"
  unfolding timeout_at_def by (rule settles_first [OF settles_ask]) simp

lemma settles_await: "(\<And>n. ready n \<noteq> None) \<Longrightarrow> settles (life_await ready) any idle"
proof -
  assume ready: "\<And>n. ready n \<noteq> None"
  have "\<exists>v. life_await ready w = Some (v, w\<lparr>lw_calls := Suc (lw_calls w)\<rparr>)" for w
    using ready [of "lw_calls w"] by (auto simp: life_await_def)
  then show ?thesis unfolding settles_def by fastforce
qed

lemma settles_abort_at: "settles (abort_at E d) any idle"
  unfolding abort_at_def by (intro settles_first settles_ask) (auto intro: settles_ask)

lemma settles_wait:
  "settles (owned_wait_until E at t) (\<lambda>(ended, t'). ended \<longrightarrow> \<not> ot_join t') (\<lambda>(ended, t') x. task_held t' x - task_held t x)"
  "settles (reap_wait_until E d t) (\<lambda>(ended, t'). ended \<longrightarrow> \<not> ot_join t') (\<lambda>(ended, t') x. task_held t' x - task_held t x)"
  unfolding owned_wait_until_def reap_wait_until_def
  by (auto simp: task_held_def takes_def intro!: settles_first [OF settles_timeout] settles_then [OF settles_emit])

lemma settles_drain_owned: "settles (drain_owned_tasks E until ts) any (\<lambda>us x. tasks_held us x - tasks_held ts x)"
proof (induction ts)
  case (Cons t ts)
  have "settles (life_then (if ended then life_then (owned_drop E t') (\<lambda>_. life_ret []) else life_ret [t']) (\<lambda>kept.
     life_then (drain_owned_tasks E until ts) (\<lambda>pending. life_ret (kept @ pending)))) any
     (\<lambda>us x. tasks_held us x - tasks_held (t # ts) x - (task_held t' x - task_held t x))" for ended t'
  proof (rule settles_then)
    show "settles (if ended then life_then (owned_drop E t') (\<lambda>_. life_ret []) else life_ret [t']) any
        (\<lambda>kept x. tasks_held kept x - task_held t' x)"
      by (auto intro!: settles_then [OF settles_owned(1)])
    show "settles (life_then (drain_owned_tasks E until ts) (\<lambda>pending. life_ret (kept @ pending))) any
        (\<lambda>us x. tasks_held us x - tasks_held (t # ts) x - (task_held t' x - task_held t x) - (tasks_held kept x - task_held t' x))" for kept
      by (rule settles_then [OF Cons.IH]) simp
  qed
  then show ?case unfolding drain_owned_tasks.simps
    by (intro settles_then [OF settles_wait(1)]) (auto simp: case_prod_unfold)
qed simp

lemma settles_for: "(\<And>t. settles (f t) any (\<lambda>_ x. - h t x)) \<Longrightarrow> settles (for_tasks f ts) any (\<lambda>_ x. - (\<Sum>t\<leftarrow>ts. h t x))"
proof (induction ts)
  case (Cons t ts)
  show ?case unfolding for_tasks.simps
    by (rule settles_then [OF Cons.prems]) (use Cons in \<open>auto elim!: settles_conseq\<close>)
qed simp

lemma settles_shutdown: "settles (child_tracker_shutdown E d t) any (\<lambda>_ x. - tasks_held (ct_tasks t) x)"
proof -
  have abort: "settles (for_tasks (\<lambda>x. life_emit (AbortAsked (ot_task x))) ts) any idle" for ts
    using settles_for [of "\<lambda>x. life_emit (AbortAsked (ot_task x))" "\<lambda>_ _. 0" ts] settles_emit [of "AbortAsked _"]
    by simp
  have given: "settles (for_tasks (owned_defer E) ts) any (\<lambda>_ x. - tasks_held ts x)" for ts
    unfolding tasks_held_def by (rule settles_for) (rule settles_owned)
  show ?thesis unfolding child_tracker_shutdown_def
    by (rule settles_first [OF settles_abort_at], rule settles_then [OF settles_drain_owned], rule settles_first [OF abort], rule settles_then [OF settles_drain_owned],
        rule settles_then [OF given]) simp
qed

text \<open>Neither \<open>select!\<close> of a session waits for ever: the start-up of a session ends, or the owner asks for the
  end; and a session that runs ends, or the owner asks for the end.\<close>

definition session_decided :: "task_env \<Rightarrow> bool" where
  "session_decided E \<longleftrightarrow> (\<forall>n. te_start E n \<noteq> None \<and> te_running E n \<noteq> None)"

lemma settles_session:
  assumes "session_decided E"
  shows "settles (run_session E session tasks) any (\<lambda>_ x. - tasks_held (ct_tasks tasks) x)"
proof -
  have shut: "settles (shut_tasks E tasks operation d) any (\<lambda>_ x. - tasks_held (ct_tasks tasks) x)" for operation d
    unfolding shut_tasks_def by (rule settles_then [OF settles_shutdown]) auto
  let ?c = "\<lparr>ot_task = session, ot_join = True\<rparr>"
  have wait: "settles (reap_wait ?c) any (\<lambda>c x. task_held c x - task_held ?c x)"
    unfolding reap_wait_def by (auto simp: task_held_def takes_def intro!: settles_then [OF settles_emit])
  have 1: "settles (life_then (timeout_at (sd_at d) (te_disconnects E)) (\<lambda>disconnected.
      life_then (reap_wait_until E d ?c) (\<lambda>(session_completed, completion).
      life_then (child_tracker_shutdown E d tasks) (\<lambda>(children_completed, _).
      life_then (reap_drop E completion) (\<lambda>_.
      life_ret (if disconnected \<and> session_completed \<and> children_completed then Ok ()
                else Err (session_timeout ''session teardown'' d))))))) any
      (\<lambda>_ x. - tasks_held (ct_tasks tasks) x - task_held ?c x)" for d
    by (rule settles_first [OF settles_timeout], rule settles_then [OF settles_wait(2)])
       (auto intro!: settles_then [OF settles_shutdown] settles_then [OF settles_owned(2)])
  have 2: "settles (life_then (reap_wait ?c) (\<lambda>completion.
      life_then (deadline_after (te_life E) SESSION_TEARDOWN) (\<lambda>d.
      life_then (shut_tasks E tasks ''session child drain'' d) (\<lambda>r.
      life_then (reap_drop E completion) (\<lambda>_. life_ret r))))) any (\<lambda>_ x. - tasks_held (ct_tasks tasks) x - task_held ?c x)"
    by (rule settles_then [OF wait], rule settles_first [OF settles_deadline_after], rule settles_then [OF shut],
        rule settles_then [OF settles_owned(2)]) simp
  have spawned: "settles (life_emit (WorkerSpawned session)) any (\<lambda>_ x. task_held ?c x)"
    by (rule settles_conseq [OF settles_emit]) (simp_all add: task_held_def takes_def)
  have ready: "te_start E n \<noteq> None" "te_running E n \<noteq> None" for n
    using assms by (auto simp: session_decided_def)
  show ?thesis unfolding run_session_def Let_def
  proof (rule settles_first [OF settles_await [OF ready(1)]])
    fix start
    show "settles (case start of
         StartCancelled d \<Rightarrow> shut_tasks E tasks ''session startup'' d
       | StartFailed \<Rightarrow>
           life_then (deadline_after (te_life E) SESSION_TEARDOWN) (\<lambda>d. shut_tasks E tasks ''session startup'' d)
       | StartRunning \<Rightarrow>
           life_then (life_emit (WorkerSpawned session)) (\<lambda>_.
           life_then (life_await (te_running E)) (\<lambda>running.
              case running of
                EndCancelled d \<Rightarrow>
                  life_then (timeout_at (sd_at d) (te_disconnects E)) (\<lambda>disconnected.
                  life_then (reap_wait_until E d ?c) (\<lambda>(session_completed, completion).
                  life_then (child_tracker_shutdown E d tasks) (\<lambda>(children_completed, _).
                  life_then (reap_drop E completion) (\<lambda>_.
                  life_ret (if disconnected \<and> session_completed \<and> children_completed then Ok ()
                            else Err (session_timeout ''session teardown'' d))))))
              | EndCompleted \<Rightarrow>
                  life_then (reap_wait ?c) (\<lambda>completion.
                  life_then (deadline_after (te_life E) SESSION_TEARDOWN) (\<lambda>d.
                  life_then (shut_tasks E tasks ''session child drain'' d) (\<lambda>r.
                  life_then (reap_drop E completion) (\<lambda>_. life_ret r))))))) any (\<lambda>_ x. - tasks_held (ct_tasks tasks) x)"
    proof (cases start)
      case StartRunning
      show ?thesis unfolding StartRunning session_start.case
        by (rule settles_then [OF spawned], rule settles_first [OF settles_await [OF ready(2)]])
          (simp only: 1 2 split: session_end.split, simp)
    qed (use shut in \<open>auto intro!: settles_first [OF settles_deadline_after]\<close>)
  qed
qed

section \<open>Sessions\<close>

fun clean :: "worker_event \<Rightarrow> bool" where
  "clean (WorkerSpawned x) = True"
| "clean (Joined x ok) = ok"
| "clean _ = False"

text \<open>A run with its result, its events and the condition that success needs only clean ones.\<close>

definition accounted :: "('a \<times> life_world) option \<Rightarrow> life_world \<Rightarrow> ('a \<Rightarrow> bool) \<Rightarrow> ('a \<Rightarrow> worker \<Rightarrow> int) \<Rightarrow> bool" where
  "accounted run w ok h \<longleftrightarrow> (\<exists>v w' es. run = Some (v, w') \<and> lw_log w' = lw_log w @ es \<and> lw_calls w \<le> lw_calls w' \<and>
     (\<forall>x. balance x es = h v x) \<and> (ok v \<longrightarrow> list_all clean es))"

lemma accounted_settles: "settles m Q h \<Longrightarrow> (\<And>v. Q v \<Longrightarrow> \<not> ok v) \<Longrightarrow> accounted (m w) w ok h"
  unfolding settles_def accounted_def by metis

lemma accounted_step:
  assumes "lw_log w1 = lw_log w @ [e]" and "lw_calls w \<le> lw_calls w1" and "accounted run w1 ok (\<lambda>v x. h v x - change x e)"
    and "\<And>v w'. run = Some (v, w') \<Longrightarrow> ok v \<Longrightarrow> clean e"
  shows "accounted run w ok h"
proof -
  obtain v w' es where run: "run = Some (v, w')" "lw_log w' = lw_log w1 @ es" "lw_calls w1 \<le> lw_calls w'"
    "\<forall>x. balance x es = h v x - change x e" "ok v \<longrightarrow> list_all clean es"
    using assms(3) unfolding accounted_def by blast
  then have "run = Some (v, w') \<and> lw_log w' = lw_log w @ (e # es) \<and> lw_calls w \<le> lw_calls w' \<and>
      (\<forall>x. balance x (e # es) = h v x) \<and> (ok v \<longrightarrow> list_all clean (e # es))"
    using assms by auto
  then show ?thesis unfolding accounted_def by blast
qed

lemma accounted_calls: "lw_log w1 = lw_log w \<Longrightarrow> lw_calls w \<le> lw_calls w1 \<Longrightarrow> accounted run w1 ok h \<Longrightarrow> accounted run w ok h"
  unfolding accounted_def by force

lemma accounted_cong: "accounted run w ok h \<Longrightarrow> (\<And>v x. h v x = h' v x) \<Longrightarrow> accounted run w ok h'"
  unfolding accounted_def by simp

lemma record_None: "record_session_result joined first = None \<longleftrightarrow> first = None \<and> (\<exists>r. joined = SessionDone (Ok r))"
  by (auto simp: record_session_result_def split: option.splits joined_session.splits sum.splits)

lemma drain_first: "drain_sessions E sessions first w = Some ((ss, first'), w') \<Longrightarrow> first' = None \<Longrightarrow> first = None"
proof (induction E sessions first w rule: drain_sessions.induct)
  case (1 E sessions first w)
  then show ?case
    by (subst (asm) (2) drain_sessions.simps) (auto simp: record_None split: if_splits option.splits)
qed

lemma drain_accounted:
  "accounted (drain_sessions E sessions first w) w (\<lambda>(ss, first'). first' = None) (\<lambda>(ss, first') x. conns ss x - conns sessions x)"
proof (induction E sessions first w rule: drain_sessions.induct)
  case (1 E sessions first w)
  show ?case
  proof (cases "sessions = [] \<or> te_next E (lw_calls w) = None")
    case True
    then show ?thesis unfolding accounted_def by (subst drain_sessions.simps) auto
  next
    case False
    then obtain i joined where next_one: "te_next E (lw_calls w) = Some (i, joined)" "sessions \<noteq> []" by auto
    let ?i = "i mod length sessions"
    let ?w1 = "w\<lparr>lw_calls := Suc (lw_calls w), lw_log := lw_log w @ [Joined (sessions ! ?i) (joined \<noteq> SessionPanicked)]\<rparr>"
    have i: "?i < length sessions" using next_one by simp
    have unfold: "drain_sessions E sessions first w =
        drain_sessions E (swap_remove sessions ?i) (record_session_result joined first) ?w1"
      using next_one by (subst drain_sessions.simps) simp
    have "accounted (drain_sessions E (swap_remove sessions ?i) (record_session_result joined first) ?w1) ?w1
        (\<lambda>(ss, first'). first' = None) (\<lambda>v x. (\<lambda>(ss, first') x. conns ss x - conns sessions x) v x - change x (Joined (sessions ! ?i) (joined \<noteq> SessionPanicked)))"
      by (rule accounted_cong [OF 1 [OF next_one(2,1) refl]]) (auto simp: conns_swap_remove [OF i] takes_def)
    then show ?thesis unfolding unfold
      by (rule accounted_step [rotated 2]) (auto dest!: drain_first simp: record_None)
  qed
qed

lemma settles_abort_all: "settles (abort_all xs) any idle"
proof -
  have "balance x (map AbortAsked ys) = 0" for x ys by (induction ys) auto
  then show ?thesis by (auto simp: settles_def abort_all_def)
qed

lemma settles_lists: "settles (detach_all xs) any (\<lambda>_ x. - conns xs x)" "settles (give_all xs) any (\<lambda>_ x. - conns xs x)"
  by (induction xs) (auto intro!: settles_then [OF settles_emit] elim!: settles_conseq simp: takes_def)

lemma settles_defer_set: "settles (defer_set E xs) any (\<lambda>_ x. - conns xs x)"
proof -
  have "settles (if is_ok r then life_ask (lf_gone (te_life E)) else life_ret True) any idle" for r :: "(unit, io_err) result"
    by (simp add: settles_ask)
  then show ?thesis unfolding defer_set_def
    by (intro settles_first [OF settles_ensure] settles_first) (auto intro: settles_lists)
qed

lemma settles_drop_set: "settles (drop_set xs) any (\<lambda>_ x. - conns xs x)"
  unfolding drop_set_def by (rule settles_first [OF settles_abort_all settles_lists(1)])

lemma settles_drain_sessions: "settles (drain_sessions E sessions first) any (\<lambda>(ss, first') x. conns ss x - conns sessions x)"
  unfolding settles_def using drain_accounted [of E sessions first] unfolding accounted_def by (meson TrueI)

lemma finish_accounted:
  "accounted (finish_sessions E d sessions first w) w is_ok (\<lambda>_ x. - conns sessions x)"
  "finish_sessions E d sessions first w = Some (Ok (), w') \<Longrightarrow> first = None"
proof -
  let ?late = "\<lambda>ss e. life_then (abort_all ss) (\<lambda>_.
      life_then (deadline_after (te_life E) SECONDARY_DRAIN) (\<lambda>_.
      life_then (drain_sessions E ss e) (\<lambda>(sessions, first).
      life_then (if sessions \<noteq> [] then defer_set E sessions else life_ret ()) (\<lambda>_.
      life_ret (Err (FixtureTimedOut ''session drain'' (sd_budget d)) :: (unit, ssh_fixture_error) result)))))"
  obtain ss e w1 es where dr: "drain_sessions E sessions first w = Some ((ss, e), w1)" "lw_log w1 = lw_log w @ es"
    "lw_calls w \<le> lw_calls w1" "\<forall>x. balance x es = conns ss x - conns sessions x" "e = None \<longrightarrow> list_all clean es"
    using drain_accounted [of E sessions first w] unfolding accounted_def by auto
  have run: "finish_sessions E d sessions first w =
      (if ss \<noteq> [] then ?late ss e w1 else Some (case e of Some e \<Rightarrow> Err e | None \<Rightarrow> Ok (), w1))"
    by (simp add: finish_sessions_def life_then_def [of "drain_sessions E sessions first"] dr life_ret_def)
  have maybe: "settles (if us \<noteq> [] then defer_set E us else life_ret ()) any (\<lambda>_ x. - conns us x)" for us
    using settles_defer_set by simp
  have late: "settles (?late ss e) (\<lambda>r. \<not> is_ok r) (\<lambda>_ x. - conns ss x)"
    by (rule settles_first [OF settles_abort_all], rule settles_first [OF settles_deadline_after],
        rule settles_then [OF settles_drain_sessions], clarify, rule settles_then [OF maybe]) simp
  show "accounted (finish_sessions E d sessions first w) w is_ok (\<lambda>_ x. - conns sessions x)"
  proof (cases "ss = []")
    case True
    with run dr show ?thesis unfolding accounted_def by (auto split: option.splits)
  next
    case False
    obtain r w2 fs where l: "?late ss e w1 = Some (r, w2)" "lw_log w2 = lw_log w1 @ fs" "lw_calls w1 \<le> lw_calls w2" "\<not> is_ok r"
      "\<forall>x. balance x fs = - conns ss x" using late unfolding settles_def by metis
    with False run dr show ?thesis unfolding accounted_def by auto
  qed
  show "first = None" if "finish_sessions E d sessions first w = Some (Ok (), w')"
  proof (cases "ss = []")
    case True
    with that run have "e = None" by (auto split: option.splits)
    with drain_first [OF dr(1)] show ?thesis by simp
  next
    case False
    with that run late show ?thesis unfolding settles_def by (metis is_ok.simps(1) option.inject prod.inject)
  qed
qed

section \<open>The accept loop\<close>

lemma is_ok_unit: "is_ok r \<longleftrightarrow> r = Ok ()" for r :: "(unit, 'e) result"
  by (cases r) auto

definition shutdown_comes :: "task_env \<Rightarrow> bool" where
  "shutdown_comes E \<longleftrightarrow> (\<exists>n. \<forall>m\<ge>n. \<exists>d. te_accept E m = AcceptShutdown d)"

lemma accept_accounted:
  assumes "\<forall>m\<ge>n. \<exists>d. te_accept E m = AcceptShutdown d"
  shows "accounted (accept_sessions E sessions first w) w is_ok (\<lambda>_ x. - conns sessions x) \<and>
    (\<forall>w'. accept_sessions E sessions first w = Some (Ok (), w') \<longrightarrow> first = None)"
proof (induction "n - lw_calls w" arbitrary: sessions first w rule: less_induct)
  case less
  let ?w1 = "w\<lparr>lw_calls := Suc (lw_calls w)\<rparr>"
  note unfold = accept_sessions.simps [of E sessions first w]
  have ask: "life_ask (te_accept E) w = Some (te_accept E (lw_calls w), ?w1)" by (simp add: life_ask_def)
  have smaller: "n - Suc (lw_calls w) < n - lw_calls w" if "\<And>d. te_accept E (lw_calls w) \<noteq> AcceptShutdown d"
    using assms that by (metis Suc_le_eq diff_less_mono2 lessI not_le_imp_less)
  show ?case
  proof (cases "te_accept E (lw_calls w)")
    case (AcceptShutdown d)
    have run: "accept_sessions E sessions first w = finish_sessions E d sessions first ?w1"
      by (simp add: unfold ask AcceptShutdown)
    show ?thesis unfolding run
      by (intro conjI accounted_calls [OF _ _ finish_accounted(1)]) (auto dest: finish_accounted(2))
  next
    case (AcceptFailed e)
    have run: "accept_sessions E sessions first w =
        life_then (drop_set sessions) (\<lambda>_. life_ret (Err (FixtureIo ''accept failed'' e))) ?w1"
      by (simp add: unfold ask AcceptFailed life_then_def life_ret_def case_prod_unfold)
    have failed: "settles (life_then (drop_set sessions) (\<lambda>_. life_ret (Err (FixtureIo ''accept failed'' e)))) (\<lambda>r. \<not> is_ok r)
        (\<lambda>_ x. - conns sessions x)"
      by (rule settles_then [OF settles_drop_set]) simp
    have "accounted (accept_sessions E sessions first w) ?w1 is_ok (\<lambda>_ x. - conns sessions x)"
      unfolding run by (rule accounted_settles [OF failed])
    moreover have "accept_sessions E sessions first w \<noteq> Some (Ok (), w')" for w'
      unfolding run using failed unfolding settles_def by (metis is_ok.simps(1) option.inject prod.inject)
    ultimately show ?thesis using accounted_calls [of ?w1 w] by simp
  next
    case AcceptConnection
    let ?w2 = "?w1\<lparr>lw_log := lw_log w @ [WorkerSpawned (lw_calls w)]\<rparr>"
    have run: "accept_sessions E sessions first w = accept_sessions E (sessions @ [lw_calls w]) first ?w2"
      by (simp add: unfold ask AcceptConnection life_emit_def)
    have IH: "accounted (accept_sessions E (sessions @ [lw_calls w]) first ?w2) ?w2 is_ok (\<lambda>_ x. - conns (sessions @ [lw_calls w]) x) \<and>
        (\<forall>w'. accept_sessions E (sessions @ [lw_calls w]) first ?w2 = Some (Ok (), w') \<longrightarrow> first = None)"
      using less [of ?w2 "sessions @ [lw_calls w]" first] smaller AcceptConnection by simp
    then have "accounted (accept_sessions E (sessions @ [lw_calls w]) first ?w2) ?w2 is_ok
        (\<lambda>_ x. - conns sessions x - change x (WorkerSpawned (lw_calls w)))"
      by (auto elim!: accounted_cong simp: takes_def)
    then show ?thesis unfolding run
      using IH accounted_step [of ?w2 w "WorkerSpawned (lw_calls w)"] by simp
  next
    case (AcceptJoined i joined)
    show ?thesis
    proof (cases "sessions = []")
      case True
      have run: "accept_sessions E sessions first w = accept_sessions E sessions first ?w1"
        by (subst unfold) (simp add: ask AcceptJoined True)
      show ?thesis unfolding run using less [of ?w1 sessions first] smaller AcceptJoined
        by (simp add: accounted_calls [of ?w1 w])
    next
      case False
      let ?i = "i mod length sessions"
      let ?e = "Joined (sessions ! ?i) (joined \<noteq> SessionPanicked)"
      let ?w2 = "?w1\<lparr>lw_log := lw_log w @ [?e]\<rparr>"
      have i: "?i < length sessions" using False by simp
      have run: "accept_sessions E sessions first w =
          accept_sessions E (swap_remove sessions ?i) (record_session_result joined first) ?w2"
        using False by (simp add: unfold ask AcceptJoined join_one_def Let_def life_then_def life_emit_def life_ret_def)
      note IH = less [of ?w2 "swap_remove sessions ?i" "record_session_result joined first"]
      have IH1: "accounted (accept_sessions E (swap_remove sessions ?i) (record_session_result joined first) ?w2) ?w2 is_ok
            (\<lambda>_ x. - conns (swap_remove sessions ?i) x)"
        and IH2: "accept_sessions E (swap_remove sessions ?i) (record_session_result joined first) ?w2 = Some (Ok (), w') \<Longrightarrow>
            record_session_result joined first = None" for w'
        using IH smaller AcceptJoined by auto
      have "accounted (accept_sessions E (swap_remove sessions ?i) (record_session_result joined first) ?w2) ?w2 is_ok
            (\<lambda>_ x. - conns sessions x - change x ?e)"
        by (rule accounted_cong [OF IH1]) (simp add: conns_swap_remove [OF i] takes_def)
      then have "accounted (accept_sessions E sessions first w) w is_ok (\<lambda>_ x. - conns sessions x)"
        unfolding run by (rule accounted_step [rotated 2]) (auto dest!: IH2 simp: record_None is_ok_unit)
      then show ?thesis unfolding run using IH2 by (auto simp: record_None)
    qed
  qed
qed

section \<open>Remote forwards\<close>

definition forward_ends :: "task_env \<Rightarrow> bool" where
  "forward_ends E \<longleftrightarrow> (\<exists>n. \<forall>m\<ge>n. te_bridge E m = BridgeCancelled)"

text \<open>A run that returns with a given change of the balance, whatever its events.\<close>

abbreviation balanced :: "('a \<times> life_world) option \<Rightarrow> life_world \<Rightarrow> ('a \<Rightarrow> worker \<Rightarrow> int) \<Rightarrow> bool" where
  "balanced run w h \<equiv> accounted run w (\<lambda>_. False) h"

lemma bridges_accounted:
  assumes "\<forall>m\<ge>n. te_bridge E m = BridgeCancelled"
  shows "balanced (accept_bridges E bridges w) w (\<lambda>bs x. conns bs x - conns bridges x)"
proof (induction "n - lw_calls w" arbitrary: bridges w rule: less_induct)
  case less
  let ?w1 = "w\<lparr>lw_calls := Suc (lw_calls w)\<rparr>"
  note unfold = accept_bridges.simps [of E bridges w]
  have ask: "life_ask (te_bridge E) w = Some (te_bridge E (lw_calls w), ?w1)" by (simp add: life_ask_def)
  have smaller: "n - Suc (lw_calls w) < n - lw_calls w" if "te_bridge E (lw_calls w) \<noteq> BridgeCancelled"
    using assms that by (metis Suc_le_eq diff_less_mono2 lessI not_le_imp_less)
  show ?case
  proof (cases "te_bridge E (lw_calls w)")
    case BridgeAccepted
    let ?e = "WorkerSpawned (lw_calls w)"
    let ?w2 = "?w1\<lparr>lw_log := lw_log w @ [?e]\<rparr>"
    have "balanced (accept_bridges E (bridges @ [lw_calls w]) ?w2) ?w2 (\<lambda>bs x. conns bs x - conns (bridges @ [lw_calls w]) x)"
      using less [of ?w2 "bridges @ [lw_calls w]"] smaller BridgeAccepted by simp
    then have "balanced (accept_bridges E (bridges @ [lw_calls w]) ?w2) ?w2 (\<lambda>bs x. conns bs x - conns bridges x - change x ?e)"
      by (rule accounted_cong) (simp add: takes_def)
    then show ?thesis by (subst unfold, intro accounted_step [of ?w2 w ?e]) (simp_all add: ask BridgeAccepted life_emit_def)
  next
    case (BridgeJoined i joined)
    show ?thesis
    proof (cases "bridges = []")
      case True
      have "balanced (accept_bridges E bridges ?w1) ?w1 (\<lambda>bs x. conns bs x - conns bridges x)"
        using less [of ?w1 bridges] smaller BridgeJoined by simp
      then show ?thesis by (subst unfold) (simp add: ask BridgeJoined True accounted_calls [of ?w1 w])
    next
      case False
      let ?i = "i mod length bridges"
      let ?e = "Joined (bridges ! ?i) (joined \<noteq> SessionPanicked)"
      let ?w2 = "?w1\<lparr>lw_log := lw_log w @ [?e]\<rparr>"
      have "?i < length bridges" using False by simp
      note removed = conns_swap_remove [OF this]
      have "balanced (accept_bridges E (swap_remove bridges ?i) ?w2) ?w2 (\<lambda>bs x. conns bs x - conns (swap_remove bridges ?i) x)"
        using less [of ?w2 "swap_remove bridges ?i"] smaller BridgeJoined by simp
      then have "balanced (accept_bridges E (swap_remove bridges ?i) ?w2) ?w2 (\<lambda>bs x. conns bs x - conns bridges x - change x ?e)"
        by (rule accounted_cong) (simp add: removed takes_def)
      then show ?thesis using False
        by (subst unfold, intro accounted_step [of ?w2 w ?e])
           (simp_all add: ask BridgeJoined join_one_def Let_def life_then_def life_emit_def life_ret_def)
    qed
  qed (auto simp: unfold ask accounted_def)
qed

lemma settles_remote_forward:
  assumes "forward_ends E"
  shows "settles (run_remote_forward E) any idle"
proof -
  have bridges: "settles (accept_bridges E []) any conns"
    unfolding settles_def
  proof
    fix w
    obtain n where "\<forall>m\<ge>n. te_bridge E m = BridgeCancelled" using assms unfolding forward_ends_def by blast
    from bridges_accounted [OF this, of "[]" w] show "\<exists>bs w' es. accept_bridges E [] w = Some (bs, w') \<and>
        lw_log w' = lw_log w @ es \<and> lw_calls w \<le> lw_calls w' \<and> any bs \<and> (\<forall>x. balance x es = conns bs x)"
      unfolding accounted_def by auto
  qed
  have rest: "settles (if bs \<noteq> [] then defer_set E bs else life_ret ()) any (\<lambda>_ x. - conns bs x)" for bs
    using settles_defer_set by simp
  show ?thesis unfolding run_remote_forward_def
    by (rule settles_then [OF bridges], rule settles_first [OF settles_abort_all], rule settles_first [OF settles_deadline_after],
        rule settles_then [OF settles_drain_sessions]) (auto intro: settles_conseq [OF rest])
qed

section \<open>Success of a session\<close>

text \<open>Nothing is left to anyone else.\<close>

fun ended :: "worker_event \<Rightarrow> bool" where
  "ended (GivenToReaper x) = False"
| "ended (RetainedThread x) = False"
| "ended (Detached x) = False"
| "ended _ = True"

definition tidy :: "'a life \<Rightarrow> ('a \<Rightarrow> bool) \<Rightarrow> bool" where
  "tidy m Q \<longleftrightarrow> (\<forall>w v w'. m w = Some (v, w') \<and> Q v \<longrightarrow> (\<exists>es. lw_log w' = lw_log w @ es \<and> list_all ended es))"

lemma tidy_then:
  assumes "settles m R h" and "tidy m P" and k: "\<And>v. R v \<Longrightarrow> P v \<Longrightarrow> tidy (k v) Q"
    and never: "\<And>v w u w'. R v \<Longrightarrow> \<not> P v \<Longrightarrow> k v w = Some (u, w') \<Longrightarrow> \<not> Q u"
  shows "tidy (life_then m k) Q"
  unfolding tidy_def
proof clarify
  fix w u w'
  assume run: "life_then m k w = Some (u, w')" and "Q u"
  obtain v w1 where v: "m w = Some (v, w1)" "R v" using assms(1) unfolding settles_def by metis
  with run have rest: "k v w1 = Some (u, w')" by (simp add: life_then_def)
  with never v \<open>Q u\<close> have "P v" by blast
  with v assms(2) k [OF v(2)] rest \<open>Q u\<close> obtain es fs where
    "lw_log w1 = lw_log w @ es" "list_all ended es" "lw_log w' = lw_log w1 @ fs" "list_all ended fs"
    unfolding tidy_def by metis
  then show "\<exists>es. lw_log w' = lw_log w @ es \<and> list_all ended es" by auto
qed

lemma tidy_first:
  assumes "settles m R h" and "tidy m any" and "\<And>v. R v \<Longrightarrow> tidy (k v) Q"
  shows "tidy (life_then m k) Q"
  by (rule tidy_then [OF assms(1,2)]) (use assms(3) in auto)

lemma tidy_never: "(\<And>w u w'. m w = Some (u, w') \<Longrightarrow> \<not> Q u) \<Longrightarrow> tidy m Q"
  by (auto simp: tidy_def)

lemma tidy_ret [simp]: "tidy (life_ret v) Q"
  by (auto simp: tidy_def life_ret_def)

lemma tidy_ask [simp]: "tidy (life_ask q) Q"
  by (auto simp: tidy_def life_ask_def)

lemma tidy_await [simp]: "tidy (life_await q) Q"
  by (auto simp: tidy_def life_await_def split: bind_splits)

lemma tidy_timeout [simp]: "tidy (timeout_at at ready) Q"
  by (auto simp: tidy_def timeout_at_def life_then_def life_ask_def life_ret_def)

lemma tidy_emit [simp]: "tidy (life_emit e) Q \<longleftrightarrow> ended e \<or> \<not> Q ()"
  by (auto simp: tidy_def life_emit_def)

lemma tidy_deadline [simp]: "tidy (deadline_after E budget) Q"
  unfolding deadline_after_def by (rule tidy_first [OF settles_ask]) (auto intro!: tidy_first [OF settles_ask])

lemma tidy_wait: "tidy (owned_wait_until E at t) any" "tidy (reap_wait_until E d t) any" "tidy (reap_wait t) any"
  unfolding owned_wait_until_def reap_wait_until_def reap_wait_def
  by (auto intro!: tidy_first [OF settles_timeout] tidy_first [OF settles_emit])

lemma tidy_abort_at: "tidy (abort_at E d) any"
  by (auto simp: tidy_def abort_at_def life_then_def life_ask_def life_ret_def split: bind_splits if_splits)

lemma tidy_drain_owned: "tidy (drain_owned_tasks E until ts) any"
proof (induction ts)
  case (Cons t ts)
  have "tidy (life_then (drain_owned_tasks E until ts) f) any" if "\<And>pending. tidy (f pending) any" for f :: "owned_task list \<Rightarrow> owned_task list life"
    by (rule tidy_first [OF settles_drain_owned Cons.IH]) (rule that)
  then show ?case unfolding drain_owned_tasks.simps
    by (intro tidy_first [OF settles_wait(1) tidy_wait(1)]) (auto simp: owned_drop_def)
qed simp

lemma tidy_for: "(\<And>t. settles (f t) any (\<lambda>_ x. - h t x)) \<Longrightarrow> (\<And>t. tidy (f t) any) \<Longrightarrow> tidy (for_tasks f ts) any"
  by (induction ts) (auto intro!: tidy_first)

lemma tidy_shutdown: "tidy (child_tracker_shutdown E d t) (\<lambda>(completed, _). completed)"
proof -
  let ?abort = "\<lambda>x. life_emit (AbortAsked (ot_task x))"
  have abort: "settles (?abort u) any (\<lambda>_ x. - 0)" for u using settles_emit [of "AbortAsked _"] by simp
  have aborts: "tidy (for_tasks ?abort ts) any" for ts by (rule tidy_for [OF abort]) simp
  have last: "tidy (life_then (for_tasks (owned_defer E) pending) (\<lambda>_. life_ret (pending = [], u))) (\<lambda>(completed, _). completed)"
    for pending and u :: child_task_tracker
    by (cases "pending = []") (auto simp: tidy_def life_then_def life_ret_def split: bind_splits)
  show ?thesis unfolding child_tracker_shutdown_def
    by (rule tidy_first [OF settles_abort_at tidy_abort_at], rule tidy_first [OF settles_drain_owned tidy_drain_owned],
        rule tidy_first [OF settles_for [OF abort] aborts],
        rule tidy_first [OF settles_drain_owned tidy_drain_owned]) (rule last)
qed

lemma tidy_shut_tasks: "tidy (shut_tasks E tasks operation d) is_ok"
  unfolding shut_tasks_def
  by (rule tidy_then [OF settles_shutdown tidy_shutdown]) (auto simp: life_ret_def)

lemma tidy_dropped: "\<not> ot_join t \<Longrightarrow> tidy (reap_drop E t) any"
  by (simp add: reap_drop_def)

lemma tidy_session:
  assumes "session_decided E"
  shows "tidy (run_session E session tasks) is_ok"
proof -
  let ?c = "\<lparr>ot_task = session, ot_join = True\<rparr>"
  have cancelled: "tidy (life_then (timeout_at (sd_at d) (te_disconnects E)) (\<lambda>disconnected.
      life_then (reap_wait_until E d ?c) (\<lambda>(session_completed, completion).
      life_then (child_tracker_shutdown E d tasks) (\<lambda>(children_completed, _).
      life_then (reap_drop E completion) (\<lambda>_.
      life_ret (if disconnected \<and> session_completed \<and> children_completed then Ok ()
                else Err (session_timeout ''session teardown'' d))))))) is_ok" for d
  proof (rule tidy_first [OF settles_timeout tidy_timeout], rule tidy_first [OF settles_wait(2) tidy_wait(2)], clarify)
    fix disconnected session_completed and completion :: owned_task
    assume c: "session_completed \<longrightarrow> \<not> ot_join completion"
    let ?finish = "\<lambda>children_completed. life_then (reap_drop E completion) (\<lambda>_.
      life_ret (if disconnected \<and> session_completed \<and> children_completed then Ok ()
                else Err (session_timeout ''session teardown'' d)))"
    have "tidy (?finish True) is_ok"
    proof (cases session_completed)
      case True
      with c show ?thesis by (intro tidy_first [OF settles_owned(2) tidy_dropped]) auto
    qed (auto simp: tidy_def life_then_def life_ret_def split: bind_splits)
    moreover have "\<not> is_ok u" if "?finish False w = Some (u, w')" for u w w'
      using that by (auto simp: life_then_def life_ret_def split: bind_splits)
    ultimately show "tidy (life_then (child_tracker_shutdown E d tasks) (\<lambda>(children_completed, _). ?finish children_completed)) is_ok"
      by (intro tidy_then [OF settles_shutdown tidy_shutdown]) (auto simp: case_prod_unfold)
  qed
  have shut: "settles (shut_tasks E tasks operation d) any (\<lambda>_ x. - tasks_held (ct_tasks tasks) x)" for operation d
    unfolding shut_tasks_def by (rule settles_then [OF settles_shutdown]) auto
  have waited: "reap_wait ?c w = Some (?c\<lparr>ot_join := False\<rparr>, w\<lparr>lw_log := lw_log w @ [Joined session True]\<rparr>)" for w
    by (simp add: reap_wait_def life_then_def life_emit_def life_ret_def)
  have wait: "settles (reap_wait ?c) (\<lambda>c. \<not> ot_join c) (\<lambda>_ x. takes session x)"
    unfolding settles_def waited by (auto simp: takes_def intro!: exI [of _ "[Joined session True]"])
  have alone: "tidy (life_then (reap_wait ?c) (\<lambda>completion.
      life_then (deadline_after (te_life E) SESSION_TEARDOWN) (\<lambda>d.
      life_then (shut_tasks E tasks ''session child drain'' d) (\<lambda>r.
      life_then (reap_drop E completion) (\<lambda>_. life_ret r))))) is_ok"
  proof (rule tidy_first [OF wait tidy_wait(3)], rule tidy_first [OF settles_deadline_after tidy_deadline],
      rule tidy_then [OF shut tidy_shut_tasks])
    fix c :: owned_task and r
    assume "\<not> ot_join c"
    then show "tidy (life_then (reap_drop E c) (\<lambda>_. life_ret (r :: (unit, ssh_fixture_error) result))) is_ok"
      by (intro tidy_first [OF settles_owned(2) tidy_dropped]) auto
  qed (auto simp: life_then_def life_ret_def split: bind_splits)
  have ready: "te_start E n \<noteq> None" "te_running E n \<noteq> None" for n
    using assms by (auto simp: session_decided_def)
  show ?thesis unfolding run_session_def Let_def
    by (rule tidy_first [OF settles_await [OF ready(1)] tidy_await], split session_start.split)
       (auto intro!: tidy_shut_tasks tidy_first [OF settles_deadline_after tidy_deadline] tidy_first [OF settles_emit]
         tidy_first [OF settles_await [OF ready(2)] tidy_await] cancelled alone split: session_end.split)
qed

section \<open>The worker and the reaper\<close>

text \<open>The jobs of the reaper after some turns of its loop.\<close>

fun reaper_turns :: "task_env \<Rightarrow> nat \<Rightarrow> worker list \<Rightarrow> worker list option life" where
  "reaper_turns E 0 jobs = life_ret (Some jobs)"
| "reaper_turns E (Suc n) jobs =
     life_then (reaper_turn E jobs) (\<lambda>left.
       case left of Some jobs' \<Rightarrow> reaper_turns E n jobs' | None \<Rightarrow> life_ret None)"

text \<open>What is left when the loop ends is nothing.\<close>

definition jobs_left :: "worker list option \<Rightarrow> worker list" where
  "jobs_left left = (case left of Some jobs \<Rightarrow> jobs | None \<Rightarrow> [])"

lemma settles_reaper_turn: "settles (reaper_turn E jobs) any (\<lambda>left x. conns (jobs_left left) x - conns jobs x)"
  unfolding reaper_turn_def
proof (rule settles_first [OF settles_ask])
  fix event
  show "settles (case event of
      ReapReceived x \<Rightarrow> life_then (life_emit (WorkerSpawned x)) (\<lambda>_. life_ret (Some (jobs @ [x])))
    | ReapEnded i ok \<Rightarrow>
        if jobs = [] then life_ret (Some jobs)
        else life_then (life_emit (Joined (jobs ! (i mod length jobs)) ok)) (\<lambda>_.
          life_ret (Some (swap_remove jobs (i mod length jobs))))
    | ReapDisconnected \<Rightarrow> life_ret (if jobs = [] then None else Some jobs)) any
      (\<lambda>left x. conns (jobs_left left) x - conns jobs x)"
  proof (cases event)
    case (ReapEnded i ok)
    have "i mod length jobs < length jobs" if "jobs \<noteq> []" using that by simp
    then show ?thesis
      using ReapEnded
      by (auto simp: jobs_left_def takes_def conns_swap_remove intro!: settles_then [OF settles_emit])
  qed (auto simp: jobs_left_def takes_def intro!: settles_then [OF settles_emit])
qed

lemma settles_reaper_turns: "settles (reaper_turns E n jobs) any (\<lambda>left x. conns (jobs_left left) x - conns jobs x)"
proof (induction n arbitrary: jobs)
  case (Suc n)
  show ?case unfolding reaper_turns.simps
  proof (rule settles_then [OF settles_reaper_turn])
    fix left
    show "settles (case left of Some jobs' \<Rightarrow> reaper_turns E n jobs' | None \<Rightarrow> life_ret None) any
        (\<lambda>u x. conns (jobs_left u) x - conns jobs x - (conns (jobs_left left) x - conns jobs x))"
      using Suc.IH by (cases left) (auto simp: jobs_left_def intro: settles_conseq)
  qed
qed (simp add: jobs_left_def)

text \<open>Programs with no event.\<close>

definition quietly :: "'a life \<Rightarrow> ('a \<Rightarrow> bool) \<Rightarrow> bool" where
  "quietly m Q \<longleftrightarrow> (\<forall>w. \<exists>v w'. m w = Some (v, w') \<and> lw_log w' = lw_log w \<and> Q v)"

lemma quietly_ret [simp]: "quietly (life_ret v) Q \<longleftrightarrow> Q v"
  by (auto simp: quietly_def life_ret_def)

lemma quietly_ask: "quietly (life_ask q) any"
  by (auto simp: quietly_def life_ask_def)

lemma quietly_then:
  assumes m: "quietly m P" and k: "\<And>v. P v \<Longrightarrow> quietly (k v) Q"
  shows "quietly (life_then m k) Q"
  unfolding quietly_def
proof
  fix w
  obtain v w1 where 1: "m w = Some (v, w1)" "lw_log w1 = lw_log w" "P v" using m unfolding quietly_def by metis
  obtain u w2 where "k v w1 = Some (u, w2)" "lw_log w2 = lw_log w1" "Q u" using k [OF 1(3)] unfolding quietly_def by metis
  with 1 show "\<exists>v w'. life_then m k w = Some (v, w') \<and> lw_log w' = lw_log w \<and> Q v" by (simp add: life_then_def)
qed

lemma quietly_deadline: "quietly (deadline_after E budget) any"
  unfolding deadline_after_def by (rule quietly_then [OF quietly_ask]) (auto intro!: quietly_then [OF quietly_ask])

lemma quietly_fixture_io: "quietly (fixture_io operation (life_setup E)) any"
  unfolding fixture_io_def life_setup_def by (rule quietly_then [OF quietly_ask]) simp

lemma worker_accounted:
  assumes "shutdown_comes E"
  shows "\<exists>ready r w' es. run_server_worker E w = Some ((ready, r), w') \<and> lw_log w' = lw_log w @ es \<and> (\<forall>x. balance x es = 0) \<and>
    (if is_ok r then list_all clean es else is_ok ready)"
proof -
  let ?finish = "\<lambda>outcome. life_then (life_ask (te_cancelled E)) (\<lambda>cancelled.
      life_then (case cancelled of Some d \<Rightarrow> life_ret d | None \<Rightarrow> deadline_after (te_life E) SESSION_TEARDOWN) (\<lambda>d.
      life_then (remaining (te_life E) d) (\<lambda>_. life_ret (outcome :: (unit, ssh_fixture_error) result \<times> (unit, ssh_fixture_error) result))))"
  let ?run = "\<lambda>listener. life_then (case listener of
        Inl e \<Rightarrow> life_ret (Err e, Ok ())
      | Inr _ \<Rightarrow> life_then (run_accept_loop E) (\<lambda>result. life_ret (Ok (), result))) ?finish"
  have finish: "quietly (?finish outcome) (\<lambda>v. v = outcome)" for outcome
    by (rule quietly_then [OF quietly_ask], rule quietly_then [of _ any])
       (auto simp: remaining_def split: option.splits intro!: quietly_then [OF quietly_then [OF quietly_ask]] quietly_deadline)
  obtain runtime w1 where 1: "fixture_io ''runtime setup failed'' (life_setup (te_life E)) w = Some (runtime, w1)" "lw_log w1 = lw_log w"
    using quietly_fixture_io unfolding quietly_def by blast
  obtain listener w2 where 2: "fixture_io ''async listener setup failed'' (life_setup (te_life E)) w1 = Some (listener, w2)" "lw_log w2 = lw_log w1"
    using quietly_fixture_io unfolding quietly_def by blast
  obtain n where "\<forall>m\<ge>n. \<exists>d. te_accept E m = AcceptShutdown d" using assms unfolding shutdown_comes_def by blast
  from accept_accounted [OF this, of "[]" None w2] obtain r w3 es where
    3: "run_accept_loop E w2 = Some (r, w3)" "lw_log w3 = lw_log w2 @ es" "\<forall>x. balance x es = 0" "is_ok r \<longrightarrow> list_all clean es"
    unfolding accounted_def run_accept_loop_def by auto
  have run: "run_server_worker E w = (case runtime of Inl e \<Rightarrow> Some ((Err e, Ok ()), w1) | Inr _ \<Rightarrow> ?run listener w2)"
    using 1 2 by (simp add: run_server_worker_def life_then_def life_ret_def split: sum.split)
  show ?thesis
  proof (cases "is_ok runtime \<and> is_ok listener")
    case True
    obtain w4 where 4: "?finish (Ok (), r) w3 = Some ((Ok (), r), w4)" "lw_log w4 = lw_log w3"
      using finish [of "(Ok (), r)"] unfolding quietly_def by blast
    have "?run listener w2 = Some ((Ok (), r), w4)"
      using True 3(1) 4(1) by (cases listener) (auto simp: life_then_def [of "life_then _ _"] life_then_def [of "run_accept_loop E"] life_ret_def)
    with 4(2) True run 1 2 3 show ?thesis by (cases runtime) auto
  next
    case False
    show ?thesis
    proof (cases runtime)
      case (Inl e)
      with run 1 show ?thesis by auto
    next
      case (Inr u)
      with False obtain e where "listener = Err e" by (cases listener) auto
      with Inr run 1 2 finish [of "(Err e, Ok ())"] show ?thesis unfolding quietly_def by fastforce
    qed
  qed
qed

section \<open>Properties\<close>

text \<open>C19. The SSH server ends and leaks no session. When the owner asks for the end at some time, the
  worker thread returns, whatever clients, sessions and system calls do, and for every session
  task the joins, hand-overs to the reaper and detachments add up to the number of times it was
  started; it reports success only when every session was joined, none panicked and none had to
  be aborted. The listener of a remote forward settles its bridges in the same way, when it is
  cancelled at some time. And the reaper, which runs as long as the process, loses nothing: after any
  number of turns of its loop, each job it received has been awaited to its end once or is still one
  of its jobs.\<close>

theorem server_tasks_accounted:
  assumes "shutdown_comes E" and "forward_ends E"
  shows "(\<exists>ready r w' es. run_server_worker E w = Some ((ready, r), w') \<and> lw_log w' = lw_log w @ es \<and> balance x es = 0 \<and>
      (if is_ok r then list_all clean es else is_ok ready)) \<and>
    (\<exists>w' es. run_remote_forward E w = Some ((), w') \<and> lw_log w' = lw_log w @ es \<and> balance x es = 0) \<and>
    (\<exists>left w' es. reaper_turns E n [] w = Some (left, w') \<and> lw_log w' = lw_log w @ es \<and>
      balance x es = conns (jobs_left left) x)"
proof (intro conjI)
  show "\<exists>ready r w' es. run_server_worker E w = Some ((ready, r), w') \<and> lw_log w' = lw_log w @ es \<and> balance x es = 0 \<and>
      (if is_ok r then list_all clean es else is_ok ready)"
    using worker_accounted [OF assms(1), of w] by blast
  show "\<exists>w' es. run_remote_forward E w = Some ((), w') \<and> lw_log w' = lw_log w @ es \<and> balance x es = 0"
    using settles_remote_forward [OF assms(2)] unfolding settles_def by fastforce
  show "\<exists>left w' es. reaper_turns E n [] w = Some (left, w') \<and> lw_log w' = lw_log w @ es \<and>
      balance x es = conns (jobs_left left) x"
    using settles_reaper_turns [of E n "[]"] unfolding settles_def by fastforce
qed

definition demo_task_env :: task_env where
  "demo_task_env = \<lparr>te_life = demo_life_env, te_ends = (\<lambda>_ _. Some 3), te_next = (\<lambda>_. Some (0, SessionDone (Ok ()))),
     te_start = (\<lambda>_. Some StartRunning), te_running = (\<lambda>_. Some (EndCancelled \<lparr>sd_at = 20, sd_budget = 5\<rparr>)),
     te_cancelled = (\<lambda>_. None), te_disconnects = (\<lambda>_. Some 2),
     te_accept = (\<lambda>n. if n < 3 then AcceptConnection else AcceptShutdown \<lparr>sd_at = 20, sd_budget = 5\<rparr>),
     te_bridge = (\<lambda>n. if n < 3 then BridgeAccepted else BridgeCancelled),
     te_reap = (\<lambda>idle n. if n < 3 then ReapReceived n else if idle then ReapDisconnected else ReapEnded 0 True)\<rparr>"

theorem server_tasks_accounted_witness:
  "(\<exists>r w'. run_server_worker demo_task_env demo_life_world = Some (r, w') \<and> balance 4 (lw_log w') = 0) \<and>
   (\<exists>w'. run_remote_forward demo_task_env demo_life_world = Some ((), w') \<and> balance 4 (lw_log w') = 0) \<and>
   (\<exists>left w'. reaper_turns demo_task_env 5 [] demo_life_world = Some (left, w') \<and>
      balance 4 (lw_log w') = conns (jobs_left left) 4)"
proof -
  have "shutdown_comes demo_task_env" by (auto simp: shutdown_comes_def demo_task_env_def intro!: exI [of _ 3])
  moreover have "forward_ends demo_task_env" by (auto simp: forward_ends_def demo_task_env_def intro!: exI [of _ 3])
  ultimately show ?thesis
    using server_tasks_accounted [of demo_task_env demo_life_world 4 5] by (auto simp: demo_life_world_def)
qed

text \<open>C20. A session settles the child tasks that its handler has started, and the protocol task itself,
  exactly once each, whether it is cancelled while it starts, fails to start, is cancelled while it
  runs or ends alone; and it returns whenever it ends or the owner asks for the end: after that, only
  waits with a deadline are left, and tasks that never end cannot hold it. It reports success only when
  all of them have been awaited to their end, with nothing left to the reaper or detached. A session
  that neither ends nor is asked to end goes on.\<close>

theorem session_tasks_accounted:
  assumes "session_decided E"
  shows "\<exists>r w' es. run_session E session tasks w = Some (r, w') \<and> lw_log w' = lw_log w @ es \<and>
     balance x es = - tasks_held (ct_tasks tasks) x \<and> (if is_ok r then list_all ended es else True) \<and>
     run_session (E\<lparr>te_start := \<lambda>_. Some StartRunning, te_running := \<lambda>_. None\<rparr>) session tasks w = None"
proof -
  obtain r w' es where run: "run_session E session tasks w = Some (r, w')" "lw_log w' = lw_log w @ es"
    "balance x es = - tasks_held (ct_tasks tasks) x"
    using settles_session [OF assms, of session tasks] unfolding settles_def by metis
  moreover have "is_ok r \<longrightarrow> list_all ended es"
    using tidy_session [OF assms, of session tasks] run(1,2) unfolding tidy_def by (metis same_append_eq)
  moreover have "run_session (E\<lparr>te_start := \<lambda>_. Some StartRunning, te_running := \<lambda>_. None\<rparr>) session tasks w = None"
    by (simp add: run_session_def life_then_def life_await_def life_emit_def)
  ultimately show ?thesis by auto
qed

text \<open>A session that is cancelled, with one child task that ends in time and one that never ends.\<close>

theorem session_tasks_accounted_witness:
  "\<exists>r w'. run_session (demo_task_env\<lparr>te_ends := \<lambda>x _. if x = 4 then None else Some 3\<rparr>) 7
      (child_tracker_new\<lparr>ct_tasks := [\<lparr>ot_task = 3, ot_join = True\<rparr>, \<lparr>ot_task = 4, ot_join = True\<rparr>]\<rparr>) demo_life_world = Some (r, w') \<and>
     balance 4 (lw_log w') = -1"
proof -
  have "session_decided (demo_task_env\<lparr>te_ends := \<lambda>x _. if x = 4 then None else Some 3\<rparr>)"
    by (simp add: session_decided_def demo_task_env_def)
  from session_tasks_accounted [OF this, of 7 "child_tracker_new\<lparr>ct_tasks := [\<lparr>ot_task = 3, ot_join = True\<rparr>, \<lparr>ot_task = 4, ot_join = True\<rparr>]\<rparr>" demo_life_world 4]
  show ?thesis by (auto simp: demo_life_world_def child_tracker_new_def task_held_def takes_def)
qed

end
