(* ===== verification/Openssh_Probe.thy ===== *)
theory Openssh_Probe
  imports Child_Owned "HOL-Library.AList"
begin

text \<open>
  System OpenSSH clients in the tests: temporary homes (\<open>crates/rssh-test-support/src/temp_home.rs\<close>),
  the options and environment of a client (\<open>ssh/agent.rs\<close> 217-226, \<open>ssh/server.rs\<close> 507-556), the
  marker command (\<open>marker.rs\<close>, Unix) and the probe for the installed tools (\<open>openssh.rs\<close>), which runs each
  tool as a guarded child. What a program does when it is run is the environment.
\<close>

section \<open>Commands\<close>

text \<open>\<open>std::process::Command\<close>: the program, its arguments and the changes to the inherited environment, of
  which a variable has at most one.\<close>

record os_command =
  oc_program :: string
  oc_args :: "string list"
  oc_envs :: "(string \<times> string option) list"

definition new_command :: "string \<Rightarrow> os_command" where
  "new_command program = \<lparr>oc_program = program, oc_args = [], oc_envs = []\<rparr>"

definition add_args :: "string list \<Rightarrow> os_command \<Rightarrow> os_command" where
  "add_args args c = c\<lparr>oc_args := oc_args c @ args\<rparr>"

definition set_env :: "string \<Rightarrow> string \<Rightarrow> os_command \<Rightarrow> os_command" where
  "set_env k v c = c\<lparr>oc_envs := AList.update k (Some v) (oc_envs c)\<rparr>"

definition env_remove :: "string \<Rightarrow> os_command \<Rightarrow> os_command" where
  "env_remove k c = c\<lparr>oc_envs := AList.update k None (oc_envs c)\<rparr>"

text \<open>What the child finds in its environment.\<close>

definition child_env :: "(string \<Rightarrow> string option) \<Rightarrow> os_command \<Rightarrow> string \<Rightarrow> string option" where
  "child_env inherited c k = (case map_of (oc_envs c) k of Some v \<Rightarrow> v | None \<Rightarrow> inherited k)"

definition guarded_command :: "os_command \<Rightarrow> proc_command" where
  "guarded_command c = \<lparr>pc_envs = oc_envs c, pc_current_dir = None\<rparr>"

section \<open>Temporary homes\<close>

record temp_home =
  th_path :: string
  th_environment :: "(string \<times> string) list"

definition temp_home_new :: "(string, io_err) result \<Rightarrow> (temp_home, io_err) result" where
  "temp_home_new directory =
     map_ok (\<lambda>path. \<lparr>th_path = path, th_environment = [(''HOME'', path), (''USERPROFILE'', path)]\<rparr>) directory"

definition environment_value :: "string \<Rightarrow> temp_home \<Rightarrow> string option" where
  "environment_value key home = map_of (th_environment home) key"

definition apply_to :: "temp_home \<Rightarrow> os_command \<Rightarrow> os_command" where
  "apply_to home c = fold (\<lambda>(k, v). set_env k v) (th_environment home) c"

section \<open>Clients of the SSH server\<close>

datatype open_ssh_tool = SshTool | SftpTool | ScpTool

definition agent_configure_ssh_command :: "string \<Rightarrow> os_command \<Rightarrow> os_command" where
  "agent_configure_ssh_command identity_path c =
     env_remove ''SSH_AUTH_SOCK'' (add_args
       [''-i'', identity_path, ''-o'', ''IdentitiesOnly=yes'', ''-o'', ''IdentityAgent=none''] c)"

record client_settings =
  cs_home :: temp_home
  cs_identity_path :: string
  cs_config_path :: string
  cs_known_hosts_path :: string
  cs_port :: u16

definition configure_openssh_command :: "client_settings \<Rightarrow> open_ssh_tool \<Rightarrow> os_command \<Rightarrow> os_command" where
  "configure_openssh_command v tool c =
     (let c = agent_configure_ssh_command (cs_identity_path v) (apply_to (cs_home v) c);
          port_flag = (case tool of SshTool \<Rightarrow> ''-p'' | SftpTool \<Rightarrow> ''-P'' | ScpTool \<Rightarrow> ''-P'');
          c = add_args [''-F'', cs_config_path v, port_flag, show_nat (unat (cs_port v)),
                ''-o'', ''StrictHostKeyChecking=yes'',
                ''-o'', ''UserKnownHostsFile='' @ cs_known_hosts_path v,
                ''-o'', ''GlobalKnownHostsFile=none'',
                ''-o'', ''IdentityAgent=none'',
                ''-o'', ''IdentitiesOnly=yes'',
                ''-o'', ''BatchMode=yes'',
                ''-o'', ''PreferredAuthentications=publickey'',
                ''-o'', ''PasswordAuthentication=no'',
                ''-o'', ''KbdInteractiveAuthentication=no'',
                ''-o'', ''NumberOfPasswordPrompts=0''] c
      in env_remove ''DISPLAY'' (env_remove ''SSH_ASKPASS_REQUIRE'' (env_remove ''SSH_ASKPASS'' (env_remove ''SSH_AUTH_SOCK'' c))))"

definition server_configure_ssh_command :: "client_settings \<Rightarrow> string \<Rightarrow> os_command \<Rightarrow> os_command" where
  "server_configure_ssh_command v user c =
     add_args [user @ ''@127.0.0.1''] (configure_openssh_command v SshTool c)"

section \<open>The marker command\<close>

definition platform_marker_command_with_delay :: "string \<Rightarrow> nat option \<Rightarrow> os_command" where
  "platform_marker_command_with_delay marker delay_seconds =
     (let printf = ''printf '' @ [CHR 0x27] @ ''%s'' @ [CHR 0x27] @ '' '' @ [CHR 0x22] @ ''$RSSH_TEST_MARKER'' @ [CHR 0x22];
          program = (case delay_seconds of None \<Rightarrow> printf | Some seconds \<Rightarrow> printf @ ''; sleep '' @ show_nat seconds)
      in set_env ''RSSH_TEST_MARKER'' marker (add_args [''-c'', program] (new_command ''/bin/sh'')))"

definition platform_marker_command :: "string \<Rightarrow> os_command" where
  "platform_marker_command marker = platform_marker_command_with_delay marker None"

section \<open>The policy of the gate\<close>

text \<open>The tools, in the derived order.\<close>

datatype client_tool = ToolSsh | ToolSftp | ToolScp

fun tool_rank :: "client_tool \<Rightarrow> nat" where
  "tool_rank ToolSsh = 0"
| "tool_rank ToolSftp = 1"
| "tool_rank ToolScp = 2"

instantiation client_tool :: linorder
begin

definition less_eq_client_tool :: "client_tool \<Rightarrow> client_tool \<Rightarrow> bool" where
  "less_eq_client_tool a b \<longleftrightarrow> tool_rank a \<le> tool_rank b"

definition less_client_tool :: "client_tool \<Rightarrow> client_tool \<Rightarrow> bool" where
  "less_client_tool a b \<longleftrightarrow> tool_rank a < tool_rank b"

instance
proof
  fix a b :: client_tool
  assume "a \<le> b" "b \<le> a"
  then show "a = b" unfolding less_eq_client_tool_def by (cases a; cases b) simp_all
qed (auto simp: less_eq_client_tool_def less_client_tool_def)

end

fun tool_program :: "client_tool \<Rightarrow> string" where
  "tool_program ToolSsh = ''ssh''"
| "tool_program ToolSftp = ''sftp''"
| "tool_program ToolScp = ''scp''"

fun probe_argument :: "client_tool \<Rightarrow> string" where
  "probe_argument ToolSsh = ''-V''"
| "probe_argument ToolSftp = ''-h''"
| "probe_argument ToolScp = ''-h''"

fun diagnostic_marker :: "client_tool \<Rightarrow> string" where
  "diagnostic_marker ToolSsh = ''openssh''"
| "diagnostic_marker ToolSftp = ''usage: sftp''"
| "diagnostic_marker ToolScp = ''usage: scp''"

definition ascii_lower :: "char \<Rightarrow> char" where
  "ascii_lower c = (if (65 :: nat) \<le> of_char c \<and> of_char c \<le> (90 :: nat) then char_of (of_char c + 32 :: nat) else c)"

definition truthy :: "string \<Rightarrow> bool" where
  "truthy v \<longleftrightarrow> map ascii_lower (trim v) \<in> {''1'', ''true'', ''yes''}"

definition falsey :: "string \<Rightarrow> bool" where
  "falsey v \<longleftrightarrow> map ascii_lower (trim v) \<in> {''0'', ''false'', ''no''}"

datatype probe_policy = ProbeRequired | ProbeOptionalLocal

text \<open>The errors of the gate, in place of their texts.\<close>

datatype probe_error =
    InvalidPolicy string
  | CiOptOut
  | HomeSetupFailed io_err
  | ToolUnavailable client_tool
  | ProbeFailed client_tool child_guard_error
  | ProbeUnidentified client_tool int string

definition from_values :: "string option \<Rightarrow> string option \<Rightarrow> (probe_policy, probe_error) result" where
  "from_values ci required =
     (let ci = (case ci of None \<Rightarrow> False | Some v \<Rightarrow> truthy v) in
      and_then (case required of
          None \<Rightarrow> Ok ProbeRequired
        | Some v \<Rightarrow>
            if truthy v then Ok ProbeRequired
            else if falsey v then Ok ProbeOptionalLocal
            else Err (InvalidPolicy v)) (\<lambda>requested.
      if ci \<and> requested = ProbeOptionalLocal then Err CiOptOut else Ok requested))"

section \<open>The probe\<close>

definition PROBE_DEADLINE :: duration where "PROBE_DEADLINE = 15000000000"

definition isolate_command :: "temp_home \<Rightarrow> os_command \<Rightarrow> os_command" where
  "isolate_command home c =
     fold env_remove [''SSH_AUTH_SOCK'', ''SSH_ASKPASS'', ''SSH_ASKPASS_REQUIRE'', ''DISPLAY''] (apply_to home c)"

datatype probe_failure = MissingTool client_tool | InvalidTool probe_error

definition classify_probe_error :: "client_tool \<Rightarrow> child_guard_error \<Rightarrow> probe_failure" where
  "classify_probe_error tool e =
     (case e of
        GuardIo operation source _ _ \<Rightarrow>
          if operation = ''spawn'' \<and> (case source of IoErr kind _ \<Rightarrow> kind = IoNotFound) then MissingTool tool
          else InvalidTool (ProbeFailed tool e)
      | _ \<Rightarrow> InvalidTool (ProbeFailed tool e))"

definition probe_command :: "client_tool \<Rightarrow> temp_home \<Rightarrow> os_command" where
  "probe_command tool home = isolate_command home (add_args [probe_argument tool] (new_command (tool_program tool)))"

text \<open>What running a program with some arguments and environment does.\<close>

type_synonym machine = "os_command \<Rightarrow> proc_env"

definition probe_tool :: "machine \<Rightarrow> client_tool \<Rightarrow> temp_home \<Rightarrow> proc_world \<Rightarrow> (unit, probe_failure) result \<times> proc_world" where
  "probe_tool machine tool home w =
     (let command = probe_command tool home;
          E = machine command
      in case guard_spawn E (guarded_command command) PROBE_DEADLINE w of
           (Inl e, w1) \<Rightarrow> (Err (classify_probe_error tool e), w1)
         | (Inr g, w1) \<Rightarrow>
             (case guard_wait E g w1 of
                (Inl e, w2) \<Rightarrow> (Err (InvalidTool (ProbeFailed tool e)), w2)
              | (Inr output, w2) \<Rightarrow>
                  (let diagnostics = map ascii_lower (to_string_lossy (str_of_bytes (co_stdout output @ co_stderr output))) in
                   if str_contains (diagnostic_marker tool) diagnostics then (Ok (), w2)
                   else (Err (InvalidTool (ProbeUnidentified tool (co_status output) diagnostics)), w2))))"

fun probe_each :: "machine \<Rightarrow> probe_policy \<Rightarrow> temp_home \<Rightarrow> client_tool list \<Rightarrow> proc_world \<Rightarrow> (bool, probe_error) result \<times> proc_world" where
  "probe_each machine policy home [] w = (Ok True, w)"
| "probe_each machine policy home (tool # tools) w =
     (case probe_tool machine tool home w of
        (Inr _, w1) \<Rightarrow> probe_each machine policy home tools w1
      | (Inl (MissingTool t), w1) \<Rightarrow>
          (if policy = ProbeOptionalLocal then Ok False else Err (ToolUnavailable t), w1)
      | (Inl (InvalidTool e), w1) \<Rightarrow> (Err e, w1))"

text \<open>The variables \<open>CI\<close> and \<open>RSSH_REQUIRE_OPENSSH\<close>, and the directory of the temporary home, come from the
  system. A \<open>BTreeSet\<close> is the sorted list of its elements.\<close>

definition probe_openssh_tools_from_environment ::
  "machine \<Rightarrow> string option \<Rightarrow> string option \<Rightarrow> (string, io_err) result \<Rightarrow> client_tool list \<Rightarrow> proc_world \<Rightarrow>
   (bool, probe_error) result \<times> proc_world" where
  "probe_openssh_tools_from_environment machine ci required directory requested w =
     (case from_values ci required of
        Inl e \<Rightarrow> (Err e, w)
      | Inr policy \<Rightarrow>
          (case temp_home_new directory of
             Inl e \<Rightarrow> (Err (HomeSetupFailed e), w)
           | Inr home \<Rightarrow> probe_each machine policy home (sorted_list_of_set (insert ToolSsh (set requested))) w))"

section \<open>Isolation\<close>

lemma child_env_simps [simp]:
  "child_env inherited (set_env k v c) j = (if j = k then Some v else child_env inherited c j)"
  "child_env inherited (env_remove k c) j = (if j = k then None else child_env inherited c j)"
  "child_env inherited (add_args args c) j = child_env inherited c j"
  by (auto simp: child_env_def set_env_def env_remove_def add_args_def update_conv')

lemma oc_args_simps [simp]:
  "oc_args (set_env k v c) = oc_args c" "oc_args (env_remove k c) = oc_args c" "oc_args (add_args args c) = oc_args c @ args"
  "oc_args (new_command program) = []"
  by (simp_all add: set_env_def env_remove_def add_args_def new_command_def)

lemma oc_args_apply [simp]: "oc_args (apply_to home c) = oc_args c"
proof -
  have "oc_args (fold (\<lambda>(k, v). set_env k v) kvs c) = oc_args c" for kvs by (induction kvs arbitrary: c) auto
  then show ?thesis by (simp add: apply_to_def)
qed

text \<open>The value OpenSSH takes for an option from arguments that are pairs of a flag and its value: the
  first one given.\<close>

fun option_value :: "string \<Rightarrow> string \<Rightarrow> string option" where
  "option_value [] (c # v) = (if c = CHR ''='' then Some v else None)"
| "option_value (k # key) (c # v) = (if k = c then option_value key v else None)"
| "option_value _ [] = None"

fun ssh_option :: "string \<Rightarrow> string list \<Rightarrow> string option" where
  "ssh_option key (flag # v # args) =
     (case if flag = ''-o'' then option_value key v else None of Some value \<Rightarrow> Some value | None \<Rightarrow> ssh_option key args)"
| "ssh_option key _ = None"

definition isolated_child :: "(string \<Rightarrow> string option) \<Rightarrow> string \<Rightarrow> os_command \<Rightarrow> bool" where
  "isolated_child inherited path c \<longleftrightarrow>
     child_env inherited c ''HOME'' = Some path \<and> child_env inherited c ''USERPROFILE'' = Some path \<and>
     list_all (\<lambda>k. child_env inherited c k = None) [''SSH_AUTH_SOCK'', ''SSH_ASKPASS'', ''SSH_ASKPASS_REQUIRE'', ''DISPLAY'']"

section \<open>The gate\<close>

text \<open>The log of a child that ends by itself: it is polled, at most \<open>n\<close> times in vain, until its status is
  seen, and never killed.\<close>

definition ended_by_itself :: "nat \<Rightarrow> child \<Rightarrow> int \<Rightarrow> proc_world \<Rightarrow> proc_world \<Rightarrow> bool" where
  "ended_by_itself n c status w w' \<longleftrightarrow>
     (\<exists>k \<le> n. pw_log w' = pw_log w @ replicate k (Polled c (Ok None)) @ [Polled c (Ok (Some status))])"

lemma terminate_never_ok:
  "terminate_after_timeout E g w \<noteq> (Ok out, g', w')" "terminate_after_observation_error E e g w \<noteq> (Ok out, g', w')"
  by (auto simp: terminate_after_timeout_def terminate_after_observation_error_def defer_child_def
      split: option.splits prod.splits cleanup_outcome.splits)

lemma completed_ok:
  assumes "completed E status g w = (Ok out, g', w')"
  shows "co_status out = status" "pw_log w' = pw_log w" "g_child g' = None"
  using assms
  by (auto simp: completed_def capture_output_def capture_diagnostics_def snapshot_def pass_def take_child_def
      split: prod.splits option.splits)

lemma log_simps:
  "clock_now E w = (t, w') \<Longrightarrow> pw_log w' = pw_log w" "pw_log (clock_sleep E d w) = pw_log w"
  "child_try_wait E c w = (r, w') \<Longrightarrow> pw_log w' = pw_log w @ [Polled c r]"
  by (auto simp: clock_now_def clock_sleep_def child_try_wait_def pass_def logged_def Let_def)

lemma wait_loop_ok:
  assumes "guard_wait_loop E g w = (Ok out, g', w')" and "g_child g = Some c"
  shows "ended_by_itself (intervals (g_deadline g - pw_time w)) c (co_status out) w w' \<and> g_child g' = None"
  using assms
proof (induction E g w rule: guard_wait_loop.induct)
  case (1 E g w)
  obtain r w1 where r: "child_try_wait E c w = (r, w1)" by fastforce
  obtain now w2 where now: "clock_now E w1 = (now, w2)" by fastforce
  obtain now' w3 where now': "clock_now E w2 = (now', w3)" by fastforce
  let ?w = "clock_sleep E (min (g_deadline g - now') POLL_INTERVAL) w3"
  note unfold = 1(2) [unfolded guard_wait_loop.simps [of E g w] 1(3) option.case r prod.case now now']
  consider status where "r = Ok (Some status)" | "r = Ok None" "now < g_deadline g"
    using unfold terminate_never_ok by (auto split: sum.splits option.splits if_splits)
  then show ?case
  proof cases
    case 1
    then have "completed E status g w1 = (Ok out, g', w')" using unfold by simp
    from completed_ok [OF this] log_simps(3) [OF r] 1 show ?thesis
      unfolding ended_by_itself_def by (auto intro: exI [of _ 0])
  next
    case 2
    then have run: "guard_wait_loop E g ?w = (Ok out, g', w')" using unfold by simp
    then have "ended_by_itself (intervals (g_deadline g - pw_time ?w)) c (co_status out) ?w w' \<and> g_child g' = None"
      using 1(1) [of c r w1 None now w2 now' w3] 1(3) r now now' 2 by simp
    moreover have "Suc (intervals (g_deadline g - pw_time ?w)) \<le> intervals (g_deadline g - pw_time w)"
      using intervals_step wait_round_time [OF r now 2(2) now'] by blast
    moreover have "pw_log ?w = pw_log w @ [Polled c (Ok None)]"
      using log_simps r now now' 2(1) by simp
    ultimately obtain k where "Suc k \<le> intervals (g_deadline g - pw_time w)" "g_child g' = None"
      "pw_log w' = pw_log w @ replicate (Suc k) (Polled c (Ok None)) @ [Polled c (Ok (Some (co_status out)))]"
      unfolding ended_by_itself_def by fastforce
    then show ?thesis unfolding ended_by_itself_def by blast
  qed
qed

lemma setup_calls_time: "setup_calls E ops w = (r, w') \<Longrightarrow> pw_time w \<le> pw_time w'"
proof (induction ops arbitrary: w)
  case (Cons op ops)
  have "pw_time w \<le> pw_time (snd (setup_call E op w))" by (simp add: setup_call_def pass_def)
  with Cons show ?case
    by (auto split: prod.splits sum.splits intro: order_trans)
qed simp

lemma spawn_deadline:
  assumes "guard_spawn E command timeout v = (Ok g, w)"
  shows "g_deadline g - pw_time w \<le> timeout" "g_timeout g = timeout"
  using assms
  by (auto simp: guard_spawn_def clock_now_def instant_add_def pass_def simp del: setup_calls.simps dest!: setup_calls_time
      split: prod.splits sum.splits option.splits if_splits)

lemma spawned_ends_by_itself:
  assumes "guard_spawn E command timeout v = (Ok g, w1)" and "guard_wait E g w1 = (Ok out, w2)"
  shows "\<exists>c. ended_by_itself (intervals timeout) c (co_status out) w1 w2"
proof -
  obtain c where c: "g_child g = Some c" using spawn_redactions [OF assms(1)] by blast
  obtain g' w' where run: "guard_wait_loop E g w1 = (Ok out, g', w')" "w2 = drop_child_guard E g' w'"
    using assms(2) by (auto simp: guard_wait_def consume_def split: prod.splits)
  from wait_loop_ok [OF run(1) c] have "ended_by_itself (intervals (g_deadline g - pw_time w1)) c (co_status out) w1 w2"
    using run(2) by (simp add: drop_child_guard_def)
  then show ?thesis
    using intervals_mono [OF spawn_deadline(1) [OF assms(1)]] order_trans unfolding ended_by_itself_def by blast
qed

text \<open>What the probe of a tool runs: the tool by its name with one argument, which finds the temporary
  directory as its home and no agent socket, password helper or display, whatever the tests inherit.\<close>

definition isolated_probe :: "client_tool \<Rightarrow> string \<Rightarrow> os_command \<Rightarrow> bool" where
  "isolated_probe t path c \<longleftrightarrow>
     oc_program c = tool_program t \<and> oc_args c = [probe_argument t] \<and> (\<forall>inherited. isolated_child inherited path c)"

text \<open>A run of a tool, isolated, with a limit of 15 seconds, that ended by itself within the 1500 polls of
  these seconds and whose output shows the marker; and an attempt to start it, as isolated, that did not
  find it.\<close>

definition identified :: "machine \<Rightarrow> client_tool \<Rightarrow> string \<Rightarrow> bool" where
  "identified machine t path \<longleftrightarrow> (\<exists>command v g w1 output w2 c.
     isolated_probe t path command \<and>
     guard_spawn (machine command) (guarded_command command) 15000000000 v = (Ok g, w1) \<and>
     guard_wait (machine command) g w1 = (Ok output, w2) \<and> ended_by_itself 1500 c (co_status output) w1 w2 \<and>
     str_contains (diagnostic_marker t) (map ascii_lower (to_string_lossy (str_of_bytes (co_stdout output @ co_stderr output)))))"

definition not_found :: "machine \<Rightarrow> client_tool \<Rightarrow> string \<Rightarrow> bool" where
  "not_found machine t path \<longleftrightarrow> (\<exists>command v w1 text secondary output.
     isolated_probe t path command \<and>
     guard_spawn (machine command) (guarded_command command) 15000000000 v =
       (Err (GuardIo ''spawn'' (IoErr IoNotFound text) secondary output), w1))"

lemma oc_program_simps [simp]:
  "oc_program (set_env k v c) = oc_program c" "oc_program (env_remove k c) = oc_program c"
  "oc_program (add_args args c) = oc_program c" "oc_program (new_command program) = program"
  by (simp_all add: set_env_def env_remove_def add_args_def new_command_def)

lemma probe_isolated:
  assumes "temp_home_new (Ok path) = Ok home"
  shows "isolated_probe t path (probe_command t home)"
proof -
  have home: "home = \<lparr>th_path = path, th_environment = [(''HOME'', path), (''USERPROFILE'', path)]\<rparr>"
    using assms by (simp add: temp_home_new_def)
  show ?thesis
    by (simp add: isolated_probe_def isolated_child_def probe_command_def isolate_command_def apply_to_def home)
qed

lemma probe_tool_ok:
  assumes "temp_home_new (Ok path) = Ok home" and "probe_tool machine t home w = (Ok (), w')"
  shows "identified machine t path"
proof -
  let ?c = "probe_command t home"
  obtain g w1 out where run: "guard_spawn (machine ?c) (guarded_command ?c) PROBE_DEADLINE w = (Ok g, w1)"
    "guard_wait (machine ?c) g w1 = (Ok out, w')"
    "str_contains (diagnostic_marker t) (map ascii_lower (to_string_lossy (str_of_bytes (co_stdout out @ co_stderr out))))"
    using assms(2) unfolding probe_tool_def Let_def by (auto split: prod.splits sum.splits if_splits)
  moreover have "intervals PROBE_DEADLINE = 1500" by (simp add: intervals_def PROBE_DEADLINE_def POLL_INTERVAL_def)
  ultimately show ?thesis
    unfolding identified_def
    using spawned_ends_by_itself [OF run(1,2)] probe_isolated [OF assms(1), of t] by (auto simp: PROBE_DEADLINE_def) blast
qed

lemma classify_missing:
  "classify_probe_error t e = MissingTool u \<longleftrightarrow> u = t \<and> (\<exists>text s out. e = GuardIo ''spawn'' (IoErr IoNotFound text) s out)"
  by (auto simp: classify_probe_error_def split: child_guard_error.splits io_err.splits)

lemma probe_tool_missing:
  assumes "temp_home_new (Ok path) = Ok home" and "probe_tool machine t home w = (Err (MissingTool u), w')"
  shows "u = t \<and> not_found machine t path"
  using assms(2) probe_isolated [OF assms(1), of t] unfolding probe_tool_def not_found_def Let_def
  by (auto simp: classify_missing PROBE_DEADLINE_def split: prod.splits sum.splits if_splits) blast

lemma probe_each_ok:
  assumes home: "temp_home_new (Ok path) = Ok home"
  shows "probe_each machine policy home ts w = (Ok b, w') \<Longrightarrow>
    (if b then \<forall>t \<in> set ts. identified machine t path
     else policy = ProbeOptionalLocal \<and> (\<exists>t \<in> set ts. not_found machine t path))"
proof (induction ts arbitrary: w)
  case (Cons t ts)
  obtain r w1 where run: "probe_tool machine t home w = (r, w1)" by (cases "probe_tool machine t home w")
  show ?case
  proof (cases r)
    case (Inr u)
    with Cons.prems Cons.IH [of w1] run probe_tool_ok [OF home, of machine t w w1] show ?thesis by (auto split: if_splits)
  next
    case (Inl f)
    with Cons.prems run show ?thesis
      by (cases f) (auto dest!: probe_tool_missing [OF home] split: if_splits)
  qed
qed auto

lemma from_values_optional:
  "from_values ci required = Ok ProbeOptionalLocal \<longleftrightarrow>
    (\<exists>v. required = Some v \<and> \<not> truthy v \<and> falsey v) \<and> (\<nexists>v. ci = Some v \<and> truthy v)"
  by (auto simp: from_values_def Let_def split: option.splits)

text \<open>C35. The gate for system OpenSSH clients cannot be passed or skipped by accident: it reports success
  only when \<open>ssh\<close> and every requested tool was run by its name in an environment that has the temporary
  directory as its home and no agent socket, password helper or display, whatever is inherited, ended by
  itself, unkilled, within its limit of 15 seconds (1500 polls of 10 milliseconds), and identified itself;
  and it reports a skip only outside continuous integration, with an explicit opt-out, when a tool started
  in such an environment was not found.\<close>

theorem openssh_gate:
  assumes "probe_openssh_tools_from_environment machine ci required directory requested w = (Ok b, w')"
  shows "\<exists>path. directory = Ok path \<and>
    (if b then list_all (\<lambda>t. identified machine t path) (ToolSsh # requested)
     else list_ex (\<lambda>t. not_found machine t path) (ToolSsh # requested) \<and>
       (\<exists>v. required = Some v \<and> falsey v) \<and> (case ci of None \<Rightarrow> True | Some v \<Rightarrow> \<not> truthy v))"
proof -
  obtain policy home where set: "from_values ci required = Ok policy" "temp_home_new directory = Ok home"
    and run: "probe_each machine policy home (sorted_list_of_set (insert ToolSsh (set requested))) w = (Ok b, w')"
    using assms unfolding probe_openssh_tools_from_environment_def by (auto split: sum.splits)
  obtain path where path: "directory = Ok path" using set(2) by (auto simp: temp_home_new_def)
  have tools: "set (sorted_list_of_set (insert ToolSsh (set requested))) = insert ToolSsh (set requested)"
    by (rule set_sorted_list_of_set) simp
  from probe_each_ok [OF set(2) [unfolded path] run, unfolded tools] set path from_values_optional [of ci required]
  show ?thesis
    by (cases b) (auto simp: list_all_iff list_ex_iff split: option.splits)
qed

text \<open>A system client is isolated. Whatever the tests inherit and whatever the command had set before, a
  client configured for the server and a probed tool find the temporary directory as their home and
  no agent socket, password helper or display; and the options that a client configured from scratch
  takes allow only the server's own known-hosts file, strict checking of host keys, the fixture's
  identity and no prompt. The temporary directory is redacted from the errors of a probe.\<close>

theorem openssh_client_isolated:
  assumes "temp_home_new (Ok path) = Ok (cs_home v)" and "to_string_lossy path \<noteq> []"
  shows "isolated_child inherited path (configure_openssh_command v tool c) \<and>
    isolated_child inherited path (probe_command t (cs_home v)) \<and>
    as_bytes (to_string_lossy path) \<in> set (command_redactions (guarded_command (probe_command t (cs_home v)))) \<and>
    map (\<lambda>key. ssh_option key (oc_args (configure_openssh_command v tool (new_command program))))
      [''StrictHostKeyChecking'', ''UserKnownHostsFile'', ''GlobalKnownHostsFile'', ''IdentityAgent'', ''IdentitiesOnly'', ''BatchMode'',
       ''PasswordAuthentication'', ''KbdInteractiveAuthentication'', ''PreferredAuthentications''] =
      map Some [''yes'', cs_known_hosts_path v, ''none'', ''none'', ''yes'', ''yes'', ''no'', ''no'', ''publickey'']"
proof (intro conjI)
  have home: "cs_home v = \<lparr>th_path = path, th_environment = [(''HOME'', path), (''USERPROFILE'', path)]\<rparr>"
    using assms(1) by (simp add: temp_home_new_def)
  show "isolated_child inherited path (configure_openssh_command v tool c)"
    by (simp add: isolated_child_def configure_openssh_command_def Let_def agent_configure_ssh_command_def apply_to_def home)
  show "isolated_child inherited path (probe_command t (cs_home v))"
    by (simp add: isolated_child_def probe_command_def isolate_command_def apply_to_def home)
  have "(''HOME'', Some path) \<in> set (pc_envs (guarded_command (probe_command t (cs_home v))))"
    by (simp add: guarded_command_def probe_command_def isolate_command_def apply_to_def home set_env_def env_remove_def
        add_args_def new_command_def)
  moreover have "sensitive_environment_name ''HOME''" by code_simp
  ultimately show "as_bytes (to_string_lossy path) \<in> set (command_redactions (guarded_command (probe_command t (cs_home v))))"
    using command_redactions_env assms(2) by blast
  show "map (\<lambda>key. ssh_option key (oc_args (configure_openssh_command v tool (new_command program))))
      [''StrictHostKeyChecking'', ''UserKnownHostsFile'', ''GlobalKnownHostsFile'', ''IdentityAgent'', ''IdentitiesOnly'', ''BatchMode'',
       ''PasswordAuthentication'', ''KbdInteractiveAuthentication'', ''PreferredAuthentications''] =
      map Some [''yes'', cs_known_hosts_path v, ''none'', ''none'', ''yes'', ''yes'', ''no'', ''no'', ''publickey'']"
    by (cases tool) (simp_all add: configure_openssh_command_def Let_def agent_configure_ssh_command_def)
qed

text \<open>The marker is never part of a shell program: it reaches the child through its environment only.\<close>

lemma marker_in_environment:
  "child_env inherited (platform_marker_command_with_delay marker d) ''RSSH_TEST_MARKER'' = Some marker"
  "oc_args (platform_marker_command_with_delay marker d) = oc_args (platform_marker_command_with_delay marker' d)"
  by (simp_all add: platform_marker_command_with_delay_def Let_def)

section \<open>Examples\<close>

text \<open>A system whose programs all print the version of OpenSSH to standard error and end.\<close>

definition ssh_machine :: machine where
  "ssh_machine _ = \<lparr>pe_kill = (\<lambda>_ _. Ok ()), pe_poll = (\<lambda>_ _. Ok (Some 0)),
     pe_capture = (\<lambda>_ err _ _. Ok (if err then as_bytes ''OpenSSH_9.6'' else [])), pe_setup = (\<lambda>_. Ok ()),
     pe_spawn = (\<lambda>_ _. Ok 7), pe_delay = (\<lambda>_. 1), pe_instant_max = 10 ^ 20\<rparr>"

definition probe_world :: proc_world where
  "probe_world = \<lparr>pw_time = 0, pw_calls = 0, pw_reaper = None, pw_pending = [], pw_log = []\<rparr>"

lemma ssh_marker:
  "str_contains ''openssh'' (map ascii_lower (to_string_lossy (str_of_bytes (as_bytes ''OpenSSH_9.6''))))"
  by code_simp

lemma ssh_probe:
  "\<exists>w'. probe_openssh_tools_from_environment ssh_machine (Some ''1'') None (Ok ''/tmp/home'') [] probe_world = (Ok True, w')"
proof -
  have policy: "from_values (Some ''1'') None = Ok ProbeRequired" by code_simp
  show ?thesis
    using ssh_marker
    by (simp add: probe_openssh_tools_from_environment_def policy temp_home_new_def probe_tool_def Let_def guard_spawn_def
      ssh_machine_def probe_world_def global_reaper_def initialize_reaper_def clock_now_def pass_def
      instant_add_def setup_call_def PROBE_DEADLINE_def guard_wait_def consume_def guard_wait_loop.simps
      child_try_wait_def completed_def capture_output_def capture_diagnostics_def snapshot_def read_bounded_def captured_def
      opt_or_def CAPTURE_LIMIT_def take_child_def logged_def as_bytes_def drop_child_guard_def)
qed

theorem openssh_gate_witness:
  "identified ssh_machine ToolSsh ''/tmp/home''"
proof -
  obtain w' where "probe_openssh_tools_from_environment ssh_machine (Some ''1'') None (Ok ''/tmp/home'') [] probe_world = (Ok True, w')"
    using ssh_probe by blast
  from openssh_gate [OF this] show ?thesis by auto
qed

definition sample_settings :: client_settings where
  "sample_settings = \<lparr>cs_home = \<lparr>th_path = ''/tmp/home'', th_environment = [(''HOME'', ''/tmp/home''), (''USERPROFILE'', ''/tmp/home'')]\<rparr>,
     cs_identity_path = ''/tmp/id'', cs_config_path = ''/tmp/config'', cs_known_hosts_path = ''/tmp/known_hosts'', cs_port = 2222\<rparr>"

theorem openssh_client_isolated_witness:
  "ssh_option ''StrictHostKeyChecking'' (oc_args (configure_openssh_command sample_settings ScpTool (new_command ''scp''))) = Some ''yes'' \<and>
   child_env (\<lambda>_. Some ''inherited'') (configure_openssh_command sample_settings ScpTool (new_command ''scp'')) ''SSH_AUTH_SOCK'' = None"
proof -
  have "temp_home_new (Ok ''/tmp/home'') = Ok (cs_home sample_settings)" by (simp add: temp_home_new_def sample_settings_def)
  moreover have "to_string_lossy ''/tmp/home'' \<noteq> []" by code_simp
  ultimately show ?thesis
    using openssh_client_isolated [of "''/tmp/home''" sample_settings "\<lambda>_. Some ''inherited''" ScpTool "new_command ''scp''" ToolSsh "''scp''"]
    by (simp add: isolated_child_def)
qed

end
