(* ===== verification/Startup_Plan.thy ===== *)
theory Startup_Plan
  imports Session_Config
begin

text \<open>
  The plans \<open>crates/rssh-ssh/src/russh_client.rs\<close> derives from a connection request before
  any network operation: the authentication plan (lines 156 to 185 and 298 to 334), the
  channel startup requests with the POSIX quoting of remote commands (336 to 410), the
  direct and remote forwarding plans (412 to 454 and 599 to 624) and the connect plan
  (659 to 705).
\<close>

section \<open>Authentication plan\<close>

datatype russh_auth_request =
    ReqPassword string
  | ReqPasswordPrompt
  | ReqPrivateKey path "string option"
  | ReqAgent

fun debug_auth_request :: "russh_auth_request \<Rightarrow> debug_value" where
  "debug_auth_request (ReqPassword _) =
     DebugStruct ''Password'' [(''password'', DebugText REDACTED_SECRET)]"
| "debug_auth_request ReqPasswordPrompt = DebugText ''PasswordPrompt''"
| "debug_auth_request (ReqPrivateKey p pass) =
     DebugStruct ''PrivateKey''
       [(''path'', DebugText p),
        (''passphrase'', debug_option DebugText (map_option (\<lambda>_. REDACTED_SECRET) pass))]"
| "debug_auth_request ReqAgent = DebugText ''Agent''"

record russh_auth_plan =
  auth_username :: string
  auth_request :: russh_auth_request

definition auth_plan_from_request :: "ssh_connect_request \<Rightarrow> russh_auth_plan" where
  "auth_plan_from_request r =
     (let ar = (case request_auth r of
                  Password p \<Rightarrow> ReqPassword p
                | PasswordPrompt \<Rightarrow> ReqPasswordPrompt
                | PrivateKey p pass \<Rightarrow> ReqPrivateKey p pass
                | Agent \<Rightarrow> ReqAgent)
      in \<lparr>auth_username = config_username (request_config r), auth_request = ar\<rparr>)"

section \<open>Channel startup requests\<close>

datatype russh_channel_startup_request =
    RequestPty string u32 u32 u32 u32
  | RequestShell
  | Exec string

record russh_channel_startup_plan =
  startup_requests :: "russh_channel_startup_request list"

text \<open>One argument in single quotes; a single quote inside is written
  \<open>'"'"'\<close> (close, a double-quoted quote, reopen).\<close>

definition quote_char :: "char \<Rightarrow> string" where
  "quote_char c = (if c = CHR 0x27 then [CHR 0x27, CHR 0x22, CHR 0x27, CHR 0x22, CHR 0x27] else [c])"

definition quote_argument :: "string \<Rightarrow> string" where
  "quote_argument a = [CHR 0x27] @ concat (map quote_char a) @ [CHR 0x27]"

definition encode_posix_remote_command :: "string list \<Rightarrow> string" where
  "encode_posix_remote_command arguments = str_join '' '' (map quote_argument arguments)"

definition startup_plan_from_open_plan :: "ssh_channel_open_plan \<Rightarrow> russh_channel_startup_plan" where
  "startup_plan_from_open_plan op =
     \<lparr>startup_requests =
        (case plan_pty_size op of
           Some sz \<Rightarrow>
             [RequestPty ''xterm-256color'' (ucast (columns sz)) (ucast (rows sz)) 0 0]
         | None \<Rightarrow> []) @
        (case plan_startup op of
           Shell \<Rightarrow> [RequestShell]
         | Command command \<Rightarrow> [Exec (encode_posix_remote_command command)]
         | NoShell \<Rightarrow> [])\<rparr>"

section \<open>Forwarding plans\<close>

record russh_direct_tcpip_open_plan =
  direct_target_host :: string
  direct_target_port :: u16
  direct_originator_host :: string
  direct_originator_port :: u16

definition direct_tcpip_plan_new ::
  "string \<Rightarrow> u16 \<Rightarrow> string \<Rightarrow> u16 \<Rightarrow> russh_direct_tcpip_open_plan" where
  "direct_tcpip_plan_new th tp oh op =
     \<lparr>direct_target_host = th, direct_target_port = tp,
      direct_originator_host = oh, direct_originator_port = op\<rparr>"

definition direct_target :: "russh_direct_tcpip_open_plan \<Rightarrow> string \<times> u16" where
  "direct_target p = (direct_target_host p, direct_target_port p)"

definition direct_originator :: "russh_direct_tcpip_open_plan \<Rightarrow> string \<times> u16" where
  "direct_originator p = (direct_originator_host p, direct_originator_port p)"

record russh_remote_tcpip_forward_plan =
  forward_bind_host :: string
  forward_bind_port :: u16
  forward_target_host :: string
  forward_target_port :: u16

definition remote_forward_plan_new ::
  "string \<Rightarrow> u16 \<Rightarrow> string \<Rightarrow> u16 \<Rightarrow> russh_remote_tcpip_forward_plan" where
  "remote_forward_plan_new bh bp th tp =
     \<lparr>forward_bind_host = bh, forward_bind_port = bp,
      forward_target_host = th, forward_target_port = tp\<rparr>"

definition remote_forward_bind :: "russh_remote_tcpip_forward_plan \<Rightarrow> string \<times> u16" where
  "remote_forward_bind p = (forward_bind_host p, forward_bind_port p)"

definition remote_forward_target :: "russh_remote_tcpip_forward_plan \<Rightarrow> string \<times> u16" where
  "remote_forward_target p = (forward_target_host p, forward_target_port p)"

section \<open>The connect plan\<close>

record russh_connect_plan =
  connect_host :: string
  connect_port :: u16
  connect_username :: string
  connect_auth_plan :: russh_auth_plan
  connect_channel_open_plan :: ssh_channel_open_plan

definition connect_plan_from_request :: "ssh_connect_request \<Rightarrow> russh_connect_plan" where
  "connect_plan_from_request r =
     \<lparr>connect_host = config_host (request_config r),
      connect_port = config_port (request_config r),
      connect_username = config_username (request_config r),
      connect_auth_plan = auth_plan_from_request r,
      connect_channel_open_plan = channel_open_plan_from_request r\<rparr>"

definition connect_socket_addr :: "russh_connect_plan \<Rightarrow> string \<times> u16" where
  "connect_socket_addr p = (connect_host p, connect_port p)"

definition channel_startup_plan :: "russh_connect_plan \<Rightarrow> russh_channel_startup_plan" where
  "channel_startup_plan p = startup_plan_from_open_plan (connect_channel_open_plan p)"

section \<open>Properties\<close>

lemma quote_char_quote [simp]:
  "quote_char (CHR 0x27) = [CHR 0x27, CHR 0x22, CHR 0x27, CHR 0x22, CHR 0x27]"
  by (simp add: quote_char_def)

lemma quote_char_other [simp]: "c \<noteq> CHR 0x27 \<Longrightarrow> quote_char c = [c]"
  by (simp add: quote_char_def)

text \<open>The derived \<open>Debug\<close> of the authentication plan redacts as the method's does.\<close>

lemma auth_plan_debug_redacted:
  "debug_auth_request (auth_request (auth_plan_from_request r)) = debug_auth_method (request_auth r)"
  by (simp add: auth_plan_from_request_def split: ssh_auth_method.splits)

text \<open>
  The startup requests of a connection are determined by its startup mode: a shell
  session asks for a PTY of exactly the configured size (no truncation when the 16-bit
  dimensions widen to 32 bits) and then for a shell, a command session for the same PTY and
  then for the one quoted command, and a no-shell session asks for nothing.
\<close>

theorem startup_requests_by_mode:
  "startup_requests (channel_startup_plan (connect_plan_from_request r)) =
     (let sz = config_initial_size (request_config r);
          pty = RequestPty ''xterm-256color''
                  (of_nat (unat (columns sz))) (of_nat (unat (rows sz))) 0 0
      in case request_startup r of
           Shell \<Rightarrow> [pty, RequestShell]
         | Command args \<Rightarrow> [pty, Exec (encode_posix_remote_command args)]
         | NoShell \<Rightarrow> [])"
  by (simp add: channel_startup_plan_def connect_plan_from_request_def Let_def
      startup_plan_from_open_plan_def channel_open_plan_from_request_def
      split: ssh_session_startup.splits)

end
