(* ===== verification/Known_Hosts.thy ===== *)
theory Known_Hosts
  imports Session_Config
begin

text \<open>
  The known-hosts store, \<open>crates/rssh-ssh/src/russh_client.rs\<close> lines 34 to 107 and 1757 to
  1777: recording a key, and the scan of the file for an endpoint. The files are part of an
  explicit file-system state whose calls can fail; \<open>russh\<close>'s own matching of a key against
  the file, the textual forms of a key and the key type itself are parameters.
\<close>

section \<open>Files\<close>

text \<open>The operating-system calls the store makes, one per call site; an entry of \<open>fs_fault\<close>
  makes the call fail with a message after writing the given number of bytes.\<close>

datatype fs_call =
    CreateDirAll | OpenAppend | SeekLastByte | ReadLastByte | SeekEnd
  | WriteNewline | WriteHost | WriteKey | WriteFinalNewline | ReadToString

record file_system =
  fs_file :: "path \<Rightarrow> string option"
  fs_fault :: "fs_call \<Rightarrow> path \<Rightarrow> (nat \<times> string) option"

text \<open>Errors of \<open>russh::keys\<close>, as far as the code tells them apart; each carries its text.\<close>

datatype russh_keys_error =
    KeyIsEncrypted (keys_error_text: string)
  | KeyChanged (keys_error_text: string)
  | KeysOther (keys_error_text: string)

definition file_contents :: "file_system \<Rightarrow> path \<Rightarrow> string" where
  "file_contents fs p = (case fs_file fs p of None \<Rightarrow> [] | Some c \<Rightarrow> c)"

definition fs_append :: "path \<Rightarrow> string \<Rightarrow> file_system \<Rightarrow> file_system" where
  "fs_append p s fs = fs\<lparr>fs_file := (fs_file fs)(p \<mapsto> file_contents fs p @ s)\<rparr>"

text \<open>\<open>write_all\<close> on a file opened for appending.\<close>

definition fs_write ::
  "fs_call \<Rightarrow> path \<Rightarrow> string \<Rightarrow> file_system \<Rightarrow> (unit, russh_keys_error) result \<times> file_system" where
  "fs_write call p s fs =
     (case fs_fault fs call p of
        None \<Rightarrow> (Ok (), fs_append p s fs)
      | Some (k, msg) \<Rightarrow> (Err (KeysOther msg), fs_append p (take k s) fs))"

text \<open>A call that writes nothing.\<close>

definition fs_call_ok ::
  "fs_call \<Rightarrow> path \<Rightarrow> file_system \<Rightarrow> (unit, russh_keys_error) result" where
  "fs_call_ok call p fs =
     (case fs_fault fs call p of None \<Rightarrow> Ok () | Some (k, msg) \<Rightarrow> Err (KeysOther msg))"

text \<open>\<open>std::fs::read_to_string\<close>: the file must exist and be valid UTF-8.\<close>

definition fs_read_to_string :: "path \<Rightarrow> file_system \<Rightarrow> string option" where
  "fs_read_to_string p fs =
     (case fs_fault fs ReadToString p of
        Some _ \<Rightarrow> None
      | None \<Rightarrow>
        (case fs_file fs p of
           None \<Rightarrow> None
         | Some c \<Rightarrow> if utf8_valid c then Some c else None))"

text \<open>\<open>Path::parent\<close> is \<open>None\<close> for the empty path and for the root.\<close>

definition path_has_parent :: "path \<Rightarrow> bool" where
  "path_has_parent p \<longleftrightarrow> \<not> list_all (\<lambda>c. c = CHR ''/'') p"

section \<open>Keys\<close>

text \<open>What the code uses of \<open>russh::keys\<close>.\<close>

record 'k russh_keys =
  key_algorithm :: "'k \<Rightarrow> string"
  key_fingerprint :: "'k \<Rightarrow> string"
  key_to_openssh :: "'k \<Rightarrow> (string, russh_keys_error) result"
  check_known_hosts_path ::
    "string \<Rightarrow> u16 \<Rightarrow> 'k \<Rightarrow> path \<Rightarrow> file_system \<Rightarrow> (bool, russh_keys_error) result"
  check_known_hosts ::
    "string \<Rightarrow> u16 \<Rightarrow> 'k \<Rightarrow> file_system \<Rightarrow> (bool, russh_keys_error) result"

section \<open>The store\<close>

record russh_known_hosts =
  known_hosts_file :: path

definition known_hosts_new :: "path \<Rightarrow> russh_known_hosts" where
  "known_hosts_new p = \<lparr>known_hosts_file = p\<rparr>"

definition known_hosts_matches ::
  "'k russh_keys \<Rightarrow> russh_known_hosts \<Rightarrow> string \<Rightarrow> u16 \<Rightarrow> 'k \<Rightarrow> file_system \<Rightarrow>
   (bool, russh_keys_error) result" where
  "known_hosts_matches K kh host port key fs =
     check_known_hosts_path K host port key (known_hosts_file kh) fs"

text \<open>The endpoint column of a line: the bare host on port 22, otherwise \<open>[host]:port\<close>.\<close>

definition endpoint_text :: "string \<Rightarrow> u16 \<Rightarrow> string" where
  "endpoint_text host port =
     (if port = 22 then host else ''['' @ host @ '']:'' @ show_nat (unat port))"

text \<open>Whether the file is non-empty and its last byte is not a line feed: the seek to the
  last byte fails on an empty file, which is then taken as not needing a newline.\<close>

definition last_byte_missing_newline ::
  "path \<Rightarrow> file_system \<Rightarrow> (bool, russh_keys_error) result" where
  "last_byte_missing_newline p fs =
     (if file_contents fs p \<noteq> [] \<and> is_ok (fs_call_ok SeekLastByte p fs)
      then and_then (fs_call_ok ReadLastByte p fs) (\<lambda>_. Ok (last (file_contents fs p) \<noteq> NL))
      else Ok False)"

definition open_append :: "path \<Rightarrow> file_system \<Rightarrow> file_system" where
  "open_append p fs = fs\<lparr>fs_file := (fs_file fs)(p \<mapsto> file_contents fs p)\<rparr>"

text \<open>Sequencing of calls that return a result and change the files.\<close>

definition fs_then ::
  "('a, 'e) result \<times> file_system \<Rightarrow> ('a \<Rightarrow> file_system \<Rightarrow> ('b, 'e) result \<times> file_system) \<Rightarrow>
   ('b, 'e) result \<times> file_system" where
  "fs_then r k = (case r of (Inl e, fs) \<Rightarrow> (Inl e, fs) | (Inr v, fs) \<Rightarrow> k v fs)"

definition known_hosts_learn ::
  "'k russh_keys \<Rightarrow> russh_known_hosts \<Rightarrow> string \<Rightarrow> u16 \<Rightarrow> 'k \<Rightarrow> file_system \<Rightarrow>
   (unit, russh_keys_error) result \<times> file_system" where
  "known_hosts_learn K kh host port key fs =
     (let p = known_hosts_file kh in
      fs_then (if path_has_parent p then fs_call_ok CreateDirAll p fs else Ok (), fs) (\<lambda>_ fs.
      fs_then (case fs_call_ok OpenAppend p fs of
                 Inl e \<Rightarrow> (Err e, fs) | Inr _ \<Rightarrow> (Ok (), open_append p fs)) (\<lambda>_ fs.
      fs_then (last_byte_missing_newline p fs, fs) (\<lambda>needs_newline fs.
      fs_then (fs_call_ok SeekEnd p fs, fs) (\<lambda>_ fs.
      fs_then (if needs_newline then fs_write WriteNewline p [NL] fs else (Ok (), fs)) (\<lambda>_ fs.
      fs_then (fs_write WriteHost p (endpoint_text host port @ '' '') fs) (\<lambda>_ fs.
      fs_then (key_to_openssh K key, fs) (\<lambda>text fs.
      fs_then (fs_write WriteKey p text fs) (\<lambda>_ fs.
      fs_write WriteFinalNewline p [NL] fs)))))))))"

definition line_lists_endpoint :: "string \<Rightarrow> u16 \<Rightarrow> string \<Rightarrow> bool" where
  "line_lists_endpoint host port hosts \<longleftrightarrow>
     list_ex (\<lambda>candidate. candidate = endpoint_text host port \<or>
        (port = 22 \<and> candidate = host) \<or>
        (port = 22 \<and> candidate = ''['' @ host @ '']:22'')) (split_on (CHR '','') hosts)"

definition known_hosts_contains_endpoint :: "path \<Rightarrow> string \<Rightarrow> u16 \<Rightarrow> file_system \<Rightarrow> bool" where
  "known_hosts_contains_endpoint p host port fs =
     (case fs_read_to_string p fs of
        None \<Rightarrow> False
      | Some contents \<Rightarrow>
          list_ex (line_lists_endpoint host port) (List.map_filter first_token (str_lines contents)))"

text \<open>One file grows at its end, every other file and the faults stay.\<close>

definition fs_extends :: "path \<Rightarrow> file_system \<Rightarrow> file_system \<Rightarrow> bool" where
  "fs_extends p fs fs' \<longleftrightarrow>
     (\<exists>s. file_contents fs' p = file_contents fs p @ s) \<and>
     (\<forall>q. q \<noteq> p \<longrightarrow> fs_file fs' q = fs_file fs q) \<and> fs_fault fs' = fs_fault fs"

section \<open>Facts\<close>

text \<open>The content of the store after a successful learn: the old content, completed to full
  lines, then one line for the endpoint.\<close>

definition complete_lines :: "string \<Rightarrow> string" where
  "complete_lines c = (if c \<noteq> [] \<and> last c \<noteq> NL then c @ [NL] else c)"

definition no_faults :: "file_system \<Rightarrow> path \<Rightarrow> bool" where
  "no_faults fs p \<longleftrightarrow> (\<forall>call. fs_fault fs call p = None)"

lemma fs_fault_append [simp]: "fs_fault (fs_append p s fs) = fs_fault fs"
  by (simp add: fs_append_def)

lemma fs_fault_open [simp]: "fs_fault (open_append p fs) = fs_fault fs"
  by (simp add: open_append_def)

lemma file_contents_append [simp]: "file_contents (fs_append p s fs) p = file_contents fs p @ s"
  by (simp add: fs_append_def file_contents_def)

lemma file_contents_open [simp]: "file_contents (open_append p fs) p = file_contents fs p"
  by (simp add: open_append_def file_contents_def)

lemma fs_file_append: "fs_file (fs_append p s fs) p = Some (file_contents fs p @ s)"
  by (simp add: fs_append_def)

lemma fs_file_append_other [simp]: "q \<noteq> p \<Longrightarrow> fs_file (fs_append p s fs) q = fs_file fs q"
  by (simp add: fs_append_def)

lemma fs_file_open_other [simp]: "q \<noteq> p \<Longrightarrow> fs_file (open_append p fs) q = fs_file fs q"
  by (simp add: open_append_def)

lemma complete_lines_last: "complete_lines c = [] \<or> last (complete_lines c) = NL"
  by (simp add: complete_lines_def)

lemmas learn_defs = known_hosts_learn_def fs_then_def fs_write_def fs_call_ok_def
  last_byte_missing_newline_def Let_def

lemma fs_extends_refl [intro, simp]: "fs_extends p fs fs"
  by (simp add: fs_extends_def)

lemma fs_extends_trans: "fs_extends p a b \<Longrightarrow> fs_extends p b c \<Longrightarrow> fs_extends p a c"
  by (auto simp: fs_extends_def)

lemma fs_extends_append: "fs_extends p fs (fs_append p s fs)"
  by (auto simp: fs_extends_def)

lemma fs_extends_open: "fs_extends p fs (open_append p fs)"
  by (auto simp: fs_extends_def)

lemma fs_extends_write: "fs_extends p fs (snd (fs_write call p s fs))"
  by (auto simp: fs_write_def fs_extends_append split: option.splits)

lemma fs_extends_then:
  assumes "fs_extends p fs (snd r)"
    and "\<And>v fs1. fs_extends p fs fs1 \<Longrightarrow> fs_extends p fs (snd (k v fs1))"
  shows "fs_extends p fs (snd (fs_then r k))"
  using assms by (cases r) (auto simp: fs_then_def split: sum.splits)

lemma fs_extends_write_after:
  "fs_extends p fs fs1 \<Longrightarrow> fs_extends p fs (snd (fs_write call p s fs1))"
  by (blast intro: fs_extends_trans fs_extends_write)

lemma fs_extends_open_after:
  "fs_extends p fs fs1 \<Longrightarrow> fs_extends p fs (open_append p fs1)"
  by (blast intro: fs_extends_trans fs_extends_open)

lemma learn_extends:
  "fs_extends (known_hosts_file kh) fs (snd (known_hosts_learn K kh host port key fs))"
  unfolding known_hosts_learn_def Let_def
  by (intro fs_extends_then)
    (auto intro: fs_extends_write_after fs_extends_open_after split: sum.splits)

text \<open>Without a fault the newline test is exact.\<close>

lemma last_byte_no_fault:
  "no_faults fs p \<Longrightarrow> last_byte_missing_newline p fs =
     Ok (file_contents fs p \<noteq> [] \<and> last (file_contents fs p) \<noteq> NL)"
  by (auto simp: last_byte_missing_newline_def no_faults_def fs_call_ok_def)

lemma learn_no_fault:
  assumes "no_faults fs (known_hosts_file kh)" and "key_to_openssh K key = Ok text"
  shows "fst (known_hosts_learn K kh host port key fs) = Ok () \<and>
    fs_file (snd (known_hosts_learn K kh host port key fs)) (known_hosts_file kh) =
      Some (complete_lines (file_contents fs (known_hosts_file kh)) @
            (endpoint_text host port @ '' '' @ text) @ [NL])"
proof -
  have nf: "no_faults (open_append (known_hosts_file kh) fs) (known_hosts_file kh)"
    using assms(1) by (simp add: no_faults_def)
  show ?thesis
    using assms
    by (simp add: known_hosts_learn_def fs_then_def Let_def fs_call_ok_def fs_write_def
        last_byte_no_fault [OF nf] no_faults_def complete_lines_def fs_file_append)
qed

text \<open>Endpoint texts made of printable characters are one token of one line.\<close>

definition endpoint_plain :: "string \<Rightarrow> bool" where
  "endpoint_plain host \<longleftrightarrow> host \<noteq> [] \<and> list_all printable host \<and> CHR '','' \<notin> set host"

text \<open>The textual form of a key: one line of valid text.\<close>

definition key_text_plain :: "string \<Rightarrow> bool" where
  "key_text_plain text \<longleftrightarrow> NL \<notin> set text \<and> CR \<notin> set text \<and> text \<noteq> [] \<and> utf8_valid text"

lemma show_nat_no_comma: "CHR '','' \<notin> set (show_nat n)"
proof (induction "10 :: nat" n rule: show_radix.induct)
  case (1 n)
  have nc: "CHR '','' \<noteq> digit_char d" if "d < 10" for d
  proof
    assume "CHR '','' = digit_char d"
    then have "digit_char d = CHR '',''" by simp
    then have "of_char (digit_char d) = (44 :: nat)" by simp
    with that show False by (simp add: digit_char_def)
  qed
  from 1 show ?case
    using nc [of n] nc [of "n mod 10"] by (cases "n < 10") (simp_all add: show_radix.simps [of 10 n])
qed

lemma endpoint_text_plain:
  assumes "endpoint_plain host"
  shows "list_all printable (endpoint_text host port) \<and> endpoint_text host port \<noteq> [] \<and>
    CHR '','' \<notin> set (endpoint_text host port)"
  using assms show_radix_printable [of 10 "unat port"] show_nat_no_comma [of "unat port"]
  by (auto simp: endpoint_text_def endpoint_plain_def printable_def list_all_iff)

lemma line_lists_own_endpoint:
  assumes "endpoint_plain host"
  shows "line_lists_endpoint host port (endpoint_text host port)"
  using endpoint_text_plain [OF assms, of port]
  by (simp add: line_lists_endpoint_def split_on_free)

text \<open>When no call fails, learning adds one full line, and the file stays readable text.\<close>

lemma learn_adds_line:
  fixes port :: u16
  assumes "no_faults fs (known_hosts_file kh)"
    and "key_to_openssh K key = Ok text" and "key_text_plain text"
    and "endpoint_plain host" and "utf8_valid (file_contents fs (known_hosts_file kh))"
  defines "fs' \<equiv> snd (known_hosts_learn K kh host port key fs)"
  shows "str_lines (file_contents fs' (known_hosts_file kh)) =
       str_lines (complete_lines (file_contents fs (known_hosts_file kh))) @
       [endpoint_text host port @ '' '' @ text]"
    and "fs_read_to_string (known_hosts_file kh) fs' = Some (file_contents fs' (known_hosts_file kh))"
proof -
  define p old where "p = known_hosts_file kh" and "old = complete_lines (file_contents fs p)"
  let ?line = "endpoint_text host port @ '' '' @ text"
  have ep: "list_all printable (endpoint_text host port)" "endpoint_text host port \<noteq> []"
    using endpoint_text_plain [OF assms(4)] by auto
  have stored: "fs_file fs' p = Some (old @ ?line @ [NL])"
    using learn_no_fault [OF assms(1,2), of host port] by (simp add: fs'_def p_def old_def)
  have free: "NL \<notin> set ?line"
    using ep(1) assms(3) by (auto simp: list_all_iff printable_def key_text_plain_def)
  have cr: "strip_cr ?line = ?line"
    using assms(3) by (auto simp: strip_cr_def last_append key_text_plain_def) (metis last_in_set)
  have "str_lines (old @ ?line @ [NL]) = str_lines old @ [?line]"
    using str_lines_append [OF _ free, of old] complete_lines_last [of "file_contents fs p"] cr
    by (simp add: old_def)
  then show "str_lines (file_contents fs' (known_hosts_file kh)) =
       str_lines (complete_lines (file_contents fs (known_hosts_file kh))) @ [?line]"
    using stored by (simp add: file_contents_def p_def old_def)
  have "utf8_valid old"
    using assms(5) by (auto simp: old_def p_def complete_lines_def utf8_valid_append
        utf8_valid_ascii byte_in_def)
  then have valid: "utf8_valid (old @ ?line @ [NL])"
    using utf8_valid_printable [OF ep(1)] assms(3)
    by (simp add: utf8_valid_append utf8_valid_ascii byte_in_def key_text_plain_def)
  have "fs_fault fs' = fs_fault fs"
    using learn_extends [of kh fs K host port key] by (simp add: fs_extends_def fs'_def)
  then show "fs_read_to_string (known_hosts_file kh) fs' = Some (file_contents fs' (known_hosts_file kh))"
    using assms(1) valid stored
    by (simp add: fs_read_to_string_def no_faults_def p_def file_contents_def)
qed

lemma learn_lists_endpoint:
  assumes "no_faults fs (known_hosts_file kh)"
    and "key_to_openssh K key = Ok text" and "key_text_plain text"
    and "endpoint_plain host" and "utf8_valid (file_contents fs (known_hosts_file kh))"
  shows "known_hosts_contains_endpoint (known_hosts_file kh) host port
    (snd (known_hosts_learn K kh host port key fs))"
proof -
  have ep: "list_all printable (endpoint_text host port)" "endpoint_text host port \<noteq> []"
    using endpoint_text_plain [OF assms(4)] by auto
  have "first_token (endpoint_text host port @ '' '' @ text) = Some (endpoint_text host port)"
    using first_token_printable [OF ep] by simp
  then show ?thesis
    using line_lists_own_endpoint [OF assms(4)] learn_adds_line [OF assms, of port]
    by (simp add: known_hosts_contains_endpoint_def map_filter_def)
qed

section \<open>A concrete store\<close>

text \<open>Two keys, 0 and 1; the file already lists another host, without a final newline. The
  key check knows key 1 only, and is literal: a line of the file is the endpoint, a blank and
  the key.\<close>

definition demo_keys :: "nat russh_keys" where
  "demo_keys =
     (let text = (\<lambda>k. if k = 1 then ''ssh-ed25519 AAAA'' else ''ssh-ed25519 BBBB'');
          listed = (\<lambda>host port k p fs. k = 1 \<and>
            (endpoint_text host port @ '' '' @ text k) \<in> set (str_lines (file_contents fs p)))
      in \<lparr>key_algorithm = \<lambda>k. ''ssh-ed25519'', key_fingerprint = \<lambda>k. ''SHA256:'' @ text k,
          key_to_openssh = \<lambda>k. Ok (text k),
          check_known_hosts_path = \<lambda>host port k p fs. Ok (listed host port k p fs),
          check_known_hosts = \<lambda>host port k fs. Ok (listed host port k ''default'' fs)\<rparr>)"

definition demo_files :: file_system where
  "demo_files = \<lparr>fs_file = [''kh'' \<mapsto> ''old ssh-rsa B''], fs_fault = \<lambda>c p. None\<rparr>"

lemma demo_files_ok:
  "no_faults demo_files (known_hosts_file (known_hosts_new p))"
  "utf8_valid (file_contents demo_files (known_hosts_file (known_hosts_new ''kh'')))"
proof -
  have "utf8_valid ''old ssh-rsa B''" by code_simp
  then show "utf8_valid (file_contents demo_files (known_hosts_file (known_hosts_new ''kh'')))"
    by (simp add: demo_files_def file_contents_def known_hosts_new_def)
qed (simp add: no_faults_def demo_files_def)

lemma demo_key_text: "key_to_openssh demo_keys 1 = Ok ''ssh-ed25519 AAAA''"
  by (simp add: demo_keys_def Let_def)

lemma demo_key_plain: "key_text_plain ''ssh-ed25519 AAAA''"
proof -
  have "utf8_valid ''ssh-ed25519 AAAA''" by code_simp
  then show ?thesis by (simp add: key_text_plain_def)
qed

lemma demo_host_plain: "endpoint_plain ''h.example''"
  by code_simp

section \<open>Properties\<close>

text \<open>
  C31. \<open>RusshKnownHosts::learn\<close> is append-only: whatever call fails on the way, and also when
  it succeeds, every byte the file held stays where it was, at most bytes are added at its
  end, and no other file changes.
\<close>

theorem learn_append_only:
  "let fs' = snd (known_hosts_learn K kh host port key fs) in
     (\<exists>added. file_contents fs' (known_hosts_file kh) =
        file_contents fs (known_hosts_file kh) @ added) \<and>
     (\<forall>q. q \<noteq> known_hosts_file kh \<longrightarrow> fs_file fs' q = fs_file fs q)"
  using learn_extends [of kh fs K host port key] by (auto simp: fs_extends_def Let_def)

theorem learn_append_only_witness:
  "let fs' = snd (known_hosts_learn demo_keys (known_hosts_new ''kh'') ''h.example'' 22 0 demo_files)
   in fs_file fs' ''other'' = fs_file demo_files ''other''"
  using learn_append_only [of demo_keys "known_hosts_new ''kh''" "''h.example''" 22 0 demo_files]
  by (simp add: Let_def known_hosts_new_def)

text \<open>
  C39. Learning a key records exactly one line: when no file operation fails, the file is valid
  UTF-8, the host is printable text without blanks and commas and the textual form of the key
  is one line of valid text, the lines of the file are its old lines (an unterminated last line
  is completed first) followed by one line holding the endpoint, a blank and the key, and the
  endpoint scan that guards against changed keys finds the endpoint.
\<close>

theorem learn_records_endpoint:
  assumes "no_faults fs (known_hosts_file kh)"
    and "key_to_openssh K key = Ok text" and "key_text_plain text"
    and "endpoint_plain host" and "utf8_valid (file_contents fs (known_hosts_file kh))"
  shows "let r = known_hosts_learn K kh host port key fs; fs' = snd r in
     fst r = Ok () \<and>
     str_lines (file_contents fs' (known_hosts_file kh)) =
       str_lines (complete_lines (file_contents fs (known_hosts_file kh))) @
       [endpoint_text host port @ '' '' @ text] \<and>
     known_hosts_contains_endpoint (known_hosts_file kh) host port fs'"
  using learn_no_fault [OF assms(1,2), of host port] learn_adds_line(1) [OF assms, of port]
    learn_lists_endpoint [OF assms, of port]
  by (simp add: Let_def)

theorem learn_records_endpoint_witness:
  "let r = known_hosts_learn demo_keys (known_hosts_new ''kh'') ''h.example'' 2222 1 demo_files
   in fst r = Ok () \<and>
      known_hosts_contains_endpoint ''kh'' ''h.example'' 2222 (snd r)"
  using learn_records_endpoint [of demo_files "known_hosts_new ''kh''" demo_keys 1
      "''ssh-ed25519 AAAA''" "''h.example''" 2222, OF demo_files_ok(1) demo_key_text
      demo_key_plain demo_host_plain demo_files_ok(2)]
  by (simp add: Let_def known_hosts_new_def)

end
