(* ===== verification/Forward_State.thy ===== *)
theory Forward_State
  imports Startup_Plan
begin

text \<open>
  The shared state of port forwarding, \<open>crates/rssh-ssh/src/russh_client.rs\<close> lines 455 to
  597, 626 to 657 and 1573 to 1598: cancellation handles and their waiting loop, deadlines,
  the counter of active child tasks, the resolved bind port of a remote forward and the
  validation of the port the server reports.
\<close>

section \<open>Cancellation handles\<close>

text \<open>
  \<open>RusshForwardCancellation\<close> and \<open>RusshConnectionCancellation\<close> have the same state: an
  atomic flag and a \<open>tokio::sync::Notify\<close>. The \<open>Notify\<close> object is a parameter: its state
  type \<open>'n\<close>, the registration that \<open>notified()\<close> makes, \<open>notify_waiters()\<close>, and whether
  the registered waiter has been woken.
\<close>

record 'n notify_ops =
  notified :: "'n \<Rightarrow> 'n"
  notify_waiters :: "'n \<Rightarrow> 'n"
  woken :: "'n \<Rightarrow> bool"

record 'n cancellation =
  cancelled_flag :: bool
  cancel_wake :: 'n

definition cancellation_new :: "'n \<Rightarrow> 'n cancellation" where
  "cancellation_new n = \<lparr>cancelled_flag = False, cancel_wake = n\<rparr>"

definition cancellation_cancel :: "'n notify_ops \<Rightarrow> 'n cancellation \<Rightarrow> 'n cancellation" where
  "cancellation_cancel N c =
     c\<lparr>cancelled_flag := True, cancel_wake := notify_waiters N (cancel_wake c)\<rparr>"

definition is_cancelled :: "'n cancellation \<Rightarrow> bool" where
  "is_cancelled c = cancelled_flag c"

text \<open>
  \<open>cancel()\<close> and \<open>cancelled().await\<close> run on different tasks, so their individual atomic
  operations interleave. The waiter is at the first flag test, at the registration, at the
  second flag test, suspended on the notification, or has returned; the canceller is before
  the store, between the store and \<open>notify_waiters\<close>, or done. The \<open>await\<close> of a
  notification that has been delivered resumes the loop at the first test.
\<close>

datatype waiter_pc = WFirstCheck | WRegister | WSecondCheck | WSuspended | WReturned
datatype canceller_pc = CBeforeStore | CBeforeNotify | CDone

record 'n cancel_sys =
  cs_state :: "'n cancellation"
  cs_waiter :: waiter_pc
  cs_canceller :: canceller_pc

definition cancel_init :: "'n \<Rightarrow> 'n cancel_sys" where
  "cancel_init n = \<lparr>cs_state = cancellation_new n, cs_waiter = WFirstCheck,
     cs_canceller = CBeforeStore\<rparr>"

inductive cancel_step :: "'n notify_ops \<Rightarrow> 'n cancel_sys \<Rightarrow> 'n cancel_sys \<Rightarrow> bool" for N where
  first_check:
    "cs_waiter s = WFirstCheck \<Longrightarrow>
     cancel_step N s (s\<lparr>cs_waiter := if is_cancelled (cs_state s) then WReturned else WRegister\<rparr>)"
| register:
    "cs_waiter s = WRegister \<Longrightarrow>
     cancel_step N s (s\<lparr>cs_waiter := WSecondCheck,
       cs_state := (cs_state s)\<lparr>cancel_wake := notified N (cancel_wake (cs_state s))\<rparr>\<rparr>)"
| second_check:
    "cs_waiter s = WSecondCheck \<Longrightarrow>
     cancel_step N s (s\<lparr>cs_waiter := if is_cancelled (cs_state s) then WReturned else WSuspended\<rparr>)"
| resume:
    "cs_waiter s = WSuspended \<Longrightarrow> woken N (cancel_wake (cs_state s)) \<Longrightarrow>
     cancel_step N s (s\<lparr>cs_waiter := WFirstCheck\<rparr>)"
| store:
    "cs_canceller s = CBeforeStore \<Longrightarrow>
     cancel_step N s (s\<lparr>cs_canceller := CBeforeNotify,
       cs_state := (cs_state s)\<lparr>cancelled_flag := True\<rparr>\<rparr>)"
| notify:
    "cs_canceller s = CBeforeNotify \<Longrightarrow>
     cancel_step N s (s\<lparr>cs_canceller := CDone,
       cs_state := (cs_state s)\<lparr>cancel_wake := notify_waiters N (cancel_wake (cs_state s))\<rparr>\<rparr>)"

inductive cancel_reachable :: "'n notify_ops \<Rightarrow> 'n \<Rightarrow> 'n cancel_sys \<Rightarrow> bool" for N n where
  start: "cancel_reachable N n (cancel_init n)"
| step: "cancel_reachable N n s \<Longrightarrow> cancel_step N s t \<Longrightarrow> cancel_reachable N n t"

section \<open>Deadlines and the task tracker\<close>

record forward_deadlines =
  deadline_startup :: duration
  deadline_shutdown :: duration

definition forward_deadlines_new :: "duration \<Rightarrow> duration \<Rightarrow> forward_deadlines" where
  "forward_deadlines_new startup shutdown =
     \<lparr>deadline_startup = startup, deadline_shutdown = shutdown\<rparr>"

definition secs :: "nat \<Rightarrow> duration" where
  "secs n = n * 1000000000"

definition millis :: "nat \<Rightarrow> duration" where
  "millis n = n * 1000000"

record 'n task_tracker =
  tracker_active :: u64
  tracker_changed :: 'n

definition tracker_default :: "'n \<Rightarrow> 'n task_tracker" where
  "tracker_default n = \<lparr>tracker_active = 0, tracker_changed = n\<rparr>"

text \<open>\<open>register\<close> returns a guard; dropping the guard is \<open>guard_drop\<close>.\<close>

definition tracker_register :: "'n task_tracker \<Rightarrow> 'n task_tracker" where
  "tracker_register t = t\<lparr>tracker_active := tracker_active t + 1\<rparr>"

definition guard_drop :: "'n notify_ops \<Rightarrow> 'n task_tracker \<Rightarrow> 'n task_tracker" where
  "guard_drop N t =
     (let old = tracker_active t; t' = t\<lparr>tracker_active := old - 1\<rparr> in
      if old = 1 then t'\<lparr>tracker_changed := notify_waiters N (tracker_changed t')\<rparr> else t')"

definition remote_forward_cleanup_required :: "bool \<Rightarrow> 'n task_tracker \<Rightarrow> bool" where
  "remote_forward_cleanup_required has_session_handle t \<longleftrightarrow>
     has_session_handle \<or> 0 < tracker_active t"

text \<open>
  \<open>wait_for_empty().await\<close> runs beside the tasks that register and drop their guards, and its
  loop has the shape of \<open>cancelled().await\<close>. A guard's \<open>drop\<close> is two atomic operations: the
  decrement and, when it was the last, the notification; \<open>ds_notifying\<close> counts the drops
  between the two. There are never as many guards as would overflow the counter, each of
  them holding an allocation.
\<close>

record 'n drain_sys =
  ds_tracker :: "'n task_tracker"
  ds_waiter :: waiter_pc
  ds_notifying :: nat

definition drain_init :: "'n task_tracker \<Rightarrow> 'n drain_sys" where
  "drain_init t = \<lparr>ds_tracker = t, ds_waiter = WFirstCheck, ds_notifying = 0\<rparr>"

inductive drain_step :: "'n notify_ops \<Rightarrow> 'n drain_sys \<Rightarrow> 'n drain_sys \<Rightarrow> bool" for N where
  drain_first:
    "ds_waiter s = WFirstCheck \<Longrightarrow>
     drain_step N s (s\<lparr>ds_waiter := if tracker_active (ds_tracker s) = 0 then WReturned else WRegister\<rparr>)"
| drain_register:
    "ds_waiter s = WRegister \<Longrightarrow>
     drain_step N s (s\<lparr>ds_waiter := WSecondCheck,
       ds_tracker := (ds_tracker s)\<lparr>tracker_changed := notified N (tracker_changed (ds_tracker s))\<rparr>\<rparr>)"
| drain_second:
    "ds_waiter s = WSecondCheck \<Longrightarrow>
     drain_step N s (s\<lparr>ds_waiter := if tracker_active (ds_tracker s) = 0 then WReturned else WSuspended\<rparr>)"
| drain_resume:
    "ds_waiter s = WSuspended \<Longrightarrow> woken N (tracker_changed (ds_tracker s)) \<Longrightarrow>
     drain_step N s (s\<lparr>ds_waiter := WFirstCheck\<rparr>)"
| task_start:
    "tracker_active (ds_tracker s) \<noteq> - 1 \<Longrightarrow>
     drain_step N s (s\<lparr>ds_tracker := tracker_register (ds_tracker s)\<rparr>)"
| task_end:
    "tracker_active (ds_tracker s) \<noteq> 0 \<Longrightarrow>
     drain_step N s (s\<lparr>ds_tracker := (ds_tracker s)\<lparr>tracker_active := tracker_active (ds_tracker s) - 1\<rparr>,
       ds_notifying := (if tracker_active (ds_tracker s) = 1 then Suc (ds_notifying s)
         else ds_notifying s)\<rparr>)"
| task_notify:
    "ds_notifying s = Suc n \<Longrightarrow>
     drain_step N s (s\<lparr>ds_notifying := n,
       ds_tracker := (ds_tracker s)\<lparr>tracker_changed := notify_waiters N (tracker_changed (ds_tracker s))\<rparr>\<rparr>)"

inductive drain_reachable :: "'n notify_ops \<Rightarrow> 'n task_tracker \<Rightarrow> 'n drain_sys \<Rightarrow> bool" for N t where
  drain_start: "drain_reachable N t (drain_init t)"
| drain_next: "drain_reachable N t s \<Longrightarrow> drain_step N s s' \<Longrightarrow> drain_reachable N t s'"

section \<open>The resolved bind port\<close>

record resolved_remote_forward =
  resolved_plan :: russh_remote_tcpip_forward_plan
  resolved_bind_port :: u16

definition resolved_new :: "russh_remote_tcpip_forward_plan \<Rightarrow> resolved_remote_forward" where
  "resolved_new plan = \<lparr>resolved_plan = plan, resolved_bind_port = forward_bind_port plan\<rparr>"

definition resolve_bind_port :: "u16 \<Rightarrow> resolved_remote_forward \<Rightarrow> resolved_remote_forward" where
  "resolve_bind_port p f = f\<lparr>resolved_bind_port := p\<rparr>"

definition matches_connected_endpoint :: "resolved_remote_forward \<Rightarrow> string \<Rightarrow> u32 \<Rightarrow> bool" where
  "matches_connected_endpoint f addr port \<longleftrightarrow>
     (let resolved = resolved_bind_port f; bind_host = forward_bind_host (resolved_plan f) in
      resolved \<noteq> 0 \<and>
      resolved = (case u16_try_from port of Some p \<Rightarrow> p | None \<Rightarrow> 0) \<and>
      (bind_host = addr \<or> bind_host = ''0.0.0.0'' \<or> bind_host = ''::''))"

definition resolved_target :: "resolved_remote_forward \<Rightarrow> string \<times> u16" where
  "resolved_target f = remote_forward_target (resolved_plan f)"

section \<open>Validation of the server's port\<close>

definition validated_remote_forward_bound_port :: "u32 \<Rightarrow> (u16, ssh_session_error) result" where
  "validated_remote_forward_bound_port p =
     (case u16_try_from p of
        None \<Rightarrow> Err (SshSessionError
          (''SSH remote TCP forwarding returned invalid port '' @ show_nat (unat p)))
      | Some q \<Rightarrow> if q = 0
          then Err (SshSessionError ''SSH remote TCP forwarding returned invalid port 0'')
          else Ok q)"

definition resolved_remote_forward_bound_port :: "u16 \<Rightarrow> u32 \<Rightarrow> (u16, ssh_session_error) result" where
  "resolved_remote_forward_bound_port requested returned =
     (if requested = 0 then validated_remote_forward_bound_port returned
      else if returned = 0 \<or> returned = ucast requested then Ok requested
      else validated_remote_forward_bound_port returned)"

text \<open>Documented behaviour of \<open>Notify\<close>, the assumption on it: \<open>notified()\<close> registers the
  waiter (\<open>registered\<close> says so of the state), and a later \<open>notify_waiters()\<close> wakes a
  registered waiter.\<close>

definition notify_wakes :: "'n notify_ops \<Rightarrow> ('n \<Rightarrow> bool) \<Rightarrow> bool" where
  "notify_wakes N registered \<longleftrightarrow>
     (\<forall>n. registered (notified N n)) \<and>
     (\<forall>n. registered n \<longrightarrow> woken N (notify_waiters N n))"

text \<open>The inductive invariant behind the absence of lost wake-ups: a waiter past its
  registration is registered as long as the notification is outstanding, and a suspended
  waiter has been woken once it is sent.\<close>

definition cancel_inv :: "'n notify_ops \<Rightarrow> ('n \<Rightarrow> bool) \<Rightarrow> 'n cancel_sys \<Rightarrow> bool" where
  "cancel_inv N registered s \<longleftrightarrow>
     (cancelled_flag (cs_state s) \<longleftrightarrow> cs_canceller s \<noteq> CBeforeStore) \<and>
     (cs_waiter s = WReturned \<longrightarrow> cancelled_flag (cs_state s)) \<and>
     (cs_waiter s \<in> {WSecondCheck, WSuspended} \<and> cs_canceller s \<noteq> CDone \<longrightarrow>
        registered (cancel_wake (cs_state s))) \<and>
     (cs_waiter s = WSuspended \<and> cs_canceller s = CDone \<longrightarrow> woken N (cancel_wake (cs_state s)))"

text \<open>How many of its own steps the waiter is from returning once the flag is set.\<close>

fun waiter_rank :: "waiter_pc \<Rightarrow> nat" where
  "waiter_rank WReturned = 0"
| "waiter_rank WFirstCheck = 1"
| "waiter_rank WSecondCheck = 1"
| "waiter_rank WRegister = 2"
| "waiter_rank WSuspended = 2"

section \<open>Facts\<close>

inductive_simps cancel_step_iff: "cancel_step N s t"

lemma cancel_inv_init: "cancel_inv N R (cancel_init n)"
  by (simp add: cancel_inv_def cancel_init_def cancellation_new_def)

lemma cancel_inv_step:
  assumes "cancel_step N s t" and "notify_wakes N R" and "cancel_inv N R s"
  shows "cancel_inv N R t"
  using assms
  by (induction rule: cancel_step.induct)
    (auto simp: cancel_inv_def notify_wakes_def is_cancelled_def)

lemma cancel_reachable_inv:
  assumes "notify_wakes N R" and "cancel_reachable N n s"
  shows "cancel_inv N R s"
  using assms(2)
  by (induction rule: cancel_reachable.induct)
    (auto intro: cancel_inv_init cancel_inv_step [OF _ assms(1)])

lemma cancel_done_step:
  assumes "cancel_inv N R s" and "cs_canceller s = CDone" and "cancel_step N s t"
  shows "waiter_rank (cs_waiter t) < waiter_rank (cs_waiter s) \<and> cs_canceller t = CDone"
  using assms by (auto simp: cancel_step_iff cancel_inv_def is_cancelled_def)

lemma cancel_done_progress:
  assumes "cancel_inv N R s" and "cs_canceller s = CDone" and "cs_waiter s \<noteq> WReturned"
  shows "\<exists>t. cancel_step N s t"
  using assms
  by (cases "cs_waiter s") (auto simp: cancel_inv_def intro: cancel_step.intros)

lemma validated_port_ok:
  "validated_remote_forward_bound_port p = Ok q \<longleftrightarrow> q \<noteq> 0 \<and> p = ucast q"
  by (auto simp: validated_remote_forward_bound_port_def u16_try_from_eq_Some
      split: option.splits if_splits)

lemma resolved_port_cases:
  "resolved_remote_forward_bound_port requested returned = Ok q \<longleftrightarrow>
     q \<noteq> 0 \<and> (returned = ucast q \<or> (returned = 0 \<and> q = requested))"
proof (cases "requested = 0")
  case True
  then show ?thesis
    by (auto simp: resolved_remote_forward_bound_port_def validated_port_ok)
next
  case False
  then show ?thesis
    by (auto simp: resolved_remote_forward_bound_port_def validated_port_ok)
qed

text \<open>The same for the drain loop: a suspended waiter has been woken, or is registered while a
  task is active or a notification outstanding. A wake-up once delivered is not lost to a
  further notification.\<close>

definition wakes_for_good :: "'n notify_ops \<Rightarrow> ('n \<Rightarrow> bool) \<Rightarrow> bool" where
  "wakes_for_good N registered \<longleftrightarrow>
     notify_wakes N registered \<and> (\<forall>n. woken N n \<longrightarrow> woken N (notify_waiters N n))"

definition drain_inv :: "'n notify_ops \<Rightarrow> ('n \<Rightarrow> bool) \<Rightarrow> 'n drain_sys \<Rightarrow> bool" where
  "drain_inv N registered s \<longleftrightarrow>
     (let n = tracker_changed (ds_tracker s) in
      (ds_waiter s = WSecondCheck \<longrightarrow> registered n \<or> woken N n) \<and>
      (ds_waiter s = WSuspended \<longrightarrow> woken N n \<or>
         (registered n \<and> (tracker_active (ds_tracker s) \<noteq> 0 \<or> 0 < ds_notifying s))))"

inductive_simps drain_step_iff: "drain_step N s t"

lemma word_inc_nonzero: "(x :: u64) \<noteq> - 1 \<Longrightarrow> x + 1 \<noteq> 0"
  by (metis add.inverse_unique add.commute)

lemma drain_inv_step:
  assumes "drain_step N s t" and "wakes_for_good N R" and "drain_inv N R s"
  shows "drain_inv N R t"
  using assms
  by (induction rule: drain_step.induct)
    (auto simp: drain_inv_def wakes_for_good_def notify_wakes_def Let_def tracker_register_def
      word_inc_nonzero)

lemma drain_inv_init: "drain_inv N R (drain_init t)"
  by (simp add: drain_inv_def drain_init_def Let_def)

lemma drain_reachable_inv:
  assumes "wakes_for_good N R" and "drain_reachable N t s"
  shows "drain_inv N R s"
  using assms(2)
  by (induction rule: drain_reachable.induct)
    (auto intro: drain_inv_init drain_inv_step [OF _ assms(1)])

lemma drain_quiet_progress:
  assumes "drain_inv N R s" and "tracker_active (ds_tracker s) = 0" and "ds_notifying s = 0"
    and "ds_waiter s \<noteq> WReturned"
  shows "\<exists>t. drain_step N s t \<and> waiter_rank (ds_waiter t) < waiter_rank (ds_waiter s) \<and>
    ds_tracker t = (if ds_waiter s = WRegister then (ds_tracker s)\<lparr>tracker_changed :=
      notified N (tracker_changed (ds_tracker s))\<rparr> else ds_tracker s) \<and> ds_notifying t = 0"
  using assms
  by (cases "ds_waiter s")
    (auto simp: drain_inv_def Let_def drain_step_iff intro!: exI)

lemma matches_iff:
  "matches_connected_endpoint f addr port \<longleftrightarrow>
     resolved_bind_port f \<noteq> 0 \<and> port = ucast (resolved_bind_port f) \<and>
     (forward_bind_host (resolved_plan f) \<in> {addr, ''0.0.0.0'', ''::''})"
proof (cases "u16_try_from port")
  case None
  then have "port \<noteq> ucast (resolved_bind_port f)"
    by (metis option.distinct(1) u16_try_from_eq_Some)
  with None show ?thesis by (auto simp: matches_connected_endpoint_def Let_def)
next
  case (Some p)
  then have "port = ucast (resolved_bind_port f) \<longleftrightarrow> resolved_bind_port f = p"
    by (metis option.inject u16_try_from_eq_Some)
  with Some show ?thesis by (auto simp: matches_connected_endpoint_def Let_def)
qed

section \<open>Properties\<close>

text \<open>
  C28. No lost wake-up in \<open>cancelled().await\<close>: once \<open>cancel()\<close> has completed, whatever the
  interleaving so far, the waiter is never stuck before it has returned, and every further
  step of the system brings it strictly closer to returning; and it never returns unless
  the flag was set. Assumed of \<open>tokio::sync::Notify\<close>: a registered waiter is woken by a
  later \<open>notify_waiters\<close>.
\<close>

theorem cancelled_no_lost_wakeup:
  assumes "notify_wakes N registered" and "cancel_reachable N n s"
  shows "(cs_waiter s = WReturned \<longrightarrow> is_cancelled (cs_state s)) \<and>
    (cs_canceller s = CDone \<longrightarrow>
       (cs_waiter s \<noteq> WReturned \<longrightarrow> (\<exists>t. cancel_step N s t)) \<and>
       (\<forall>t. cancel_step N s t \<longrightarrow>
          waiter_rank (cs_waiter t) < waiter_rank (cs_waiter s) \<and> cs_canceller t = CDone))"
proof -
  have inv: "cancel_inv N registered s" using assms by (rule cancel_reachable_inv)
  then have "cs_waiter s = WReturned \<longrightarrow> is_cancelled (cs_state s)"
    by (auto simp: cancel_inv_def is_cancelled_def)
  with inv show ?thesis
    using cancel_done_step cancel_done_progress by blast
qed

theorem cancelled_no_lost_wakeup_witness:
  "let N = \<lparr>notified = \<lambda>_. 1, notify_waiters = \<lambda>n. if n = 1 then 2 else n,
             woken = \<lambda>n. n = (2 :: nat)\<rparr>;
       s = \<lparr>cs_state = \<lparr>cancelled_flag = True, cancel_wake = 0\<rparr>, cs_waiter = WFirstCheck,
             cs_canceller = CDone\<rparr>
   in \<exists>t. cancel_step N s t"
proof -
  let ?N = "\<lparr>notified = \<lambda>_. 1, notify_waiters = \<lambda>n. if n = 1 then 2 else n,
     woken = \<lambda>n. n = (2 :: nat)\<rparr>"
  let ?s = "\<lparr>cs_state = \<lparr>cancelled_flag = True, cancel_wake = 0\<rparr>, cs_waiter = WFirstCheck,
     cs_canceller = CDone\<rparr>"
  let ?s1 = "\<lparr>cs_state = \<lparr>cancelled_flag = True, cancel_wake = 0\<rparr>, cs_waiter = WFirstCheck,
     cs_canceller = CBeforeNotify\<rparr>"
  have "cancel_step ?N (cancel_init 0) ?s1"
    using cancel_step.store [of "cancel_init 0" ?N] by (simp add: cancel_init_def cancellation_new_def)
  moreover have "cancel_step ?N ?s1 ?s"
    using cancel_step.notify [of ?s1 ?N] by simp
  ultimately have "cancel_reachable ?N 0 ?s"
    by (meson cancel_reachable.intros)
  then show ?thesis
    using cancelled_no_lost_wakeup [of ?N "\<lambda>n. n = 1" 0 ?s] by (simp add: notify_wakes_def)
qed

text \<open>
  The bound port of a remote forward is never 0: the resolution of the server's answer
  either fails or returns the requested port (when the server omits or repeats it) or the
  allocated port, unchanged and in range.
\<close>

theorem resolved_bound_port_ok:
  "resolved_remote_forward_bound_port requested returned = Ok q \<longleftrightarrow>
     q \<noteq> 0 \<and> (returned = ucast q \<or> (returned = 0 \<and> q = requested))"
  by (rule resolved_port_cases)

text \<open>
  A forwarded connection is matched only against the exact resolved port: a forward
  whose port is still pending (0) matches nothing, and a 32-bit port that does not fit in
  16 bits never matches by truncation.
\<close>

theorem matches_endpoint_exact:
  "matches_connected_endpoint f addr port \<longleftrightarrow>
     resolved_bind_port f \<noteq> 0 \<and> port = ucast (resolved_bind_port f) \<and>
     (forward_bind_host (resolved_plan f) \<in> {addr, ''0.0.0.0'', ''::''})"
  by (rule matches_iff)

text \<open>
  Waiting for the child tasks of a remote forward loses no wake-up: the wait returns only
  at a moment when no task is active, and when the last task has dropped its guard and
  notified, the waiter can always take a step of its own that brings it closer to returning,
  whatever the interleaving so far.
\<close>

theorem drain_no_lost_wakeup:
  assumes "wakes_for_good N registered" and "drain_reachable N t s"
  shows "(\<forall>s'. drain_step N s s' \<longrightarrow> ds_waiter s \<noteq> WReturned \<longrightarrow> ds_waiter s' = WReturned \<longrightarrow>
      tracker_active (ds_tracker s') = 0) \<and>
    (tracker_active (ds_tracker s) = 0 \<and> ds_notifying s = 0 \<and> ds_waiter s \<noteq> WReturned \<longrightarrow>
      (\<exists>s'. drain_step N s s' \<and> waiter_rank (ds_waiter s') < waiter_rank (ds_waiter s) \<and>
        tracker_active (ds_tracker s') = 0 \<and> ds_notifying s' = 0))"
proof -
  have inv: "drain_inv N registered s" using assms by (rule drain_reachable_inv)
  have "\<forall>s'. drain_step N s s' \<longrightarrow> ds_waiter s \<noteq> WReturned \<longrightarrow> ds_waiter s' = WReturned \<longrightarrow>
      tracker_active (ds_tracker s') = 0"
    by (auto simp: drain_step_iff split: if_splits)
  with drain_quiet_progress [OF inv] show ?thesis by (fastforce split: if_splits)
qed

theorem drain_no_lost_wakeup_witness:
  "let N = \<lparr>notified = \<lambda>_. 1, notify_waiters = \<lambda>n. if n = 1 then 2 else n,
             woken = \<lambda>n. n = (2 :: nat)\<rparr>;
       s = \<lparr>ds_tracker = \<lparr>tracker_active = 0, tracker_changed = 0\<rparr>, ds_waiter = WRegister,
             ds_notifying = 0\<rparr>
   in \<exists>s'. drain_step N s s' \<and> waiter_rank (ds_waiter s') < waiter_rank (ds_waiter s) \<and>
        tracker_active (ds_tracker s') = 0 \<and> ds_notifying s' = 0"
proof -
  let ?N = "\<lparr>notified = \<lambda>_. 1, notify_waiters = \<lambda>n. if n = 1 then 2 else n,
     woken = \<lambda>n. n = (2 :: nat)\<rparr>"
  let ?sys = "\<lambda>active pc k. \<lparr>ds_tracker = \<lparr>tracker_active = active, tracker_changed = 0\<rparr>,
     ds_waiter = pc, ds_notifying = k\<rparr> :: nat drain_sys"
  let ?t = "\<lparr>tracker_active = 1, tracker_changed = 0\<rparr> :: nat task_tracker"
  have "drain_step ?N (drain_init ?t) (?sys 1 WRegister 0)"
    using drain_step.drain_first [of "drain_init ?t" ?N] by (simp add: drain_init_def)
  moreover have "drain_step ?N (?sys 1 WRegister 0) (?sys 0 WRegister 1)"
    using drain_step.task_end [of "?sys 1 WRegister 0" ?N] by simp
  moreover have "drain_step ?N (?sys 0 WRegister 1) (?sys 0 WRegister 0)"
    using drain_step.task_notify [of "?sys 0 WRegister 1" 0 ?N] by simp
  ultimately have "drain_reachable ?N ?t (?sys 0 WRegister 0)"
    by (meson drain_reachable.intros)
  then show ?thesis
    using drain_no_lost_wakeup [of ?N "\<lambda>n. n = 1" ?t "?sys 0 WRegister 0"]
    by (simp add: wakes_for_good_def notify_wakes_def)
qed

end
