(* ===== verification/Client_Handler.thy ===== *)
theory Client_Handler
  imports Known_Hosts Forward_State
begin

text \<open>
  The host-key decision of the client handler, \<open>crates/rssh-ssh/src/russh_client.rs\<close> lines
  24 to 32 and 1744 to 1886: the policies, the handler's state, the classification of a
  server key against the known-hosts store and \<open>check_server_key\<close>, which decides whether
  the handshake goes on. A call returns the answer, the challenges it showed to the
  verifier and the files it left behind.
\<close>

section \<open>Policy and handler\<close>

datatype russh_host_key_policy = RejectUnknown | Prompt | TrustOnFirstUse | AcceptUnknown

record 'n russh_client_handler =
  handler_policy :: russh_host_key_policy
  handler_host :: "string option"
  handler_port :: "u16 option"
  handler_known_hosts_path :: "path option"
  handler_verifier :: "host_key_verifier option"
  handler_remote_forwards :: "resolved_remote_forward list"
  handler_forward_cancellation :: "'n cancellation option"
  handler_forward_task_tracker :: "'n task_tracker option"
  handler_forward_deadlines :: "forward_deadlines option"

definition accepts_unknown_host_keys :: "'n russh_client_handler \<Rightarrow> bool" where
  "accepts_unknown_host_keys h \<longleftrightarrow> handler_policy h = AcceptUnknown"

text \<open>Errors of \<open>russh\<close>: the one the code tells apart, a wrapped key error, and the rest
  with their text.\<close>

datatype russh_error =
    RusshDisconnect
  | RusshKeys russh_keys_error
  | RusshOther string

section \<open>The server key\<close>

text \<open>The classification, \<open>None\<close> when the store could not be read (the key is then refused),
  with the store to write to, when one is configured.\<close>

definition server_key_status ::
  "'k russh_keys \<Rightarrow> path option \<Rightarrow> string \<Rightarrow> u16 \<Rightarrow> 'k \<Rightarrow> file_system \<Rightarrow>
   (host_key_status \<times> russh_known_hosts option) option" where
  "server_key_status K known_hosts_path host port key fs =
     (case known_hosts_path of
        Some p \<Rightarrow>
          (let kh = known_hosts_new p in
           case known_hosts_matches K kh host port key fs of
             Inr True \<Rightarrow> Some (Known, Some kh)
           | Inr False \<Rightarrow>
               Some (if known_hosts_contains_endpoint p host port fs then Changed else Unknown,
                     Some kh)
           | Inl (KeyChanged _) \<Rightarrow> Some (Changed, Some kh)
           | Inl _ \<Rightarrow> None)
      | None \<Rightarrow>
          (case check_known_hosts K host port key fs of
             Inr True \<Rightarrow> Some (Known, None)
           | Inr False \<Rightarrow> Some (Unknown, None)
           | Inl (KeyChanged _) \<Rightarrow> Some (Changed, None)
           | Inl _ \<Rightarrow> None))"

definition server_key_challenge ::
  "'k russh_keys \<Rightarrow> path option \<Rightarrow> string \<Rightarrow> u16 \<Rightarrow> 'k \<Rightarrow> host_key_status \<Rightarrow> host_key_challenge" where
  "server_key_challenge K known_hosts_path host port key status =
     (let c = host_key_challenge_new host port (key_algorithm K key) (key_fingerprint K key) status
      in case known_hosts_path of
           Some p \<Rightarrow> challenge_with_known_hosts_path p c
         | None \<Rightarrow> c)"

text \<open>\<open>known_hosts.learn(..).map_err(russh::Error::from)?; Ok(true)\<close>.\<close>

definition learn_and_accept ::
  "'k russh_keys \<Rightarrow> russh_known_hosts option \<Rightarrow> string \<Rightarrow> u16 \<Rightarrow> 'k \<Rightarrow> file_system \<Rightarrow>
   (bool, russh_error) result \<times> file_system" where
  "learn_and_accept K store host port key fs =
     (case store of
        None \<Rightarrow> (Ok False, fs)
      | Some kh \<Rightarrow>
          (case known_hosts_learn K kh host port key fs of
             (Inl e, fs') \<Rightarrow> (Err (RusshKeys e), fs')
           | (Inr _, fs') \<Rightarrow> (Ok True, fs')))"

type_synonym key_verdict = "(bool, russh_error) result \<times> host_key_challenge list \<times> file_system"

definition check_server_key ::
  "'k russh_keys \<Rightarrow> 'n russh_client_handler \<Rightarrow> 'k \<Rightarrow> file_system \<Rightarrow> key_verdict" where
  "check_server_key K h key fs =
     (case (handler_host h, handler_port h) of
        (Some host, Some port) \<Rightarrow>
          (case server_key_status K (handler_known_hosts_path h) host port key fs of
             None \<Rightarrow> (Ok False, [], fs)
           | Some (status, store) \<Rightarrow>
             (let challenge = server_key_challenge K (handler_known_hosts_path h) host port key status
              in
              if status = Known then (Ok True, [], fs)
              else if status = Changed then
                (if handler_policy h = Prompt \<and> handler_verifier h \<noteq> None
                 then (Ok False, [challenge], fs) else (Ok False, [], fs))
              else (case handler_policy h of
                 RejectUnknown \<Rightarrow> (Ok False, [], fs)
               | AcceptUnknown \<Rightarrow> (Ok True, [], fs)
               | TrustOnFirstUse \<Rightarrow>
                   (let (r, fs') = learn_and_accept K store host port key fs in (r, [], fs'))
               | Prompt \<Rightarrow>
                   (case handler_verifier h of
                      None \<Rightarrow> (Ok False, [], fs)
                    | Some verifier \<Rightarrow>
                        (let decision = verifier_verify verifier challenge in
                         if \<not> decision_accepts decision then (Ok False, [challenge], fs)
                         else if decision_stores decision
                         then (let (r, fs') = learn_and_accept K store host port key fs
                               in (r, [challenge], fs'))
                         else (Ok True, [challenge], fs))))))
      | _ \<Rightarrow> (Ok False, [], fs))"

text \<open>The three parts of a verdict.\<close>

definition verdict_answer :: "key_verdict \<Rightarrow> (bool, russh_error) result" where
  "verdict_answer v = fst v"

definition verdict_challenges :: "key_verdict \<Rightarrow> host_key_challenge list" where
  "verdict_challenges v = fst (snd v)"

definition verdict_files :: "key_verdict \<Rightarrow> file_system" where
  "verdict_files v = snd (snd v)"

section \<open>Facts\<close>

lemmas verdict_defs = verdict_answer_def verdict_challenges_def verdict_files_def

lemma verdict_simps [simp]:
  "verdict_answer (a, c, f) = a" "verdict_challenges (a, c, f) = c" "verdict_files (a, c, f) = f"
  by (simp_all add: verdict_defs)

text \<open>Whether an unknown key is accepted without storing it, and whether it is stored.\<close>

definition unknown_accepted_once :: "'n russh_client_handler \<Rightarrow> host_key_challenge \<Rightarrow> bool" where
  "unknown_accepted_once h c \<longleftrightarrow>
     handler_policy h = AcceptUnknown \<or>
     handler_policy h = Prompt \<and>
       (\<exists>v. handler_verifier h = Some v \<and> verifier_verify v c = AcceptOnce)"

definition unknown_stored :: "'n russh_client_handler \<Rightarrow> host_key_challenge \<Rightarrow> bool" where
  "unknown_stored h c \<longleftrightarrow>
     handler_policy h = TrustOnFirstUse \<or>
     handler_policy h = Prompt \<and>
       (\<exists>v. handler_verifier h = Some v \<and> verifier_verify v c = AcceptAndStore)"

lemma accepts_not_stores: "decision_accepts d \<and> \<not> decision_stores d \<longleftrightarrow> d = AcceptOnce"
  by (cases d) auto

lemma stores_iff [simp]: "decision_stores d \<longleftrightarrow> d = AcceptAndStore"
  by (cases d) auto

lemma accepts_iff: "decision_accepts d \<longleftrightarrow> d = AcceptOnce \<or> d = AcceptAndStore"
  by (cases d) auto

lemma not_accept_store: "\<not> decision_accepts d \<Longrightarrow> d \<noteq> AcceptOnce \<and> d \<noteq> AcceptAndStore"
  by (cases d) auto

lemma learn_and_accept_answer:
  "fst (learn_and_accept K store host port key fs) = Ok b \<longleftrightarrow>
     (b = (\<exists>kh. store = Some kh) \<and>
      (\<forall>kh. store = Some kh \<longrightarrow> fst (known_hosts_learn K kh host port key fs) = Ok ()))"
  by (cases store)
    (auto simp: learn_and_accept_def split: prod.splits sum.splits)

lemma learn_and_accept_files:
  "snd (learn_and_accept K store host port key fs) =
     (case store of None \<Rightarrow> fs | Some kh \<Rightarrow> snd (known_hosts_learn K kh host port key fs))"
  by (auto simp: learn_and_accept_def split: option.splits prod.splits sum.splits)

lemma server_key_challenge_eq:
  "server_key_challenge K kp host port key st =
     \<lparr>challenge_host = host, challenge_port = port, challenge_algorithm = key_algorithm K key,
      challenge_fingerprint = key_fingerprint K key, challenge_status = st,
      challenge_known_hosts_path = kp\<rparr>"
  by (cases kp) (simp_all add: server_key_challenge_def Let_def host_key_challenge_new_def
      challenge_with_known_hosts_path_def)

text \<open>The behaviour of \<open>check_server_key\<close> for each classification of the key.\<close>


lemma check_no_endpoint:
  "handler_host h = None \<or> handler_port h = None \<Longrightarrow> check_server_key K h key fs = (Ok False, [], fs)"
  by (auto simp: check_server_key_def split: option.splits)

lemma check_unreadable:
  assumes "handler_host h = Some host" and "handler_port h = Some port"
    and "server_key_status K (handler_known_hosts_path h) host port key fs = None"
  shows "check_server_key K h key fs = (Ok False, [], fs)"
  using assms by (simp add: check_server_key_def)

lemma check_known:
  assumes "handler_host h = Some host" and "handler_port h = Some port"
    and "server_key_status K (handler_known_hosts_path h) host port key fs = Some (Known, store)"
  shows "check_server_key K h key fs = (Ok True, [], fs)"
  using assms by (simp add: check_server_key_def)

lemma check_changed:
  assumes "handler_host h = Some host" and "handler_port h = Some port"
    and "server_key_status K (handler_known_hosts_path h) host port key fs = Some (Changed, store)"
  shows "verdict_answer (check_server_key K h key fs) = Ok False \<and>
    verdict_files (check_server_key K h key fs) = fs \<and>
    verdict_challenges (check_server_key K h key fs) =
      (if handler_policy h = Prompt \<and> handler_verifier h \<noteq> None
       then [server_key_challenge K (handler_known_hosts_path h) host port key Changed] else [])"
  using assms by (simp add: check_server_key_def Let_def)

lemma check_unknown:
  assumes "handler_host h = Some host" and "handler_port h = Some port"
    and "server_key_status K (handler_known_hosts_path h) host port key fs = Some (Unknown, store)"
  defines "c \<equiv> server_key_challenge K (handler_known_hosts_path h) host port key Unknown"
  shows "check_server_key K h key fs =
    (let (r, fs') = if unknown_stored h c then learn_and_accept K store host port key fs
                    else (Ok (unknown_accepted_once h c), fs)
     in (r, if handler_policy h = Prompt \<and> handler_verifier h \<noteq> None then [c] else [], fs'))"
  using assms
  by (cases "handler_policy h"; cases "handler_verifier h")
    (auto simp: check_server_key_def Let_def unknown_stored_def unknown_accepted_once_def
      accepts_iff split: prod.splits)

text \<open>The possible outcomes, as a case rule for the proofs below.\<close>

lemma check_cases:
  obtains (Refused) "check_server_key K h key fs = (Ok False, [], fs)"
      "\<And>host port. handler_host h = Some host \<Longrightarrow> handler_port h = Some port \<Longrightarrow>
         server_key_status K (handler_known_hosts_path h) host port key fs = None"
  | (Known) host port store where "handler_host h = Some host" "handler_port h = Some port"
      "server_key_status K (handler_known_hosts_path h) host port key fs = Some (Known, store)"
  | (Changed) host port store where "handler_host h = Some host" "handler_port h = Some port"
      "server_key_status K (handler_known_hosts_path h) host port key fs = Some (Changed, store)"
  | (Unknown) host port store where "handler_host h = Some host" "handler_port h = Some port"
      "server_key_status K (handler_known_hosts_path h) host port key fs = Some (Unknown, store)"
proof (cases "handler_host h = None \<or> handler_port h = None")
  case True
  then show ?thesis by (intro Refused check_no_endpoint) auto
next
  case False
  then obtain host port where hp: "handler_host h = Some host" "handler_port h = Some port" by auto
  show ?thesis
  proof (cases "server_key_status K (handler_known_hosts_path h) host port key fs")
    case None
    then show ?thesis using hp by (intro Refused check_unreadable) auto
  next
    case (Some x)
    then show ?thesis using that hp by (cases x; cases "fst x") auto
  qed
qed

lemma status_store:
  "server_key_status K kp host port key fs = Some (st, store) \<Longrightarrow> store = map_option known_hosts_new kp"
  by (auto simp: server_key_status_def Let_def split: option.splits sum.splits bool.splits
      russh_keys_error.splits)

text \<open>A key the store does not match while it lists the endpoint is refused.\<close>

lemma check_listed_mismatch:
  assumes "handler_host h = Some host" and "handler_port h = Some port"
    and "handler_known_hosts_path h = Some p"
    and "known_hosts_contains_endpoint p host port fs"
    and "check_known_hosts_path K host port key p fs \<noteq> Ok True"
  shows "verdict_answer (check_server_key K h key fs) = Ok False"
proof -
  have "server_key_status K (Some p) host port key fs \<in>
      {Some (Changed, Some (known_hosts_new p)), None}"
    using assms(4,5)
    by (auto simp: server_key_status_def known_hosts_matches_def known_hosts_new_def Let_def
        split: sum.splits bool.splits russh_keys_error.splits)
  then consider store where "server_key_status K (Some p) host port key fs = Some (Changed, store)"
    | "server_key_status K (Some p) host port key fs = None"
    by auto
  then show ?thesis
    using assms(1-3) check_changed [of h host port K key fs] check_unreadable [of h host port K key fs]
    by cases auto
qed

text \<open>A handler on the concrete store, for the instances below.\<close>

definition demo_handler ::
  "russh_host_key_policy \<Rightarrow> string \<Rightarrow> u16 \<Rightarrow> unit russh_client_handler" where
  "demo_handler policy host port =
     \<lparr>handler_policy = policy, handler_host = Some host, handler_port = Some port,
      handler_known_hosts_path = Some ''kh'', handler_verifier = None,
      handler_remote_forwards = [], handler_forward_cancellation = None,
      handler_forward_task_tracker = None, handler_forward_deadlines = None\<rparr>"

section \<open>Properties\<close>

text \<open>
  C23. \<open>check_server_key\<close> lets the handshake go on exactly when the handler knows its endpoint
  and the key is recorded for it, or the key is unknown there and either the policy accepts
  unknown keys (or the user accepted it once), or it was to be stored (trust on first use, or
  the user's accept-and-store) and the store was configured and written without error.
\<close>

theorem check_server_key_accepts_iff:
  "verdict_answer (check_server_key K h key fs) = Ok True \<longleftrightarrow>
   (\<exists>host port status store.
      handler_host h = Some host \<and> handler_port h = Some port \<and>
      server_key_status K (handler_known_hosts_path h) host port key fs = Some (status, store) \<and>
      (let c = server_key_challenge K (handler_known_hosts_path h) host port key status in
       status = Known \<or>
       status = Unknown \<and>
         (unknown_accepted_once h c \<or>
          unknown_stored h c \<and>
            (\<exists>kh. store = Some kh \<and> fst (known_hosts_learn K kh host port key fs) = Ok ()))))"
proof (cases rule: check_cases [of K h key fs])
  case Refused
  then show ?thesis by auto
next
  case (Known host port store)
  then show ?thesis using check_known [OF Known] by (auto simp: Let_def)
next
  case (Changed host port store)
  then show ?thesis using check_changed [OF Changed] by (auto simp: Let_def)
next
  case (Unknown host port store)
  have disj: "\<not> (unknown_stored h c \<and> unknown_accepted_once h c)" for c
    by (auto simp: unknown_stored_def unknown_accepted_once_def)
  have "verdict_answer (check_server_key K h key fs) = Ok True \<longleftrightarrow>
     (let c = server_key_challenge K (handler_known_hosts_path h) host port key Unknown in
      unknown_accepted_once h c \<or> unknown_stored h c \<and>
        (\<exists>kh. store = Some kh \<and> fst (known_hosts_learn K kh host port key fs) = Ok ()))"
    using disj learn_and_accept_answer [of K store host port key fs True]
    by (auto simp: check_unknown [OF Unknown] Let_def split: prod.splits if_splits)
  with Unknown show ?thesis by (simp add: Let_def)
qed

text \<open>
  C1. A changed key is never accepted: when \<open>russh\<close> reports the key as changed, or the
  known-hosts file lists the endpoint with another key, the answer is a refusal and no file
  is touched, under every policy and whatever the verifier would answer; the verifier is at
  most shown the challenge.
\<close>

theorem changed_key_never_accepted:
  assumes "handler_host h = Some host" and "handler_port h = Some port"
    and "handler_known_hosts_path h = Some p"
    and "(\<exists>t. check_known_hosts_path K host port key p fs = Err (KeyChanged t)) \<or>
         (check_known_hosts_path K host port key p fs = Ok False \<and>
          known_hosts_contains_endpoint p host port fs)"
  shows "let v = check_server_key K h key fs in
     verdict_answer v = Ok False \<and> verdict_files v = fs \<and>
     (\<forall>c \<in> set (verdict_challenges v). challenge_status c = Changed \<and> handler_policy h = Prompt)"
proof -
  have "server_key_status K (handler_known_hosts_path h) host port key fs =
      Some (Changed, Some (known_hosts_new p))"
    using assms(3,4)
    by (auto simp: server_key_status_def known_hosts_matches_def known_hosts_new_def Let_def)
  from check_changed [OF assms(1,2) this] show ?thesis
    by (auto simp: Let_def server_key_challenge_def challenge_with_known_hosts_path_def
        host_key_challenge_new_def split: option.splits)
qed

theorem changed_key_never_accepted_witness:
  "verdict_answer (check_server_key demo_keys (demo_handler AcceptUnknown ''old'' 22) 1 demo_files) =
     Ok False"
proof -
  have "known_hosts_contains_endpoint ''kh'' ''old'' 22 demo_files" by code_simp
  moreover have "check_known_hosts_path demo_keys ''old'' 22 1 ''kh'' demo_files = Ok False"
    by code_simp
  ultimately show ?thesis
    using changed_key_never_accepted [of "demo_handler AcceptUnknown ''old'' 22" "''old''" 22
        "''kh''" demo_keys 1 demo_files]
    by (simp add: Let_def demo_handler_def)
qed

text \<open>
  What the user sees and what is written: at most one challenge is shown per key, only
  under the prompt policy and never for a recorded key, and it names the handler's endpoint,
  the key's algorithm and fingerprint and the true status; the files change only when the key
  was unknown and was to be stored, and then only the configured store grows.
\<close>

theorem check_server_key_effects:
  "let v = check_server_key K h key fs in
   (verdict_challenges v = [] \<or>
    (\<exists>host port status store.
       handler_policy h = Prompt \<and> handler_verifier h \<noteq> None \<and>
       handler_host h = Some host \<and> handler_port h = Some port \<and>
       server_key_status K (handler_known_hosts_path h) host port key fs = Some (status, store) \<and>
       status \<noteq> Known \<and>
       verdict_challenges v = [\<lparr>challenge_host = host, challenge_port = port,
         challenge_algorithm = key_algorithm K key, challenge_fingerprint = key_fingerprint K key,
         challenge_status = status, challenge_known_hosts_path = handler_known_hosts_path h\<rparr>])) \<and>
   (verdict_files v = fs \<or>
    (\<exists>host port p.
       handler_host h = Some host \<and> handler_port h = Some port \<and>
       handler_known_hosts_path h = Some p \<and>
       server_key_status K (Some p) host port key fs = Some (Unknown, Some (known_hosts_new p)) \<and>
       unknown_stored h (server_key_challenge K (Some p) host port key Unknown) \<and>
       fs_extends p fs (verdict_files v)))"
proof (cases rule: check_cases [of K h key fs])
  case Refused
  then show ?thesis by simp
next
  case (Known host port store)
  then show ?thesis using check_known [OF Known] by simp
next
  case (Changed host port store)
  then show ?thesis
    using check_changed [OF Changed] by (simp add: Let_def server_key_challenge_eq)
next
  case (Unknown host port store)
  let ?c = "server_key_challenge K (handler_known_hosts_path h) host port key Unknown"
  have st: "store = map_option known_hosts_new (handler_known_hosts_path h)"
    using status_store [OF Unknown(3)] .
  have "verdict_files (check_server_key K h key fs) = fs \<or>
      (\<exists>p. handler_known_hosts_path h = Some p \<and> unknown_stored h ?c \<and>
        fs_extends p fs (verdict_files (check_server_key K h key fs)))"
    using learn_and_accept_files [of K store host port key fs]
      learn_extends [of "known_hosts_new p" fs K host port key for p]
    by (cases "handler_known_hosts_path h")
      (auto simp: check_unknown [OF Unknown] Let_def st known_hosts_new_def
        split: prod.splits if_splits)
  moreover have "verdict_challenges (check_server_key K h key fs) =
      (if handler_policy h = Prompt \<and> handler_verifier h \<noteq> None then [?c] else [])"
    by (simp add: check_unknown [OF Unknown] Let_def split: prod.splits)
  ultimately show ?thesis using Unknown st by (auto simp: Let_def server_key_challenge_eq)
qed

text \<open>
  C26. Trust on first use pins the endpoint: once an unknown key has been learned (no file
  operation failing), every later handler for the same endpoint and store refuses every key
  that \<open>russh\<close> does not match against the new file, under every policy, \<open>AcceptUnknown\<close>
  included.
\<close>

theorem first_use_pins_endpoint:
  fixes h :: "'n russh_client_handler"
  assumes "handler_policy h = TrustOnFirstUse"
    and "handler_host h = Some host" and "handler_port h = Some port"
    and "handler_known_hosts_path h = Some p"
    and "server_key_status K (Some p) host port key fs = Some (Unknown, Some (known_hosts_new p))"
    and "no_faults fs p" and "key_to_openssh K key = Ok text" and "key_text_plain text"
    and "endpoint_plain host" and "utf8_valid (file_contents fs p)"
  shows "let v = check_server_key K h key fs in
     verdict_answer v = Ok True \<and>
     (\<forall>(h' :: 'n russh_client_handler) key'. handler_host h' = Some host \<longrightarrow> handler_port h' = Some port \<longrightarrow>
        handler_known_hosts_path h' = Some p \<longrightarrow>
        check_known_hosts_path K host port key' p (verdict_files v) \<noteq> Ok True \<longrightarrow>
        verdict_answer (check_server_key K h' key' (verdict_files v)) = Ok False)"
proof -
  have nf: "no_faults fs (known_hosts_file (known_hosts_new p))"
    "utf8_valid (file_contents fs (known_hosts_file (known_hosts_new p)))"
    using assms(6,10) by (simp_all add: known_hosts_new_def)
  have stored: "unknown_stored h c" for c
    using assms(1) by (simp add: unknown_stored_def)
  have "server_key_status K (handler_known_hosts_path h) host port key fs =
      Some (Unknown, Some (known_hosts_new p))"
    using assms(4,5) by simp
  from check_unknown [OF assms(2,3) this]
  have "verdict_answer (check_server_key K h key fs) =
      fst (learn_and_accept K (Some (known_hosts_new p)) host port key fs)"
    and files: "verdict_files (check_server_key K h key fs) =
      snd (known_hosts_learn K (known_hosts_new p) host port key fs)"
    using stored learn_and_accept_files [of K "Some (known_hosts_new p)" host port key fs]
    by (simp_all add: Let_def split: prod.splits)
  then have "verdict_answer (check_server_key K h key fs) = Ok True"
    using learn_no_fault [OF nf(1) assms(7), of host port]
    by (simp add: learn_and_accept_answer)
  moreover have "known_hosts_contains_endpoint p host port (verdict_files (check_server_key K h key fs))"
    using learn_lists_endpoint [OF nf(1) assms(7-9) nf(2), of port]
    by (simp add: files known_hosts_new_def)
  ultimately show ?thesis
    using check_listed_mismatch by (metis (no_types))
qed

theorem first_use_pins_endpoint_witness:
  "let fs' = verdict_files (check_server_key demo_keys
               (demo_handler TrustOnFirstUse ''h.example'' 2222) 1 demo_files)
   in verdict_answer (check_server_key demo_keys
        (demo_handler AcceptUnknown ''h.example'' 2222) 0 fs') = Ok False"
proof -
  let ?h = "demo_handler TrustOnFirstUse ''h.example'' 2222"
  have "server_key_status demo_keys (Some ''kh'') ''h.example'' 2222 1 demo_files =
      Some (Unknown, Some (known_hosts_new ''kh''))"
    by code_simp
  moreover have "check_known_hosts_path demo_keys ''h.example'' 2222 0 ''kh''
      (verdict_files (check_server_key demo_keys ?h 1 demo_files)) = Ok False"
    by (simp add: demo_keys_def Let_def)
  ultimately show ?thesis
    using first_use_pins_endpoint [of ?h "''h.example''" 2222 "''kh''" demo_keys 1 demo_files
        "''ssh-ed25519 AAAA''"] demo_files_ok(1) [of "''kh''"] demo_files_ok(2)
      demo_key_text demo_key_plain demo_host_plain
    by (auto simp: Let_def known_hosts_new_def demo_handler_def)
qed

end
