(* ===== verification/Async_World.thy ===== *)
theory Async_World
  imports Client_Handler
begin

text \<open>
  Asynchronous code as functions on the world it runs in. An \<open>async\<close> block that is polled to
  its end returns a value; one that is abandoned, because the deadline of an enclosing
  \<open>tokio::time::timeout\<close> fired or the cancellation branch of an enclosing biased
  \<open>tokio::select!\<close> won, is dropped, and nothing after its current \<open>await\<close> runs.

  The world has the trace of everything the program asked of the outside, the files, the
  cancellation flag, and the environment's choice for each \<open>await\<close>: whether it completes or
  which enclosing timeout or select cuts it off. Every choice is allowed, so a theorem about
  all worlds holds for all timings. The \<open>russh\<close> client, the agent and the key files are the
  functions of a record, each of which may look at the whole world.
\<close>

section \<open>Worlds\<close>

datatype net_event =
    DidPhase ssh_connection_phase
  | DidPrompt secret_prompt
  | DidChallenge host_key_challenge
  | DidConnect string u16
  | DidAuthPassword string string
  | DidAuthPublicKey string
  | DidRsaHash
  | DidAgentConnect
  | DidAgentIdentities
  | DidAgentPublicKey string string
  | DidAgentCertificate string string
  | DidOpenSession
  | DidOpenDirect string u32 string u32
  | DidPty string u32 u32 u32 u32
  | DidShell
  | DidExec string
  | DidTcpipForward string u32
  | DidLocalSetup
  | DidReady
  | DidCopy
  | DidChannelShutdown
  | DidCancelForward string u32
  | DidDisconnect
  | DidWait
  | DidSessionTerminal
  | DidDrainTasks
  | DidTargetConnect string u16
  | DidChannelClose

record world =
  w_trace :: "net_event list"
  w_files :: file_system
  w_awaits :: nat
  w_depth :: nat
  w_cut :: "nat \<Rightarrow> nat option"
  w_cancelled :: bool

datatype 'a awaited = Ready 'a | Dropped nat

type_synonym 'a async = "world \<Rightarrow> 'a awaited \<times> world"

definition log_event :: "net_event \<Rightarrow> world \<Rightarrow> world" where
  "log_event e w = w\<lparr>w_trace := w_trace w @ [e]\<rparr>"

definition ret :: "'a \<Rightarrow> 'a async" where
  "ret a w = (Ready a, w)"

definition then_async :: "'a async \<Rightarrow> ('a \<Rightarrow> 'b async) \<Rightarrow> 'b async" where
  "then_async m k w =
     (case m w of (Ready a, w') \<Rightarrow> k a w' | (Dropped d, w') \<Rightarrow> (Dropped d, w'))"

text \<open>Something the program does without waiting.\<close>

definition emit :: "net_event \<Rightarrow> unit async" where
  "emit e w = (Ready (), log_event e w)"

text \<open>An \<open>await\<close> on the outside: the request is made, and its answer arrives unless an
  enclosing timeout or select, counted from the inside, cuts it off.\<close>

definition await :: "net_event \<Rightarrow> (world \<Rightarrow> 'a \<times> world) \<Rightarrow> 'a async" where
  "await e answer w =
     (let w1 = log_event e (w\<lparr>w_awaits := Suc (w_awaits w)\<rparr>); (a, w2) = answer w1 in
      case w_cut w (w_awaits w) of
        Some d \<Rightarrow> if d < w_depth w then (Dropped d, w2\<lparr>w_depth := w_depth w\<rparr>)
                  else (Ready a, w2\<lparr>w_depth := w_depth w\<rparr>)
      | None \<Rightarrow> (Ready a, w2\<lparr>w_depth := w_depth w\<rparr>))"

definition ask :: "net_event \<Rightarrow> (world \<Rightarrow> 'a) \<Rightarrow> 'a async" where
  "ask e answer = await e (\<lambda>w. (answer w, w))"

text \<open>What a boundary makes of its body: \<open>None\<close> when the boundary itself fired.\<close>

definition leave_boundary :: "world \<Rightarrow> 'a awaited \<times> world \<Rightarrow> 'a option awaited \<times> world" where
  "leave_boundary w r =
     (case r of
        (Ready a, w') \<Rightarrow> (Ready (Some a), w'\<lparr>w_depth := w_depth w\<rparr>)
      | (Dropped 0, w') \<Rightarrow> (Ready None, w'\<lparr>w_depth := w_depth w\<rparr>)
      | (Dropped (Suc d), w') \<Rightarrow> (Dropped d, w'\<lparr>w_depth := w_depth w\<rparr>))"

text \<open>\<open>tokio::time::timeout(..).await\<close>.\<close>

definition with_timeout :: "'a async \<Rightarrow> 'a option async" where
  "with_timeout m w = leave_boundary w (m (w\<lparr>w_depth := Suc (w_depth w)\<rparr>))"

text \<open>\<open>select! { biased; cancelled() => .., result = body => .. }\<close>: the flag is looked at before
  the body runs at all, and the cancellation branch wins only when the flag has been set.\<close>

definition or_cancelled :: "'a async \<Rightarrow> 'a option async" where
  "or_cancelled m w =
     (if w_cancelled w then (Ready None, w)
      else (case leave_boundary w (m (w\<lparr>w_depth := Suc (w_depth w)\<rparr>)) of
              (Ready None, w') \<Rightarrow> (Ready None, w'\<lparr>w_cancelled := True\<rparr>)
            | r \<Rightarrow> r))"

text \<open>\<open>runtime.block_on\<close>: there is no boundary around it.\<close>

definition block_on :: "'a async \<Rightarrow> world \<Rightarrow> ('a \<times> world) option" where
  "block_on m w =
     (case m (w\<lparr>w_depth := 0\<rparr>) of
        (Ready a, w') \<Rightarrow> Some (a, w'\<lparr>w_depth := w_depth w\<rparr>)
      | (Dropped _, _) \<Rightarrow> None)"

text \<open>The question-mark operator inside an \<open>async\<close> block.\<close>

definition then_ok ::
  "('a, 'e) result async \<Rightarrow> ('a \<Rightarrow> ('b, 'e) result async) \<Rightarrow> ('b, 'e) result async" where
  "then_ok m k = then_async m (\<lambda>r. case r of Inl e \<Rightarrow> ret (Err e) | Inr v \<Rightarrow> k v)"

definition map_async :: "('a \<Rightarrow> 'b) \<Rightarrow> 'a async \<Rightarrow> 'b async" where
  "map_async f m = then_async m (\<lambda>a. ret (f a))"

section \<open>Well-behaved blocks\<close>

text \<open>\<open>later w w'\<close>: \<open>w'\<close> came from \<open>w\<close> at the same depth, the flag was not cleared, and the trace
  only grew.\<close>

definition later :: "world \<Rightarrow> world \<Rightarrow> bool" where
  "later w w' \<longleftrightarrow> w_depth w' = w_depth w \<and> (w_cancelled w \<longrightarrow> w_cancelled w') \<and>
     (\<exists>es. w_trace w' = w_trace w @ es)"

text \<open>A block is only ever dropped by a boundary around it.\<close>

definition tame :: "'a async \<Rightarrow> bool" where
  "tame m \<longleftrightarrow> (\<forall>w r w'. m w = (r, w') \<longrightarrow> later w w' \<and> (\<forall>d. r = Dropped d \<longrightarrow> d < w_depth w))"

text \<open>An answer that leaves the bookkeeping of the world alone and only adds to its trace.\<close>

definition tame_answer :: "(world \<Rightarrow> 'a \<times> world) \<Rightarrow> bool" where
  "tame_answer f \<longleftrightarrow> (\<forall>w a w'. f w = (a, w') \<longrightarrow> later w w')"

named_theorems tame_intros \<open>which blocks are well behaved\<close>

lemma later_refl [simp, intro]: "later w w"
  by (simp add: later_def)

lemma later_trans [trans]: "later a b \<Longrightarrow> later b c \<Longrightarrow> later a c"
  by (auto simp: later_def)

lemma later_awaits [simp]: "later w (w'\<lparr>w_awaits := n\<rparr>) = later w w'"
  "later (w\<lparr>w_awaits := n\<rparr>) w' = later w w'"
  by (simp_all add: later_def)

lemma log_event_simps [simp]:
  "w_trace (log_event e w) = w_trace w @ [e]" "w_files (log_event e w) = w_files w"
  "w_awaits (log_event e w) = w_awaits w" "w_depth (log_event e w) = w_depth w"
  "w_cut (log_event e w) = w_cut w" "w_cancelled (log_event e w) = w_cancelled w"
  by (simp_all add: log_event_def)

lemma later_log [simp, intro]: "later w (log_event e w)"
  by (simp add: later_def)

lemma later_files [simp]: "later w (w'\<lparr>w_files := fs\<rparr>) = later w w'"
  by (simp add: later_def)

lemma tameD:
  assumes "tame m" and "m w = (r, w')"
  shows "later w w'" and "\<And>d. r = Dropped d \<Longrightarrow> d < w_depth w"
  using assms by (auto simp: tame_def)

lemma tame_ret [tame_intros]: "tame (ret a)"
  by (simp add: tame_def ret_def)

lemma tame_emit [tame_intros]: "tame (emit e)"
  by (simp add: tame_def emit_def)

lemma tame_then [tame_intros]:
  assumes "tame m" and "\<And>a. tame (k a)"
  shows "tame (then_async m k)"
  unfolding tame_def
proof (intro allI impI)
  fix w r w'
  assume run: "then_async m k w = (r, w')"
  obtain r1 w1 where m: "m w = (r1, w1)" by (metis surj_pair)
  note m' = tameD [OF assms(1) m]
  show "later w w' \<and> (\<forall>d. r = Dropped d \<longrightarrow> d < w_depth w)"
  proof (cases r1)
    case (Ready a)
    with run m have "k a w1 = (r, w')" by (simp add: then_async_def)
    from tameD [OF assms(2) this] m'(1) show ?thesis by (auto simp: later_def)
  next
    case (Dropped d)
    with run m m' show ?thesis by (auto simp: then_async_def)
  qed
qed

lemma tame_await [tame_intros]:
  assumes "tame_answer f"
  shows "tame (await e f)"
  unfolding tame_def
proof (intro allI impI)
  fix w r w'
  assume run: "await e f w = (r, w')"
  obtain a w2 where f: "f (log_event e (w\<lparr>w_awaits := Suc (w_awaits w)\<rparr>)) = (a, w2)"
    by (metis surj_pair)
  have "later (log_event e (w\<lparr>w_awaits := Suc (w_awaits w)\<rparr>)) w2"
    using assms f by (simp add: tame_answer_def)
  then have "later w w2" by (auto simp: later_def)
  with run f show "later w w' \<and> (\<forall>d. r = Dropped d \<longrightarrow> d < w_depth w)"
    by (auto simp: await_def Let_def later_def split: option.splits if_splits)
qed

lemma tame_ask [tame_intros]: "tame (ask e f)"
  unfolding ask_def by (rule tame_await) (simp add: tame_answer_def)

lemma tame_leave:
  assumes "tame m" and "leave_boundary w (m (w\<lparr>w_depth := Suc (w_depth w)\<rparr>)) = (r, w')"
  shows "later w w' \<and> (\<forall>d. r = Dropped d \<longrightarrow> d < w_depth w)"
proof -
  obtain r1 w1 where m: "m (w\<lparr>w_depth := Suc (w_depth w)\<rparr>) = (r1, w1)" by (metis surj_pair)
  from tameD [OF assms(1) m] assms(2) [unfolded m] show ?thesis
    by (auto simp: leave_boundary_def later_def split: awaited.splits nat.splits)
qed

lemma tame_timeout [tame_intros]: "tame m \<Longrightarrow> tame (with_timeout m)"
  using tame_leave [of m] by (auto simp: tame_def [of "with_timeout m"] with_timeout_def)

lemma tame_or_cancelled [tame_intros]:
  assumes "tame m"
  shows "tame (or_cancelled m)"
  unfolding tame_def
proof (intro allI impI)
  fix w r w'
  assume run: "or_cancelled m w = (r, w')"
  obtain r1 w1 where l: "leave_boundary w (m (w\<lparr>w_depth := Suc (w_depth w)\<rparr>)) = (r1, w1)"
    by (metis surj_pair)
  from tame_leave [OF assms l] run show "later w w' \<and> (\<forall>d. r = Dropped d \<longrightarrow> d < w_depth w)"
    unfolding or_cancelled_def l
    by (auto simp: later_def split: awaited.splits option.splits if_splits)
qed

lemma tame_then_ok [tame_intros]:
  "tame m \<Longrightarrow> (\<And>v. tame (k v)) \<Longrightarrow> tame (then_ok m k)"
  unfolding then_ok_def by (rule tame_then) (auto simp: tame_ret split: sum.splits)

lemma tame_map [tame_intros]: "tame m \<Longrightarrow> tame (map_async f m)"
  unfolding map_async_def by (intro tame_intros)

text \<open>A well-behaved block run by \<open>block_on\<close> returns.\<close>

lemma block_on_returns:
  assumes "tame m"
  obtains a w' where "block_on m w = Some (a, w')" "later w w'"
proof -
  obtain r w1 where m: "m (w\<lparr>w_depth := 0\<rparr>) = (r, w1)" by (metis surj_pair)
  note m' = tameD [OF assms m]
  show ?thesis
  proof (cases r)
    case (Ready a)
    with m m'(1) show ?thesis
      by (intro that [of a "w1\<lparr>w_depth := w_depth w\<rparr>"]) (simp_all add: block_on_def later_def)
  next
    case (Dropped d)
    with m'(2) show ?thesis by auto
  qed
qed

end
