(* ===== verification/Auth.thy ===== *)
theory Auth
  imports Startup_Plan Async_World Shell_Traits
begin

text \<open>
  Authentication, \<open>crates/rssh-ssh/src/russh_client.rs\<close> lines 109 to 154, 187 to 296 and 1600
  to 1742: loading private keys, the plan-driven choice of method with its secret prompts,
  the backend on a \<open>russh\<close> handle and the loop over the agent's identities. The handle, the
  agent, the key files' contents and the texts of errors are parameters.
\<close>

section \<open>The outside\<close>

datatype auth_result = AuthSuccess | AuthFailure "string list" bool

fun auth_success :: "auth_result \<Rightarrow> bool" where
  "auth_success AuthSuccess = True"
| "auth_success (AuthFailure _ _) = False"

text \<open>An identity of the agent, by its key or certificate.\<close>

datatype agent_identity = IdPublicKey string | IdCertificate string

record ('p, 'h, 'g) auth_env =
  error_text :: "russh_error \<Rightarrow> string"
  load_secret_key :: "path \<Rightarrow> string option \<Rightarrow> file_system \<Rightarrow> ('p, russh_keys_error) result"
  h_password :: "'h \<Rightarrow> string \<Rightarrow> string \<Rightarrow> world \<Rightarrow> (auth_result, russh_error) result"
  h_best_rsa_hash :: "'h \<Rightarrow> world \<Rightarrow> (string option option, russh_error) result"
  h_publickey :: "'h \<Rightarrow> string \<Rightarrow> 'p \<Rightarrow> string option \<Rightarrow> world \<Rightarrow> (auth_result, russh_error) result"
  agent_connect :: "world \<Rightarrow> ('g, russh_keys_error) result"
  agent_identities :: "'g \<Rightarrow> world \<Rightarrow> (agent_identity list, russh_keys_error) result"
  h_agent_sign :: "'h \<Rightarrow> 'g \<Rightarrow> string \<Rightarrow> agent_identity \<Rightarrow> string option \<Rightarrow> world \<Rightarrow>
    (auth_result, string) result"

section \<open>Private keys\<close>

record 'p russh_private_key_auth =
  auth_key :: 'p

definition private_key_load ::
  "('p, 'h, 'g) auth_env \<Rightarrow> path \<Rightarrow> string option \<Rightarrow> file_system \<Rightarrow>
   ('p russh_private_key_auth, russh_keys_error) result" where
  "private_key_load E p pass fs = map_ok (\<lambda>k. \<lparr>auth_key = k\<rparr>) (load_secret_key E p pass fs)"

definition needs_passphrase ::
  "('p, 'h, 'g) auth_env \<Rightarrow> path \<Rightarrow> file_system \<Rightarrow> (bool, russh_keys_error) result" where
  "needs_passphrase E p fs =
     (case private_key_load E p None fs of
        Inr _ \<Rightarrow> Ok False
      | Inl (KeyIsEncrypted _) \<Rightarrow> Ok True
      | Inl e \<Rightarrow> Err e)"

section \<open>The plan\<close>

datatype russh_auth_outcome = Authenticated

definition outcome_from_auth_result :: "auth_result \<Rightarrow> russh_auth_outcome io" where
  "outcome_from_auth_result r =
     (if auth_success r then Ok Authenticated
      else Err (SshSessionError ''SSH authentication failed''))"

record auth_backend =
  be_password :: "string \<Rightarrow> string \<Rightarrow> auth_result io async"
  be_private_key :: "string \<Rightarrow> path \<Rightarrow> string option \<Rightarrow> auth_result io async"
  be_agent :: "string \<Rightarrow> auth_result io async"

text \<open>A block that looks at the world it starts in.\<close>

definition with_world :: "(world \<Rightarrow> 'a async) \<Rightarrow> 'a async" where
  "with_world f w = f w w"

definition prompt_secret :: "secret_provider \<Rightarrow> secret_prompt \<Rightarrow> string option async" where
  "prompt_secret provider p = ask (DidPrompt p) (\<lambda>w. provider_prompt provider p)"

definition password_of_prompt ::
  "russh_auth_plan \<Rightarrow> secret_provider option \<Rightarrow> string io async" where
  "password_of_prompt plan provider =
     (case provider of
        None \<Rightarrow> ret (Err (SshSessionError ''SSH password prompt requires a secret provider''))
      | Some pr \<Rightarrow> map_async (ok_or (SshSessionError ''SSH password prompt was cancelled''))
          (prompt_secret pr (secret_prompt_password (auth_username plan))))"

definition passphrase_of_prompt ::
  "russh_auth_plan \<Rightarrow> secret_provider option \<Rightarrow> string io async" where
  "passphrase_of_prompt plan provider =
     (case provider of
        None \<Rightarrow> ret (Err (SshSessionError ''encrypted SSH private key requires a secret provider''))
      | Some pr \<Rightarrow> map_async (ok_or (SshSessionError ''SSH private-key passphrase prompt was cancelled''))
          (prompt_secret pr (secret_prompt_private_key_passphrase (auth_username plan))))"

text \<open>The passphrase that was prompted for, when there was a need to.\<close>

definition prompted_passphrase ::
  "('p, 'h, 'g) auth_env \<Rightarrow> russh_auth_plan \<Rightarrow> secret_provider option \<Rightarrow> path \<Rightarrow> string option \<Rightarrow>
   string option io async" where
  "prompted_passphrase E plan provider p passphrase = with_world (\<lambda>w.
     if passphrase \<noteq> None then ret (Ok None)
     else (case needs_passphrase E p (w_files w) of
        Inl e \<Rightarrow> ret (Err (SshSessionError
          (''SSH private-key inspection failed: '' @ keys_error_text e)))
      | Inr needed \<Rightarrow>
          if needed then map_async (map_ok Some) (passphrase_of_prompt plan provider)
          else ret (Ok None)))"

definition or_option :: "'a option \<Rightarrow> 'a option \<Rightarrow> 'a option" where
  "or_option a b = (case a of Some x \<Rightarrow> Some x | None \<Rightarrow> b)"

definition authenticate_auth_plan_with_backend ::
  "('p, 'h, 'g) auth_env \<Rightarrow> auth_backend \<Rightarrow> russh_auth_plan \<Rightarrow> secret_provider option \<Rightarrow>
   russh_auth_outcome io async" where
  "authenticate_auth_plan_with_backend E B plan provider =
     then_ok
       (case auth_request plan of
          ReqPassword password \<Rightarrow> be_password B (auth_username plan) password
        | ReqPasswordPrompt \<Rightarrow>
            then_ok (password_of_prompt plan provider) (be_password B (auth_username plan))
        | ReqPrivateKey p passphrase \<Rightarrow>
            then_ok (prompted_passphrase E plan provider p passphrase)
              (\<lambda>prompted. be_private_key B (auth_username plan) p (or_option prompted passphrase))
        | ReqAgent \<Rightarrow> be_agent B (auth_username plan))
       (\<lambda>r. ret (outcome_from_auth_result r))"

section \<open>The backend on a handle\<close>

definition named_error :: "string \<Rightarrow> ('e \<Rightarrow> string) \<Rightarrow> ('a, 'e) result \<Rightarrow> 'a io" where
  "named_error what text = map_err (\<lambda>e. SshSessionError (what @ text e))"

definition handle_password ::
  "('p, 'h, 'g) auth_env \<Rightarrow> 'h \<Rightarrow> string \<Rightarrow> string \<Rightarrow> auth_result io async" where
  "handle_password E h username password =
     map_async (named_error ''SSH password authentication failed: '' (error_text E))
       (ask (DidAuthPassword username password) (h_password E h username password))"

definition handle_rsa_hash :: "('p, 'h, 'g) auth_env \<Rightarrow> 'h \<Rightarrow> string \<Rightarrow> string option io async" where
  "handle_rsa_hash E h what =
     map_async (\<lambda>r. map_ok (\<lambda>x. Option.bind x (\<lambda>y. y)) (named_error what (error_text E) r))
       (ask DidRsaHash (h_best_rsa_hash E h))"

definition handle_private_key ::
  "('p, 'h, 'g) auth_env \<Rightarrow> 'h \<Rightarrow> string \<Rightarrow> path \<Rightarrow> string option \<Rightarrow> auth_result io async" where
  "handle_private_key E h username p passphrase = with_world (\<lambda>w.
     case private_key_load E p passphrase (w_files w) of
       Inl e \<Rightarrow> ret (Err (SshSessionError (''SSH private-key load failed: '' @ keys_error_text e)))
     | Inr key \<Rightarrow>
         then_ok (handle_rsa_hash E h ''SSH private-key algorithm negotiation failed: '')
           (\<lambda>rsa_hash.
             map_async (named_error ''SSH private-key authentication failed: '' (error_text E))
               (ask (DidAuthPublicKey username) (h_publickey E h username (auth_key key) rsa_hash))))"

fun agent_attempt :: "string \<Rightarrow> agent_identity \<Rightarrow> net_event" where
  "agent_attempt username (IdPublicKey k) = DidAgentPublicKey username k"
| "agent_attempt username (IdCertificate c) = DidAgentCertificate username c"

fun agent_loop ::
  "('p, 'h, 'g) auth_env \<Rightarrow> 'h \<Rightarrow> 'g \<Rightarrow> string \<Rightarrow> string option \<Rightarrow> agent_identity list \<Rightarrow>
   auth_result io async" where
  "agent_loop E h agent username rsa_hash [] = ret (Ok (AuthFailure [] False))"
| "agent_loop E h agent username rsa_hash (identity # identities) =
     then_ok (map_async (named_error ''SSH agent authentication failed: '' (\<lambda>e. e))
         (ask (agent_attempt username identity) (h_agent_sign E h agent username identity rsa_hash)))
       (\<lambda>result. if auth_success result then ret (Ok result)
                 else agent_loop E h agent username rsa_hash identities)"

definition authenticate_agent_with_client ::
  "('p, 'h, 'g) auth_env \<Rightarrow> 'h \<Rightarrow> string \<Rightarrow> 'g \<Rightarrow> auth_result io async" where
  "authenticate_agent_with_client E h username agent =
     then_ok (map_async (named_error ''SSH agent identity lookup failed: '' keys_error_text)
         (ask DidAgentIdentities (agent_identities E agent)))
       (\<lambda>identities.
         if identities = [] then ret (Err (SshSessionError ''SSH agent has no identities''))
         else then_ok (handle_rsa_hash E h ''SSH agent algorithm negotiation failed: '')
           (\<lambda>rsa_hash. agent_loop E h agent username rsa_hash identities))"

definition handle_agent :: "('p, 'h, 'g) auth_env \<Rightarrow> 'h \<Rightarrow> string \<Rightarrow> auth_result io async" where
  "handle_agent E h username =
     then_ok (map_async (named_error ''SSH agent connection failed: '' keys_error_text)
         (ask DidAgentConnect (agent_connect E)))
       (authenticate_agent_with_client E h username)"

definition handle_backend :: "('p, 'h, 'g) auth_env \<Rightarrow> 'h \<Rightarrow> auth_backend" where
  "handle_backend E h =
     \<lparr>be_password = handle_password E h, be_private_key = handle_private_key E h,
      be_agent = handle_agent E h\<rparr>"

section \<open>Facts\<close>

lemma tame_with_world [tame_intros]: "(\<And>w. tame (f w)) \<Longrightarrow> tame (with_world f)"
  unfolding tame_def with_world_def by blast

lemmas auth_defs = authenticate_auth_plan_with_backend_def password_of_prompt_def
  passphrase_of_prompt_def prompted_passphrase_def prompt_secret_def handle_backend_def
  handle_password_def handle_private_key_def handle_agent_def handle_rsa_hash_def
  authenticate_agent_with_client_def

lemma tame_agent_loop [tame_intros]: "tame (agent_loop E h agent username rsa_hash ids)"
  by (induction ids) (auto intro!: tame_intros)

lemma tame_authenticate [tame_intros]:
  "tame (authenticate_auth_plan_with_backend E (handle_backend E h) plan provider)"
  unfolding auth_defs
  by (auto intro!: tame_intros split: russh_auth_request.splits option.splits sum.splits)

text \<open>One question to the outside: its event is logged, the files stay, and the answer arrives
  unless the block is dropped.\<close>

lemma ask_cases:
  assumes "ask e f w = (r, w')"
  shows "w_trace w' = w_trace w @ [e]" and "w_files w' = w_files w"
    and "r = Ready (f w') \<or> (\<exists>d. r = Dropped d)"
  using assms
  by (auto simp: ask_def await_def Let_def log_event_def split: option.splits if_splits)

lemma then_async_elim:
  assumes "then_async m k w = (r, w')"
  obtains (Drop) d where "m w = (Dropped d, w')" "r = Dropped d"
  | (Go) a w1 where "m w = (Ready a, w1)" "k a w1 = (r, w')"
  using assms by (auto simp: then_async_def split: prod.splits awaited.splits)

lemma map_async_elim:
  assumes "map_async f m w = (r, w')"
  obtains (Drop) d where "m w = (Dropped d, w')" "r = Dropped d"
  | (Done) a where "m w = (Ready a, w')" "r = Ready (f a)"
  using assms unfolding map_async_def by (rule then_async_elim) (auto simp: ret_def that)

lemma then_ok_elim:
  assumes "then_ok m k w = (r, w')"
  obtains (Drop) d where "m w = (Dropped d, w')" "r = Dropped d"
  | (Fail) e where "m w = (Ready (Err e), w')" "r = Ready (Err e)"
  | (Go) v w1 where "m w = (Ready (Ok v), w1)" "k v w1 = (r, w')"
  using assms unfolding then_ok_def
  by (rule then_async_elim) (auto simp: ret_def that split: sum.splits)

text \<open>A question whose answer is then converted.\<close>

lemma map_ask_cases:
  assumes "map_async g (ask e f) w = (r, w')"
  shows "w_trace w' = w_trace w @ [e] \<and> w_files w' = w_files w \<and>
    (r = Ready (g (f w')) \<or> (\<exists>d. r = Dropped d))"
  using assms by (rule map_async_elim) (auto dest: ask_cases)

lemma named_error_Ok [simp]: "named_error what text r = Ok v \<longleftrightarrow> r = Ok v"
  by (simp add: named_error_def)

text \<open>The agent's identities are tried in order.\<close>

lemma agent_loop_trace:
  assumes "agent_loop E h g u hash ids w = (r, w')"
  shows "\<exists>n \<le> length ids. w_trace w' = w_trace w @ map (agent_attempt u) (take n ids) \<and>
    (\<forall>i. Suc i < n \<longrightarrow> (\<exists>w1 res. h_agent_sign E h g u (ids ! i) hash w1 = Ok res \<and> \<not> auth_success res)) \<and>
    (\<forall>res. r = Ready (Ok res) \<longrightarrow>
       (if auth_success res
        then 0 < n \<and> (\<exists>w1. h_agent_sign E h g u (ids ! (n - 1)) hash w1 = Ok res)
        else n = length ids))"
  using assms
proof (induction ids arbitrary: w)
  case Nil
  then show ?case by (auto simp: ret_def)
next
  case (Cons identity ids)
  let ?ask = "map_async (named_error ''SSH agent authentication failed: '' (\<lambda>e. e))
      (ask (agent_attempt u identity) (h_agent_sign E h g u identity hash))"
  from Cons.prems have "then_ok ?ask (\<lambda>result. if auth_success result then ret (Ok result)
      else agent_loop E h g u hash ids) w = (r, w')" by simp
  then show ?case
  proof (cases rule: then_ok_elim)
    case (Drop d)
    with map_ask_cases [OF Drop(1)] show ?thesis by (intro exI [of _ 1]) auto
  next
    case (Fail e)
    have "w_trace w' = w_trace w @ [agent_attempt u identity]"
      using map_ask_cases [OF Fail(1)] by blast
    with Fail(2) show ?thesis by (intro exI [of _ 1]) auto
  next
    case (Go v w1)
    have asked: "w_trace w1 = w_trace w @ [agent_attempt u identity]"
      "h_agent_sign E h g u identity hash w1 = Ok v"
      using map_ask_cases [OF Go(1)] by (auto simp: eq_commute [of "Ok v"])
    show ?thesis
    proof (cases "auth_success v")
      case True
      with Go(2) asked show ?thesis by (intro exI [of _ 1]) (auto simp: ret_def)
    next
      case False
      with Go(2) have "agent_loop E h g u hash ids w1 = (r, w')" by simp
      from Cons.IH [OF this] obtain n where n: "n \<le> length ids"
        "w_trace w' = w_trace w1 @ map (agent_attempt u) (take n ids)"
        "\<And>i. Suc i < n \<Longrightarrow> \<exists>w1 res. h_agent_sign E h g u (ids ! i) hash w1 = Ok res \<and> \<not> auth_success res"
        "\<And>res. r = Ready (Ok res) \<Longrightarrow> if auth_success res
          then 0 < n \<and> (\<exists>w1. h_agent_sign E h g u (ids ! (n - 1)) hash w1 = Ok res)
          else n = length ids" by blast
      have "\<exists>w1 res. h_agent_sign E h g u ((identity # ids) ! i) hash w1 = Ok res \<and> \<not> auth_success res"
        if "Suc i < Suc n" for i
        using that n(3) [of "i - 1"] asked(2) False by (cases i) auto
      moreover have "if auth_success res
          then 0 < Suc n \<and> (\<exists>w1. h_agent_sign E h g u ((identity # ids) ! (Suc n - 1)) hash w1 = Ok res)
          else Suc n = length (identity # ids)" if "r = Ready (Ok res)" for res
        using n(4) [OF that] by (cases n) (auto split: if_splits)
      ultimately show ?thesis
        using n(1,2) asked(1) by (intro exI [of _ "Suc n"]) auto
    qed
  qed
qed

text \<open>\<open>only P m\<close>: every event of the block \<open>m\<close>, whatever the timing, satisfies \<open>P\<close>.\<close>

definition only :: "(net_event \<Rightarrow> bool) \<Rightarrow> 'a async \<Rightarrow> bool" where
  "only P m \<longleftrightarrow> (\<forall>w r w'. m w = (r, w') \<longrightarrow> (\<exists>es. w_trace w' = w_trace w @ es \<and> list_all P es))"

named_theorems only_intros \<open>which events blocks can have\<close>

lemma onlyD:
  "only P m \<Longrightarrow> m w = (r, w') \<Longrightarrow> \<exists>es. w_trace w' = w_trace w @ es \<and> list_all P es"
  unfolding only_def by blast

lemma only_mono: "only P m \<Longrightarrow> (\<And>e. P e \<Longrightarrow> Q e) \<Longrightarrow> only Q m"
  unfolding only_def list_all_iff by blast

lemma only_ret [only_intros]: "only P (ret a)"
  by (simp add: only_def ret_def)

lemma only_emit [only_intros]: "P e \<Longrightarrow> only P (emit e)"
  by (simp add: only_def emit_def)

lemma only_then [only_intros]:
  assumes "only P m" and "\<And>a. only P (k a)"
  shows "only P (then_async m k)"
  unfolding only_def
proof (intro allI impI)
  fix w r w'
  assume "then_async m k w = (r, w')"
  then show "\<exists>es. w_trace w' = w_trace w @ es \<and> list_all P es"
  proof (cases rule: then_async_elim)
    case (Drop d)
    with assms(1) show ?thesis by (auto simp: only_def)
  next
    case (Go a w1)
    from onlyD [OF assms(1) Go(1)] onlyD [OF assms(2) Go(2)] obtain e1 e2 where
      "w_trace w1 = w_trace w @ e1" "list_all P e1" "w_trace w' = w_trace w1 @ e2" "list_all P e2"
      by blast
    then show ?thesis by (intro exI [of _ "e1 @ e2"]) auto
  qed
qed

lemma only_then_ok [only_intros]:
  "only P m \<Longrightarrow> (\<And>v. only P (k v)) \<Longrightarrow> only P (then_ok m k)"
  unfolding then_ok_def by (rule only_then) (auto simp: only_ret split: sum.splits)

lemma only_map [only_intros]: "only P m \<Longrightarrow> only P (map_async f m)"
  unfolding map_async_def by (intro only_intros)

lemma only_ask [only_intros]: "P e \<Longrightarrow> only P (ask e f)"
  unfolding only_def by (auto dest: ask_cases)

lemma only_with_world [only_intros]: "(\<And>w. only P (f w)) \<Longrightarrow> only P (with_world f)"
  unfolding only_def with_world_def by blast

text \<open>The handle and the agent are asked for authentication and nothing else.\<close>

fun auth_traffic :: "net_event \<Rightarrow> bool" where
  "auth_traffic (DidAuthPassword _ _) = True"
| "auth_traffic (DidAuthPublicKey _) = True"
| "auth_traffic DidRsaHash = True"
| "auth_traffic DidAgentConnect = True"
| "auth_traffic DidAgentIdentities = True"
| "auth_traffic (DidAgentPublicKey _ _) = True"
| "auth_traffic (DidAgentCertificate _ _) = True"
| "auth_traffic _ = False"

lemma only_agent_loop [only_intros]: "only auth_traffic (agent_loop E h agent u hash ids)"
proof (induction ids)
  case (Cons a ids)
  then show ?case by (cases a) (auto intro!: only_intros)
qed (auto intro!: only_intros)

lemma only_handle [only_intros]:
  "only auth_traffic (handle_password E h u p)" "only auth_traffic (handle_private_key E h u q pass)"
  "only auth_traffic (handle_agent E h u)"
  unfolding handle_password_def handle_private_key_def handle_agent_def handle_rsa_hash_def
    authenticate_agent_with_client_def
  by (auto intro!: only_intros split: sum.splits)

text \<open>Prompts in a trace.\<close>

fun is_prompt :: "net_event \<Rightarrow> bool" where
  "is_prompt (DidPrompt _) \<longleftrightarrow> True"
| "is_prompt _ \<longleftrightarrow> False"

lemma auth_traffic_no_prompt: "list_all auth_traffic es \<Longrightarrow> filter is_prompt es = []"
proof -
  have "auth_traffic e \<Longrightarrow> \<not> is_prompt e" for e by (cases e) auto
  then show "list_all auth_traffic es \<Longrightarrow> filter is_prompt es = []"
    by (auto simp: list_all_iff filter_empty_conv)
qed

lemma quietD:
  "only auth_traffic m \<Longrightarrow> m w = (r, w') \<Longrightarrow>
     \<exists>es. w_trace w' = w_trace w @ es \<and> filter is_prompt es = []"
  using onlyD [of auth_traffic m w r w'] auth_traffic_no_prompt by blast

text \<open>The one prompt a plan may need, and when.\<close>

definition plan_prompt :: "('p, 'h, 'g) auth_env \<Rightarrow> russh_auth_plan \<Rightarrow> file_system \<Rightarrow> secret_prompt option" where
  "plan_prompt E plan fs =
     (case auth_request plan of
        ReqPasswordPrompt \<Rightarrow> Some (secret_prompt_password (auth_username plan))
      | ReqPrivateKey p None \<Rightarrow>
          if needs_passphrase E p fs = Ok True
          then Some (secret_prompt_private_key_passphrase (auth_username plan)) else None
      | _ \<Rightarrow> None)"

lemma filter_prompt_quiet:
  assumes "only auth_traffic m" and "m w = (r, w')"
  obtains es where "w_trace w' = w_trace w @ es" "filter is_prompt es = []"
  using quietD [OF assms] by blast

text \<open>A block that asks for a secret and then goes on quietly.\<close>

lemma prompt_then_quiet:
  assumes "then_ok (map_async g (prompt_secret pr p)) k w = (r, w')" and "\<And>v. only auth_traffic (k v)"
  shows "\<exists>es. w_trace w' = w_trace w @ DidPrompt p # es \<and> filter is_prompt es = [] \<and>
    (es \<noteq> [] \<longrightarrow> (\<exists>v. g (provider_prompt pr p) = Ok v))"
  using assms(1)
proof (cases rule: then_ok_elim)
  case (Drop d)
  with map_ask_cases [OF Drop(1) [unfolded prompt_secret_def]] show ?thesis by auto
next
  case (Fail e)
  have "w_trace w' = w_trace w @ [DidPrompt p]"
    using map_ask_cases [OF Fail(1) [unfolded prompt_secret_def]] by blast
  then show ?thesis by auto
next
  case (Go v w1)
  have "w_trace w1 = w_trace w @ [DidPrompt p]" "g (provider_prompt pr p) = Ok v"
    using map_ask_cases [OF Go(1) [unfolded prompt_secret_def]] by auto
  moreover obtain es where "w_trace w' = w_trace w1 @ es" "filter is_prompt es = []"
    using filter_prompt_quiet [OF assms(2) Go(2)] .
  ultimately show ?thesis by auto
qed

text \<open>The method's block without the conversion of its result.\<close>

definition plan_method ::
  "('p, 'h, 'g) auth_env \<Rightarrow> 'h \<Rightarrow> russh_auth_plan \<Rightarrow> secret_provider option \<Rightarrow> auth_result io async" where
  "plan_method E h plan provider =
     (case auth_request plan of
          ReqPassword password \<Rightarrow> handle_password E h (auth_username plan) password
        | ReqPasswordPrompt \<Rightarrow>
            then_ok (password_of_prompt plan provider) (handle_password E h (auth_username plan))
        | ReqPrivateKey p passphrase \<Rightarrow>
            then_ok (prompted_passphrase E plan provider p passphrase)
              (\<lambda>prompted. handle_private_key E h (auth_username plan) p (or_option prompted passphrase))
        | ReqAgent \<Rightarrow> handle_agent E h (auth_username plan))"

lemma authenticate_method:
  assumes "authenticate_auth_plan_with_backend E (handle_backend E h) plan provider w = (r, w')"
  shows "\<exists>r1. plan_method E h plan provider w = (r1, w') \<and>
    (\<forall>v. r = Ready (Ok v) \<longrightarrow> r1 = Ready (Ok AuthSuccess)) \<and>
    (\<forall>e. r1 = Ready (Err e) \<longrightarrow> r = Ready (Err e))"
proof -
  have eq: "authenticate_auth_plan_with_backend E (handle_backend E h) plan provider =
      then_ok (plan_method E h plan provider) (\<lambda>r. ret (outcome_from_auth_result r))"
    by (simp add: authenticate_auth_plan_with_backend_def plan_method_def handle_backend_def
        split: russh_auth_request.splits)
  from assms [unfolded eq] show ?thesis
  proof (cases rule: then_ok_elim)
    case (Go v w1)
    then have "auth_success v" if "r = Ready (Ok x)" for x
      using that by (auto simp: ret_def outcome_from_auth_result_def split: if_splits)
    with Go show ?thesis by (cases v) (auto simp: ret_def)
  qed auto
qed

text \<open>An attempt that was answered with success.\<close>

fun granted :: "('p, 'h, 'g) auth_env \<Rightarrow> 'h \<Rightarrow> string \<Rightarrow> net_event \<Rightarrow> bool" where
  "granted E h u (DidAuthPassword u' p) \<longleftrightarrow> u' = u \<and> (\<exists>w. h_password E h u p w = Ok AuthSuccess)"
| "granted E h u (DidAuthPublicKey u') \<longleftrightarrow>
     u' = u \<and> (\<exists>key hash w. h_publickey E h u key hash w = Ok AuthSuccess)"
| "granted E h u (DidAgentPublicKey u' k) \<longleftrightarrow>
     u' = u \<and> (\<exists>g hash w. h_agent_sign E h g u (IdPublicKey k) hash w = Ok AuthSuccess)"
| "granted E h u (DidAgentCertificate u' c) \<longleftrightarrow>
     u' = u \<and> (\<exists>g hash w. h_agent_sign E h g u (IdCertificate c) hash w = Ok AuthSuccess)"
| "granted E h u _ \<longleftrightarrow> False"

definition ends_granted :: "('p, 'h, 'g) auth_env \<Rightarrow> 'h \<Rightarrow> string \<Rightarrow> auth_result io async \<Rightarrow> bool" where
  "ends_granted E h u m \<longleftrightarrow> (\<forall>w w'. m w = (Ready (Ok AuthSuccess), w') \<longrightarrow>
     (\<exists>es e. w_trace w' = w_trace w @ es @ [e] \<and> granted E h u e))"

lemma ends_granted_then_ok:
  assumes "tame m" and "\<And>v. ends_granted E h u (k v)"
  shows "ends_granted E h u (then_ok m k)"
  unfolding ends_granted_def
proof (intro allI impI)
  fix w w'
  assume "then_ok m k w = (Ready (Ok AuthSuccess), w')"
  then show "\<exists>es e. w_trace w' = w_trace w @ es @ [e] \<and> granted E h u e"
  proof (cases rule: then_ok_elim)
    case (Go v w1)
    obtain e1 where "w_trace w1 = w_trace w @ e1"
      using tameD(1) [OF assms(1) Go(1)] by (auto simp: later_def)
    moreover obtain es e where "w_trace w' = w_trace w1 @ es @ [e]" "granted E h u e"
      using assms(2) Go(2) unfolding ends_granted_def by blast
    ultimately show ?thesis by (intro exI [of _ "e1 @ es"] exI [of _ e]) auto
  qed auto
qed

lemma ends_granted_ask:
  assumes "\<And>w. f w = Ok AuthSuccess \<Longrightarrow> granted E h u e"
  shows "ends_granted E h u (map_async (named_error what text) (ask e f))"
  unfolding ends_granted_def
proof (intro allI impI)
  fix w w'
  assume "map_async (named_error what text) (ask e f) w = (Ready (Ok AuthSuccess), w')"
  from map_ask_cases [OF this] have "w_trace w' = w_trace w @ [e]" "f w' = Ok AuthSuccess"
    by (auto simp: eq_commute [of "Ok AuthSuccess"])
  with assms show "\<exists>es e. w_trace w' = w_trace w @ es @ [e] \<and> granted E h u e" by auto
qed

lemma ends_granted_ret_Err: "ends_granted E h u (ret (Err e))"
  by (simp add: ends_granted_def ret_def)

lemma ends_granted_agent_loop: "ends_granted E h u (agent_loop E h g u hash ids)"
  unfolding ends_granted_def
proof (intro allI impI)
  fix w w'
  assume run: "agent_loop E h g u hash ids w = (Ready (Ok AuthSuccess), w')"
  obtain n where n: "n \<le> length ids" "w_trace w' = w_trace w @ map (agent_attempt u) (take n ids)"
    "0 < n" "\<exists>w1. h_agent_sign E h g u (ids ! (n - 1)) hash w1 = Ok AuthSuccess"
    using agent_loop_trace [OF run] by auto
  obtain k where k: "n = Suc k" using n(3) by (cases n) auto
  then have "take n ids = take k ids @ [ids ! k]" using n(1) by (simp add: take_Suc_conv_app_nth)
  moreover have "granted E h u (agent_attempt u (ids ! k))"
    using n(4) k by (cases "ids ! k") auto
  ultimately show "\<exists>es e. w_trace w' = w_trace w @ es @ [e] \<and> granted E h u e"
    using n(2) by (intro exI [of _ "map (agent_attempt u) (take k ids)"] exI [of _ "agent_attempt u (ids ! k)"]) simp
qed

lemma ends_granted_handle:
  "ends_granted E h u (handle_password E h u p)"
  "ends_granted E h u (handle_private_key E h u q pass)"
  "ends_granted E h u (handle_agent E h u)"
proof -
  show "ends_granted E h u (handle_password E h u p)"
    unfolding handle_password_def by (rule ends_granted_ask) auto
  have pk: "ends_granted E h u (then_ok (handle_rsa_hash E h what)
     (\<lambda>hash. map_async (named_error what' (error_text E))
        (ask (DidAuthPublicKey u) (h_publickey E h u key hash))))" for what what' key
    by (intro ends_granted_then_ok ends_granted_ask)
      (auto simp: handle_rsa_hash_def intro!: tame_intros)
  then show "ends_granted E h u (handle_private_key E h u q pass)"
    unfolding handle_private_key_def
    by (auto simp: ends_granted_def with_world_def ret_def split: sum.splits)
  show "ends_granted E h u (handle_agent E h u)"
    unfolding handle_agent_def authenticate_agent_with_client_def
    by (auto intro!: ends_granted_then_ok ends_granted_ret_Err ends_granted_agent_loop tame_intros
        simp: handle_rsa_hash_def)
qed

lemma tame_prompts [tame_intros]:
  "tame (password_of_prompt plan provider)" "tame (prompted_passphrase E plan provider p pass)"
  unfolding password_of_prompt_def prompted_passphrase_def passphrase_of_prompt_def prompt_secret_def
  by (auto intro!: tame_intros split: option.splits sum.splits)

lemma plan_method_granted: "ends_granted E h (auth_username plan) (plan_method E h plan provider)"
  unfolding plan_method_def
  by (auto intro!: ends_granted_handle ends_granted_then_ok tame_intros
      split: russh_auth_request.splits)

lemma plan_method_prompts:
  assumes "plan_method E h plan provider w = (r, w')"
  shows "\<exists>es. w_trace w' = w_trace w @ es \<and>
    (case (plan_prompt E plan (w_files w), provider) of
       (None, _) \<Rightarrow> filter is_prompt es = []
     | (Some p, None) \<Rightarrow> es = [] \<and> (\<exists>e. r = Ready (Err e))
     | (Some p, Some pr) \<Rightarrow> \<exists>rest. es = DidPrompt p # rest \<and> filter is_prompt rest = [] \<and>
         (rest \<noteq> [] \<longrightarrow> provider_prompt pr p \<noteq> None))"
proof -
  have quietly: ?thesis if "only auth_traffic (plan_method E h plan provider)" "plan_prompt E plan (w_files w) = None"
    using filter_prompt_quiet [OF that(1) assms] that(2) by auto
  show ?thesis
  proof (cases "auth_request plan")
    case (ReqPassword p)
    then show ?thesis
      by (intro quietly) (auto simp: plan_method_def plan_prompt_def intro!: only_intros)
  next
    case ReqAgent
    then show ?thesis
      by (intro quietly) (auto simp: plan_method_def plan_prompt_def intro!: only_intros)
  next
    case ReqPasswordPrompt
    show ?thesis
    proof (cases provider)
      case None
      with assms ReqPasswordPrompt show ?thesis
        by (auto simp: plan_method_def password_of_prompt_def then_ok_def then_async_def ret_def
            plan_prompt_def)
    next
      case (Some pr)
      with assms ReqPasswordPrompt
      have "then_ok (map_async (ok_or (SshSessionError ''SSH password prompt was cancelled''))
          (prompt_secret pr (secret_prompt_password (auth_username plan))))
          (handle_password E h (auth_username plan)) w = (r, w')"
        by (simp add: plan_method_def password_of_prompt_def)
      from prompt_then_quiet [OF this only_handle(1)] Some ReqPasswordPrompt show ?thesis
        by (auto simp: plan_prompt_def)
    qed
  next
    case (ReqPrivateKey p pass)
    note asked = assms [unfolded plan_method_def ReqPrivateKey, simplified]
    show ?thesis
    proof (cases "pass = None \<and> needs_passphrase E p (w_files w) = Ok True")
      case False
      then have "prompted_passphrase E plan provider p pass w \<in>
          {(Ready (Ok None), w)} \<union> {(Ready (Err e), w) | e. True}"
        by (auto simp: prompted_passphrase_def with_world_def ret_def split: sum.splits)
      moreover have "plan_prompt E plan (w_files w) = None"
        using False ReqPrivateKey by (auto simp: plan_prompt_def split: option.splits)
      ultimately show ?thesis
        using asked
        by (auto simp: then_ok_def then_async_def ret_def dest: quietD [OF only_handle(2)])
    next
      case True
      then have need: "plan_prompt E plan (w_files w) =
          Some (secret_prompt_private_key_passphrase (auth_username plan))"
        using ReqPrivateKey by (simp add: plan_prompt_def)
      show ?thesis
      proof (cases provider)
        case None
        with asked True need show ?thesis
          by (auto simp: prompted_passphrase_def passphrase_of_prompt_def with_world_def then_ok_def
              then_async_def map_async_def ret_def)
      next
        case (Some pr)
        have "prompted_passphrase E plan provider p pass w =
            map_async (\<lambda>x. map_ok Some (ok_or (SshSessionError ''SSH private-key passphrase prompt was cancelled'') x))
              (prompt_secret pr (secret_prompt_private_key_passphrase (auth_username plan))) w"
          using True Some
          by (simp add: prompted_passphrase_def passphrase_of_prompt_def with_world_def map_async_def
              then_async_def ret_def split: prod.splits awaited.splits)
        then have "then_ok (map_async (\<lambda>x. map_ok Some (ok_or (SshSessionError ''SSH private-key passphrase prompt was cancelled'') x))
              (prompt_secret pr (secret_prompt_private_key_passphrase (auth_username plan))))
            (\<lambda>prompted. handle_private_key E h (auth_username plan) p (or_option prompted pass)) w = (r, w')"
          using asked by (simp add: then_ok_def then_async_def)
        from prompt_then_quiet [OF this only_handle(2)] Some need show ?thesis by auto
      qed
    qed
  qed
qed

section \<open>Properties\<close>

text \<open>
  Secrets are prompted for at most once, before any authentication attempt, and only
  when the plan needs one: a password when the plan asks for it, a passphrase when the plan
  has none and the key file is encrypted. Without a provider an attempt is never made and an
  error is returned, and after a cancelled prompt nothing is sent.
\<close>

theorem auth_prompts_only_when_needed:
  assumes "authenticate_auth_plan_with_backend E (handle_backend E h) plan provider w = (r, w')"
  shows "\<exists>es. w_trace w' = w_trace w @ es \<and>
    (case (plan_prompt E plan (w_files w), provider) of
       (None, _) \<Rightarrow> filter is_prompt es = []
     | (Some p, None) \<Rightarrow> es = [] \<and> (\<exists>e. r = Ready (Err e))
     | (Some p, Some pr) \<Rightarrow> \<exists>rest. es = DidPrompt p # rest \<and> filter is_prompt rest = [] \<and>
         (rest \<noteq> [] \<longrightarrow> provider_prompt pr p \<noteq> None))"
proof -
  obtain r1 where m: "plan_method E h plan provider w = (r1, w')"
    and err: "\<And>e. r1 = Ready (Err e) \<Longrightarrow> r = Ready (Err e)"
    using authenticate_method [OF assms] by blast
  from plan_method_prompts [OF m] err show ?thesis
    by (fastforce split: option.splits)
qed

text \<open>
  Authentication is reported as successful only when the last thing sent was an attempt
  for the plan's user that the server answered with success.
\<close>

theorem authenticated_only_when_granted:
  assumes "authenticate_auth_plan_with_backend E (handle_backend E h) plan provider w =
      (Ready (Ok Authenticated), w')"
  shows "\<exists>es e. w_trace w' = w_trace w @ es @ [e] \<and> granted E h (auth_username plan) e"
proof -
  have "plan_method E h plan provider w = (Ready (Ok AuthSuccess), w')"
    using authenticate_method [OF assms] by auto
  then show ?thesis
    using plan_method_granted [of E h plan provider, unfolded ends_granted_def] by blast
qed

text \<open>
  The identities the agent lists are tried in the agent's order, one attempt each: every
  attempt but the last was refused, a success is the answer to the last attempt, and a
  refusal is reported only after all of them were tried.
\<close>

theorem agent_identities_in_order:
  assumes "authenticate_agent_with_client E h u g w = (Ready (Ok res), w')"
  shows "\<exists>ids w0 hash n. agent_identities E g w0 = Ok ids \<and> 0 < n \<and> n \<le> length ids \<and>
    w_trace w' = w_trace w @ [DidAgentIdentities, DidRsaHash] @ map (agent_attempt u) (take n ids) \<and>
    (\<forall>i. Suc i < n \<longrightarrow> (\<exists>w1 r. h_agent_sign E h g u (ids ! i) hash w1 = Ok r \<and> \<not> auth_success r)) \<and>
    (if auth_success res then \<exists>w1. h_agent_sign E h g u (ids ! (n - 1)) hash w1 = Ok res
     else n = length ids)"
  using assms [unfolded authenticate_agent_with_client_def]
proof (cases rule: then_ok_elim)
  case (Go ids w0)
  have listed: "w_trace w0 = w_trace w @ [DidAgentIdentities]" "agent_identities E g w0 = Ok ids"
    using map_ask_cases [OF Go(1)] by (auto simp: eq_commute [of "Ok ids"])
  have "ids \<noteq> []" using Go(2) by (auto simp: ret_def)
  with Go(2) have "then_ok (handle_rsa_hash E h ''SSH agent algorithm negotiation failed: '')
      (\<lambda>rsa_hash. agent_loop E h g u rsa_hash ids) w0 = (Ready (Ok res), w')" by simp
  then show ?thesis
  proof (cases rule: then_ok_elim)
    case (Go hash w2)
    have "w_trace w2 = w_trace w0 @ [DidRsaHash]"
      using map_ask_cases [OF Go(1) [unfolded handle_rsa_hash_def]] by blast
    moreover obtain n where "n \<le> length ids"
      "w_trace w' = w_trace w2 @ map (agent_attempt u) (take n ids)"
      "\<forall>i. Suc i < n \<longrightarrow> (\<exists>w1 r. h_agent_sign E h g u (ids ! i) hash w1 = Ok r \<and> \<not> auth_success r)"
      "if auth_success res then 0 < n \<and> (\<exists>w1. h_agent_sign E h g u (ids ! (n - 1)) hash w1 = Ok res)
       else n = length ids"
      using agent_loop_trace [OF Go(2)] by auto
    ultimately show ?thesis
      using listed \<open>ids \<noteq> []\<close>
      by (intro exI [of _ ids] exI [of _ w0] exI [of _ hash] exI [of _ n]) (auto split: if_splits)
  qed auto
qed auto

section \<open>Concrete instances\<close>

text \<open>A world in which nothing is cut off, and a server that accepts one password and one of
  the agent's keys; the key file is encrypted.\<close>

definition demo_world :: world where
  "demo_world = \<lparr>w_trace = [], w_files = \<lparr>fs_file = Map.empty, fs_fault = \<lambda>c p. None\<rparr>, w_awaits = 0,
     w_depth = 0, w_cut = \<lambda>n. None, w_cancelled = False\<rparr>"

definition demo_auth_env :: "(unit, unit, unit) auth_env" where
  "demo_auth_env =
     \<lparr>error_text = \<lambda>e. ''error'',
      load_secret_key = \<lambda>p pass fs. if pass = Some ''pp'' then Ok () else Err (KeyIsEncrypted ''encrypted''),
      h_password = \<lambda>h u p w. Ok (if p = ''secret'' then AuthSuccess else AuthFailure [] False),
      h_best_rsa_hash = \<lambda>h w. Ok None,
      h_publickey = \<lambda>h u k hash w. Ok AuthSuccess,
      agent_connect = \<lambda>w. Ok (),
      agent_identities = \<lambda>g w. Ok [IdPublicKey ''a'', IdCertificate ''b''],
      h_agent_sign = \<lambda>h g u i hash w. Ok (if i = IdCertificate ''b'' then AuthSuccess else AuthFailure [] False)\<rparr>"

definition demo_provider :: secret_provider where
  "demo_provider = SecretProvider (\<lambda>p. if prompt_kind p = PasswordKind then Some ''secret'' else Some ''pp'')"

lemmas demo_auth_simps = demo_world_def demo_auth_env_def demo_provider_def auth_defs then_ok_def
  then_async_def map_async_def ret_def ask_def await_def log_event_def with_world_def Let_def
  named_error_def outcome_from_auth_result_def or_option_def needs_passphrase_def private_key_load_def

theorem auth_prompts_only_when_needed_witness:
  "let plan = \<lparr>auth_username = ''u'', auth_request = ReqPrivateKey ''k'' None\<rparr>;
       w' = snd (authenticate_auth_plan_with_backend demo_auth_env (handle_backend demo_auth_env ())
              plan (Some demo_provider) demo_world)
   in \<exists>rest. w_trace w' = DidPrompt (secret_prompt_private_key_passphrase ''u'') # rest \<and>
        filter is_prompt rest = []"
proof -
  let ?plan = "\<lparr>auth_username = ''u'', auth_request = ReqPrivateKey ''k'' None\<rparr>"
  obtain r w' where run: "authenticate_auth_plan_with_backend demo_auth_env
      (handle_backend demo_auth_env ()) ?plan (Some demo_provider) demo_world = (r, w')"
    by (metis surj_pair)
  have "plan_prompt demo_auth_env ?plan (w_files demo_world) =
      Some (secret_prompt_private_key_passphrase ''u'')"
    by (simp add: plan_prompt_def needs_passphrase_def private_key_load_def demo_auth_env_def)
  with auth_prompts_only_when_needed [OF run] run show ?thesis
    by (auto simp: demo_world_def)
qed

theorem authenticated_only_when_granted_witness:
  "\<exists>e. granted demo_auth_env () ''u'' e"
proof -
  have "fst (authenticate_auth_plan_with_backend demo_auth_env (handle_backend demo_auth_env ())
      \<lparr>auth_username = ''u'', auth_request = ReqPasswordPrompt\<rparr> (Some demo_provider) demo_world) =
      Ready (Ok Authenticated)"
    by (simp add: demo_auth_simps secret_prompt_password_def)
  then obtain w' where "authenticate_auth_plan_with_backend demo_auth_env
      (handle_backend demo_auth_env ()) \<lparr>auth_username = ''u'', auth_request = ReqPasswordPrompt\<rparr>
      (Some demo_provider) demo_world = (Ready (Ok Authenticated), w')"
    by (metis prod.collapse)
  from authenticated_only_when_granted [OF this] show ?thesis by auto
qed

theorem agent_identities_in_order_witness:
  "\<exists>ids n. agent_identities demo_auth_env () demo_world = Ok ids \<and> 0 < n \<and>
     w_trace (snd (authenticate_agent_with_client demo_auth_env () ''u'' () demo_world)) =
       [DidAgentIdentities, DidRsaHash] @ map (agent_attempt ''u'') (take n ids)"
proof -
  have "fst (authenticate_agent_with_client demo_auth_env () ''u'' () demo_world) = Ready (Ok AuthSuccess)"
    by (simp add: demo_auth_simps)
  then obtain w' where run: "authenticate_agent_with_client demo_auth_env () ''u'' () demo_world =
      (Ready (Ok AuthSuccess), w')"
    by (metis prod.collapse)
  obtain ids w0 n where "agent_identities demo_auth_env () w0 = Ok ids" "0 < n"
    "w_trace w' = w_trace demo_world @ [DidAgentIdentities, DidRsaHash] @
       map (agent_attempt ''u'') (take n ids)"
    using agent_identities_in_order [OF run] by blast
  then show ?thesis
    using run by (intro exI [of _ ids] exI [of _ n]) (auto simp: demo_auth_env_def demo_world_def)
qed

end
