(* ===== verification/Runtime.thy ===== *)
theory Runtime
  imports Session_Config
begin

text \<open>
  The shared asynchronous runtime, \<open>crates/rssh-ssh/src/russh_client.rs\<close> lines 707 to 823: its
  bounded configuration, the handle, and the lazily created runtime, whose \<open>get_or_try_init\<close>
  is modelled as the interleaving of any number of threads. Building a \<open>tokio\<close> runtime is a
  parameter: a function from the configuration to a runtime or an error text, and in the
  interleaving an arbitrary outcome.
\<close>

section \<open>Configuration and handle\<close>

record russh_runtime_config =
  worker_threads :: nat
  max_blocking_threads :: nat

definition runtime_config_production :: russh_runtime_config where
  "runtime_config_production = \<lparr>worker_threads = 2, max_blocking_threads = 8\<rparr>"

record 't russh_runtime_handle =
  handle_runtime :: 't
  handle_config :: russh_runtime_config

text \<open>The \<open>Debug\<close> output shows the configuration only.\<close>

definition debug_runtime_handle :: "'t russh_runtime_handle \<Rightarrow> debug_value" where
  "debug_runtime_handle h = DebugStruct ''RusshRuntimeHandle''
     [(''config'', DebugStruct ''RusshRuntimeConfig''
        [(''worker_threads'', DebugText (show_nat (worker_threads (handle_config h)))),
         (''max_blocking_threads'', DebugText (show_nat (max_blocking_threads (handle_config h))))])]"

definition runtime_creation_failed :: "string \<Rightarrow> ssh_session_error" where
  "runtime_creation_failed e = SshSessionError (''SSH async runtime creation failed: '' @ e)"

definition build_production ::
  "(russh_runtime_config \<Rightarrow> ('t, string) result) \<Rightarrow>
   ('t russh_runtime_handle, ssh_session_error) result" where
  "build_production build =
     map_ok (\<lambda>t. \<lparr>handle_runtime = t, handle_config = runtime_config_production\<rparr>)
       (map_err runtime_creation_failed (build runtime_config_production))"

definition shares_runtime_with :: "'t russh_runtime_handle \<Rightarrow> 't russh_runtime_handle \<Rightarrow> bool" where
  "shares_runtime_with a b \<longleftrightarrow> handle_runtime a = handle_runtime b"

section \<open>Lazy initialisation\<close>

definition init_lock_poisoned :: ssh_session_error where
  "init_lock_poisoned = SshSessionError ''SSH async runtime initialization lock is poisoned''"

definition initialized_concurrently :: ssh_session_error where
  "initialized_concurrently = SshSessionError ''SSH async runtime initialized concurrently''"

text \<open>Where a thread is in \<open>get_or_try_init\<close>: before the first look at the cell, waiting for the
  lock, holding it before the second look, building, holding a built runtime, returned, or
  unwound by a panic of the builder (which poisons the lock).\<close>

datatype 't init_pc =
    InitStart
  | InitLock
  | InitLocked
  | InitBuilding
  | InitBuilt "'t russh_runtime_handle"
  | InitReturned "('t russh_runtime_handle, ssh_session_error) result"
  | InitPanicked

record 't lazy_runtime =
  lazy_cell :: "'t russh_runtime_handle option"
  lazy_owner :: "nat option"
  lazy_poisoned :: bool
  lazy_pc :: "nat \<Rightarrow> 't init_pc"
  lazy_built :: "'t list"

definition lazy_runtime_new :: "'t lazy_runtime" where
  "lazy_runtime_new = \<lparr>lazy_cell = None, lazy_owner = None, lazy_poisoned = False,
     lazy_pc = \<lambda>_. InitStart, lazy_built = []\<rparr>"

definition is_initialized :: "'t lazy_runtime \<Rightarrow> bool" where
  "is_initialized s \<longleftrightarrow> lazy_cell s \<noteq> None"

definition set_pc :: "nat \<Rightarrow> 't init_pc \<Rightarrow> 't lazy_runtime \<Rightarrow> 't lazy_runtime" where
  "set_pc i pc s = s\<lparr>lazy_pc := (lazy_pc s)(i := pc)\<rparr>"

text \<open>Returning from the locked part drops the guard.\<close>

definition release_lock :: "'t lazy_runtime \<Rightarrow> 't lazy_runtime" where
  "release_lock s = s\<lparr>lazy_owner := None\<rparr>"

inductive init_step :: "'t lazy_runtime \<Rightarrow> 't lazy_runtime \<Rightarrow> bool" where
  init_call:
    "lazy_pc s i = InitReturned r \<Longrightarrow> init_step s (set_pc i InitStart s)"
| init_fast_hit:
    "lazy_pc s i = InitStart \<Longrightarrow> lazy_cell s = Some h \<Longrightarrow> init_step s (set_pc i (InitReturned (Ok h)) s)"
| init_fast_miss:
    "lazy_pc s i = InitStart \<Longrightarrow> lazy_cell s = None \<Longrightarrow> init_step s (set_pc i InitLock s)"
| init_lock:
    "lazy_pc s i = InitLock \<Longrightarrow> lazy_owner s = None \<Longrightarrow> \<not> lazy_poisoned s \<Longrightarrow>
     init_step s (set_pc i InitLocked (s\<lparr>lazy_owner := Some i\<rparr>))"
| init_lock_fails:
    "lazy_pc s i = InitLock \<Longrightarrow> lazy_owner s = None \<Longrightarrow> lazy_poisoned s \<Longrightarrow>
     init_step s (set_pc i (InitReturned (Err init_lock_poisoned)) s)"
| init_second_hit:
    "lazy_pc s i = InitLocked \<Longrightarrow> lazy_cell s = Some h \<Longrightarrow>
     init_step s (set_pc i (InitReturned (Ok h)) (release_lock s))"
| init_second_miss:
    "lazy_pc s i = InitLocked \<Longrightarrow> lazy_cell s = None \<Longrightarrow> init_step s (set_pc i InitBuilding s)"
| init_build_fails:
    "lazy_pc s i = InitBuilding \<Longrightarrow>
     (build_production (\<lambda>_. Err e) :: ('t russh_runtime_handle, ssh_session_error) result) = Err err \<Longrightarrow>
     init_step s (set_pc i (InitReturned (Err err)) (release_lock s))"
| init_build:
    "lazy_pc s i = InitBuilding \<Longrightarrow> build_production (\<lambda>_. Ok t) = Ok h \<Longrightarrow>
     init_step s (set_pc i (InitBuilt h) (s\<lparr>lazy_built := t # lazy_built s\<rparr>))"
| init_build_panics:
    "lazy_pc s i = InitBuilding \<Longrightarrow>
     init_step s (set_pc i InitPanicked (release_lock (s\<lparr>lazy_poisoned := True\<rparr>)))"
| init_set:
    "lazy_pc s i = InitBuilt h \<Longrightarrow> lazy_cell s = None \<Longrightarrow>
     init_step s (set_pc i (InitReturned (Ok h)) (release_lock (s\<lparr>lazy_cell := Some h\<rparr>)))"
| init_set_fails:
    "lazy_pc s i = InitBuilt h \<Longrightarrow> lazy_cell s = Some h' \<Longrightarrow>
     init_step s (set_pc i (InitReturned (Err initialized_concurrently)) (release_lock s))"

inductive init_reachable :: "'t lazy_runtime \<Rightarrow> bool" where
  init_start: "init_reachable lazy_runtime_new"
| init_more: "init_reachable s \<Longrightarrow> init_step s t \<Longrightarrow> init_reachable t"

section \<open>Facts\<close>

fun holds_lock :: "'t init_pc \<Rightarrow> bool" where
  "holds_lock InitLocked = True"
| "holds_lock InitBuilding = True"
| "holds_lock (InitBuilt _) = True"
| "holds_lock _ = False"

text \<open>The invariant: the lock's owner is the one thread inside the locked part, a thread that
  is about to build or set has seen an empty cell that stays empty, whoever returned a
  runtime returned the one in the cell, and the runtimes ever built are the one in the cell
  or the one about to be put there.\<close>

fun built_by :: "'t init_pc \<Rightarrow> 't list" where
  "built_by (InitBuilt h) = [handle_runtime h]"
| "built_by _ = []"

definition expected_built :: "'t lazy_runtime \<Rightarrow> 't list" where
  "expected_built s =
     (case lazy_cell s of
        Some h \<Rightarrow> [handle_runtime h]
      | None \<Rightarrow> (case lazy_owner s of None \<Rightarrow> [] | Some i \<Rightarrow> built_by (lazy_pc s i)))"

definition init_inv :: "'t lazy_runtime \<Rightarrow> bool" where
  "init_inv s \<longleftrightarrow>
     (\<forall>i. holds_lock (lazy_pc s i) \<longleftrightarrow> lazy_owner s = Some i) \<and>
     lazy_built s = expected_built s \<and>
     (\<forall>i. lazy_pc s i = InitBuilding \<longrightarrow> lazy_cell s = None) \<and>
     (\<forall>i h. lazy_pc s i = InitBuilt h \<longrightarrow>
        lazy_cell s = None \<and> handle_config h = runtime_config_production) \<and>
     (\<forall>i h. lazy_pc s i = InitReturned (Ok h) \<longrightarrow> lazy_cell s = Some h) \<and>
     (\<forall>i. lazy_pc s i \<noteq> InitReturned (Err initialized_concurrently)) \<and>
     (\<forall>h. lazy_cell s = Some h \<longrightarrow> handle_config h = runtime_config_production)"

lemmas init_defs = set_pc_def release_lock_def build_production_def

lemma init_inv_new: "init_inv lazy_runtime_new"
  by (simp add: init_inv_def lazy_runtime_new_def expected_built_def)

lemma init_errors_differ:
  "runtime_creation_failed e \<noteq> initialized_concurrently" "init_lock_poisoned \<noteq> initialized_concurrently"
  by (simp_all add: runtime_creation_failed_def initialized_concurrently_def init_lock_poisoned_def)

lemma init_inv_owner: "init_inv s \<Longrightarrow> lazy_owner s = Some i \<longleftrightarrow> holds_lock (lazy_pc s i)"
  by (simp add: init_inv_def)

lemma init_inv_step:
  assumes "init_step s t" and "init_inv s"
  shows "init_inv t"
  using assms
proof (induction rule: init_step.induct)
  case (init_call s i r)
  from this init_inv_owner [of s i] show ?case
    by (auto simp: init_inv_def expected_built_def init_defs init_errors_differ
        split: option.splits if_splits)
next
  case (init_fast_hit s i h)
  from this init_inv_owner [of s i] show ?case
    by (auto simp: init_inv_def expected_built_def init_defs init_errors_differ
        split: option.splits if_splits)
next
  case (init_fast_miss s i)
  from this init_inv_owner [of s i] show ?case
    by (auto simp: init_inv_def expected_built_def init_defs init_errors_differ
        split: option.splits if_splits)
next
  case (init_lock s i)
  from this init_inv_owner [of s i] show ?case
    by (auto simp: init_inv_def expected_built_def init_defs init_errors_differ
        split: option.splits if_splits)
next
  case (init_lock_fails s i)
  from this init_inv_owner [of s i] show ?case
    by (auto simp: init_inv_def expected_built_def init_defs init_errors_differ
        split: option.splits if_splits)
next
  case (init_second_hit s i h)
  from this init_inv_owner [of s i] show ?case
    by (auto simp: init_inv_def expected_built_def init_defs init_errors_differ
        split: option.splits if_splits)
next
  case (init_second_miss s i)
  from this init_inv_owner [of s i] show ?case
    by (auto simp: init_inv_def expected_built_def init_defs init_errors_differ
        split: option.splits if_splits)
next
  case (init_build_fails s i e err)
  from this init_inv_owner [of s i] show ?case
    by (auto simp: init_inv_def expected_built_def init_defs init_errors_differ
        split: option.splits if_splits)
next
  case (init_build s i t h)
  from this init_inv_owner [of s i] show ?case
    by (auto simp: init_inv_def expected_built_def init_defs init_errors_differ
        split: option.splits if_splits)
next
  case (init_build_panics s i)
  from this init_inv_owner [of s i] show ?case
    by (auto simp: init_inv_def expected_built_def init_defs init_errors_differ
        split: option.splits if_splits)
next
  case (init_set s i h)
  from this init_inv_owner [of s i] show ?case
    by (auto simp: init_inv_def expected_built_def init_defs init_errors_differ
        split: option.splits if_splits)
next
  case (init_set_fails s i h h')
  then show ?case by (auto simp: init_inv_def)
qed

lemma init_inv_reachable: "init_reachable s \<Longrightarrow> init_inv s"
  by (induction rule: init_reachable.induct) (auto intro: init_inv_new init_inv_step)

section \<open>Properties\<close>

text \<open>
  C40. However many threads call \<open>get_or_try_init\<close> concurrently, at most one runtime is ever
  built (failed and panicking builds aside, which build none), every successful call returns
  the one in the cell, with the production limits, and no call ever reports a concurrent
  initialisation.
\<close>

theorem lazy_runtime_built_once:
  assumes "init_reachable s"
  shows "length (lazy_built s) \<le> 1 \<and>
    (\<forall>i h. lazy_pc s i = InitReturned (Ok h) \<longrightarrow>
       lazy_cell s = Some h \<and> lazy_built s = [handle_runtime h] \<and>
       handle_config h = runtime_config_production) \<and>
    (\<forall>i. lazy_pc s i \<noteq> InitReturned (Err initialized_concurrently))"
proof -
  have inv: "init_inv s" using assms by (rule init_inv_reachable)
  have "length (built_by pc) \<le> 1" for pc :: "'a init_pc" by (cases pc) auto
  then have "length (expected_built s) \<le> 1"
    by (simp add: expected_built_def split: option.splits)
  with inv show ?thesis by (auto simp: init_inv_def expected_built_def)
qed

theorem lazy_runtime_built_once_witness:
  "length (lazy_built (set_pc 3 (InitReturned (Err init_lock_poisoned))
     (set_pc 3 InitLock (set_pc 2 InitPanicked (release_lock
       ((set_pc 2 InitBuilding (set_pc 2 InitLocked ((set_pc 2 InitLock (lazy_runtime_new :: nat lazy_runtime))
          \<lparr>lazy_owner := Some 2\<rparr>)))\<lparr>lazy_poisoned := True\<rparr>)))))) \<le> 1"
proof -
  let ?s0 = "lazy_runtime_new :: nat lazy_runtime"
  let ?s1 = "set_pc 2 InitLock ?s0"
  let ?s2 = "set_pc 2 InitLocked (?s1\<lparr>lazy_owner := Some 2\<rparr>)"
  let ?s3 = "set_pc 2 InitBuilding ?s2"
  let ?s4 = "set_pc 2 InitPanicked (release_lock (?s3\<lparr>lazy_poisoned := True\<rparr>))"
  let ?s5 = "set_pc 3 InitLock ?s4"
  let ?s6 = "set_pc 3 (InitReturned (Err init_lock_poisoned)) ?s5"
  have "init_step ?s0 ?s1" by (rule init_fast_miss) (simp_all add: lazy_runtime_new_def)
  moreover have "init_step ?s1 ?s2" by (rule init_lock) (simp_all add: lazy_runtime_new_def set_pc_def)
  moreover have "init_step ?s2 ?s3" by (rule init_second_miss) (simp_all add: lazy_runtime_new_def set_pc_def)
  moreover have "init_step ?s3 ?s4" by (rule init_build_panics) (simp add: set_pc_def)
  moreover have "init_step ?s4 ?s5"
    by (rule init_fast_miss) (simp_all add: lazy_runtime_new_def set_pc_def release_lock_def)
  moreover have "init_step ?s5 ?s6"
    by (rule init_lock_fails) (simp_all add: set_pc_def release_lock_def)
  ultimately have "init_reachable ?s6" by (meson init_reachable.intros)
  from lazy_runtime_built_once [OF this] show ?thesis by blast
qed

end
