(* ===== verification/Opener.thy ===== *)
theory Opener
  imports Auth Runtime Channel_IO
begin

text \<open>
  Opening connections, \<open>crates/rssh-ssh/src/russh_client.rs\<close> lines 825 to 1303, 1507 to 1571
  and 2809 to 2861: the opener and its builder methods, the handlers it hands to \<open>russh\<close>,
  and the connect, authenticate, open and startup steps with their deadlines, up to
  \<open>open_channel\<close> and \<open>open_direct_tcpip_channel\<close>.
\<close>

section \<open>The opener\<close>

text \<open>Of \<open>russh::client::Config\<close> the code sets the keep-alive interval.\<close>

record client_config =
  keepalive_interval :: "duration option"

text \<open>The phase reporter is a callback and the connection cancellation a handle; what counts
  here is whether one is installed (its calls and its state are in the world).\<close>

record 't russh_channel_opener =
  op_client_config :: client_config
  op_runtime_handle :: "'t russh_runtime_handle option"
  op_host_key_policy :: russh_host_key_policy
  op_known_hosts_path :: "path option"
  op_host_key_verifier :: "host_key_verifier option"
  op_secret_provider :: "secret_provider option"
  op_phase_reporter :: bool
  op_connection_cancellation :: bool
  op_operation_timeout :: duration
  op_channel_inactivity_timeout :: "duration option"

definition DEFAULT_SSH_OPERATION_TIMEOUT :: duration where
  "DEFAULT_SSH_OPERATION_TIMEOUT = secs 30"

definition opener_new :: "client_config \<Rightarrow> 't russh_channel_opener" where
  "opener_new config =
     \<lparr>op_client_config = config, op_runtime_handle = None, op_host_key_policy = RejectUnknown,
      op_known_hosts_path = None, op_host_key_verifier = None, op_secret_provider = None,
      op_phase_reporter = False, op_connection_cancellation = False,
      op_operation_timeout = DEFAULT_SSH_OPERATION_TIMEOUT, op_channel_inactivity_timeout = None\<rparr>"

definition opener_default :: "'t russh_channel_opener" where
  "opener_default = opener_new \<lparr>keepalive_interval = Some (secs 30)\<rparr>"

definition with_runtime_handle :: "'t russh_runtime_handle \<Rightarrow> 't russh_channel_opener \<Rightarrow> 't russh_channel_opener" where
  "with_runtime_handle h op = op\<lparr>op_runtime_handle := Some h\<rparr>"

definition with_host_key_policy :: "russh_host_key_policy \<Rightarrow> 't russh_channel_opener \<Rightarrow> 't russh_channel_opener" where
  "with_host_key_policy p op = op\<lparr>op_host_key_policy := p\<rparr>"

definition with_host_key_verifier :: "host_key_verifier \<Rightarrow> 't russh_channel_opener \<Rightarrow> 't russh_channel_opener" where
  "with_host_key_verifier v op = op\<lparr>op_host_key_verifier := Some v\<rparr>"

definition with_secret_provider :: "secret_provider \<Rightarrow> 't russh_channel_opener \<Rightarrow> 't russh_channel_opener" where
  "with_secret_provider p op = op\<lparr>op_secret_provider := Some p\<rparr>"

definition with_phase_reporter :: "'t russh_channel_opener \<Rightarrow> 't russh_channel_opener" where
  "with_phase_reporter op = op\<lparr>op_phase_reporter := True\<rparr>"

definition with_connection_cancellation :: "'t russh_channel_opener \<Rightarrow> 't russh_channel_opener" where
  "with_connection_cancellation op = op\<lparr>op_connection_cancellation := True\<rparr>"

definition with_known_hosts_path :: "path \<Rightarrow> 't russh_channel_opener \<Rightarrow> 't russh_channel_opener" where
  "with_known_hosts_path p op = op\<lparr>op_known_hosts_path := Some p\<rparr>"

definition with_operation_timeout :: "duration \<Rightarrow> 't russh_channel_opener \<Rightarrow> 't russh_channel_opener" where
  "with_operation_timeout t op = op\<lparr>op_operation_timeout := t\<rparr>"

definition with_channel_inactivity_timeout :: "duration \<Rightarrow> 't russh_channel_opener \<Rightarrow> 't russh_channel_opener" where
  "with_channel_inactivity_timeout t op = op\<lparr>op_channel_inactivity_timeout := Some t\<rparr>"

definition runtime_handle_or_create ::
  "(russh_runtime_config \<Rightarrow> ('t, string) result) \<Rightarrow> 't russh_channel_opener \<Rightarrow>
   't russh_runtime_handle io" where
  "runtime_handle_or_create build op =
     (case op_runtime_handle op of Some h \<Rightarrow> Ok h | None \<Rightarrow> build_production build)"

definition report_phase :: "'t russh_channel_opener \<Rightarrow> ssh_connection_phase \<Rightarrow> unit async" where
  "report_phase op phase = (if op_phase_reporter op then emit (DidPhase phase) else ret ())"

section \<open>Handlers\<close>

definition handler_for_endpoint ::
  "string option \<Rightarrow> u16 option \<Rightarrow> 't russh_channel_opener \<Rightarrow> 'n russh_client_handler" where
  "handler_for_endpoint host port op =
     \<lparr>handler_policy = op_host_key_policy op, handler_host = host, handler_port = port,
      handler_known_hosts_path = op_known_hosts_path op,
      handler_verifier = op_host_key_verifier op, handler_remote_forwards = [],
      handler_forward_cancellation = None, handler_forward_task_tracker = None,
      handler_forward_deadlines = None\<rparr>"

text \<open>\<open>into_handler\<close> and \<open>handler\<close> know no endpoint, so their handler accepts no key.\<close>

definition into_handler :: "'t russh_channel_opener \<Rightarrow> 'n russh_client_handler" where
  "into_handler op = handler_for_endpoint None None op"

definition handler_for_host :: "'t russh_channel_opener \<Rightarrow> string \<Rightarrow> u16 \<Rightarrow> 'n russh_client_handler" where
  "handler_for_host op host port = handler_for_endpoint (Some host) (Some port) op"

definition handler_for_host_with_remote_forward_lifecycle ::
  "'t russh_channel_opener \<Rightarrow> string \<Rightarrow> u16 \<Rightarrow> resolved_remote_forward \<Rightarrow> 'n cancellation \<Rightarrow>
   'n task_tracker \<Rightarrow> forward_deadlines \<Rightarrow> 'n russh_client_handler" where
  "handler_for_host_with_remote_forward_lifecycle op host port forward cancel tracker deadlines =
     (handler_for_host op host port)
       \<lparr>handler_remote_forwards := [forward], handler_forward_cancellation := Some cancel,
        handler_forward_task_tracker := Some tracker, handler_forward_deadlines := Some deadlines\<rparr>"

definition handler_for_host_with_remote_forward ::
  "'n \<Rightarrow> 't russh_channel_opener \<Rightarrow> string \<Rightarrow> u16 \<Rightarrow> russh_remote_tcpip_forward_plan \<Rightarrow>
   'n russh_client_handler" where
  "handler_for_host_with_remote_forward wake op host port plan =
     handler_for_host_with_remote_forward_lifecycle op host port (resolved_new plan)
       (cancellation_new wake) (tracker_default wake) (forward_deadlines_new (secs 30) (secs 1))"

section \<open>The steps of an operation\<close>

text \<open>The \<open>russh\<close> client as the steps use it. \<open>tcp_connect\<close> gets the handler's host-key check;
  it returns the handle, the challenges shown and the files left by the check.\<close>

record ('k, 'p, 'h, 'g, 'c) client_env =
  env_auth :: "('p, 'h, 'g) auth_env"
  env_keys :: "'k russh_keys"
  tcp_connect :: "client_config \<Rightarrow> string \<times> u16 \<Rightarrow> ('k \<Rightarrow> file_system \<Rightarrow> key_verdict) \<Rightarrow> world \<Rightarrow>
    ('h, russh_error) result \<times> host_key_challenge list \<times> file_system"
  channel_open_session :: "'h \<Rightarrow> world \<Rightarrow> ('c, russh_error) result"
  channel_open_direct_tcpip ::
    "'h \<Rightarrow> string \<Rightarrow> u32 \<Rightarrow> string \<Rightarrow> u32 \<Rightarrow> world \<Rightarrow> ('c, russh_error) result"
  channel_request :: "'c \<Rightarrow> russh_channel_startup_request \<Rightarrow> world \<Rightarrow> (unit, russh_error) result"

text \<open>Documented behaviour of \<open>russh::client::connect\<close>: the handler is shown the server's key,
  and the connection is established only when it answers \<open>Ok(true)\<close>.\<close>

definition connect_checks_key :: "('k, 'p, 'h, 'g, 'c) client_env \<Rightarrow> bool" where
  "connect_checks_key C \<longleftrightarrow> (\<forall>cfg addr check w h challenges files.
     tcp_connect C cfg addr check w = (Ok h, challenges, files) \<longrightarrow>
     (\<exists>key. check key (w_files w) = (Ok True, challenges, files)))"

definition connect_handle ::
  "('k, 'p, 'h, 'g, 'c) client_env \<Rightarrow> client_config \<Rightarrow> string \<times> u16 \<Rightarrow> 'n russh_client_handler \<Rightarrow>
   ('h, russh_error) result async" where
  "connect_handle C cfg addr handler =
     await (DidConnect (fst addr) (snd addr)) (\<lambda>w.
       case tcp_connect C cfg addr (check_server_key (env_keys C) handler) w of
         (r, challenges, files) \<Rightarrow>
           (r, w\<lparr>w_files := files, w_trace := w_trace w @ map DidChallenge challenges\<rparr>))"

definition operation_deadline_error :: "'t russh_channel_opener \<Rightarrow> string \<Rightarrow> ssh_session_error" where
  "operation_deadline_error op stage = SshSessionError
     (''SSH '' @ stage @ '' deadline exceeded after '' @ debug_duration (op_operation_timeout op))"

text \<open>\<open>timeout(..).await.map_err(|_| deadline)?\<close>.\<close>

definition or_deadline :: "ssh_session_error \<Rightarrow> 'a io async \<Rightarrow> 'a io async" where
  "or_deadline e m =
     map_async (\<lambda>r. case r of None \<Rightarrow> Err e | Some res \<Rightarrow> res) (with_timeout m)"

definition connect_async ::
  "('k, 'p, 'h, 'g, 'c) client_env \<Rightarrow> 't russh_channel_opener \<Rightarrow> ssh_connect_request \<Rightarrow>
   'h io async" where
  "connect_async C op request =
     then_async (report_phase op Connecting) (\<lambda>_.
       let (host, port) = connect_socket_addr (connect_plan_from_request request) in
       or_deadline (operation_deadline_error op ''connect'')
         (map_async (named_error ''SSH connect failed: '' (error_text (env_auth C)))
           (connect_handle C (op_client_config op) (host, port)
             (handler_for_host op host port :: unit russh_client_handler))))"

definition authenticate_async ::
  "('k, 'p, 'h, 'g, 'c) client_env \<Rightarrow> 't russh_channel_opener \<Rightarrow> 'h \<Rightarrow> russh_auth_plan \<Rightarrow>
   russh_auth_outcome io async" where
  "authenticate_async C op h auth_plan =
     then_async (report_phase op Authenticating) (\<lambda>_.
       or_deadline (operation_deadline_error op ''authentication'')
         (authenticate_auth_plan_with_backend (env_auth C) (handle_backend (env_auth C) h) auth_plan
           (op_secret_provider op)))"

definition open_session_channel_async ::
  "('k, 'p, 'h, 'g, 'c) client_env \<Rightarrow> 't russh_channel_opener \<Rightarrow> 'h \<Rightarrow> 'c io async" where
  "open_session_channel_async C op h =
     then_async (report_phase op Opening) (\<lambda>_.
       or_deadline (operation_deadline_error op ''channel open'')
         (map_async (named_error ''SSH channel open failed: '' (error_text (env_auth C)))
           (ask DidOpenSession (channel_open_session C h))))"

definition open_direct_tcpip_channel_async ::
  "('k, 'p, 'h, 'g, 'c) client_env \<Rightarrow> 't russh_channel_opener \<Rightarrow> 'h \<Rightarrow> russh_direct_tcpip_open_plan \<Rightarrow>
   'c io async" where
  "open_direct_tcpip_channel_async C op h plan =
     (let (target_host, target_port) = direct_target plan;
          (originator_host, originator_port) = direct_originator plan
      in or_deadline (operation_deadline_error op ''direct-tcpip channel open'')
         (map_async (named_error ''SSH direct-tcpip channel open failed: '' (error_text (env_auth C)))
           (ask (DidOpenDirect target_host (ucast target_port) originator_host (ucast originator_port))
             (channel_open_direct_tcpip C h target_host (ucast target_port) originator_host
               (ucast originator_port)))))"

fun startup_event :: "russh_channel_startup_request \<Rightarrow> net_event" where
  "startup_event (RequestPty term c r pw ph) = DidPty term c r pw ph"
| "startup_event RequestShell = DidShell"
| "startup_event (Exec command) = DidExec command"

fun startup_failed :: "russh_channel_startup_request \<Rightarrow> string" where
  "startup_failed (RequestPty _ _ _ _ _) = ''SSH PTY request failed: ''"
| "startup_failed RequestShell = ''SSH shell request failed: ''"
| "startup_failed (Exec _) = ''SSH exec request failed: ''"

fun start_requests ::
  "('k, 'p, 'h, 'g, 'c) client_env \<Rightarrow> 'c \<Rightarrow> russh_channel_startup_request list \<Rightarrow> unit io async" where
  "start_requests C channel [] = ret (Ok ())"
| "start_requests C channel (request # requests) =
     then_ok (map_async (named_error (startup_failed request) (error_text (env_auth C)))
         (ask (startup_event request) (channel_request C channel request)))
       (\<lambda>_. start_requests C channel requests)"

definition start_channel_async ::
  "('k, 'p, 'h, 'g, 'c) client_env \<Rightarrow> 't russh_channel_opener \<Rightarrow> 'c \<Rightarrow> russh_channel_startup_plan \<Rightarrow>
   unit io async" where
  "start_channel_async C op channel plan =
     or_deadline (operation_deadline_error op ''channel startup'')
       (start_requests C channel (startup_requests plan))"

section \<open>Operations\<close>

text \<open>An open channel with its handle, before it is wrapped into reader and writer.\<close>

record ('h, 'c, 't) opened_channel =
  opened_handle :: 'h
  opened_channel :: 'c
  opened_runtime :: "'t russh_runtime_handle"
  opened_inactivity :: "duration option"

definition session_operation ::
  "('k, 'p, 'h, 'g, 'c) client_env \<Rightarrow> 't russh_channel_opener \<Rightarrow> ssh_connect_request \<Rightarrow>
   ('h \<times> 'c) io async" where
  "session_operation C op request =
     (let plan = connect_plan_from_request request in
      or_deadline (SshSessionError (''SSH session operation deadline exceeded after '' @
          debug_duration (op_operation_timeout op)))
        (then_ok (connect_async C op request) (\<lambda>h.
         then_ok (authenticate_async C op h (connect_auth_plan plan)) (\<lambda>_.
         then_ok (open_session_channel_async C op h) (\<lambda>channel.
         then_ok (start_channel_async C op channel (channel_startup_plan plan)) (\<lambda>_.
         ret (Ok (h, channel))))))))"

definition or_connection_cancelled :: "'a io async \<Rightarrow> 'a io async" where
  "or_connection_cancelled m =
     map_async (\<lambda>r. case r of None \<Rightarrow> Err (SshSessionError ''SSH connection cancelled'') | Some res \<Rightarrow> res)
       (or_cancelled m)"

definition open_channel ::
  "(russh_runtime_config \<Rightarrow> ('t, string) result) \<Rightarrow> ('k, 'p, 'h, 'g, 'c) client_env \<Rightarrow>
   't russh_channel_opener \<Rightarrow> ssh_connect_request \<Rightarrow> world \<Rightarrow>
   (('h, 'c, 't) opened_channel io \<times> world) option" where
  "open_channel build C op request w =
     (case runtime_handle_or_create build op of
        Inl e \<Rightarrow> Some (Err e, w)
      | Inr runtime \<Rightarrow>
          Option.bind
            (block_on (if op_connection_cancellation op
               then or_connection_cancelled (session_operation C op request)
               else session_operation C op request) w)
            (\<lambda>(r, w1). case r of
               Inl e \<Rightarrow> Some (Err e, w1)
             | Inr (h, channel) \<Rightarrow>
                 map_option (\<lambda>(_, w2).
                     (Ok \<lparr>opened_handle = h, opened_channel = channel, opened_runtime = runtime,
                         opened_inactivity = op_channel_inactivity_timeout op\<rparr>, w2))
                   (block_on (report_phase op Connected) w1)))"

definition direct_tcpip_operation ::
  "('k, 'p, 'h, 'g, 'c) client_env \<Rightarrow> 't russh_channel_opener \<Rightarrow> ssh_connect_request \<Rightarrow>
   russh_direct_tcpip_open_plan \<Rightarrow> ('h \<times> 'c) io async" where
  "direct_tcpip_operation C op request direct_plan =
     then_ok (connect_async C op request) (\<lambda>h.
     then_ok (authenticate_async C op h (connect_auth_plan (connect_plan_from_request request))) (\<lambda>_.
     then_ok (open_direct_tcpip_channel_async C op h direct_plan) (\<lambda>channel.
     ret (Ok (h, channel)))))"

definition open_direct_tcpip_channel ::
  "(russh_runtime_config \<Rightarrow> ('t, string) result) \<Rightarrow> ('k, 'p, 'h, 'g, 'c) client_env \<Rightarrow>
   't russh_channel_opener \<Rightarrow> ssh_connect_request \<Rightarrow> russh_direct_tcpip_open_plan \<Rightarrow> world \<Rightarrow>
   (('h, 'c, 't) opened_channel io \<times> world) option" where
  "open_direct_tcpip_channel build C op request direct_plan w =
     (case runtime_handle_or_create build op of
        Inl e \<Rightarrow> Some (Err e, w)
      | Inr runtime \<Rightarrow>
          map_option (\<lambda>(r, w1).
              (map_ok (\<lambda>(h, channel). \<lparr>opened_handle = h, opened_channel = channel,
                 opened_runtime = runtime, opened_inactivity = op_channel_inactivity_timeout op\<rparr>) r, w1))
            (block_on (or_deadline
               (SshSessionError (''SSH direct-tcpip operation deadline exceeded after '' @
                  debug_duration (op_operation_timeout op)))
               (direct_tcpip_operation C op request direct_plan)) w))"

text \<open>\<open>SshChannelConnector::connect\<close> wraps the channel of any opener as a session.\<close>

definition channel_connector_connect ::
  "(ssh_connect_request \<Rightarrow> world \<Rightarrow> ('o io \<times> world) option) \<Rightarrow> ('o \<Rightarrow> 's) \<Rightarrow> ssh_connect_request \<Rightarrow>
   world \<Rightarrow> ('s io \<times> world) option" where
  "channel_connector_connect open_it session request w =
     map_option (\<lambda>(r, w'). (map_ok session r, w')) (open_it request w)"

section \<open>Every operation returns\<close>

lemma tame_report [tame_intros]: "tame (report_phase op phase)"
  by (auto simp: report_phase_def intro!: tame_intros)

lemma tame_or_deadline [tame_intros]: "tame m \<Longrightarrow> tame (or_deadline e m)"
  unfolding or_deadline_def by (intro tame_intros)

lemma tame_connect_handle [tame_intros]: "tame (connect_handle C cfg addr handler)"
  unfolding connect_handle_def
  by (rule tame_await) (auto simp: tame_answer_def later_def split: prod.splits)

lemma tame_start_requests [tame_intros]: "tame (start_requests C channel reqs)"
  by (induction reqs) (auto intro!: tame_intros)

lemma tame_steps [tame_intros]:
  "tame (connect_async C op request)" "tame (authenticate_async C op h auth_plan)"
  "tame (open_session_channel_async C op h)" "tame (open_direct_tcpip_channel_async C op h plan)"
  "tame (start_channel_async C op channel startup_plan)"
  unfolding connect_async_def authenticate_async_def open_session_channel_async_def
    open_direct_tcpip_channel_async_def start_channel_async_def
  by (auto intro!: tame_intros split: prod.splits)

lemma tame_operations [tame_intros]:
  "tame (session_operation C op request)" "tame (direct_tcpip_operation C op request direct_plan)"
  "tame m \<Longrightarrow> tame (or_connection_cancelled m)"
  unfolding session_operation_def direct_tcpip_operation_def or_connection_cancelled_def Let_def
  by (intro tame_intros; assumption?)+

section \<open>Reported phases\<close>

fun phase_of :: "net_event \<Rightarrow> ssh_connection_phase option" where
  "phase_of (DidPhase p) = Some p"
| "phase_of _ = None"

definition phases_of :: "net_event list \<Rightarrow> ssh_connection_phase list" where
  "phases_of es = List.map_filter phase_of es"

lemma phases_of_simps [simp]:
  "phases_of [] = []" "phases_of (es @ fs) = phases_of es @ phases_of fs"
  "phases_of (DidPhase p # es) = p # phases_of es" "phase_of e = None \<Longrightarrow> phases_of (e # es) = phases_of es"
  by (simp_all add: phases_of_def map_filter_def)

text \<open>\<open>phased m Q\<close>: whatever the timing, the phases \<open>m\<close> reports and whether it ends in \<open>Ok\<close> satisfy
  \<open>Q\<close>.\<close>

definition phased :: "'a io async \<Rightarrow> (ssh_connection_phase list \<Rightarrow> bool \<Rightarrow> bool) \<Rightarrow> bool" where
  "phased m Q \<longleftrightarrow> (\<forall>w r w'. m w = (r, w') \<longrightarrow>
     (\<exists>es. w_trace w' = w_trace w @ es \<and> Q (phases_of es) (\<exists>v. r = Ready (Ok v))))"

lemma phased_then_ok:
  assumes "phased m (\<lambda>ps ok. ps = p1)" and "\<And>v. phased (k v) Q"
  shows "phased (then_ok m k) (\<lambda>ps ok. (ps = p1 \<and> \<not> ok) \<or> (\<exists>ps2. ps = p1 @ ps2 \<and> Q ps2 ok))"
  unfolding phased_def
proof (intro allI impI)
  fix w r w'
  assume "then_ok m k w = (r, w')"
  then show "\<exists>es. w_trace w' = w_trace w @ es \<and>
      ((phases_of es = p1 \<and> \<not> (\<exists>v. r = Ready (Ok v))) \<or>
       (\<exists>ps2. phases_of es = p1 @ ps2 \<and> Q ps2 (\<exists>v. r = Ready (Ok v))))"
  proof (cases rule: then_ok_elim)
    case (Drop d)
    with assms(1) show ?thesis unfolding phased_def by fastforce
  next
    case (Fail e)
    with assms(1) show ?thesis unfolding phased_def by fastforce
  next
    case (Go v w1)
    obtain e1 where e1: "w_trace w1 = w_trace w @ e1" "phases_of e1 = p1"
      using assms(1) Go(1) unfolding phased_def by blast
    obtain e2 where e2: "w_trace w' = w_trace w1 @ e2" "Q (phases_of e2) (\<exists>v. r = Ready (Ok v))"
      using assms(2) Go(2) unfolding phased_def by blast
    show ?thesis
      using e1 e2 by (intro exI [of _ "e1 @ e2"]) auto
  qed
qed

text \<open>Deadlines and cancellation do not change what has been reported.\<close>

lemma leave_boundary_cases:
  assumes "leave_boundary w (r0, w0) = (r, w')"
  shows "w_trace w' = w_trace w0" and "w_files w' = w_files w0" and "w_cancelled w' = w_cancelled w0"
    and "\<And>a. r = Ready (Some a) \<longleftrightarrow> r0 = Ready a"
  using assms by (auto simp: leave_boundary_def split: awaited.splits nat.splits)

lemma phased_or_deadline:
  assumes "phased m Q"
  shows "phased (or_deadline e m) Q"
  unfolding phased_def
proof (intro allI impI)
  fix w r w'
  assume run: "or_deadline e m w = (r, w')"
  obtain r0 w0 where m: "m (w\<lparr>w_depth := Suc (w_depth w)\<rparr>) = (r0, w0)" by (metis surj_pair)
  obtain r1 w1 where l: "leave_boundary w (r0, w0) = (r1, w1)" by (metis surj_pair)
  obtain es where es: "w_trace w0 = w_trace w @ es" "Q (phases_of es) (\<exists>v. r0 = Ready (Ok v))"
    using assms m unfolding phased_def by fastforce
  have "w' = w1" "(\<exists>v. r = Ready (Ok v)) \<longleftrightarrow> (\<exists>v. r1 = Ready (Some (Ok v)))"
    using run m l
    by (auto simp: or_deadline_def map_async_def then_async_def with_timeout_def ret_def
        split: awaited.splits option.splits prod.splits)
  then show "\<exists>es. w_trace w' = w_trace w @ es \<and> Q (phases_of es) (\<exists>v. r = Ready (Ok v))"
    using es leave_boundary_cases(1,4) [OF l] by auto
qed

lemma phased_or_cancelled:
  assumes "phased m Q" and "Q [] False"
  shows "phased (or_connection_cancelled m) Q"
  unfolding phased_def
proof (intro allI impI)
  fix w r w'
  assume run: "or_connection_cancelled m w = (r, w')"
  show "\<exists>es. w_trace w' = w_trace w @ es \<and> Q (phases_of es) (\<exists>v. r = Ready (Ok v))"
  proof (cases "w_cancelled w")
    case True
    with run assms(2) show ?thesis
      by (intro exI [of _ "[]"]) (auto simp: or_connection_cancelled_def or_cancelled_def map_async_def
          then_async_def ret_def)
  next
    case False
    obtain r0 w0 where m: "m (w\<lparr>w_depth := Suc (w_depth w)\<rparr>) = (r0, w0)" by (metis surj_pair)
    obtain r1 w1 where l: "leave_boundary w (r0, w0) = (r1, w1)" by (metis surj_pair)
    obtain es where es: "w_trace w0 = w_trace w @ es" "Q (phases_of es) (\<exists>v. r0 = Ready (Ok v))"
      using assms(1) m unfolding phased_def by fastforce
    have "w_trace w' = w_trace w1" "(\<exists>v. r = Ready (Ok v)) \<longleftrightarrow> (\<exists>v. r1 = Ready (Some (Ok v)))"
      using run m l False
      by (auto simp: or_connection_cancelled_def map_async_def then_async_def or_cancelled_def ret_def
          split: awaited.splits option.splits prod.splits)
    then show ?thesis using es leave_boundary_cases(1,4) [OF l] by auto
  qed
qed

text \<open>Only \<open>report_phase\<close> reports phases.\<close>

abbreviation silent :: "'a async \<Rightarrow> bool" where
  "silent m \<equiv> only (\<lambda>e. phase_of e = None) m"

lemma silent_phases: "list_all (\<lambda>e. phase_of e = None) es \<Longrightarrow> phases_of es = []"
  by (induction es) auto

lemma only_timeout [only_intros]:
  assumes "only P m"
  shows "only P (with_timeout m)"
  unfolding only_def
proof (intro allI impI)
  fix w r w'
  assume run: "with_timeout m w = (r, w')"
  obtain r0 w0 where m: "m (w\<lparr>w_depth := Suc (w_depth w)\<rparr>) = (r0, w0)" by (metis surj_pair)
  from run m have l: "leave_boundary w (r0, w0) = (r, w')" by (simp add: with_timeout_def)
  from onlyD [OF assms m] leave_boundary_cases(1) [OF l]
  show "\<exists>es. w_trace w' = w_trace w @ es \<and> list_all P es" by simp
qed

lemma only_or_deadline [only_intros]: "only P m \<Longrightarrow> only P (or_deadline e m)"
  unfolding or_deadline_def by (intro only_intros)

lemma await_trace:
  assumes "await e f w = (r, w')"
  shows "w_trace w' = w_trace (snd (f (log_event e (w\<lparr>w_awaits := Suc (w_awaits w)\<rparr>))))"
    and "w_files w' = w_files (snd (f (log_event e (w\<lparr>w_awaits := Suc (w_awaits w)\<rparr>))))"
    and "\<And>a. r = Ready a \<Longrightarrow> a = fst (f (log_event e (w\<lparr>w_awaits := Suc (w_awaits w)\<rparr>)))"
  using assms by (auto simp: await_def Let_def split: prod.splits option.splits if_splits)

lemma only_connect [only_intros]:
  assumes "\<And>host port. P (DidConnect host port)" and "\<And>c. P (DidChallenge c)"
  shows "only P (connect_handle C cfg addr handler)"
  unfolding only_def
proof (intro allI impI)
  fix w r w'
  assume "connect_handle C cfg addr handler w = (r, w')"
  from await_trace(1) [OF this [unfolded connect_handle_def]] assms
  show "\<exists>es. w_trace w' = w_trace w @ es \<and> list_all P es"
    by (auto simp: list_all_iff split: prod.splits)
qed

lemma only_authenticate [only_intros]:
  assumes "\<And>e. auth_traffic e \<Longrightarrow> P e" and "\<And>p. P (DidPrompt p)"
  shows "only P (authenticate_auth_plan_with_backend E (handle_backend E h) plan provider)"
proof -
  note handle = only_handle [THEN only_mono, OF assms(1)]
  have "only P (plan_method E h plan provider)"
    unfolding plan_method_def password_of_prompt_def prompted_passphrase_def passphrase_of_prompt_def
      prompt_secret_def
    by (auto intro!: only_intros handle assms(2)
        split: russh_auth_request.splits option.splits sum.splits)
  then show ?thesis
    unfolding only_def [of _ "authenticate_auth_plan_with_backend E (handle_backend E h) plan provider"]
    by (meson authenticate_method onlyD)
qed

lemma only_report: "(\<And>ph. P (DidPhase ph)) \<Longrightarrow> only P (report_phase op ph)"
  by (auto simp: report_phase_def intro!: only_intros)

lemma auth_traffic_silent: "auth_traffic e \<Longrightarrow> phase_of e = None"
  by (cases e) auto

lemma silent_start_requests: "silent (start_requests C channel reqs)"
proof (induction reqs)
  case (Cons a reqs)
  then show ?case by (cases a) (auto intro!: only_intros)
qed (auto intro!: only_intros)

definition reported :: "'t russh_channel_opener \<Rightarrow> ssh_connection_phase list \<Rightarrow> ssh_connection_phase list" where
  "reported op ps = (if op_phase_reporter op then ps else [])"

lemma reported_simps [simp]:
  "reported op [] = []" "reported op ps @ reported op qs = reported op (ps @ qs)"
  by (simp_all add: reported_def)

lemma phased_report:
  assumes "silent m"
  shows "phased (then_async (report_phase op ph) (\<lambda>_. m)) (\<lambda>ps ok. ps = reported op [ph])"
  unfolding phased_def
proof (intro allI impI)
  fix w r w'
  assume run: "then_async (report_phase op ph) (\<lambda>_. m) w = (r, w')"
  obtain w0 where w0: "report_phase op ph w = (Ready (), w0)"
    "\<exists>es. w_trace w0 = w_trace w @ es \<and> phases_of es = reported op [ph]"
    by (cases "op_phase_reporter op")
      (auto simp: report_phase_def emit_def ret_def reported_def intro: exI [of _ "[DidPhase ph]"])
  with run have "m w0 = (r, w')" by (simp add: then_async_def)
  with onlyD [OF assms this] w0(2) obtain e1 e2 where
    "w_trace w0 = w_trace w @ e1" "phases_of e1 = reported op [ph]"
    "w_trace w' = w_trace w0 @ e2" "phases_of e2 = []"
    using silent_phases by blast
  then show "\<exists>es. w_trace w' = w_trace w @ es \<and> phases_of es = reported op [ph]"
    by (intro exI [of _ "e1 @ e2"]) simp
qed

lemma phased_silent: "silent m \<Longrightarrow> phased m (\<lambda>ps ok. ps = [])"
  unfolding phased_def by (blast dest: onlyD silent_phases)

lemma phased_steps:
  "phased (connect_async C op request) (\<lambda>ps ok. ps = reported op [Connecting])"
  "phased (authenticate_async C op h auth_plan) (\<lambda>ps ok. ps = reported op [Authenticating])"
  "phased (open_session_channel_async C op h) (\<lambda>ps ok. ps = reported op [Opening])"
  "phased (start_channel_async C op channel plan) (\<lambda>ps ok. ps = [])"
  unfolding connect_async_def authenticate_async_def open_session_channel_async_def
    start_channel_async_def
  by (auto intro!: phased_report phased_silent only_intros silent_start_requests
      dest: auth_traffic_silent split: prod.splits)

lemma phased_ret: "phased (ret (Ok v)) (\<lambda>ps ok. ps = [] \<and> ok)"
  by (simp add: phased_def ret_def)

lemma phased_mono: "phased m P \<Longrightarrow> (\<And>ps ok. P ps ok \<Longrightarrow> Q ps ok) \<Longrightarrow> phased m Q"
  unfolding phased_def by blast

definition opening_phases :: "'t russh_channel_opener \<Rightarrow> ssh_connection_phase list \<Rightarrow> bool \<Rightarrow> bool" where
  "opening_phases op ps ok \<longleftrightarrow>
     (if ok then ps = reported op [Connecting, Authenticating, Opening]
      else \<exists>n \<le> 3. ps = reported op (take n [Connecting, Authenticating, Opening]))"

lemma opening_phases_take:
  "opening_phases op (reported op [Connecting]) False"
  "opening_phases op (reported op [Connecting, Authenticating]) False"
  "opening_phases op (reported op [Connecting, Authenticating, Opening]) False"
  "opening_phases op [] False"
  unfolding opening_phases_def
  by (auto intro: exI [of _ 1] exI [of _ 2] exI [of _ 3] exI [of _ 0])

lemma phased_session_operation: "phased (session_operation C op request) (opening_phases op)"
  unfolding session_operation_def Let_def
proof (rule phased_or_deadline, rule phased_mono)
  show "phased (then_ok (connect_async C op request) (\<lambda>h.
         then_ok (authenticate_async C op h (connect_auth_plan (connect_plan_from_request request))) (\<lambda>_.
         then_ok (open_session_channel_async C op h) (\<lambda>channel.
         then_ok (start_channel_async C op channel
           (channel_startup_plan (connect_plan_from_request request))) (\<lambda>_. ret (Ok (h, channel)))))))
     (\<lambda>ps ok. (ps = reported op [Connecting] \<and> \<not> ok) \<or> (\<exists>ps2. ps = reported op [Connecting] @ ps2 \<and>
       ((ps2 = reported op [Authenticating] \<and> \<not> ok) \<or> (\<exists>ps3. ps2 = reported op [Authenticating] @ ps3 \<and>
       ((ps3 = reported op [Opening] \<and> \<not> ok) \<or> (\<exists>ps4. ps3 = reported op [Opening] @ ps4 \<and>
       ((ps4 = [] \<and> \<not> ok) \<or> (\<exists>ps5. ps4 = [] @ ps5 \<and> (ps5 = [] \<and> ok)))))))))"
    by (intro phased_then_ok phased_steps phased_ret)
qed (auto simp: opening_phases_take, simp add: opening_phases_def)

section \<open>Successful runs\<close>

text \<open>A step that ended in \<open>Ok\<close> under a deadline or cancellation ended so without it.\<close>

lemma or_deadline_ok:
  assumes "or_deadline e m w = (Ready (Ok v), w')"
  obtains w0 where "m (w\<lparr>w_depth := Suc (w_depth w)\<rparr>) = (Ready (Ok v), w0)"
    "w_trace w' = w_trace w0" "w_files w' = w_files w0"
proof -
  obtain r0 w0 where m: "m (w\<lparr>w_depth := Suc (w_depth w)\<rparr>) = (r0, w0)" by (metis surj_pair)
  obtain r1 w1 where l: "leave_boundary w (r0, w0) = (r1, w1)" by (metis surj_pair)
  have "w' = w1" "r1 = Ready (Some (Ok v))"
    using assms m l
    by (auto simp: or_deadline_def map_async_def then_async_def with_timeout_def ret_def
        split: awaited.splits option.splits prod.splits)
  then have "r0 = Ready (Ok v)" using leave_boundary_cases(4) [OF l, of "Ok v"] by simp
  then show ?thesis
    using that [of w0] m leave_boundary_cases(1,2) [OF l] \<open>w' = w1\<close> by simp
qed

lemma or_connection_cancelled_ok:
  assumes "or_connection_cancelled m w = (Ready (Ok v), w')"
  obtains w0 where "m (w\<lparr>w_depth := Suc (w_depth w)\<rparr>) = (Ready (Ok v), w0)"
    "w_trace w' = w_trace w0" "w_files w' = w_files w0"
proof -
  obtain r0 w0 where m: "m (w\<lparr>w_depth := Suc (w_depth w)\<rparr>) = (r0, w0)" by (metis surj_pair)
  obtain r1 w1 where l: "leave_boundary w (r0, w0) = (r1, w1)" by (metis surj_pair)
  have "w' = w1" "r1 = Ready (Some (Ok v))"
    using assms m l
    by (auto simp: or_connection_cancelled_def map_async_def then_async_def or_cancelled_def ret_def
        split: awaited.splits option.splits prod.splits if_splits)
  then have "r0 = Ready (Ok v)" using leave_boundary_cases(4) [OF l, of "Ok v"] by simp
  then show ?thesis
    using that [of w0] m leave_boundary_cases(1,2) [OF l] \<open>w' = w1\<close> by simp
qed

text \<open>The events of a report.\<close>

definition report_events :: "'t russh_channel_opener \<Rightarrow> ssh_connection_phase \<Rightarrow> net_event list" where
  "report_events op ph = (if op_phase_reporter op then [DidPhase ph] else [])"

lemma report_phase_eq:
  "report_phase op ph w = (Ready (), w\<lparr>w_trace := w_trace w @ report_events op ph\<rparr>)"
  by (simp add: report_phase_def report_events_def emit_def ret_def log_event_def)

lemma report_then:
  "then_async (report_phase op ph) (\<lambda>_. m) w = m (w\<lparr>w_trace := w_trace w @ report_events op ph\<rparr>)"
  by (simp add: then_async_def report_phase_eq)

lemma connect_handle_ok:
  assumes "connect_handle C cfg addr handler w = (Ready (Ok h), w')" and "connect_checks_key C"
  shows "\<exists>key challenges files. check_server_key (env_keys C) handler key (w_files w) =
    (Ok True, challenges, files)"
proof -
  from await_trace(3) [OF assms(1) [unfolded connect_handle_def] refl] obtain w2 challenges files where
    "tcp_connect C cfg addr (check_server_key (env_keys C) handler) w2 = (Ok h, challenges, files)"
    "w_files w2 = w_files w"
    by (auto split: prod.splits)
  with assms(2) show ?thesis unfolding connect_checks_key_def by metis
qed

lemma connect_async_ok:
  assumes "connect_async C op request w = (Ready (Ok h), w')" and "connect_checks_key C"
  defines "c \<equiv> request_config request"
  shows "(\<exists>key challenges files. check_server_key (env_keys C)
      (handler_for_host op (config_host c) (config_port c) :: unit russh_client_handler) key (w_files w) =
        (Ok True, challenges, files)) \<and> (\<exists>es. w_trace w' = w_trace w @ es)"
proof -
  let ?h = "handler_for_host op (config_host c) (config_port c) :: unit russh_client_handler"
  let ?m = "map_async (named_error ''SSH connect failed: '' (error_text (env_auth C)))
    (connect_handle C (op_client_config op) (config_host c, config_port c) ?h)"
  define w1 where "w1 = w\<lparr>w_trace := w_trace w @ report_events op Connecting\<rparr>"
  have w1: "w_files w1 = w_files w"
    "or_deadline (operation_deadline_error op ''connect'') ?m w1 = (Ready (Ok h), w')"
    using assms(1)
    by (simp_all add: connect_async_def report_then connect_socket_addr_def
        connect_plan_from_request_def c_def w1_def)
  obtain w0 where m: "?m (w1\<lparr>w_depth := Suc (w_depth w1)\<rparr>) = (Ready (Ok h), w0)"
    using or_deadline_ok [OF w1(2)] by blast
  then have "connect_handle C (op_client_config op) (config_host c, config_port c) ?h
      (w1\<lparr>w_depth := Suc (w_depth w1)\<rparr>) = (Ready (Ok h), w0)"
    by (rule map_async_elim) (auto simp: eq_commute [of "Ok h"])
  from connect_handle_ok [OF this assms(2)] w1(1) have
    "\<exists>key challenges files. check_server_key (env_keys C) ?h key (w_files w) = (Ok True, challenges, files)"
    by simp
  moreover have "\<exists>es. w_trace w' = w_trace w @ es"
    using tameD(1) [OF tame_steps(1) assms(1)] by (simp add: later_def)
  ultimately show ?thesis by blast
qed

lemma authenticate_async_ok:
  assumes "authenticate_async C op h plan w = (Ready (Ok x), w')"
  shows "\<exists>es e. w_trace w' = w_trace w @ es @ [e] \<and> granted (env_auth C) h (auth_username plan) e"
proof -
  let ?m = "authenticate_auth_plan_with_backend (env_auth C) (handle_backend (env_auth C) h) plan
    (op_secret_provider op)"
  define e1 w1 where "e1 = report_events op Authenticating" and "w1 = w\<lparr>w_trace := w_trace w @ e1\<rparr>"
  have w1: "w_trace w1 = w_trace w @ e1"
    "or_deadline (operation_deadline_error op ''authentication'') ?m w1 = (Ready (Ok x), w')"
    using assms by (simp_all add: authenticate_async_def report_then e1_def w1_def)
  obtain w0 where m: "?m (w1\<lparr>w_depth := Suc (w_depth w1)\<rparr>) = (Ready (Ok x), w0)" "w_trace w' = w_trace w0"
    using or_deadline_ok [OF w1(2)] by blast
  have "plan_method (env_auth C) h plan (op_secret_provider op) (w1\<lparr>w_depth := Suc (w_depth w1)\<rparr>) =
      (Ready (Ok AuthSuccess), w0)"
    using authenticate_method [OF m(1)] by auto
  then obtain es e where "w_trace w0 = w_trace w1 @ es @ [e]" "granted (env_auth C) h (auth_username plan) e"
    using plan_method_granted [of "env_auth C" h plan "op_secret_provider op", unfolded ends_granted_def]
    by fastforce
  with w1(1) m(2) show ?thesis by (intro exI [of _ "e1 @ es"] exI [of _ e]) simp
qed

lemma open_session_ok:
  assumes "open_session_channel_async C op h w = (Ready (Ok channel), w')"
  shows "w_trace w' = w_trace w @ report_events op Opening @ [DidOpenSession]"
proof -
  let ?m = "map_async (named_error ''SSH channel open failed: '' (error_text (env_auth C)))
    (ask DidOpenSession (channel_open_session C h))"
  define w1 where "w1 = w\<lparr>w_trace := w_trace w @ report_events op Opening\<rparr>"
  have w1: "w_trace w1 = w_trace w @ report_events op Opening"
    "or_deadline (operation_deadline_error op ''channel open'') ?m w1 = (Ready (Ok channel), w')"
    using assms by (simp_all add: open_session_channel_async_def report_then w1_def)
  obtain w0 where m: "?m (w1\<lparr>w_depth := Suc (w_depth w1)\<rparr>) = (Ready (Ok channel), w0)"
    "w_trace w' = w_trace w0"
    using or_deadline_ok [OF w1(2)] by blast
  with map_ask_cases [OF m(1)] w1(1) show ?thesis by simp
qed

lemma start_requests_ok:
  "start_requests C channel reqs w = (Ready (Ok u), w') \<Longrightarrow>
     w_trace w' = w_trace w @ map startup_event reqs"
proof (induction reqs arbitrary: w)
  case Nil
  then show ?case by (simp add: ret_def)
next
  case (Cons req reqs)
  from Cons.prems have "then_ok (map_async (named_error (startup_failed req) (error_text (env_auth C)))
         (ask (startup_event req) (channel_request C channel req)))
       (\<lambda>_. start_requests C channel reqs) w = (Ready (Ok u), w')" by simp
  then show ?case
  proof (cases rule: then_ok_elim)
    case (Go v w1)
    have "w_trace w1 = w_trace w @ [startup_event req]" using map_ask_cases [OF Go(1)] by blast
    with Cons.IH [OF Go(2)] show ?thesis by simp
  qed auto
qed

lemma start_channel_ok:
  assumes "start_channel_async C op channel plan w = (Ready (Ok u), w')"
  shows "w_trace w' = w_trace w @ map startup_event (startup_requests plan)"
proof -
  obtain w0 where "start_requests C channel (startup_requests plan) (w\<lparr>w_depth := Suc (w_depth w)\<rparr>) =
      (Ready (Ok u), w0)" "w_trace w' = w_trace w0"
    using or_deadline_ok [OF assms [unfolded start_channel_async_def]] by blast
  with start_requests_ok show ?thesis by fastforce
qed

text \<open>What a successfully opened session has done.\<close>

definition opened_properly ::
  "('k, 'p, 'h, 'g, 'c) client_env \<Rightarrow> 't russh_channel_opener \<Rightarrow> ssh_connect_request \<Rightarrow> 'h \<Rightarrow>
   file_system \<Rightarrow> net_event list \<Rightarrow> bool" where
  "opened_properly C op request h files es \<longleftrightarrow>
     (let c = request_config request in
      (\<exists>key challenges files'. check_server_key (env_keys C)
         (handler_for_host op (config_host c) (config_port c) :: unit russh_client_handler) key files =
           (Ok True, challenges, files')) \<and>
      (\<exists>before attempt. granted (env_auth C) h (config_username c) attempt \<and>
         es = before @ [attempt] @ report_events op Opening @ [DidOpenSession] @
           map startup_event (startup_requests (channel_startup_plan (connect_plan_from_request request)))))"

lemma session_operation_ok:
  assumes "session_operation C op request w = (Ready (Ok (h, channel)), w')" and "connect_checks_key C"
  shows "\<exists>es. w_trace w' = w_trace w @ es \<and> opened_properly C op request h (w_files w) es"
proof -
  let ?plan = "connect_plan_from_request request"
  let ?w = "w\<lparr>w_depth := Suc (w_depth w)\<rparr>"
  obtain w0 where run: "then_ok (connect_async C op request) (\<lambda>h.
         then_ok (authenticate_async C op h (connect_auth_plan ?plan)) (\<lambda>_.
         then_ok (open_session_channel_async C op h) (\<lambda>channel.
         then_ok (start_channel_async C op channel (channel_startup_plan ?plan)) (\<lambda>_.
         ret (Ok (h, channel)))))) ?w = (Ready (Ok (h, channel)), w0)" and tr: "w_trace w' = w_trace w0"
    using or_deadline_ok [OF assms(1) [unfolded session_operation_def Let_def]] by blast
  obtain h' w1 where 1: "connect_async C op request ?w = (Ready (Ok h'), w1)"
    and r1: "then_ok (authenticate_async C op h' (connect_auth_plan ?plan)) (\<lambda>_.
         then_ok (open_session_channel_async C op h') (\<lambda>channel.
         then_ok (start_channel_async C op channel (channel_startup_plan ?plan)) (\<lambda>_.
         ret (Ok (h', channel))))) w1 = (Ready (Ok (h, channel)), w0)"
    using run by (rule then_ok_elim) auto
  obtain a w2 where 2: "authenticate_async C op h' (connect_auth_plan ?plan) w1 = (Ready (Ok a), w2)"
    and r2: "then_ok (open_session_channel_async C op h') (\<lambda>channel.
         then_ok (start_channel_async C op channel (channel_startup_plan ?plan)) (\<lambda>_.
         ret (Ok (h', channel)))) w2 = (Ready (Ok (h, channel)), w0)"
    using r1 by (rule then_ok_elim) auto
  obtain ch w3 where 3: "open_session_channel_async C op h' w2 = (Ready (Ok ch), w3)"
    and r3: "then_ok (start_channel_async C op ch (channel_startup_plan ?plan)) (\<lambda>_.
         ret (Ok (h', ch))) w3 = (Ready (Ok (h, channel)), w0)"
    using r2 by (rule then_ok_elim) auto
  obtain u w4 where 4: "start_channel_async C op ch (channel_startup_plan ?plan) w3 = (Ready (Ok u), w4)"
    and r4: "h' = h \<and> w4 = w0"
    using r3 by (rule then_ok_elim) (auto simp: ret_def)
  obtain e1 where e1: "w_trace w1 = w_trace w @ e1"
    using connect_async_ok [OF 1 assms(2)] by auto
  obtain e2 e where e2: "w_trace w2 = w_trace w1 @ e2 @ [e]"
    "granted (env_auth C) h (auth_username (connect_auth_plan ?plan)) e"
    using authenticate_async_ok [OF 2] r4 by blast
  have key: "\<exists>key challenges files. check_server_key (env_keys C)
      (handler_for_host op (config_host (request_config request)) (config_port (request_config request))
        :: unit russh_client_handler) key (w_files w) = (Ok True, challenges, files)"
    using connect_async_ok [OF 1 assms(2)] by simp
  have "w_trace w' = w_trace w @ (e1 @ e2) @ [e] @ report_events op Opening @ [DidOpenSession] @
      map startup_event (startup_requests (channel_startup_plan ?plan))"
    using tr start_channel_ok [OF 4] open_session_ok [OF 3] e1 e2(1) r4 by simp
  with key e2(2) show ?thesis
    by (intro exI [of _ "(e1 @ e2) @ [e] @ report_events op Opening @ [DidOpenSession] @
      map startup_event (startup_requests (channel_startup_plan ?plan))"])
      (auto simp: opened_properly_def Let_def connect_plan_from_request_def auth_plan_from_request_def)
qed

text \<open>\<open>open_channel\<close>, once there is a runtime, in terms of the operation it runs.\<close>

definition guarded_operation ::
  "('k, 'p, 'h, 'g, 'c) client_env \<Rightarrow> 't russh_channel_opener \<Rightarrow> ssh_connect_request \<Rightarrow> ('h \<times> 'c) io async" where
  "guarded_operation C op request =
     (if op_connection_cancellation op
      then or_connection_cancelled (session_operation C op request)
      else session_operation C op request)"

lemma tame_guarded [tame_intros]: "tame (guarded_operation C op request)"
  by (auto simp: guarded_operation_def intro!: tame_intros)

lemma phased_guarded: "phased (guarded_operation C op request) (opening_phases op)"
  by (auto simp: guarded_operation_def intro!: phased_session_operation phased_or_cancelled
      opening_phases_take)

lemma guarded_ok:
  assumes "guarded_operation C op request w = (Ready (Ok (h, channel)), w')" and "connect_checks_key C"
  shows "\<exists>es. w_trace w' = w_trace w @ es \<and> opened_properly C op request h (w_files w) es"
proof (cases "op_connection_cancellation op")
  case True
  obtain w0 where "session_operation C op request (w\<lparr>w_depth := Suc (w_depth w)\<rparr>) =
      (Ready (Ok (h, channel)), w0)" "w_trace w' = w_trace w0"
    using assms(1) True or_connection_cancelled_ok by (metis guarded_operation_def)
  with session_operation_ok [OF _ assms(2)] show ?thesis by fastforce
next
  case False
  with assms(1) session_operation_ok [OF _ assms(2)] show ?thesis
    by (simp add: guarded_operation_def)
qed

lemma open_channel_run:
  assumes "runtime_handle_or_create build op = Ok runtime"
  obtains (Fail) e w1 where "open_channel build C op request w = Some (Err e, w1)"
      "guarded_operation C op request (w\<lparr>w_depth := 0\<rparr>) = (Ready (Err e), w1\<lparr>w_depth := 0\<rparr>)"
  | (Open) h channel w1 w2 where
      "guarded_operation C op request (w\<lparr>w_depth := 0\<rparr>) = (Ready (Ok (h, channel)), w1)"
      "open_channel build C op request w =
         Some (Ok \<lparr>opened_handle = h, opened_channel = channel, opened_runtime = runtime,
                  opened_inactivity = op_channel_inactivity_timeout op\<rparr>, w2)"
      "w_trace w2 = w_trace w1 @ report_events op Connected" "w_files w2 = w_files w1"
proof -
  obtain r w1 where g: "guarded_operation C op request (w\<lparr>w_depth := 0\<rparr>) = (r, w1)" by (metis surj_pair)
  note t = tameD [OF tame_guarded g]
  obtain res where r: "r = Ready res" using t(2) by (cases r) auto
  have d: "w_depth w1 = 0" using t(1) by (simp add: later_def)
  show ?thesis
  proof (cases res)
    case (Inl e)
    have "open_channel build C op request w = Some (Err e, w1\<lparr>w_depth := w_depth w\<rparr>)"
      using assms g r Inl by (simp add: open_channel_def block_on_def guarded_operation_def)
    with g r Inl d show ?thesis by (intro Fail [of e "w1\<lparr>w_depth := w_depth w\<rparr>"]) simp_all
  next
    case (Inr hc)
    obtain h channel where hc: "hc = (h, channel)" by (metis surj_pair)
    let ?w2 = "w1\<lparr>w_trace := w_trace w1 @ report_events op Connected, w_depth := w_depth w\<rparr>"
    have "open_channel build C op request w =
         Some (Ok \<lparr>opened_handle = h, opened_channel = channel, opened_runtime = runtime,
                  opened_inactivity = op_channel_inactivity_timeout op\<rparr>, ?w2)"
      using assms g r Inr hc
      by (simp add: open_channel_def block_on_def guarded_operation_def report_phase_eq)
    with g r Inr hc show ?thesis by (intro Open [of h channel w1 ?w2]) simp_all
  qed
qed

lemma open_channel_opened:
  assumes "connect_checks_key C" and "open_channel build C op request w = Some (Ok opened, w')"
  shows "\<exists>es. w_trace w' = w_trace w @ es @ report_events op Connected \<and>
    opened_properly C op request (opened_handle opened) (w_files w) es"
proof (cases "runtime_handle_or_create build op")
  case (Inl e)
  with assms(2) show ?thesis by (simp add: open_channel_def)
next
  case (Inr runtime)
  then show ?thesis
  proof (cases rule: open_channel_run [of build op runtime C request w])
    case (Fail e w1)
    with assms(2) show ?thesis by simp
  next
    case (Open h channel w1 w2)
    obtain es where "w_trace w1 = w_trace w @ es" "opened_properly C op request h (w_files w) es"
      using guarded_ok [OF Open(1) assms(1)] by auto
    with Open(2,3) assms(2) show ?thesis by auto
  qed
qed

section \<open>A concrete client\<close>

text \<open>A server that shows key 1 and goes on when it is accepted, and lets everybody open a
  session.\<close>

definition demo_client :: "(nat, unit, unit, unit, unit) client_env" where
  "demo_client =
     \<lparr>env_auth = demo_auth_env, env_keys = demo_keys,
      tcp_connect = \<lambda>cfg addr check w.
        (case check 1 (w_files w) of (r, challenges, files) \<Rightarrow>
           (if r = Ok True then Ok () else Err (RusshOther ''rejected''), challenges, files)),
      channel_open_session = \<lambda>h w. Ok (),
      channel_open_direct_tcpip = \<lambda>h th tp oh op w. Ok (),
      channel_request = \<lambda>c r w. Ok ()\<rparr>"

definition demo_opener :: "unit russh_channel_opener" where
  "demo_opener = with_connection_cancellation (with_phase_reporter
     (with_host_key_policy AcceptUnknown opener_default))"

definition demo_request :: ssh_connect_request where
  "demo_request = \<lparr>request_config = \<lparr>config_host = ''h.example'', config_port = 22,
       config_username = ''u'', config_initial_size = \<lparr>columns = 80, rows = 24\<rparr>\<rparr>,
     request_auth = Password ''secret'', request_startup = Shell\<rparr>"

lemma demo_connect_checks: "connect_checks_key demo_client"
  by (auto simp: connect_checks_key_def demo_client_def split: prod.splits if_splits)

lemma demo_key_accepted:
  "check_server_key demo_keys (handler_for_host demo_opener host port :: unit russh_client_handler) 1
     (w_files demo_world) = (Ok True, [], w_files demo_world)"
  by (simp add: check_server_key_def handler_for_host_def handler_for_endpoint_def demo_opener_def
      with_connection_cancellation_def with_phase_reporter_def with_host_key_policy_def opener_default_def
      opener_new_def server_key_status_def demo_keys_def Let_def demo_world_def file_contents_def str_lines_def)

lemma demo_open:
  "\<exists>w'. open_channel (\<lambda>_. Ok ()) demo_client demo_opener demo_request demo_world =
     Some (Ok \<lparr>opened_handle = (), opened_channel = (), opened_runtime =
       \<lparr>handle_runtime = (), handle_config = runtime_config_production\<rparr>, opened_inactivity = None\<rparr>, w')"
  using demo_key_accepted [of "''h.example''" 22]
  by (simp add: open_channel_def runtime_handle_or_create_def build_production_def block_on_def
      session_operation_def or_connection_cancelled_def or_cancelled_def or_deadline_def with_timeout_def
      leave_boundary_def connect_async_def report_then report_phase_eq connect_socket_addr_def
      connect_plan_from_request_def channel_startup_plan_def channel_open_plan_from_request_def
      startup_plan_from_open_plan_def connect_handle_def authenticate_async_def auth_plan_from_request_def
      open_session_channel_async_def start_channel_async_def demo_client_def demo_request_def
      demo_auth_simps demo_opener_def with_connection_cancellation_def with_phase_reporter_def
      with_host_key_policy_def opener_default_def opener_new_def)

section \<open>Properties\<close>

text \<open>
  Opening a session always returns, whatever the server, the deadlines and the
  cancellation do, and the milestones it reports are in order and truthful: on success
  connecting, authenticating, opening and connected, on failure a prefix of the first three,
  so that connected is reported exactly when a channel is returned.
\<close>

theorem open_channel_phases:
  assumes "op_phase_reporter op"
  shows "\<exists>res w' es. open_channel build C op request w = Some (res, w') \<and>
    w_trace w' = w_trace w @ es \<and>
    (case res of
       Inr _ \<Rightarrow> phases_of es = [Connecting, Authenticating, Opening, Connected]
     | Inl _ \<Rightarrow> \<exists>n \<le> 3. phases_of es = take n [Connecting, Authenticating, Opening])"
proof (cases "runtime_handle_or_create build op")
  case (Inl e)
  then have "open_channel build C op request w = Some (Err e, w)" by (simp add: open_channel_def)
  then show ?thesis by (intro exI [of _ "Err e"] exI [of _ w] exI [of _ "[]"]) (auto intro: exI [of _ 0])
next
  case (Inr runtime)
  have rep: "reported op ps = ps" for ps using assms by (simp add: reported_def)
  from Inr show ?thesis
  proof (cases rule: open_channel_run [of build op runtime C request w])
    case (Fail e w1)
    obtain es where "w_trace w1 = w_trace w @ es" "opening_phases op (phases_of es) False"
      using phased_guarded [of C op request] Fail(2) unfolding phased_def by fastforce
    with Fail(1) show ?thesis
      by (intro exI [of _ "Err e"] exI [of _ w1] exI [of _ es]) (simp add: opening_phases_def rep)
  next
    case (Open h channel w1 w2)
    obtain es where "w_trace w1 = w_trace w @ es" "opening_phases op (phases_of es) True"
      using phased_guarded [of C op request] Open(1) unfolding phased_def by fastforce
    with Open(2,3) assms show ?thesis
      by (intro exI exI [of _ "es @ report_events op Connected"] conjI)
        (auto simp: opening_phases_def rep report_events_def)
  qed
qed

theorem open_channel_phases_witness:
  "\<exists>w'. open_channel (\<lambda>_. Err ''no threads'') demo_client demo_opener demo_request demo_world =
     Some (Err (SshSessionError ''SSH async runtime creation failed: no threads''), w') \<and>
     phases_of (w_trace w') = []"
proof -
  have rt: "open_channel (\<lambda>_. Err ''no threads'') demo_client demo_opener demo_request demo_world =
      Some (Err (SshSessionError ''SSH async runtime creation failed: no threads''), demo_world)"
    by (simp add: open_channel_def runtime_handle_or_create_def build_production_def demo_opener_def
        with_connection_cancellation_def with_phase_reporter_def with_host_key_policy_def opener_default_def
        opener_new_def runtime_creation_failed_def)
  have "op_phase_reporter demo_opener"
    by (simp add: demo_opener_def with_connection_cancellation_def with_phase_reporter_def)
  from open_channel_phases [OF this, of "\<lambda>_. Err ''no threads''" demo_client demo_request demo_world] rt
  obtain es where "w_trace demo_world = w_trace demo_world @ es" by auto
  with rt show ?thesis by (simp add: demo_world_def)
qed

text \<open>
  C4. A session is opened only to a verified server and an authenticated user: when
  \<open>open_channel\<close> returns a channel, the server's key was accepted by \<open>check_server_key\<close> for
  exactly the requested host and port under the opener's policy and store, and the last
  authentication attempt, for the requested user on the returned handle, was granted before
  the channel was opened; then exactly the planned startup requests were made, in order.
  Assumed of \<open>russh\<close>: a connection is established only when the handler accepts the key.
\<close>

theorem open_channel_verified:
  assumes "connect_checks_key C" and "open_channel build C op request w = Some (Ok opened, w')"
  shows "\<exists>es. w_trace w' = w_trace w @ es @ report_events op Connected \<and>
    opened_properly C op request (opened_handle opened) (w_files w) es"
  using assms by (rule open_channel_opened)

theorem open_channel_verified_witness:
  "\<exists>opened w' es. open_channel (\<lambda>_. Ok ()) demo_client demo_opener demo_request demo_world =
       Some (Ok opened, w') \<and> w_trace w' = es @ [DidPhase Connected] \<and>
     opened_properly demo_client demo_opener demo_request (opened_handle opened) (w_files demo_world) es"
proof -
  obtain opened w' where run: "open_channel (\<lambda>_. Ok ()) demo_client demo_opener demo_request demo_world =
      Some (Ok opened, w')"
    using demo_open by blast
  from open_channel_verified [OF demo_connect_checks run] run show ?thesis
    by (auto simp: demo_world_def report_events_def demo_opener_def with_connection_cancellation_def
        with_phase_reporter_def)
qed

text \<open>
  A connection cancelled before it starts does nothing: with a cancellation handle
  installed and already cancelled, \<open>open_channel\<close> reports the cancellation without a single
  event on the network, prompt or phase, and without touching a file.
\<close>

theorem cancelled_open_does_nothing:
  assumes "op_connection_cancellation op" and "w_cancelled w"
    and "runtime_handle_or_create build op = Ok runtime"
  shows "open_channel build C op request w =
    Some (Err (SshSessionError ''SSH connection cancelled''), w)"
  using assms
  by (simp add: open_channel_def block_on_def or_connection_cancelled_def map_async_def
      then_async_def or_cancelled_def ret_def)

theorem cancelled_open_does_nothing_witness:
  "open_channel (\<lambda>_. Ok ()) demo_client demo_opener demo_request (demo_world\<lparr>w_cancelled := True\<rparr>) =
     Some (Err (SshSessionError ''SSH connection cancelled''), demo_world\<lparr>w_cancelled := True\<rparr>)"
  by (rule cancelled_open_does_nothing)
    (simp_all add: demo_opener_def with_connection_cancellation_def with_phase_reporter_def
      with_host_key_policy_def opener_default_def opener_new_def runtime_handle_or_create_def
      build_production_def)

end
