(* ===== verification/Forwarding.thy ===== *)
theory Forwarding
  imports Opener
begin

text \<open>
  Port forwarding, \<open>crates/rssh-ssh/src/russh_client.rs\<close> lines 1297 to 1505 and 1888 to 2285:
  bridging a local stream to a direct-tcpip channel, opening a remote listener, the handler
  of the connections the server forwards, and the object that waits for and shuts down a
  remote forward.

  The flag \<open>w_cancelled\<close> of the world is that of the forward's cancellation handle. The
  counter of child tasks is shared with the tasks, so its value is read off the world.
  Deadlines can fire at every \<open>await\<close>, so the durations given to them do not matter here.
\<close>

section \<open>The outside\<close>

record ('h, 'c, 'l) forward_env =
  fwd_error_text :: "russh_error \<Rightarrow> string"
  fwd_tcpip_forward :: "'h \<Rightarrow> string \<Rightarrow> u32 \<Rightarrow> world \<Rightarrow> (u32, russh_error) result"
  fwd_cancel_tcpip :: "'h \<Rightarrow> string \<Rightarrow> u32 \<Rightarrow> world \<Rightarrow> (unit, russh_error) result"
  fwd_disconnect :: "'h \<Rightarrow> world \<Rightarrow> (unit, russh_error) result"
  fwd_session_end :: "'h \<Rightarrow> world \<Rightarrow> (unit, russh_error) result"
  fwd_set_nonblocking :: "'l \<Rightarrow> (unit, string) result"
  fwd_from_std :: "'l \<Rightarrow> (unit, string) result"
  fwd_copy :: "'l \<Rightarrow> 'c \<Rightarrow> world \<Rightarrow> (u64 \<times> u64, string) result"
  fwd_stream_shutdown :: "'c \<Rightarrow> world \<Rightarrow> (unit, string) result"
  fwd_channel_close :: "'c \<Rightarrow> world \<Rightarrow> (unit, russh_error) result"
  fwd_target_connect :: "string \<times> u16 \<Rightarrow> world \<Rightarrow> ('l, string) result"
  fwd_active_tasks :: "world \<Rightarrow> u64"

definition timeout_after :: "duration \<Rightarrow> 'a async \<Rightarrow> 'a option async" where
  "timeout_after d m = with_timeout m"

section \<open>Sessions that carry a forward\<close>

record remote_forward_session =
  fs_cancel_tcpip_forward :: "string \<Rightarrow> u32 \<Rightarrow> unit io async"
  fs_disconnect :: "unit io async"
  fs_wait :: "unit io async"
  fs_wait_after_disconnect :: "unit io async"

definition session_ended :: "(russh_error \<Rightarrow> string) \<Rightarrow> (unit, russh_error) result \<Rightarrow> unit io" where
  "session_ended text r =
     (case r of
        Inr _ \<Rightarrow> Ok ()
      | Inl RusshDisconnect \<Rightarrow> Ok ()
      | Inl e \<Rightarrow> Err (SshSessionError (''SSH forwarding session failed: '' @ text e)))"

definition handle_session :: "('h, 'c, 'l) forward_env \<Rightarrow> 'h \<Rightarrow> remote_forward_session" where
  "handle_session F h =
     \<lparr>fs_cancel_tcpip_forward = \<lambda>bind_host bind_port.
        map_async (named_error ''SSH remote forwarding cancellation failed: '' (fwd_error_text F))
          (ask (DidCancelForward bind_host bind_port) (fwd_cancel_tcpip F h bind_host bind_port)),
      fs_disconnect = map_async (named_error ''SSH disconnect failed: '' (fwd_error_text F))
        (ask DidDisconnect (fwd_disconnect F h)),
      fs_wait = map_async (named_error ''SSH forwarding session failed: '' (fwd_error_text F))
        (ask DidWait (fwd_session_end F h)),
      fs_wait_after_disconnect = map_async (session_ended (fwd_error_text F))
        (ask DidWait (fwd_session_end F h))\<rparr>"

text \<open>\<open>wait_for_empty().await\<close>: no suspension when the counter is 0 already.\<close>

definition wait_for_empty :: "('h, 'c, 'l) forward_env \<Rightarrow> unit async" where
  "wait_for_empty F =
     with_world (\<lambda>w. if fwd_active_tasks F w = 0 then ret () else ask DidDrainTasks (\<lambda>_. ()))"

section \<open>Shutting down\<close>

record remote_forward_shutdown_outcome =
  shutdown_outcome_result :: "unit io"
  shutdown_session_terminal :: bool
  shutdown_terminal :: bool

definition shutdown_timed_out :: ssh_session_error where
  "shutdown_timed_out = SshSessionError ''SSH remote forwarding shutdown timed out''"

definition shutdown_steps ::
  "('h, 'c, 'l) forward_env \<Rightarrow> remote_forward_session \<Rightarrow> string \<Rightarrow> u32 \<Rightarrow>
   remote_forward_shutdown_outcome async" where
  "shutdown_steps F S bind_host bind_port =
     then_async (fs_cancel_tcpip_forward S bind_host bind_port) (\<lambda>cancel_result.
     then_async (fs_disconnect S) (\<lambda>disconnect_result.
     then_async (fs_wait_after_disconnect S) (\<lambda>wait_result.
     then_async (emit DidSessionTerminal) (\<lambda>_.
     then_async (wait_for_empty F) (\<lambda>_.
     ret \<lparr>shutdown_outcome_result = res_and (res_and cancel_result disconnect_result) wait_result,
          shutdown_session_terminal = True, shutdown_terminal = True\<rparr>)))))"

text \<open>The atomic \<open>session_terminal\<close> is local to the call: it has been stored to exactly when the
  event is in the part of the trace the call has written.\<close>

definition shutdown_remote_forward_session_and_tasks ::
  "('h, 'c, 'l) forward_env \<Rightarrow> remote_forward_session \<Rightarrow> string \<Rightarrow> u32 \<Rightarrow> duration \<Rightarrow>
   remote_forward_shutdown_outcome async" where
  "shutdown_remote_forward_session_and_tasks F S bind_host bind_port timeout =
     with_world (\<lambda>w0.
       then_async (timeout_after timeout (shutdown_steps F S bind_host bind_port)) (\<lambda>r.
         case r of
           Some outcome \<Rightarrow> ret outcome
         | None \<Rightarrow> with_world (\<lambda>w1. ret
             \<lparr>shutdown_outcome_result = Err shutdown_timed_out,
              shutdown_session_terminal = DidSessionTerminal \<in> set (drop (length (w_trace w0)) (w_trace w1)),
              shutdown_terminal = False\<rparr>)))"

definition run_forward_startup :: "duration \<Rightarrow> 'a io async \<Rightarrow> 'a io async" where
  "run_forward_startup timeout startup =
     map_async (\<lambda>r. case r of
         None \<Rightarrow> Err (SshSessionError ''SSH forwarding startup timed out'') | Some res \<Rightarrow> res)
       (timeout_after timeout
         (map_async (\<lambda>r. case r of
             None \<Rightarrow> Err (SshSessionError ''SSH forwarding startup cancelled'') | Some res \<Rightarrow> res)
           (or_cancelled startup)))"

definition complete_established_forward :: "unit io \<Rightarrow> unit io async \<Rightarrow> unit io async" where
  "complete_established_forward operation_result cleanup =
     map_async (\<lambda>cleanup_result. res_and operation_result cleanup_result) cleanup"

definition complete_remote_forward_session ::
  "'n notify_ops \<Rightarrow> ('h, 'c, 'l) forward_env \<Rightarrow> unit io \<Rightarrow> 'n cancellation \<Rightarrow> duration \<Rightarrow>
   (unit io \<times> 'n cancellation) async" where
  "complete_remote_forward_session N F session_result c timeout =
     (let c' = cancellation_cancel N c in
      map_async (\<lambda>drained. (res_and session_result
          (case drained of None \<Rightarrow> Err shutdown_timed_out | Some _ \<Rightarrow> Ok ()), c'))
        (timeout_after timeout (wait_for_empty F)))"

section \<open>The remote forward\<close>

record ('h, 'n, 't) russh_remote_tcpip_forward =
  rf_runtime :: 't
  rf_handle :: "'h option"
  rf_bind_host :: string
  rf_bind_port :: u16
  rf_cancellation :: "'n cancellation"
  rf_deadlines :: forward_deadlines

type_synonym ('h, 'n, 't) forward_step =
  "('h, 'n, 't) russh_remote_tcpip_forward \<Rightarrow> world \<Rightarrow>
   ((unit io \<times> ('h, 'n, 't) russh_remote_tcpip_forward) \<times> world) option"

definition forward_complete ::
  "'n notify_ops \<Rightarrow> ('h, 'c, 'l) forward_env \<Rightarrow> unit io \<Rightarrow> duration \<Rightarrow> ('h, 'n, 't) forward_step" where
  "forward_complete N F result timeout f w =
     map_option (\<lambda>((r, c), w'). ((r, f\<lparr>rf_cancellation := c\<rparr>), w'))
       (block_on (complete_remote_forward_session N F result (rf_cancellation f) timeout) w)"

definition forward_wait :: "'n notify_ops \<Rightarrow> ('h, 'c, 'l) forward_env \<Rightarrow> ('h, 'n, 't) forward_step" where
  "forward_wait N F f w =
     (case rf_handle f of
        None \<Rightarrow> forward_complete N F (Ok ()) (deadline_shutdown (rf_deadlines f)) f w
      | Some h \<Rightarrow>
          Option.bind (block_on (fs_wait (handle_session F h)) w) (\<lambda>(result, w1).
            forward_complete N F result (deadline_shutdown (rf_deadlines f)) (f\<lparr>rf_handle := None\<rparr>) w1))"

definition forward_shutdown ::
  "'n notify_ops \<Rightarrow> ('h, 'c, 'l) forward_env \<Rightarrow> duration \<Rightarrow> ('h, 'n, 't) forward_step" where
  "forward_shutdown N F timeout f0 w =
     (let f = f0\<lparr>rf_cancellation := cancellation_cancel N (rf_cancellation f0)\<rparr> in
      case rf_handle f of
        None \<Rightarrow> forward_complete N F (Ok ()) timeout f w
      | Some h \<Rightarrow>
          map_option (\<lambda>(outcome, w').
              ((shutdown_outcome_result outcome,
                if shutdown_session_terminal outcome then f\<lparr>rf_handle := None\<rparr> else f), w'))
            (block_on (shutdown_remote_forward_session_and_tasks F (handle_session F h)
               (rf_bind_host f) (ucast (rf_bind_port f)) timeout) w))"

definition forward_wait_until_cancelled ::
  "'n notify_ops \<Rightarrow> ('h, 'c, 'l) forward_env \<Rightarrow> duration \<Rightarrow> ('h, 'n, 't) forward_step" where
  "forward_wait_until_cancelled N F timeout f w =
     (case rf_handle f of
        None \<Rightarrow> forward_complete N F (Ok ()) timeout f w
      | Some h \<Rightarrow>
          Option.bind (block_on (or_cancelled (fs_wait (handle_session F h))) w) (\<lambda>(stop, w1).
            case stop of
              None \<Rightarrow> forward_shutdown N F timeout f w1
            | Some result \<Rightarrow> forward_complete N F result timeout (f\<lparr>rf_handle := None\<rparr>) w1))"

definition forward_drop :: "'n notify_ops \<Rightarrow> ('h, 'c, 'l) forward_env \<Rightarrow>
   ('h, 'n, 't) russh_remote_tcpip_forward \<Rightarrow> world \<Rightarrow>
   (('h, 'n, 't) russh_remote_tcpip_forward \<times> world) option" where
  "forward_drop N F f w =
     (if remote_forward_cleanup_required (rf_handle f \<noteq> None)
           \<lparr>tracker_active = fwd_active_tasks F w, tracker_changed = ()\<rparr>
      then map_option (\<lambda>((_, f'), w'). (f', w')) (forward_shutdown N F (millis 250) f w)
      else Some (f, w))"

section \<open>Opening a remote forward\<close>

text \<open>The handler given to \<open>connect\<close> shares the resolved port with the operation; the operation
  returns the forward with the port it has stored there.\<close>

definition remote_forward_operation ::
  "('k, 'p, 'h, 'g, 'c) client_env \<Rightarrow> ('h, 'c, 'l) forward_env \<Rightarrow> 't russh_channel_opener \<Rightarrow>
   ssh_connect_request \<Rightarrow> russh_remote_tcpip_forward_plan \<Rightarrow> 'n cancellation \<Rightarrow> 'n task_tracker \<Rightarrow>
   forward_deadlines \<Rightarrow> ('h \<times> u16 \<times> resolved_remote_forward) io async" where
  "remote_forward_operation C F op request remote_plan cancel tracker deadlines =
     (let plan = connect_plan_from_request request;
          (host, port) = connect_socket_addr plan;
          (bind_host, bind_port) = remote_forward_bind remote_plan;
          resolved = resolved_new remote_plan
      in then_ok (map_async (named_error ''SSH connect failed: '' (error_text (env_auth C)))
           (connect_handle C (op_client_config op) (host, port)
             (handler_for_host_with_remote_forward_lifecycle op host port resolved cancel tracker
               deadlines))) (\<lambda>h.
         then_ok (authenticate_async C op h (connect_auth_plan plan)) (\<lambda>_.
         then_ok (map_async (named_error ''SSH remote TCP forwarding failed: '' (fwd_error_text F))
           (ask (DidTcpipForward bind_host (ucast bind_port))
             (fwd_tcpip_forward F h bind_host (ucast bind_port)))) (\<lambda>returned.
         ret (case resolved_remote_forward_bound_port bind_port returned of
            Inl e \<Rightarrow> Err e
          | Inr bound_port \<Rightarrow> Ok (h, bound_port, resolve_bind_port bound_port resolved))))))"

definition open_remote_tcpip_forward_with_lifecycle ::
  "('t, string) result \<Rightarrow> 'n \<Rightarrow> ('k, 'p, 'h, 'g, 'c) client_env \<Rightarrow> ('h, 'c, 'l) forward_env \<Rightarrow>
   't russh_channel_opener \<Rightarrow> ssh_connect_request \<Rightarrow> russh_remote_tcpip_forward_plan \<Rightarrow>
   'n cancellation \<Rightarrow> forward_deadlines \<Rightarrow> world \<Rightarrow>
   ((('h, 'n, 't) russh_remote_tcpip_forward \<times> resolved_remote_forward) io \<times> world) option" where
  "open_remote_tcpip_forward_with_lifecycle built wake C F op request remote_plan cancel deadlines w =
     (case built of
        Inl e \<Rightarrow> Some (Err (runtime_creation_failed e), w)
      | Inr runtime \<Rightarrow>
          map_option (\<lambda>(r, w').
              (map_ok (\<lambda>(h, bound_port, resolved).
                 (\<lparr>rf_runtime = runtime, rf_handle = Some h,
                   rf_bind_host = forward_bind_host remote_plan, rf_bind_port = bound_port,
                   rf_cancellation = cancel, rf_deadlines = deadlines\<rparr>, resolved)) r, w'))
            (block_on (run_forward_startup (deadline_startup deadlines)
               (remote_forward_operation C F op request remote_plan cancel (tracker_default wake)
                 deadlines)) w))"

definition open_remote_tcpip_forward ::
  "('t, string) result \<Rightarrow> 'n \<Rightarrow> ('k, 'p, 'h, 'g, 'c) client_env \<Rightarrow> ('h, 'c, 'l) forward_env \<Rightarrow>
   't russh_channel_opener \<Rightarrow> ssh_connect_request \<Rightarrow> russh_remote_tcpip_forward_plan \<Rightarrow> world \<Rightarrow>
   ((('h, 'n, 't) russh_remote_tcpip_forward \<times> resolved_remote_forward) io \<times> world) option" where
  "open_remote_tcpip_forward built wake C F op request remote_plan w =
     open_remote_tcpip_forward_with_lifecycle built wake C F op request remote_plan
       (cancellation_new wake) (forward_deadlines_new (secs 30) (secs 1)) w"

text \<open>The forward is dropped at the end of \<open>start_remote_tcpip_forward\<close>.\<close>

definition start_remote_tcpip_forward ::
  "'n notify_ops \<Rightarrow> ('t, string) result \<Rightarrow> 'n \<Rightarrow> ('k, 'p, 'h, 'g, 'c) client_env \<Rightarrow>
   ('h, 'c, 'l) forward_env \<Rightarrow> 't russh_channel_opener \<Rightarrow> ssh_connect_request \<Rightarrow>
   russh_remote_tcpip_forward_plan \<Rightarrow> world \<Rightarrow> (unit io \<times> world) option" where
  "start_remote_tcpip_forward N built wake C F op request remote_plan w =
     Option.bind (open_remote_tcpip_forward built wake C F op request remote_plan w) (\<lambda>(r, w1).
       case r of
         Inl e \<Rightarrow> Some (Err e, w1)
       | Inr (f, _) \<Rightarrow>
           Option.bind (forward_wait N F f w1) (\<lambda>((res, f'), w2).
             map_option (\<lambda>(_, w3). (res, w3)) (forward_drop N F f' w2)))"

section \<open>Bridging a local stream\<close>

definition transfer_forward ::
  "('h, 'c, 'l) forward_env \<Rightarrow> 'l \<Rightarrow> (world \<Rightarrow> unit io) \<Rightarrow> 'c \<Rightarrow> unit io async" where
  "transfer_forward F local ready channel =
     then_async (emit DidReady) (\<lambda>_. with_world (\<lambda>w.
       case ready w of
         Inl e \<Rightarrow> ret (Err e)
       | Inr _ \<Rightarrow>
           (case fwd_from_std F local of
              Inl e \<Rightarrow> ret (Err (SshSessionError (''local forwarding stream setup failed: '' @ e)))
            | Inr _ \<Rightarrow>
                map_async (\<lambda>r. case r of
                    None \<Rightarrow> Ok ()
                  | Some res \<Rightarrow> map_ok (\<lambda>_. ()) (named_error ''SSH forwarding transfer failed: '' (\<lambda>e. e) res))
                  (or_cancelled (ask DidCopy (fwd_copy F local channel))))))"

definition close_forward ::
  "('h, 'c, 'l) forward_env \<Rightarrow> 'h \<Rightarrow> 'c \<Rightarrow> unit io async" where
  "close_forward F h channel =
     then_async (map_async (named_error ''SSH forwarding channel shutdown failed: '' (\<lambda>e. e))
       (ask DidChannelShutdown (fwd_stream_shutdown F channel))) (\<lambda>channel_result.
     then_async (fs_disconnect (handle_session F h)) (\<lambda>disconnect_result.
     then_async (fs_wait (handle_session F h)) (\<lambda>wait_result.
     ret (res_and (res_and channel_result disconnect_result) wait_result))))"

definition direct_forward_operation ::
  "('k, 'p, 'h, 'g, 'c) client_env \<Rightarrow> ('h, 'c, 'l) forward_env \<Rightarrow> 't russh_channel_opener \<Rightarrow>
   ssh_connect_request \<Rightarrow> russh_direct_tcpip_open_plan \<Rightarrow> 'l \<Rightarrow> forward_deadlines \<Rightarrow>
   (world \<Rightarrow> unit io) \<Rightarrow> unit io async" where
  "direct_forward_operation C F op request direct_plan local deadlines ready =
     then_ok (run_forward_startup (deadline_startup deadlines)
         (direct_tcpip_operation C op request direct_plan)) (\<lambda>(h, channel).
       then_async (transfer_forward F local ready channel) (\<lambda>transfer_result.
         complete_established_forward transfer_result
           (map_async (\<lambda>r. case r of
               None \<Rightarrow> Err (SshSessionError ''SSH forwarding shutdown timed out'') | Some res \<Rightarrow> res)
             (timeout_after (deadline_shutdown deadlines) (close_forward F h channel)))))"

text \<open>\<open>built\<close> is what \<open>build_direct_forward_runtime\<close> got from the builder.\<close>

definition forward_direct_tcpip_stream_with_ready ::
  "('r, string) result \<Rightarrow> ('k, 'p, 'h, 'g, 'c) client_env \<Rightarrow> ('h, 'c, 'l) forward_env \<Rightarrow>
   't russh_channel_opener \<Rightarrow> ssh_connect_request \<Rightarrow> russh_direct_tcpip_open_plan \<Rightarrow> 'l \<Rightarrow>
   forward_deadlines \<Rightarrow> (world \<Rightarrow> unit io) \<Rightarrow> world \<Rightarrow> (unit io \<times> world) option" where
  "forward_direct_tcpip_stream_with_ready built C F op request direct_plan local deadlines ready w =
     (case fwd_set_nonblocking F local of
        Inl e \<Rightarrow> Some (Err (SshSessionError (''local forwarding stream setup failed: '' @ e)), w)
      | Inr _ \<Rightarrow>
          (case built of
             Inl e \<Rightarrow> Some (Err (runtime_creation_failed e), w)
           | Inr _ \<Rightarrow>
               block_on (direct_forward_operation C F op request direct_plan local deadlines ready) w))"

definition forward_direct_tcpip_stream ::
  "('r, string) result \<Rightarrow> ('k, 'p, 'h, 'g, 'c) client_env \<Rightarrow> ('h, 'c, 'l) forward_env \<Rightarrow>
   't russh_channel_opener \<Rightarrow> ssh_connect_request \<Rightarrow> russh_direct_tcpip_open_plan \<Rightarrow> 'l \<Rightarrow>
   forward_deadlines \<Rightarrow> world \<Rightarrow> (unit io \<times> world) option" where
  "forward_direct_tcpip_stream built C F op request direct_plan local deadlines w =
     forward_direct_tcpip_stream_with_ready built C F op request direct_plan local deadlines
       (\<lambda>_. Ok ()) w"

section \<open>Connections the server forwards\<close>

text \<open>The task spawned for a matching channel; its guard on the task counter is dropped when it
  ends.\<close>

definition forwarded_channel_task ::
  "('h, 'c, 'l) forward_env \<Rightarrow> resolved_remote_forward \<Rightarrow> forward_deadlines \<Rightarrow> 'c \<Rightarrow> unit async" where
  "forwarded_channel_task F forward deadlines channel =
     (let (target_host, target_port) = resolved_target forward in
      then_async (run_forward_startup (deadline_startup deadlines)
          (map_async (named_error ''SSH remote forwarding target connect failed: '' (\<lambda>e. e))
            (ask (DidTargetConnect target_host target_port)
              (fwd_target_connect F (target_host, target_port))))) (\<lambda>r.
      then_async (case r of
          Inl _ \<Rightarrow> ret ()
        | Inr local \<Rightarrow> map_async (\<lambda>_. ()) (or_cancelled (ask DidCopy (fwd_copy F local channel)))) (\<lambda>_.
      map_async (\<lambda>_. ())
        (timeout_after (deadline_shutdown deadlines)
          (ask DidChannelShutdown (fwd_stream_shutdown F channel))))))"

text \<open>The callback returns its answer with the task it spawned and the counter it registered the
  task in, when there is one.\<close>

definition server_channel_open_forwarded_tcpip ::
  "'n \<Rightarrow> ('h, 'c, 'l) forward_env \<Rightarrow> 'n russh_client_handler \<Rightarrow> 'c \<Rightarrow> string \<Rightarrow> u32 \<Rightarrow>
   ((unit, russh_error) result \<times> (unit async \<times> 'n task_tracker) option) async" where
  "server_channel_open_forwarded_tcpip wake F handler channel connected_address connected_port =
     (case find (\<lambda>forward. matches_connected_endpoint forward connected_address connected_port)
             (handler_remote_forwards handler) of
        None \<Rightarrow> map_async (\<lambda>r. (r, None)) (ask DidChannelClose (fwd_channel_close F channel))
      | Some forward \<Rightarrow>
          (let tracker = (case handler_forward_task_tracker handler of
                 Some t \<Rightarrow> t | None \<Rightarrow> tracker_default wake);
               deadlines = (case handler_forward_deadlines handler of
                 Some d \<Rightarrow> d | None \<Rightarrow> forward_deadlines_new (secs 30) (secs 1))
           in ret (Ok (), Some (forwarded_channel_task F forward deadlines channel,
                tracker_register tracker))))"

section \<open>Every block returns\<close>

lemma tame_timeout_after [tame_intros]: "tame m \<Longrightarrow> tame (timeout_after d m)"
  unfolding timeout_after_def by (rule tame_timeout)

lemma tame_session [tame_intros]:
  "tame (fs_cancel_tcpip_forward (handle_session F h) host port)" "tame (fs_disconnect (handle_session F h))"
  "tame (fs_wait (handle_session F h))" "tame (fs_wait_after_disconnect (handle_session F h))"
  by (auto simp: handle_session_def intro!: tame_intros)

lemma tame_wait_for_empty [tame_intros]: "tame (wait_for_empty F)"
  by (auto simp: wait_for_empty_def intro!: tame_intros)

lemma tame_shutdown [tame_intros]:
  "tame (shutdown_steps F (handle_session F h) host port)"
  "tame (shutdown_remote_forward_session_and_tasks F (handle_session F h) host port timeout)"
  unfolding shutdown_steps_def shutdown_remote_forward_session_and_tasks_def
  by (auto intro!: tame_intros split: option.splits)

lemma tame_startup [tame_intros]: "tame m \<Longrightarrow> tame (run_forward_startup d m)"
  unfolding run_forward_startup_def by (intro tame_intros)

lemma tame_complete [tame_intros]:
  "tame m \<Longrightarrow> tame (complete_established_forward r m)"
  "tame (complete_remote_forward_session N F r c d)"
  unfolding complete_established_forward_def complete_remote_forward_session_def Let_def
  by (intro tame_intros; assumption?)+

lemma tame_transfer [tame_intros]:
  "tame (transfer_forward F local ready channel)" "tame (close_forward F h channel)"
  unfolding transfer_forward_def close_forward_def
  by (auto intro!: tame_intros split: sum.splits)

lemma tame_remote_forward_operation [tame_intros]:
  "tame (remote_forward_operation C F op request remote_plan cancel tracker deadlines)"
  unfolding remote_forward_operation_def Let_def
  by (auto intro!: tame_intros split: prod.splits)

lemma tame_direct_forward_operation [tame_intros]:
  "tame (direct_forward_operation C F op request direct_plan local deadlines ready)"
  unfolding direct_forward_operation_def
  by (auto intro!: tame_intros split: prod.splits)

section \<open>What the blocks do\<close>

lemma timeout_elim:
  assumes "timeout_after d m w = (r, w')"
  obtains r0 w0 where "m (w\<lparr>w_depth := Suc (w_depth w)\<rparr>) = (r0, w0)" "w_trace w' = w_trace w0"
    "w_files w' = w_files w0" "w_cancelled w' = w_cancelled w0" "\<And>a. r = Ready (Some a) \<longleftrightarrow> r0 = Ready a"
proof -
  obtain r0 w0 where m: "m (w\<lparr>w_depth := Suc (w_depth w)\<rparr>) = (r0, w0)" by (metis surj_pair)
  with assms have "leave_boundary w (r0, w0) = (r, w')" by (simp add: timeout_after_def with_timeout_def)
  from that [OF m leave_boundary_cases [OF this]] show ?thesis .
qed

lemma block_on_elim:
  assumes "block_on m w = Some (a, w')"
  obtains w1 where "m (w\<lparr>w_depth := 0\<rparr>) = (Ready a, w1)" "w_trace w' = w_trace w1"
    "w_files w' = w_files w1" "w_cancelled w' = w_cancelled w1"
  using assms by (auto simp: block_on_def split: prod.splits awaited.splits)

text \<open>The requests of a shutdown, in order.\<close>

definition shutdown_events :: "string \<Rightarrow> u32 \<Rightarrow> net_event list" where
  "shutdown_events host port =
     [DidCancelForward host port, DidDisconnect, DidWait, DidSessionTerminal, DidDrainTasks]"

text \<open>The result of a shutdown whose three requests were answered.\<close>

definition shutdown_result ::
  "('h, 'c, 'l) forward_env \<Rightarrow> (unit, russh_error) result \<Rightarrow> (unit, russh_error) result \<Rightarrow>
   (unit, russh_error) result \<Rightarrow> unit io" where
  "shutdown_result F c d e =
     res_and (res_and (named_error ''SSH remote forwarding cancellation failed: '' (fwd_error_text F) c)
       (named_error ''SSH disconnect failed: '' (fwd_error_text F) d)) (session_ended (fwd_error_text F) e)"

lemma wait_for_empty_cases:
  assumes "wait_for_empty F w = (r, w')"
  shows "(w_trace w' = w_trace w \<and> r = Ready ()) \<or> w_trace w' = w_trace w @ [DidDrainTasks]"
  using assms
  by (auto simp: wait_for_empty_def with_world_def ret_def dest: ask_cases split: if_splits)

text \<open>One question of a sequence: the block is dropped there, or goes on with the answer.\<close>

lemma then_ask_elim:
  assumes "then_async (map_async g (ask e f)) k w = (r, w')"
  obtains (Drop) d where "r = Dropped d" "w_trace w' = w_trace w @ [e]"
  | (Go) w1 where "w_trace w1 = w_trace w @ [e]" "w_files w1 = w_files w" "k (g (f w1)) w1 = (r, w')"
  using assms
proof (cases rule: then_async_elim)
  case (Drop d)
  with map_ask_cases [OF Drop(1)] show ?thesis using that(1) by blast
next
  case (Go a w1)
  with map_ask_cases [OF Go(1)] show ?thesis using that(2) by blast
qed

text \<open>The world in which an answer arrives, and the awaits that the deadline of a block cuts off, counted
  from where the block starts: those that would complete too late or never.\<close>

definition asked :: "net_event \<Rightarrow> world \<Rightarrow> world" where
  "asked e w = log_event e (w\<lparr>w_awaits := Suc (w_awaits w)\<rparr>)"

definition expires :: "world \<Rightarrow> nat \<Rightarrow> bool" where
  "expires w k \<longleftrightarrow> w_cut w (w_awaits w + k) = Some 0"

lemma asked_simps [simp]:
  "w_trace (asked e w) = w_trace w @ [e]" "w_awaits (asked e w) = Suc (w_awaits w)" "w_cut (asked e w) = w_cut w"
  "w_depth (asked e w) = w_depth w"
  by (simp_all add: asked_def)

lemma ask_deadline:
  assumes "w_depth w = Suc 0"
  shows "ask e f w = (if w_cut w (w_awaits w) = Some 0 then Dropped 0 else Ready (f (asked e w)), asked e w)"
  using assms
  by (cases "w_cut w (w_awaits w)") (auto simp: ask_def await_def asked_def Let_def log_event_def)

text \<open>The first of the three requests that the deadline cuts off.\<close>

definition request_cut :: "world \<Rightarrow> nat option" where
  "request_cut w = find (expires w) [0, 1, 2]"

text \<open>The worlds in which the three requests of a shutdown are answered.\<close>

abbreviation (input) cancel_answered where "cancel_answered host port w \<equiv> asked (DidCancelForward host port) w"
abbreviation (input) disconnect_answered where "disconnect_answered host port w \<equiv> asked DidDisconnect (cancel_answered host port w)"
abbreviation (input) session_awaited where "session_awaited host port w \<equiv> asked DidWait (disconnect_answered host port w)"

lemma wait_for_empty_deadline:
  assumes "w_depth w = Suc 0"
  shows "wait_for_empty F w = (if fwd_active_tasks F w = 0 then (Ready (), w)
    else (if w_cut w (w_awaits w) = Some 0 then Dropped 0 else Ready (), asked DidDrainTasks w))"
  using assms by (simp add: wait_for_empty_def with_world_def ret_def ask_deadline)

lemma shutdown_steps_cut:
  assumes "w_depth w = Suc 0" and "request_cut w = Some k"
  shows "\<exists>w'. shutdown_steps F (handle_session F h) host port w = (Dropped 0, w') \<and>
    w_trace w' = w_trace w @ take (Suc k) (shutdown_events host port) \<and> k < 3"
  using assms(2)
  by (auto simp: assms(1) shutdown_steps_def handle_session_def map_async_def then_async_def ret_def ask_deadline
      request_cut_def expires_def shutdown_events_def numeral_2_eq_2 split: if_splits)

lemma shutdown_steps_answered:
  fixes host :: string and port :: u32 and w :: world and F :: "('h, 'c, 'l) forward_env"
  assumes "w_depth w = Suc 0" and "request_cut w = None"
  defines "w3 \<equiv> session_awaited host port w"
  defines "tasks \<equiv> fwd_active_tasks F (log_event DidSessionTerminal w3) \<noteq> 0"
  shows "\<exists>w'. shutdown_steps F (handle_session F h) host port w =
      (if tasks \<and> expires w 3 then Dropped 0
       else Ready \<lparr>shutdown_outcome_result = shutdown_result F (fwd_cancel_tcpip F h host port (cancel_answered host port w))
           (fwd_disconnect F h (disconnect_answered host port w)) (fwd_session_end F h w3),
         shutdown_session_terminal = True, shutdown_terminal = True\<rparr>, w') \<and>
    w_trace w' = w_trace w @ take (if tasks then 5 else 4) (shutdown_events host port)"
  using assms(2)
  by (auto simp: assms(1) shutdown_steps_def handle_session_def map_async_def then_async_def ret_def ask_deadline emit_def
      request_cut_def expires_def shutdown_events_def wait_for_empty_deadline shutdown_result_def w3_def tasks_def
      eval_nat_numeral split: if_splits)

text \<open>How the shutdown ends when the deadline expires, and when it does not.\<close>

lemma shutdown_block:
  assumes "shutdown_steps F S host port (w\<lparr>w_depth := Suc 0\<rparr>) = (r0, w0)" and "r0 = Dropped 0 \<or> (\<exists>out. r0 = Ready out)"
  shows "\<exists>w'. block_on (shutdown_remote_forward_session_and_tasks F S host port timeout) w =
      Some (case r0 of Ready out \<Rightarrow> out
        | Dropped d \<Rightarrow> \<lparr>shutdown_outcome_result = Err shutdown_timed_out,
            shutdown_session_terminal = DidSessionTerminal \<in> set (drop (length (w_trace w)) (w_trace w0)),
            shutdown_terminal = False\<rparr>, w') \<and> w_trace w' = w_trace w0"
  using assms
  by (auto simp: block_on_def shutdown_remote_forward_session_and_tasks_def with_world_def then_async_def timeout_after_def
      with_timeout_def leave_boundary_def ret_def)

lemma run_forward_startup_ok:
  assumes "run_forward_startup d m w = (Ready (Ok v), w')"
  obtains w1 w0 where "m w1 = (Ready (Ok v), w0)" "w_trace w1 = w_trace w" "w_files w1 = w_files w"
    "w_trace w' = w_trace w0" "w_files w' = w_files w0"
proof -
  obtain r where t: "timeout_after d (map_async (\<lambda>r. case r of
      None \<Rightarrow> Err (SshSessionError ''SSH forwarding startup cancelled'') | Some res \<Rightarrow> res)
        (or_cancelled m)) w = (Ready (Some (Ok v)), w')"
    using assms unfolding run_forward_startup_def
    by (rule map_async_elim) (auto split: option.splits)
  obtain r2 w2 where m2: "map_async (\<lambda>r. case r of
      None \<Rightarrow> Err (SshSessionError ''SSH forwarding startup cancelled'') | Some res \<Rightarrow> res)
        (or_cancelled m) (w\<lparr>w_depth := Suc (w_depth w)\<rparr>) = (r2, w2)"
    "Ready (Some (Ok v)) = Ready (Some (Ok v)) \<longleftrightarrow> r2 = Ready (Ok v)"
    and w2: "w_trace w' = w_trace w2" "w_files w' = w_files w2"
    by (rule timeout_elim [OF t]) blast
  from m2 have "or_cancelled m (w\<lparr>w_depth := Suc (w_depth w)\<rparr>) = (Ready (Some (Ok v)), w2)"
    by (auto elim!: map_async_elim split: option.splits)
  note c = this w2
  let ?w = "w\<lparr>w_depth := Suc (Suc (w_depth w))\<rparr>"
  obtain r0 w0 where m: "m ?w = (r0, w0)" by (metis surj_pair)
  obtain r1 w1 where l: "leave_boundary (w\<lparr>w_depth := Suc (w_depth w)\<rparr>) (r0, w0) = (r1, w1)"
    by (metis surj_pair)
  have "r1 = Ready (Some (Ok v))" "w2 = w1"
    using c(1) m l by (auto simp: or_cancelled_def split: if_splits awaited.splits option.splits)
  with leave_boundary_cases [OF l] m have "m ?w = (Ready (Ok v), w0)" "w_trace w2 = w_trace w0"
    "w_files w2 = w_files w0" by auto
  with that [of ?w w0] c(2,3) show ?thesis by simp
qed

text \<open>The server's key is accepted for the requested endpoint.\<close>

definition key_verified ::
  "('k, 'p, 'h, 'g, 'c) client_env \<Rightarrow> 't russh_channel_opener \<Rightarrow> ssh_connect_request \<Rightarrow> file_system \<Rightarrow> bool" where
  "key_verified C op request files \<longleftrightarrow>
     (\<exists>key challenges files'. check_server_key (env_keys C)
        (handler_for_host op (config_host (request_config request)) (config_port (request_config request))
          :: unit russh_client_handler) key files = (Ok True, challenges, files'))"

text \<open>The events of an established direct-tcpip channel end with the granted attempt and the
  request for the planned target.\<close>

definition direct_open_event :: "russh_direct_tcpip_open_plan \<Rightarrow> net_event" where
  "direct_open_event plan =
     DidOpenDirect (fst (direct_target plan)) (ucast (snd (direct_target plan)))
       (fst (direct_originator plan)) (ucast (snd (direct_originator plan)))"

definition direct_established ::
  "('k, 'p, 'h, 'g, 'c) client_env \<Rightarrow> 't russh_channel_opener \<Rightarrow> ssh_connect_request \<Rightarrow>
   russh_direct_tcpip_open_plan \<Rightarrow> 'h \<Rightarrow> net_event list \<Rightarrow> bool" where
  "direct_established C op request direct_plan h es \<longleftrightarrow>
     (\<exists>before attempt. granted (env_auth C) h (config_username (request_config request)) attempt \<and>
        es = before @ [attempt, direct_open_event direct_plan])"

lemma open_direct_ok:
  assumes "open_direct_tcpip_channel_async C op h plan w = (Ready (Ok channel), w')"
  shows "w_trace w' = w_trace w @ [direct_open_event plan]"
proof -
  obtain th tp where t: "direct_target plan = (th, tp)" by (metis surj_pair)
  obtain oh opt where o: "direct_originator plan = (oh, opt)" by (metis surj_pair)
  obtain w0 where w0: "map_async (named_error ''SSH direct-tcpip channel open failed: '' (error_text (env_auth C)))
      (ask (DidOpenDirect th (ucast tp) oh (ucast opt))
        (channel_open_direct_tcpip C h th (ucast tp) oh (ucast opt)))
      (w\<lparr>w_depth := Suc (w_depth w)\<rparr>) = (Ready (Ok channel), w0)" "w_trace w' = w_trace w0"
    using or_deadline_ok [OF assms [unfolded open_direct_tcpip_channel_async_def t o Let_def prod.case]]
    by blast
  from map_ask_cases [OF w0(1)] w0(2) show ?thesis by (simp add: direct_open_event_def t o)
qed

lemma direct_operation_ok:
  assumes "direct_tcpip_operation C op request direct_plan w = (Ready (Ok (h, channel)), w')"
    and "connect_checks_key C"
  shows "key_verified C op request (w_files w) \<and>
    (\<exists>es. w_trace w' = w_trace w @ es \<and> direct_established C op request direct_plan h es)"
proof -
  let ?plan = "connect_plan_from_request request"
  obtain h' w1 where 1: "connect_async C op request w = (Ready (Ok h'), w1)"
    and r1: "then_ok (authenticate_async C op h' (connect_auth_plan ?plan)) (\<lambda>_.
       then_ok (open_direct_tcpip_channel_async C op h' direct_plan) (\<lambda>channel.
       ret (Ok (h', channel)))) w1 = (Ready (Ok (h, channel)), w')"
    using assms(1) [unfolded direct_tcpip_operation_def] by (rule then_ok_elim) auto
  obtain a w2 where 2: "authenticate_async C op h' (connect_auth_plan ?plan) w1 = (Ready (Ok a), w2)"
    and r2: "then_ok (open_direct_tcpip_channel_async C op h' direct_plan) (\<lambda>channel.
       ret (Ok (h', channel))) w2 = (Ready (Ok (h, channel)), w')"
    using r1 by (rule then_ok_elim) auto
  obtain ch where 3: "open_direct_tcpip_channel_async C op h' direct_plan w2 = (Ready (Ok ch), w')"
    "h' = h"
    using r2 by (rule then_ok_elim) (auto simp: ret_def)
  obtain e1 where "w_trace w1 = w_trace w @ e1" using connect_async_ok [OF 1 assms(2)] by auto
  moreover obtain e2 e where "w_trace w2 = w_trace w1 @ e2 @ [e]"
    "granted (env_auth C) h (auth_username (connect_auth_plan ?plan)) e"
    using authenticate_async_ok [OF 2] 3(2) by blast
  moreover have "key_verified C op request (w_files w)"
    using connect_async_ok [OF 1 assms(2)] by (simp add: key_verified_def)
  ultimately show ?thesis
    using open_direct_ok [OF 3(1)]
    by (auto simp: direct_established_def connect_plan_from_request_def auth_plan_from_request_def)
qed

lemma or_cancelled_once:
  assumes "or_cancelled m w = (r, w')" and "\<And>w r w'. m w = (r, w') \<Longrightarrow> w_trace w' = w_trace w @ [e]"
  shows "w_trace w' = w_trace w \<or> w_trace w' = w_trace w @ [e]"
proof -
  obtain r0 w0 where m: "m (w\<lparr>w_depth := Suc (w_depth w)\<rparr>) = (r0, w0)" by (metis surj_pair)
  obtain r1 w1 where l: "leave_boundary w (r0, w0) = (r1, w1)" by (metis surj_pair)
  have "w_trace w1 = w_trace w @ [e]"
    using assms(2) [OF m] leave_boundary_cases(1) [OF l] by simp
  then show ?thesis
    using assms(1) m l by (auto simp: or_cancelled_def split: if_splits awaited.splits option.splits)
qed

lemma or_cancelled_ask:
  "or_cancelled (ask e f) w = (r, w') \<Longrightarrow> w_trace w' = w_trace w \<or> w_trace w' = w_trace w @ [e]"
  by (erule or_cancelled_once) (auto dest: ask_cases)

lemma transfer_run:
  assumes "transfer_forward F local ready channel w = (r, w')"
  shows "\<exists>copy. copy \<in> {[], [DidCopy]} \<and> w_trace w' = w_trace w @ DidReady # copy \<and>
    (\<forall>e. ready (log_event DidReady w) = Err e \<longrightarrow> r = Ready (Err e))"
proof (cases "ready (log_event DidReady w)")
  case (Inl e)
  with assms show ?thesis
    by (intro exI [of _ "[]"]) (auto simp: transfer_forward_def then_async_def emit_def with_world_def ret_def)
next
  case (Inr u)
  show ?thesis
  proof (cases "fwd_from_std F local")
    case (Inl e)
    with assms Inr show ?thesis
      by (intro exI [of _ "[]"]) (auto simp: transfer_forward_def then_async_def emit_def with_world_def ret_def)
  next
    case (Inr v)
    with assms \<open>ready _ = Inr u\<close> have "map_async (\<lambda>r. case r of
          None \<Rightarrow> Ok ()
        | Some res \<Rightarrow> map_ok (\<lambda>_. ()) (named_error ''SSH forwarding transfer failed: '' (\<lambda>e. e) res))
        (or_cancelled (ask DidCopy (fwd_copy F local channel))) (log_event DidReady w) = (r, w')"
      by (simp add: transfer_forward_def then_async_def [of "emit _"] emit_def with_world_def)
    then have "w_trace w' = w_trace w @ [DidReady] \<or> w_trace w' = w_trace w @ [DidReady, DidCopy]"
      by (rule map_async_elim) (auto dest: or_cancelled_ask)
    with \<open>ready _ = Inr u\<close> show ?thesis by auto
  qed
qed

definition close_events :: "net_event list" where
  "close_events = [DidChannelShutdown, DidDisconnect, DidWait]"

lemma close_run:
  assumes "close_forward F h channel w = (r, w')"
  shows "\<exists>n. 1 \<le> n \<and> n \<le> 3 \<and> w_trace w' = w_trace w @ take n close_events \<and>
    (r = Ready (Ok ()) \<longrightarrow> n = 3 \<and> (\<exists>w1 w2 w3. fwd_stream_shutdown F channel w1 = Ok () \<and>
       fwd_disconnect F h w2 = Ok () \<and> fwd_session_end F h w3 = Ok ()))"
  using assms [unfolded close_forward_def handle_session_def remote_forward_session.simps]
proof (cases rule: then_ask_elim)
  case (Drop d)
  then show ?thesis by (intro exI [of _ 1]) (simp add: close_events_def)
next
  case (Go w1)
  note shut = Go(1)
  from Go(3) show ?thesis
  proof (cases rule: then_ask_elim)
    case (Drop d)
    with shut show ?thesis by (intro exI [of _ 2]) (simp add: close_events_def)
  next
    case (Go w2)
    note disconnect = Go(1)
    from Go(3) show ?thesis
    proof (cases rule: then_ask_elim)
      case (Drop d)
      with shut disconnect show ?thesis
        by (intro exI [of _ 3]) (simp add: close_events_def numeral_3_eq_3)
    next
      case (Go w3)
      with shut disconnect show ?thesis
        by (intro exI [of _ 3]) (auto simp: close_events_def numeral_3_eq_3 ret_def)
    qed
  qed
qed

text \<open>An established forward: transfer, then the bounded cleanup.\<close>

lemma established_run:
  assumes "then_async (transfer_forward F local ready channel) (\<lambda>transfer_result.
         complete_established_forward transfer_result
           (map_async (\<lambda>r. case r of
               None \<Rightarrow> Err (SshSessionError ''SSH forwarding shutdown timed out'') | Some res \<Rightarrow> res)
             (timeout_after d (close_forward F h channel)))) w = (Ready r, w')"
  shows "\<exists>copy n. copy \<in> {[], [DidCopy]} \<and> 1 \<le> n \<and> n \<le> 3 \<and>
    w_trace w' = w_trace w @ DidReady # copy @ take n close_events \<and>
    (\<forall>e. ready (log_event DidReady w) = Err e \<longrightarrow> r = Err e) \<and>
    (r = Ok () \<longrightarrow> n = 3 \<and> (\<exists>w1 w2 w3. fwd_stream_shutdown F channel w1 = Ok () \<and>
       fwd_disconnect F h w2 = Ok () \<and> fwd_session_end F h w3 = Ok ()))"
proof -
  obtain tr w1 where t: "transfer_forward F local ready channel w = (Ready tr, w1)"
    and k: "complete_established_forward tr (map_async (\<lambda>r. case r of
               None \<Rightarrow> Err (SshSessionError ''SSH forwarding shutdown timed out'') | Some res \<Rightarrow> res)
             (timeout_after d (close_forward F h channel))) w1 = (Ready r, w')"
    using assms by (rule then_async_elim) auto
  obtain c where c: "timeout_after d (close_forward F h channel) w1 = (Ready c, w')"
    "r = res_and tr (case c of
       None \<Rightarrow> Err (SshSessionError ''SSH forwarding shutdown timed out'') | Some res \<Rightarrow> res)"
    using k unfolding complete_established_forward_def by (auto elim!: map_async_elim)
  obtain r0 w0 where r0: "close_forward F h channel (w1\<lparr>w_depth := Suc (w_depth w1)\<rparr>) = (r0, w0)"
    "w_trace w' = w_trace w0" "Ready c = Ready (Some (Ok ())) \<longleftrightarrow> r0 = Ready (Ok ())"
    by (rule timeout_elim [OF c(1)]) blast
  have "r = Ok () \<Longrightarrow> r0 = Ready (Ok ())"
    using c(2) r0(3) by (auto split: option.splits)
  moreover obtain n where "1 \<le> n" "n \<le> 3" "w_trace w' = w_trace w1 @ take n close_events"
    "r0 = Ready (Ok ()) \<longrightarrow> n = 3 \<and> (\<exists>w1 w2 w3. fwd_stream_shutdown F channel w1 = Ok () \<and>
       fwd_disconnect F h w2 = Ok () \<and> fwd_session_end F h w3 = Ok ())"
    using close_run [OF r0(1)] r0(2) by auto
  moreover obtain copy where "copy \<in> {[], [DidCopy]}" "w_trace w1 = w_trace w @ DidReady # copy"
    "\<forall>e. ready (log_event DidReady w) = Err e \<longrightarrow> tr = Err e"
    using transfer_run [OF t] by auto
  moreover have "r = Err e" if "tr = Err e" for e using c(2) that by simp
  ultimately show ?thesis by (intro exI [of _ copy] exI [of _ n]) auto
qed

text \<open>Establishing a channel transfers nothing.\<close>

lemma only_or_cancelled [only_intros]:
  assumes "only P m"
  shows "only P (or_cancelled m)"
  unfolding only_def
proof (intro allI impI)
  fix w r w'
  assume run: "or_cancelled m w = (r, w')"
  obtain r0 w0 where m: "m (w\<lparr>w_depth := Suc (w_depth w)\<rparr>) = (r0, w0)" by (metis surj_pair)
  obtain r1 w1 where l: "leave_boundary w (r0, w0) = (r1, w1)" by (metis surj_pair)
  have "\<exists>es. w_trace w1 = w_trace w @ es \<and> list_all P es"
    using onlyD [OF assms m] leave_boundary_cases(1) [OF l] by simp
  moreover have "w_trace w' = w_trace w \<or> w_trace w' = w_trace w1"
    using run m l by (auto simp: or_cancelled_def split: if_splits awaited.splits option.splits)
  ultimately show "\<exists>es. w_trace w' = w_trace w @ es \<and> list_all P es" by auto
qed

lemma only_startup [only_intros]: "only P m \<Longrightarrow> only P (run_forward_startup d m)"
  unfolding run_forward_startup_def timeout_after_def by (intro only_intros)

fun bridging :: "net_event \<Rightarrow> bool" where
  "bridging DidReady = True"
| "bridging DidCopy = True"
| "bridging _ = False"

lemma auth_traffic_unbridged: "auth_traffic e \<Longrightarrow> \<not> bridging e"
  by (cases e) auto

lemma direct_operation_unbridged:
  "only (\<lambda>e. \<not> bridging e) (direct_tcpip_operation C op request direct_plan)"
  unfolding direct_tcpip_operation_def connect_async_def authenticate_async_def
    open_direct_tcpip_channel_async_def
  by (auto intro!: only_intros only_report dest: auth_traffic_unbridged split: prod.splits)

text \<open>A properly established forward that ended with result \<open>r\<close>: its events are those of
  the establishment, the ready callback, the transfer if it was started, and a non-empty part
  of the cleanup, all of it when the result is a success.\<close>

definition bridged ::
  "('k, 'p, 'h, 'g, 'c) client_env \<Rightarrow> ('h, 'c, 'l) forward_env \<Rightarrow> 't russh_channel_opener \<Rightarrow>
   ssh_connect_request \<Rightarrow> russh_direct_tcpip_open_plan \<Rightarrow> (world \<Rightarrow> unit io) \<Rightarrow> file_system \<Rightarrow>
   unit io \<Rightarrow> net_event list \<Rightarrow> bool" where
  "bridged C F op request direct_plan ready files r es \<longleftrightarrow>
     (\<exists>opened copy n h channel w1. es = opened @ DidReady # copy @ take n close_events \<and>
        key_verified C op request files \<and> direct_established C op request direct_plan h opened \<and>
        copy \<in> {[], [DidCopy]} \<and> 1 \<le> n \<and> n \<le> 3 \<and>
        (\<forall>e. ready w1 = Err e \<longrightarrow> r = Err e) \<and>
        (r = Ok () \<longrightarrow> n = 3 \<and> (\<exists>w2 w3 w4. fwd_stream_shutdown F channel w2 = Ok () \<and>
           fwd_disconnect F h w3 = Ok () \<and> fwd_session_end F h w4 = Ok ())))"

lemma direct_forward_operation_run:
  assumes "direct_forward_operation C F op request direct_plan local deadlines ready w = (Ready r, w')"
    and "connect_checks_key C"
  shows "\<exists>es. w_trace w' = w_trace w @ es \<and>
    (((\<exists>e. r = Err e) \<and> list_all (\<lambda>e. \<not> bridging e) es) \<or>
     bridged C F op request direct_plan ready (w_files w) r es)"
  using assms(1) [unfolded direct_forward_operation_def]
proof (cases rule: then_ok_elim)
  case (Fail e)
  from onlyD [OF only_startup [OF direct_operation_unbridged] Fail(1)] Fail(2)
  show ?thesis by auto
next
  case (Go hc w2)
  obtain h channel where hc: "hc = (h, channel)" by (metis surj_pair)
  obtain w3 w4 where est: "direct_tcpip_operation C op request direct_plan w3 = (Ready (Ok (h, channel)), w4)"
    "w_trace w3 = w_trace w" "w_files w3 = w_files w" "w_trace w2 = w_trace w4"
    by (rule run_forward_startup_ok [OF Go(1) [unfolded hc]])
  obtain opened where opened: "key_verified C op request (w_files w)"
    "w_trace w2 = w_trace w @ opened" "direct_established C op request direct_plan h opened"
    using direct_operation_ok [OF est(1) assms(2)] est(2-4) by auto
  obtain copy n where ended: "copy \<in> {[], [DidCopy]}" "1 \<le> n" "n \<le> 3"
    "w_trace w' = w_trace w2 @ DidReady # copy @ take n close_events"
    "\<forall>e. ready (log_event DidReady w2) = Err e \<longrightarrow> r = Err e"
    "r = Ok () \<longrightarrow> n = 3 \<and> (\<exists>w1 w2 w3. fwd_stream_shutdown F channel w1 = Ok () \<and>
       fwd_disconnect F h w2 = Ok () \<and> fwd_session_end F h w3 = Ok ())"
    using established_run [OF Go(2) [unfolded hc prod.case]] by (elim exE conjE) (rule that)
  have "bridged C F op request direct_plan ready (w_files w) r
      (opened @ DidReady # copy @ take n close_events)"
    unfolding bridged_def
    by (intro exI [of _ opened] exI [of _ copy] exI [of _ n] exI [of _ h] exI [of _ channel]
        exI [of _ "log_event DidReady w2"] conjI refl opened ended)
  with opened(2) ended(4) show ?thesis by auto
qed simp

text \<open>The forwards of a handler play no part in its decision on the key.\<close>

lemma check_server_key_forward:
  "check_server_key K (handler_for_host_with_remote_forward_lifecycle op host port forward c t d) =
     check_server_key K (handler_for_host op host port :: unit russh_client_handler)"
  by (intro ext) (simp add: check_server_key_def handler_for_host_with_remote_forward_lifecycle_def
      handler_for_host_def handler_for_endpoint_def Let_def cong: option.case_cong if_cong
      russh_host_key_policy.case_cong prod.case_cong)

definition listener_established ::
  "('k, 'p, 'h, 'g, 'c) client_env \<Rightarrow> ssh_connect_request \<Rightarrow> russh_remote_tcpip_forward_plan \<Rightarrow> 'h \<Rightarrow>
   net_event list \<Rightarrow> bool" where
  "listener_established C request remote_plan h es \<longleftrightarrow>
     (\<exists>before attempt. granted (env_auth C) h (config_username (request_config request)) attempt \<and>
        es = before @ [attempt, DidTcpipForward (forward_bind_host remote_plan)
          (ucast (forward_bind_port remote_plan))])"

lemma remote_forward_operation_ok:
  assumes "remote_forward_operation C F op request remote_plan cancel tracker deadlines w =
      (Ready (Ok (h, port, resolved)), w')" and "connect_checks_key C"
  defines "bind_host \<equiv> forward_bind_host remote_plan" and "bind_port \<equiv> forward_bind_port remote_plan"
  shows "key_verified C op request (w_files w) \<and> port \<noteq> 0 \<and>
    resolved = resolve_bind_port port (resolved_new remote_plan) \<and>
    (\<exists>w1 returned. fwd_tcpip_forward F h bind_host (ucast bind_port) w1 = Ok returned \<and>
       (returned = ucast port \<or> (returned = 0 \<and> port = bind_port))) \<and>
    (\<exists>es. w_trace w' = w_trace w @ es \<and> listener_established C request remote_plan h es)"
proof -
  let ?plan = "connect_plan_from_request request"
  let ?c = "request_config request"
  let ?handler = "handler_for_host_with_remote_forward_lifecycle op (config_host ?c) (config_port ?c)
    (resolved_new remote_plan) cancel tracker deadlines"
  let ?listen = "\<lambda>h. map_async (named_error ''SSH remote TCP forwarding failed: '' (fwd_error_text F))
    (ask (DidTcpipForward bind_host (ucast bind_port)) (fwd_tcpip_forward F h bind_host (ucast bind_port)))"
  let ?bind = "\<lambda>h returned. ret (case resolved_remote_forward_bound_port bind_port returned of
      Inl e \<Rightarrow> Err e
    | Inr bound_port \<Rightarrow> Ok (h, bound_port, resolve_bind_port bound_port (resolved_new remote_plan)))"
  have run: "then_ok (map_async (named_error ''SSH connect failed: '' (error_text (env_auth C)))
        (connect_handle C (op_client_config op) (config_host ?c, config_port ?c) ?handler)) (\<lambda>h.
      then_ok (authenticate_async C op h (connect_auth_plan ?plan)) (\<lambda>_.
      then_ok (?listen h) (?bind h))) w = (Ready (Ok (h, port, resolved)), w')"
    using assms(1) by (simp add: remote_forward_operation_def connect_socket_addr_def
        connect_plan_from_request_def remote_forward_bind_def bind_host_def bind_port_def Let_def)
  obtain h' w1 where 1: "map_async (named_error ''SSH connect failed: '' (error_text (env_auth C)))
        (connect_handle C (op_client_config op) (config_host ?c, config_port ?c) ?handler) w =
          (Ready (Ok h'), w1)"
    and r1: "then_ok (authenticate_async C op h' (connect_auth_plan ?plan)) (\<lambda>_.
      then_ok (?listen h') (?bind h')) w1 = (Ready (Ok (h, port, resolved)), w')"
    using run by (rule then_ok_elim) auto
  obtain a w2 where 2: "authenticate_async C op h' (connect_auth_plan ?plan) w1 = (Ready (Ok a), w2)"
    and r2: "then_ok (?listen h') (?bind h') w2 = (Ready (Ok (h, port, resolved)), w')"
    using r1 by (rule then_ok_elim) auto
  obtain returned where 3: "?listen h' w2 = (Ready (Ok returned), w')" "h' = h"
    "resolved_remote_forward_bound_port bind_port returned = Ok port"
    "resolved = resolve_bind_port port (resolved_new remote_plan)"
    using r2 by (rule then_ok_elim) (auto simp: ret_def split: sum.splits)
  have listen: "w_trace w' = w_trace w2 @ [DidTcpipForward bind_host (ucast bind_port)]"
    "fwd_tcpip_forward F h bind_host (ucast bind_port) w' = Ok returned"
    using map_ask_cases [OF 3(1)] 3(2) by (auto simp: eq_commute [of "Ok returned"])
  have port: "port \<noteq> 0" "returned = ucast port \<or> (returned = 0 \<and> port = bind_port)"
    using 3(3) by (simp_all add: resolved_port_cases)
  have "connect_handle C (op_client_config op) (config_host ?c, config_port ?c) ?handler w =
      (Ready (Ok h'), w1)"
    using 1 by (rule map_async_elim) (auto simp: eq_commute [of "Ok h'"])
  from connect_handle_ok [OF this assms(2)] have key: "key_verified C op request (w_files w)"
    by (simp add: key_verified_def check_server_key_forward)
  obtain e1 where "w_trace w1 = w_trace w @ e1"
    using tameD(1) [OF tame_map [OF tame_connect_handle] 1] by (auto simp: later_def)
  moreover obtain e2 e where "w_trace w2 = w_trace w1 @ e2 @ [e]"
    "granted (env_auth C) h (auth_username (connect_auth_plan ?plan)) e"
    using authenticate_async_ok [OF 2] 3(2) by blast
  ultimately have "w_trace w' = w_trace w @ ((e1 @ e2) @ [e, DidTcpipForward bind_host (ucast bind_port)])"
    "listener_established C request remote_plan h ((e1 @ e2) @ [e, DidTcpipForward bind_host (ucast bind_port)])"
    using listen(1) by (auto simp: listener_established_def bind_host_def bind_port_def
        connect_plan_from_request_def auth_plan_from_request_def)
  with key port 3(4) listen(2) show ?thesis by blast
qed

text \<open>The task of a forwarded connection.\<close>

lemma startup_ask:
  assumes "run_forward_startup d (map_async g (ask e f)) w = (r, w')"
  shows "w_trace w' = w_trace w @ [e] \<or> (w_trace w' = w_trace w \<and> (\<forall>v. r \<noteq> Ready (Ok v)))"
proof -
  have once: "w_trace v' = w_trace v @ [e]" if "map_async g (ask e f) v = (x, v')" for v x v'
    using map_ask_cases [OF that] by blast
  obtain r1 where t: "timeout_after d (map_async (\<lambda>r. case r of
      None \<Rightarrow> Err (SshSessionError ''SSH forwarding startup cancelled'') | Some res \<Rightarrow> res)
        (or_cancelled (map_async g (ask e f)))) w = (r1, w')"
    using assms unfolding run_forward_startup_def by (rule map_async_elim)
  obtain r2 w2 where m: "map_async (\<lambda>r. case r of
      None \<Rightarrow> Err (SshSessionError ''SSH forwarding startup cancelled'') | Some res \<Rightarrow> res)
        (or_cancelled (map_async g (ask e f))) (w\<lparr>w_depth := Suc (w_depth w)\<rparr>) = (r2, w2)"
    and w2: "w_trace w' = w_trace w2"
    by (rule timeout_elim [OF t]) blast
  from m have "\<exists>r3. or_cancelled (map_async g (ask e f)) (w\<lparr>w_depth := Suc (w_depth w)\<rparr>) = (r3, w2)"
    by (rule map_async_elim) auto
  then have "w_trace w' = w_trace w \<or> w_trace w' = w_trace w @ [e]"
    using or_cancelled_once [OF _ once] w2 by fastforce
  moreover have "w_trace w' = w_trace w @ [e]" if r: "r = Ready (Ok v)" for v
  proof -
    obtain w1 w0 where "map_async g (ask e f) w1 = (Ready (Ok v), w0)" "w_trace w1 = w_trace w"
      "w_trace w' = w_trace w0"
      by (rule run_forward_startup_ok [OF assms [unfolded r]])
    with once show ?thesis by simp
  qed
  ultimately show ?thesis by blast
qed

lemma forwarded_task_run:
  assumes "forwarded_channel_task F forward deadlines channel w = (r, w')" and "w_depth w = 0"
  shows "\<exists>connect copy. r = Ready () \<and>
    w_trace w' = w_trace w @ connect @ copy @ [DidChannelShutdown] \<and>
    connect \<in> {[], [DidTargetConnect (fst (resolved_target forward)) (snd (resolved_target forward))]} \<and>
    copy \<in> {[], [DidCopy]} \<and> (copy \<noteq> [] \<longrightarrow> connect \<noteq> [])"
proof -
  obtain th tp where target: "resolved_target forward = (th, tp)" by (metis surj_pair)
  let ?connect = "run_forward_startup (deadline_startup deadlines)
    (map_async (named_error ''SSH remote forwarding target connect failed: '' (\<lambda>e. e))
      (ask (DidTargetConnect th tp) (fwd_target_connect F (th, tp))))"
  let ?copy = "\<lambda>r. case r of Inl _ \<Rightarrow> ret ()
    | Inr local \<Rightarrow> map_async (\<lambda>_. ()) (or_cancelled (ask DidCopy (fwd_copy F local channel)))"
  let ?shutdown = "map_async (\<lambda>_. ()) (timeout_after (deadline_shutdown deadlines)
    (ask DidChannelShutdown (fwd_stream_shutdown F channel)))"
  have run: "then_async ?connect (\<lambda>r. then_async (?copy r) (\<lambda>_. ?shutdown)) w = (r, w')"
    using assms(1) by (simp add: forwarded_channel_task_def target)
  have t: "tame (then_async ?connect (\<lambda>r. then_async (?copy r) (\<lambda>_. ?shutdown)))"
    by (intro tame_intros) (simp split: sum.splits, intro conjI allI impI tame_intros)
  have ready: "r = Ready ()"
  proof (cases r)
    case (Dropped d)
    from tameD(2) [OF t, OF run this] assms(2) show ?thesis by simp
  qed simp
  obtain c w1 where c: "?connect w = (Ready c, w1)" "then_async (?copy c) (\<lambda>_. ?shutdown) w1 = (r, w')"
    by (rule then_async_elim [OF run]) (simp_all add: ready)
  obtain u w2 where copy: "?copy c w1 = (Ready u, w2)" "?shutdown w2 = (r, w')"
    by (rule then_async_elim [OF c(2)]) (simp_all add: ready)
  obtain r3 where "timeout_after (deadline_shutdown deadlines)
    (ask DidChannelShutdown (fwd_stream_shutdown F channel)) w2 = (r3, w')"
    using copy(2) by (rule map_async_elim) auto
  then have "w_trace w' = w_trace w2 @ [DidChannelShutdown]"
    by (rule timeout_elim) (drule ask_cases(1), simp)
  moreover have "w_trace w2 = w_trace w1 \<or> (w_trace w2 = w_trace w1 @ [DidCopy] \<and> (\<exists>v. c = Ok v))"
    using copy(1) or_cancelled_ask by (cases c) (fastforce simp: ret_def elim: map_async_elim)+
  ultimately show ?thesis
    using startup_ask [OF c(1)] ready target
    by (intro exI [of _ "drop (length (w_trace w)) (w_trace w1)"]
        exI [of _ "drop (length (w_trace w1)) (w_trace w2)"]) (elim disjE conjE exE; simp)
qed

lemma forward_complete_run:
  "\<exists>r c w'. forward_complete N F result d f w = Some ((r, f\<lparr>rf_cancellation := c\<rparr>), w') \<and> is_cancelled c \<and>
     w_trace w' \<in> {w_trace w, w_trace w @ [DidDrainTasks]} \<and>
     r \<in> {result, res_and result (Err shutdown_timed_out)}"
proof -
  let ?m = "complete_remote_forward_session N F result (rf_cancellation f) d"
  obtain r c w' where run: "block_on ?m w = Some ((r, c), w')"
    using block_on_returns [OF tame_complete(2), of N F result "rf_cancellation f" d w] by (metis surj_pair)
  obtain w1 where m: "?m (w\<lparr>w_depth := 0\<rparr>) = (Ready (r, c), w1)" "w_trace w' = w_trace w1"
    by (rule block_on_elim [OF run])
  obtain drained where t: "timeout_after d (wait_for_empty F) (w\<lparr>w_depth := 0\<rparr>) = (Ready drained, w1)"
    and r: "r = res_and result (case drained of None \<Rightarrow> Err shutdown_timed_out | Some _ \<Rightarrow> Ok ())"
    and c: "c = cancellation_cancel N (rf_cancellation f)"
    using m(1) unfolding complete_remote_forward_session_def Let_def by (rule map_async_elim) auto
  obtain r0 w0 where "wait_for_empty F (w\<lparr>w_depth := Suc 0\<rparr>) = (r0, w0)" "w_trace w1 = w_trace w0"
    by (rule timeout_elim [OF t]) simp
  from wait_for_empty_cases [OF this(1)] this(2) m(2)
  have "w_trace w' \<in> {w_trace w, w_trace w @ [DidDrainTasks]}" by auto
  moreover have "r \<in> {result, res_and result (Err shutdown_timed_out)}"
    using r by (cases result) (auto split: option.splits)
  ultimately show ?thesis
    using run c by (auto simp: forward_complete_def is_cancelled_def cancellation_cancel_def)
qed

lemma forward_complete_quiet:
  assumes "rf_handle f = None"
  shows "\<exists>r f' w'. forward_complete N F (Ok ()) d f w = Some ((r, f'), w') \<and> rf_handle f' = None \<and>
    is_cancelled (rf_cancellation f') \<and> w_trace w' \<in> {w_trace w, w_trace w @ [DidDrainTasks]} \<and>
    r \<in> {Ok (), Err shutdown_timed_out}"
  using forward_complete_run [of N F "Ok ()" d f w] assms by auto

section \<open>Properties\<close>

text \<open>
  C6. Shutting down a remote forward returns within its deadline, with its cancellation set,
  whichever of its awaits never completes: all of them are inside the deadline. It cancels the
  listener, disconnects and waits for the session, in this order; at the first of these that the
  deadline cuts off it stops, reports the timeout and keeps the session handle, so that it can be
  retried. When all three were answered the session has ended, the handle is given up, and it
  waits for the child tasks, if there are any; if these do not end in time the timeout is reported, and
  otherwise the result is the first error of the three requests, where a session that ended because of
  the disconnect counts as a success.
\<close>

theorem remote_forward_shutdown:
  assumes "rf_handle f = Some h"
  defines "host \<equiv> rf_bind_host f" and "port \<equiv> ucast (rf_bind_port f)"
  shows "\<exists>r f' w' n. forward_shutdown N F timeout f w = Some ((r, f'), w') \<and>
    is_cancelled (rf_cancellation f') \<and> w_trace w' = w_trace w @ take n (shutdown_events host port) \<and>
    rf_handle f' = (if 4 \<le> n then None else Some h) \<and>
    (case request_cut w of
       Some k \<Rightarrow> n = Suc k \<and> k < 3 \<and> r = Err shutdown_timed_out
     | None \<Rightarrow> \<exists>w1 w2 w3 w4.
         map w_trace [w1, w2, w3, w4] = map (\<lambda>k. w_trace w @ take k (shutdown_events host port)) [1, 2, 3, 4] \<and>
         n = (if fwd_active_tasks F w4 = 0 then 4 else 5) \<and>
         r = (if n = 5 \<and> expires w 3 then Err shutdown_timed_out
              else shutdown_result F (fwd_cancel_tcpip F h host port w1) (fwd_disconnect F h w2) (fwd_session_end F h w3)))"
proof -
  let ?w = "w\<lparr>w_depth := Suc 0\<rparr>" and ?f = "f\<lparr>rf_cancellation := cancellation_cancel N (rf_cancellation f)\<rparr>"
  let ?block = "block_on (shutdown_remote_forward_session_and_tasks F (handle_session F h) host port timeout) w"
  have same: "request_cut ?w = request_cut w" "expires ?w k = expires w k" for k
    by (simp_all add: request_cut_def expires_def [abs_def])
  have run: "forward_shutdown N F timeout f w = Some ((shutdown_outcome_result out,
      if shutdown_session_terminal out then ?f\<lparr>rf_handle := None\<rparr> else ?f), w')" if "?block = Some (out, w')" for out w'
    using assms(1) that by (simp add: forward_shutdown_def host_def port_def)
  have cancelled: "is_cancelled (rf_cancellation ?f)" by (simp add: is_cancelled_def cancellation_cancel_def)
  have terminal: "DidSessionTerminal \<in> set (take n (shutdown_events host port)) \<longleftrightarrow> 4 \<le> n" for n
    by (auto simp: shutdown_events_def take_Cons split: nat.splits) presburger
  show ?thesis
  proof (cases "request_cut w")
    case (Some k)
    obtain w0 where steps: "shutdown_steps F (handle_session F h) host port ?w = (Dropped 0, w0)"
      "w_trace w0 = w_trace w @ take (Suc k) (shutdown_events host port)" "k < 3"
      using shutdown_steps_cut [of ?w k F h host port] Some same by auto
    obtain w' where "?block = Some (\<lparr>shutdown_outcome_result = Err shutdown_timed_out,
        shutdown_session_terminal = False, shutdown_terminal = False\<rparr>, w')" "w_trace w' = w_trace w0"
      using shutdown_block [OF steps(1), of timeout] steps(2,3) terminal [of "Suc k"] by auto
    with run [OF this(1)] Some steps cancelled assms(1) show ?thesis
      by (auto intro!: exI [of _ "Suc k"])
  next
    case None
    let ?w1 = "cancel_answered host port ?w" and ?w2 = "disconnect_answered host port ?w" and ?w3 = "session_awaited host port ?w"
    let ?w4 = "log_event DidSessionTerminal ?w3"
    let ?n = "if fwd_active_tasks F ?w4 = 0 then 4 else 5 :: nat"
    let ?res = "shutdown_result F (fwd_cancel_tcpip F h host port ?w1) (fwd_disconnect F h ?w2) (fwd_session_end F h ?w3)"
    let ?late = "fwd_active_tasks F ?w4 \<noteq> 0 \<and> expires w 3"
    obtain w0 where steps: "shutdown_steps F (handle_session F h) host port ?w =
        (if ?late then Dropped 0
         else Ready \<lparr>shutdown_outcome_result = ?res, shutdown_session_terminal = True, shutdown_terminal = True\<rparr>, w0)"
      "w_trace w0 = w_trace w @ take ?n (shutdown_events host port)"
      using shutdown_steps_answered [where w = ?w and host = host and port = port and F = F and h = h] None same by auto
    have "\<exists>out w'. ?block = Some (out, w') \<and> w_trace w' = w_trace w0 \<and> shutdown_session_terminal out \<and>
        shutdown_outcome_result out = (if ?late then Err shutdown_timed_out else ?res)"
      using shutdown_block [OF steps(1), of timeout] steps(2) terminal [of ?n] by (cases ?late) auto
    then obtain out w' where out: "?block = Some (out, w')" "w_trace w' = w_trace w0" "shutdown_session_terminal out"
      "shutdown_outcome_result out = (if ?late then Err shutdown_timed_out else ?res)"
      by blast
    have traces: "map w_trace [?w1, ?w2, ?w3, ?w4] = map (\<lambda>k. w_trace w @ take k (shutdown_events host port)) [1, 2, 3, 4]"
      by (simp add: shutdown_events_def eval_nat_numeral)
    have "(case request_cut w of
       Some k \<Rightarrow> ?n = Suc k \<and> k < 3 \<and> shutdown_outcome_result out = Err shutdown_timed_out
     | None \<Rightarrow> \<exists>w1 w2 w3 w4.
         map w_trace [w1, w2, w3, w4] = map (\<lambda>k. w_trace w @ take k (shutdown_events host port)) [1, 2, 3, 4] \<and>
         ?n = (if fwd_active_tasks F w4 = 0 then 4 else 5) \<and>
         shutdown_outcome_result out = (if ?n = 5 \<and> expires w 3 then Err shutdown_timed_out
              else shutdown_result F (fwd_cancel_tcpip F h host port w1) (fwd_disconnect F h w2) (fwd_session_end F h w3)))"
      unfolding None option.case
      by (intro exI [of _ ?w1] exI [of _ ?w2] exI [of _ ?w3] exI [of _ ?w4] conjI traces) (auto simp: out(4))
    then show ?thesis
      using run [OF out(1)] out(2,3) steps(2) cancelled
      by (intro exI [of _ "shutdown_outcome_result out"] exI [of _ "?f\<lparr>rf_handle := None\<rparr>"] exI [of _ w'] exI [of _ ?n] conjI)
        auto
  qed
qed

text \<open>
  C5. A local stream is bridged only to a channel that was properly established: the server's
  key was accepted for the requested endpoint, the user was granted access, and the channel
  was opened to the planned target. Once it is established, the cleanup is always started,
  whether the \<open>ready\<close> callback failed, the transfer failed or it was cancelled; a success
  means that the channel was shut down, the connection disconnected and the session ended,
  all without error, and an error of \<open>ready\<close> is reported even when the cleanup fails too. If
  the channel is not established nothing is transferred and an error is returned.
\<close>

theorem direct_forward_established:
  assumes "connect_checks_key C"
    and "forward_direct_tcpip_stream_with_ready built C F op request direct_plan local deadlines ready w =
      Some (r, w')"
  shows "\<exists>es. w_trace w' = w_trace w @ es \<and>
    (((\<exists>e. r = Err e) \<and> list_all (\<lambda>e. \<not> bridging e) es) \<or>
     bridged C F op request direct_plan ready (w_files w) r es)"
proof (cases "fwd_set_nonblocking F local = Ok () \<and> (\<exists>u. built = Ok u)")
  case True
  then have run: "block_on (direct_forward_operation C F op request direct_plan local deadlines ready) w =
      Some (r, w')"
    using assms(2) by (auto simp: forward_direct_tcpip_stream_with_ready_def)
  obtain w1 where op: "direct_forward_operation C F op request direct_plan local deadlines ready
      (w\<lparr>w_depth := 0\<rparr>) = (Ready r, w1)" and w1: "w_trace w' = w_trace w1"
    using block_on_elim [OF run] by blast
  from direct_forward_operation_run [OF op assms(1)] w1 show ?thesis by simp
next
  case False
  then have "\<exists>e. r = Err e" "w' = w"
    using assms(2) by (auto simp: forward_direct_tcpip_stream_with_ready_def split: sum.splits)
  then show ?thesis by (intro exI [of _ "[]"]) auto
qed

text \<open>
  C29. A remote forward is returned only when the server's key was accepted for the requested
  endpoint, the user was granted access and the server then confirmed the listener; its port
  is never 0 and is the one the server reported, or the requested one when the server
  reported none. From then on only connections to exactly this port match the forward.
\<close>

theorem remote_forward_verified:
  assumes "connect_checks_key C"
    and "open_remote_tcpip_forward_with_lifecycle built wake C F op request remote_plan cancel deadlines w =
      Some (Ok (f, resolved), w')"
  shows "\<exists>h es w1 returned. rf_handle f = Some h \<and> key_verified C op request (w_files w) \<and>
    w_trace w' = w_trace w @ es \<and> listener_established C request remote_plan h es \<and>
    rf_bind_port f \<noteq> 0 \<and>
    fwd_tcpip_forward F h (forward_bind_host remote_plan) (ucast (forward_bind_port remote_plan)) w1 =
      Ok returned \<and>
    (returned = ucast (rf_bind_port f) \<or>
      (returned = 0 \<and> rf_bind_port f = forward_bind_port remote_plan)) \<and>
    (\<forall>addr port. matches_connected_endpoint resolved addr port \<longrightarrow> port = ucast (rf_bind_port f))"
proof -
  obtain runtime where "built = Ok runtime"
    using assms(2) by (cases built) (auto simp: open_remote_tcpip_forward_with_lifecycle_def)
  with assms(2) obtain h port where run: "block_on (run_forward_startup (deadline_startup deadlines)
      (remote_forward_operation C F op request remote_plan cancel (tracker_default wake) deadlines)) w =
        Some (Ok (h, port, resolved), w')" and f: "rf_handle f = Some h" "rf_bind_port f = port"
    by (auto simp: open_remote_tcpip_forward_with_lifecycle_def split: sum.splits)
  obtain w1 where b: "run_forward_startup (deadline_startup deadlines) (remote_forward_operation C F op
      request remote_plan cancel (tracker_default wake) deadlines) (w\<lparr>w_depth := 0\<rparr>) =
        (Ready (Ok (h, port, resolved)), w1)" "w_trace w' = w_trace w1"
    by (rule block_on_elim [OF run])
  obtain w2 w0 where o: "remote_forward_operation C F op request remote_plan cancel (tracker_default wake)
      deadlines w2 = (Ready (Ok (h, port, resolved)), w0)" "w_trace w2 = w_trace (w\<lparr>w_depth := 0\<rparr>)"
    "w_files w2 = w_files (w\<lparr>w_depth := 0\<rparr>)" "w_trace w1 = w_trace w0"
    by (rule run_forward_startup_ok [OF b(1)])
  note ok = remote_forward_operation_ok [OF o(1) assms(1)]
  have "port' = ucast port" if "matches_connected_endpoint resolved addr port'" for addr port'
    using that ok by (simp add: matches_iff resolve_bind_port_def)
  with ok f b(2) o(2-4) show ?thesis by auto
qed

text \<open>
  C30. A connection the server forwards is handled only when it belongs to one of the client's
  forwards; any other channel is closed and no task is started. The task of a forwarded
  connection connects to the target of the matching forward and to nothing else, copies only
  after it has connected, and always ends by shutting its channel down, whatever fails or
  cancels it.
\<close>

theorem forwarded_channel_target:
  assumes "server_channel_open_forwarded_tcpip wake F handler channel addr port w = (Ready (r, spawned), w')"
  shows "case spawned of
      None \<Rightarrow> (\<forall>f \<in> set (handler_remote_forwards handler). \<not> matches_connected_endpoint f addr port) \<and>
        w_trace w' = w_trace w @ [DidChannelClose]
    | Some (task, tracker) \<Rightarrow> \<exists>f \<in> set (handler_remote_forwards handler).
        matches_connected_endpoint f addr port \<and> r = Ok () \<and> w' = w \<and>
        (\<forall>v x v'. task v = (x, v') \<longrightarrow> w_depth v = 0 \<longrightarrow> x = Ready () \<and> (\<exists>connect copy.
           w_trace v' = w_trace v @ connect @ copy @ [DidChannelShutdown] \<and>
           connect \<in> {[], [DidTargetConnect (fst (resolved_target f)) (snd (resolved_target f))]} \<and>
           copy \<in> {[], [DidCopy]} \<and> (copy \<noteq> [] \<longrightarrow> connect \<noteq> [])))"
proof (cases "find (\<lambda>f. matches_connected_endpoint f addr port) (handler_remote_forwards handler)")
  case None
  with assms have "spawned = None" "w_trace w' = w_trace w @ [DidChannelClose]"
    by (auto simp: server_channel_open_forwarded_tcpip_def dest: ask_cases elim!: map_async_elim)
  with None show ?thesis by (auto simp: find_None_iff)
next
  case (Some f)
  then have f: "f \<in> set (handler_remote_forwards handler)" "matches_connected_endpoint f addr port"
    by (auto simp: find_Some_iff)
  from assms Some obtain d tracker where "spawned = Some (forwarded_channel_task F f d channel, tracker)"
    "r = Ok ()" "w' = w"
    by (auto simp: server_channel_open_forwarded_tcpip_def ret_def Let_def)
  moreover have "x = Ready () \<and> (\<exists>connect copy.
      w_trace v' = w_trace v @ connect @ copy @ [DidChannelShutdown] \<and>
      connect \<in> {[], [DidTargetConnect (fst (resolved_target f)) (snd (resolved_target f))]} \<and>
      copy \<in> {[], [DidCopy]} \<and> (copy \<noteq> [] \<longrightarrow> connect \<noteq> []))"
    if "forwarded_channel_task F f d channel v = (x, v')" "w_depth v = 0" for v x v'
    using forwarded_task_run [OF that] by (elim exE conjE) (intro conjI exI; assumption)
  ultimately show ?thesis
    using f by (simp only: option.case prod.case) (intro bexI [of _ f] conjI; simp)
qed

text \<open>
  A remote forward whose session has ended stays ended: waiting for it, shutting it down
  or waiting with a cancellation makes no request to the server any more, leaves the
  cancellation set and no handle behind, and fails only when the child tasks do not end in
  time. And a forward that is already cancelled when \<open>wait_until_cancelled\<close> is called goes
  straight to the shutdown, without waiting for the session first.
\<close>

theorem ended_forward_is_quiet:
  "(rf_handle f = None \<longrightarrow>
     (\<forall>m \<in> {forward_wait N F, forward_shutdown N F timeout, forward_wait_until_cancelled N F timeout}.
        \<exists>r f' w'. m f w = Some ((r, f'), w') \<and> rf_handle f' = None \<and> is_cancelled (rf_cancellation f') \<and>
          w_trace w' \<in> {w_trace w, w_trace w @ [DidDrainTasks]} \<and> r \<in> {Ok (), Err shutdown_timed_out})) \<and>
   (rf_handle f \<noteq> None \<and> w_cancelled w \<longrightarrow>
     forward_wait_until_cancelled N F timeout f w = forward_shutdown N F timeout f w)"
proof (intro conjI impI)
  assume none: "rf_handle f = None"
  show "\<forall>m \<in> {forward_wait N F, forward_shutdown N F timeout, forward_wait_until_cancelled N F timeout}.
        \<exists>r f' w'. m f w = Some ((r, f'), w') \<and> rf_handle f' = None \<and> is_cancelled (rf_cancellation f') \<and>
          w_trace w' \<in> {w_trace w, w_trace w @ [DidDrainTasks]} \<and> r \<in> {Ok (), Err shutdown_timed_out}"
    using none
    by (simp add: forward_wait_def forward_shutdown_def forward_wait_until_cancelled_def
        forward_complete_quiet [simplified])
next
  assume "rf_handle f \<noteq> None \<and> w_cancelled w"
  then show "forward_wait_until_cancelled N F timeout f w = forward_shutdown N F timeout f w"
    by (auto simp: forward_wait_until_cancelled_def or_cancelled_def block_on_def)
qed

section \<open>Concrete instances\<close>

text \<open>A server that grants every request and allocates port 4022; no task is active.\<close>

definition demo_forward :: "(unit, unit, unit) forward_env" where
  "demo_forward =
     \<lparr>fwd_error_text = \<lambda>e. ''error'', fwd_tcpip_forward = \<lambda>h host port w. Ok 4022,
      fwd_cancel_tcpip = \<lambda>h host port w. Ok (), fwd_disconnect = \<lambda>h w. Ok (),
      fwd_session_end = \<lambda>h w. Err RusshDisconnect, fwd_set_nonblocking = \<lambda>l. Ok (),
      fwd_from_std = \<lambda>l. Ok (), fwd_copy = \<lambda>l c w. Ok (3, 4), fwd_stream_shutdown = \<lambda>c w. Ok (),
      fwd_channel_close = \<lambda>c w. Ok (), fwd_target_connect = \<lambda>a w. Ok (), fwd_active_tasks = \<lambda>w. 0\<rparr>"

definition demo_remote :: "(unit, unit, unit) russh_remote_tcpip_forward" where
  "demo_remote = \<lparr>rf_runtime = (), rf_handle = Some (), rf_bind_host = ''0.0.0.0'', rf_bind_port = 4022,
     rf_cancellation = cancellation_new (), rf_deadlines = forward_deadlines_new (secs 30) (secs 1)\<rparr>"

definition demo_notify :: "unit notify_ops" where
  "demo_notify = \<lparr>notified = id, notify_waiters = id, woken = \<lambda>_. True\<rparr>"

abbreviation (input) demo_forward_plan :: russh_remote_tcpip_forward_plan where
  "demo_forward_plan \<equiv> remote_forward_plan_new ''0.0.0.0'' 0 ''localhost'' 8080"

text \<open>The disconnect that never completes, and a shutdown without any delay.\<close>

definition stuck_world :: world where
  "stuck_world = demo_world\<lparr>w_cut := (\<lambda>_. None)(1 := Some 0)\<rparr>"

lemma demo_cuts: "request_cut stuck_world = Some 1" "request_cut demo_world = None" "w_trace stuck_world = []" "w_trace demo_world = []"
  by (simp_all add: stuck_world_def request_cut_def expires_def demo_world_def)

lemma demo_shutdown_result:
  "shutdown_result demo_forward (fwd_cancel_tcpip demo_forward h host port w1) (fwd_disconnect demo_forward h w2)
     (fwd_session_end demo_forward h w3) = Ok ()" "fwd_active_tasks demo_forward w = 0"
  by (simp_all add: demo_forward_def shutdown_result_def session_ended_def)

theorem remote_forward_shutdown_witness:
  "(\<exists>f' w'. forward_shutdown demo_notify demo_forward (secs 1) demo_remote stuck_world =
     Some ((Err shutdown_timed_out, f'), w') \<and> rf_handle f' = Some () \<and>
     w_trace w' = [DidCancelForward ''0.0.0.0'' 4022, DidDisconnect]) \<and>
   (\<exists>f' w'. forward_shutdown demo_notify demo_forward (secs 1) demo_remote demo_world =
     Some ((Ok (), f'), w') \<and> rf_handle f' = None \<and> length (w_trace w') = 4)"
proof
  have demo: "rf_handle demo_remote = Some ()" "rf_bind_host demo_remote = ''0.0.0.0''" "rf_bind_port demo_remote = 4022"
    by (simp_all add: demo_remote_def)
  show "\<exists>f' w'. forward_shutdown demo_notify demo_forward (secs 1) demo_remote stuck_world =
     Some ((Err shutdown_timed_out, f'), w') \<and> rf_handle f' = Some () \<and>
     w_trace w' = [DidCancelForward ''0.0.0.0'' 4022, DidDisconnect]"
    using remote_forward_shutdown [OF demo(1), of demo_notify demo_forward "secs 1" stuck_world]
    unfolding demo_cuts option.case demo(2,3) by (auto simp: shutdown_events_def)
  show "\<exists>f' w'. forward_shutdown demo_notify demo_forward (secs 1) demo_remote demo_world =
     Some ((Ok (), f'), w') \<and> rf_handle f' = None \<and> length (w_trace w') = 4"
    using remote_forward_shutdown [OF demo(1), of demo_notify demo_forward "secs 1" demo_world]
    unfolding demo_cuts option.case demo(2,3) demo_shutdown_result by (force simp: shutdown_events_def)
qed

lemmas demo_forward_simps = block_on_def run_forward_startup_def timeout_after_def with_timeout_def
  or_cancelled_def leave_boundary_def or_deadline_def connect_async_def report_then report_phase_eq
  connect_socket_addr_def connect_plan_from_request_def connect_handle_def authenticate_async_def
  auth_plan_from_request_def demo_client_def demo_request_def demo_auth_simps demo_opener_def
  with_connection_cancellation_def with_phase_reporter_def with_host_key_policy_def opener_default_def
  opener_new_def demo_forward_def

theorem direct_forward_established_witness:
  "\<exists>r w'. forward_direct_tcpip_stream_with_ready (Ok ()) demo_client demo_forward demo_opener demo_request
      (direct_tcpip_plan_new ''t'' 80 ''o'' 1) () (forward_deadlines_new (secs 30) (secs 1)) (\<lambda>_. Ok ())
      demo_world = Some (r, w') \<and>
     (((\<exists>e. r = Err e) \<and> list_all (\<lambda>e. \<not> bridging e) (w_trace w')) \<or>
      bridged demo_client demo_forward demo_opener demo_request (direct_tcpip_plan_new ''t'' 80 ''o'' 1)
        (\<lambda>_. Ok ()) (w_files demo_world) r (w_trace w'))"
proof -
  let ?plan = "direct_tcpip_plan_new ''t'' 80 ''o'' 1"
  let ?d = "forward_deadlines_new (secs 30) (secs 1)"
  obtain r w' where "block_on (direct_forward_operation demo_client demo_forward demo_opener demo_request
      ?plan () ?d (\<lambda>_. Ok ())) demo_world = Some (r, w')"
    by (rule block_on_returns [OF tame_direct_forward_operation])
  then have run: "forward_direct_tcpip_stream_with_ready (Ok ()) demo_client demo_forward demo_opener demo_request
      ?plan () ?d (\<lambda>_. Ok ()) demo_world = Some (r, w')"
    by (simp add: forward_direct_tcpip_stream_with_ready_def demo_forward_def)
  have "w_trace demo_world = []" by (simp add: demo_world_def)
  with direct_forward_established [OF demo_connect_checks run] run show ?thesis
    by (intro exI [of _ r] exI [of _ w'] conjI) simp_all
qed

lemma demo_remote_opens:
  "\<exists>f resolved w'. open_remote_tcpip_forward_with_lifecycle (Ok ()) () demo_client demo_forward demo_opener
     demo_request demo_forward_plan (cancellation_new ()) (forward_deadlines_new (secs 30) (secs 1)) demo_world =
       Some (Ok (f, resolved), w')"
  using demo_key_accepted [of "''h.example''" 22]
  by (simp add: open_remote_tcpip_forward_with_lifecycle_def remote_forward_operation_def
      remote_forward_bind_def remote_forward_plan_new_def check_server_key_forward
      resolved_remote_forward_bound_port_def validated_remote_forward_bound_port_def u16_try_from_def
      demo_forward_simps)

theorem remote_forward_verified_witness:
  "\<exists>f resolved w'. open_remote_tcpip_forward_with_lifecycle (Ok ()) () demo_client demo_forward demo_opener
     demo_request demo_forward_plan (cancellation_new ()) (forward_deadlines_new (secs 30) (secs 1)) demo_world =
       Some (Ok (f, resolved), w') \<and> rf_bind_port f \<noteq> 0 \<and>
     key_verified demo_client demo_opener demo_request (w_files demo_world)"
proof -
  obtain f resolved w' where run: "open_remote_tcpip_forward_with_lifecycle (Ok ()) () demo_client demo_forward
      demo_opener demo_request demo_forward_plan (cancellation_new ())
      (forward_deadlines_new (secs 30) (secs 1)) demo_world = Some (Ok (f, resolved), w')"
    using demo_remote_opens by blast
  from remote_forward_verified [OF demo_connect_checks run] run show ?thesis by blast
qed

theorem forwarded_channel_target_witness:
  "let handler = (handler_for_host demo_opener ''h'' 22 :: unit russh_client_handler)
       \<lparr>handler_remote_forwards := [resolve_bind_port 4022 (resolved_new demo_forward_plan)]\<rparr>
   in \<not> matches_connected_endpoint (hd (handler_remote_forwards handler)) ''h'' 80"
proof -
  let ?h = "(handler_for_host demo_opener ''h'' 22 :: unit russh_client_handler)
    \<lparr>handler_remote_forwards := [resolve_bind_port 4022 (resolved_new demo_forward_plan)]\<rparr>"
  have "\<exists>w'. server_channel_open_forwarded_tcpip () demo_forward ?h () ''h'' 80 demo_world =
      (Ready (Ok (), None), w')"
    by (simp add: server_channel_open_forwarded_tcpip_def matches_iff resolve_bind_port_def
        resolved_new_def remote_forward_plan_new_def map_async_def then_async_def ask_def await_def
        demo_world_def demo_forward_def ret_def Let_def)
  with forwarded_channel_target [of "()" demo_forward ?h "()" "''h''" 80 demo_world "Ok ()" None]
  show ?thesis by auto
qed

theorem ended_forward_is_quiet_witness:
  "\<exists>r f' w'. forward_wait demo_notify demo_forward (demo_remote\<lparr>rf_handle := None\<rparr>) demo_world =
     Some ((r, f'), w') \<and> rf_handle f' = None \<and> is_cancelled (rf_cancellation f')"
  using ended_forward_is_quiet [of "demo_remote\<lparr>rf_handle := None\<rparr>" demo_notify demo_forward "secs 1" demo_world]
  by auto

end
