(* ===== verification/Shell_Runner.thy ===== *)
theory Shell_Runner
  imports Channel_IO
begin

text \<open>
  The shell runners, \<open>crates/rssh-ssh/src/lib.rs\<close> lines 1118 to 1405: the bounded input
  receiver, the input pump and its write loop, the output pump, the full-duplex runner that
  joins them, and the legacy sequential runner.

  The two pumps share only the cancellation flag, which the runner sets when the output pump
  has returned. The input pump sees it as a stream of loads; which of them first sees the
  store is the schedule. A pump that has not returned is \<open>None\<close>.
\<close>

section \<open>Cancellation\<close>

text \<open>\<open>SshCancellation::new\<close> is \<open>flag_never\<close>. \<open>SshCancellation::cancel\<close> by another thread: the store is seen by
  every load but the first \<open>seen\<close> ones.\<close>

definition flag_cancel :: "nat \<Rightarrow> flag \<Rightarrow> flag" where
  "flag_cancel seen f = (\<lambda>i. seen \<le> i \<or> f i)"

section \<open>Input events\<close>

text \<open>What \<open>recv_timeout\<close> returns: an event, its 20 ms timeout, or that all senders are gone.\<close>

datatype recv_outcome = RecvEvent ssh_input_event | RecvTimeout | RecvDisconnected

type_synonym receiver = "nat \<Rightarrow> recv_outcome"

definition recv_next :: "receiver \<Rightarrow> receiver" where
  "recv_next q = (\<lambda>i. q (Suc i))"

datatype ssh_input_poll = PollEvent ssh_input_event | PollCancelled

definition input_event_after_wakeup :: "ssh_input_event \<Rightarrow> flag \<Rightarrow> ssh_input_poll \<times> flag" where
  "input_event_after_wakeup event f =
     (if flag_load f then PollCancelled else PollEvent event, flag_next f)"

definition recv_wakeup ::
  "receiver \<Rightarrow> flag \<Rightarrow> ssh_input_event \<Rightarrow> (ssh_input_poll \<times> receiver \<times> flag) option" where
  "recv_wakeup q f event =
     (let (poll, f') = input_event_after_wakeup event f in Some (poll, recv_next q, f'))"

partial_function (option) recv_cancellable ::
  "receiver \<Rightarrow> flag \<Rightarrow> (ssh_input_poll \<times> receiver \<times> flag) option" where
  "recv_cancellable q f =
     (if flag_load f then Some (PollCancelled, q, flag_next f)
      else (case q 0 of
        RecvEvent event \<Rightarrow> recv_wakeup q (flag_next f) event
      | RecvTimeout \<Rightarrow> recv_cancellable (recv_next q) (flag_next f)
      | RecvDisconnected \<Rightarrow> recv_wakeup q (flag_next f) EvEof))"

section \<open>The input pump\<close>

definition zero_write_error :: ssh_session_error where
  "zero_write_error = SshSessionError ''SSH session write returned zero bytes''"

text \<open>\<open>write_all_to_shell\<close>, from the number of bytes already written.\<close>

function write_all_from ::
  "'w shell_writer \<Rightarrow> bytes \<Rightarrow> nat \<Rightarrow> flag \<Rightarrow> 'w \<Rightarrow> (bool io \<times> flag \<times> 'w) option" where
  "write_all_from W bs written f w =
     (if written < length bs
      then (case wr_write_cancellable W (drop written bs) f w of
              None \<Rightarrow> None
            | Some (Inl e, f', w') \<Rightarrow> Some (Err e, f', w')
            | Some (Inr None, f', w') \<Rightarrow> Some (Ok False, f', w')
            | Some (Inr (Some next), f', w') \<Rightarrow>
                if next = 0 then Some (Err zero_write_error, f', w')
                else write_all_from W bs (written + next) f' w')
      else Some (Ok True, f, w))"
  by pat_completeness auto
termination
  by (relation "measure (\<lambda>(W, bs, written, f, w). length bs - written)") auto

declare write_all_from.simps [simp del]

definition write_all_to_shell :: "'w shell_writer \<Rightarrow> bytes \<Rightarrow> flag \<Rightarrow> 'w \<Rightarrow> (bool io \<times> flag \<times> 'w) option" where
  "write_all_to_shell W bs f w = write_all_from W bs 0 f w"

text \<open>On \<open>EvCancel\<close> the pump sets the flag too, but returns without loading it again, and no other thread
  loads it.\<close>

partial_function (option) pump_loop ::
  "'w shell_writer \<Rightarrow> receiver \<Rightarrow> flag \<Rightarrow> 'w \<Rightarrow> u64 \<Rightarrow> (u64 io \<times> 'w) option" where
  "pump_loop W q f w input_bytes =
     Option.bind (recv_cancellable q f) (\<lambda>(poll, q', f').
       case poll of
         PollCancelled \<Rightarrow> Some (Ok input_bytes, w)
       | PollEvent (EvData bs) \<Rightarrow>
           Option.bind (write_all_to_shell W bs f' w) (\<lambda>(written, f'', w').
             case written of
               Inl e \<Rightarrow> Some (Err e, w')
             | Inr complete \<Rightarrow>
                 if \<not> complete then Some (Ok input_bytes, w')
                 else pump_loop W q' f'' w' (sat_add_u64 input_bytes (of_nat (length bs))))
       | PollEvent (EvResize sz) \<Rightarrow>
           Option.bind (wr_resize_cancellable W sz f' w) (\<lambda>(resized, f'', w').
             case resized of
               Inl e \<Rightarrow> Some (Err e, w')
             | Inr None \<Rightarrow> Some (Ok input_bytes, w')
             | Inr (Some _) \<Rightarrow> pump_loop W q' f'' w' input_bytes)
       | PollEvent EvCancel \<Rightarrow>
           (case wr_close W w of
              (Inl e, w') \<Rightarrow> Some (Err e, w')
            | (Inr _, w') \<Rightarrow> Some (Ok input_bytes, w'))
       | PollEvent EvEof \<Rightarrow>
           (case wr_finish_input W w of
              (Inl e, w') \<Rightarrow> Some (Err e, w')
            | (Inr _, w') \<Rightarrow> Some (Ok input_bytes, w'))
       | PollEvent (EvError message) \<Rightarrow> Some (Err (SshSessionError message), w))"

definition pump_input_events :: "'w shell_writer \<Rightarrow> receiver \<Rightarrow> flag \<Rightarrow> 'w \<Rightarrow> (u64 io \<times> 'w) option" where
  "pump_input_events W q f w = pump_loop W q f w 0"

section \<open>The output pump\<close>

text \<open>The local output sink: the bytes it holds, and for each call the fault that makes it fail
  (for a write, after the given number of bytes).\<close>

record output_sink =
  sink_written :: bytes
  sink_calls :: nat
  sink_write_fault :: "nat \<Rightarrow> (nat \<times> string) option"
  sink_flush_fault :: "nat \<Rightarrow> string option"

definition sink_write_all :: "bytes \<Rightarrow> output_sink \<Rightarrow> unit io \<times> output_sink" where
  "sink_write_all bs out =
     (case sink_write_fault out (sink_calls out) of
        None \<Rightarrow> (Ok (), out\<lparr>sink_written := sink_written out @ bs, sink_calls := Suc (sink_calls out)\<rparr>)
      | Some (k, e) \<Rightarrow> (Err (SshSessionError e),
          out\<lparr>sink_written := sink_written out @ take k bs, sink_calls := Suc (sink_calls out)\<rparr>))"

definition sink_flush :: "output_sink \<Rightarrow> unit io \<times> output_sink" where
  "sink_flush out =
     (case sink_flush_fault out (sink_calls out) of
        None \<Rightarrow> (Ok (), out\<lparr>sink_calls := Suc (sink_calls out)\<rparr>)
      | Some e \<Rightarrow> (Err (SshSessionError e), out\<lparr>sink_calls := Suc (sink_calls out)\<rparr>))"

text \<open>\<open>output.write_all(..)?; output.flush()?\<close>.\<close>

definition sink_put :: "bytes \<Rightarrow> output_sink \<Rightarrow> unit io \<times> output_sink" where
  "sink_put bs out =
     (case sink_write_all bs out of
        (Inl e, out') \<Rightarrow> (Err e, out')
      | (Inr _, out') \<Rightarrow> sink_flush out')"

partial_function (option) copy_session_to_output ::
  "'r shell_reader \<Rightarrow> 'r \<Rightarrow> output_sink \<Rightarrow> u64 \<Rightarrow> (unit io \<times> u64 \<times> 'r \<times> output_sink) option" where
  "copy_session_to_output R r out output_bytes =
     Option.bind (rd_read R 8192 r) (\<lambda>(res, r').
       case res of
         Inl e \<Rightarrow> Some (Err e, output_bytes, r', out)
       | Inr bs \<Rightarrow>
           if length bs = 0 then Some (Ok (), output_bytes, r', out)
           else (case sink_put bs out of
              (Inl e, out') \<Rightarrow> Some (Err e, output_bytes, r', out')
            | (Inr _, out') \<Rightarrow>
                copy_session_to_output R r' out' (sat_add_u64 output_bytes (of_nat (length bs)))))"

section \<open>The full-duplex runner\<close>

text \<open>A panic of the writer inside the pump (with the state it leaves the writer in), or inside
  the emergency close of the pump's thread.\<close>

record 'w pump_panics =
  pump_panic :: "'w option"
  emergency_close_panics :: bool

definition pump_panicked :: ssh_session_error where
  "pump_panicked = SshSessionError ''SSH input pump panicked''"

text \<open>The pump's thread: its result, the writer, and the emergency close when it failed. \<open>None\<close>
  inside is a thread that panicked.\<close>

definition input_pump_thread ::
  "'w shell_writer \<Rightarrow> receiver \<Rightarrow> flag \<Rightarrow> 'w pump_panics \<Rightarrow> 'w \<Rightarrow>
   ('w \<times> u64 io \<times> unit io option) option option" where
  "input_pump_thread W q f panics w =
     map_option (\<lambda>(input_result, w').
         if is_ok input_result then Some (w', input_result, None)
         else if emergency_close_panics panics then None
         else (case wr_close W w' of (res, w'') \<Rightarrow> Some (w'', input_result, Some res)))
       (case pump_panic panics of
          Some w' \<Rightarrow> Some (Err pump_panicked, w')
        | None \<Rightarrow> pump_input_events W q f w)"

type_synonym ('r, 'w) run_end = "ssh_session_outcome io \<times> 'r \<times> 'w option \<times> output_sink"

text \<open>\<open>seen\<close> is the schedule: how many loads of the flag the input pump makes before it sees the store that
  follows the output pump.\<close>

definition run_split_shell_with_events ::
  "'r shell_reader \<Rightarrow> 'w shell_writer \<Rightarrow> receiver \<Rightarrow> nat \<Rightarrow> 'w pump_panics \<Rightarrow>
   'r \<Rightarrow> 'w \<Rightarrow> output_sink \<Rightarrow> ('r, 'w) run_end option" where
  "run_split_shell_with_events R W q seen panics r w out =
     Option.bind (copy_session_to_output R r out 0) (\<lambda>(output_result, output_bytes, r', out').
     Option.bind (input_pump_thread W q (flag_cancel seen flag_never) panics w) (\<lambda>joined.
       case joined of
         None \<Rightarrow> Some (and_then output_result (\<lambda>_. Err pump_panicked), r', None, out')
       | Some (w', input_result, emergency_close) \<Rightarrow>
           (let (close_result, w'') =
                  (case emergency_close of Some res \<Rightarrow> (res, w') | None \<Rightarrow> wr_close W w')
            in Some (and_then output_result (\<lambda>_.
                     and_then input_result (\<lambda>input_bytes.
                     and_then close_result (\<lambda>_.
                     Ok \<lparr>outcome_result = rd_session_result R r',
                         outcome_input_bytes = input_bytes,
                         outcome_output_bytes = output_bytes\<rparr>))), r', Some w'', out'))))"

text \<open>On a session that has not been split.\<close>

definition run_connected_shell_with_events ::
  "russh_ssh_channel \<Rightarrow> receiver \<Rightarrow> nat \<Rightarrow> russh_channel_writer pump_panics \<Rightarrow> output_sink \<Rightarrow>
   (russh_channel_reader, russh_channel_writer) run_end option" where
  "run_connected_shell_with_events session q seen panics out =
     (let (r, w) = into_read_writer session in
      run_split_shell_with_events russh_reader russh_writer q seen panics r w out)"

section \<open>The sequential runner\<close>

text \<open>Local input: what each \<open>read\<close> of at most the given number of bytes returns.\<close>

type_synonym 'i input_source = "nat \<Rightarrow> 'i \<Rightarrow> ((bytes, string) result \<times> 'i) option"

function session_write_from ::
  "'s shell_session \<Rightarrow> bytes \<Rightarrow> nat \<Rightarrow> 's \<Rightarrow> unit io \<times> 's" where
  "session_write_from S bs written s =
     (if written < length bs
      then (case ss_write S (drop written bs) s of
              (Inl e, s') \<Rightarrow> (Err e, s')
            | (Inr next, s') \<Rightarrow>
                if next = 0 then (Err zero_write_error, s')
                else session_write_from S bs (written + next) s')
      else (Ok (), s))"
  by pat_completeness auto
termination
  by (relation "measure (\<lambda>(S, bs, written, s). length bs - written)") auto

declare session_write_from.simps [simp del]

partial_function (option) copy_input_to_legacy_session ::
  "'i input_source \<Rightarrow> 's shell_session \<Rightarrow> 'i \<Rightarrow> 's \<Rightarrow> (unit io \<times> 'i \<times> 's) option" where
  "copy_input_to_legacy_session input S i s =
     Option.bind (input 8192 i) (\<lambda>(res, i').
       case res of
         Inl e \<Rightarrow> Some (Err (SshSessionError e), i', s)
       | Inr bs \<Rightarrow>
           if length bs = 0 then Some (Ok (), i', s)
           else (case session_write_from S bs 0 s of
              (Inl e, s') \<Rightarrow> Some (Err e, i', s')
            | (Inr _, s') \<Rightarrow> copy_input_to_legacy_session input S i' s'))"

partial_function (option) legacy_output_loop ::
  "'s shell_session \<Rightarrow> 's \<Rightarrow> output_sink \<Rightarrow> (unit io \<times> 's \<times> output_sink) option" where
  "legacy_output_loop S s out =
     Option.bind (ss_read S 8192 s) (\<lambda>(res, s').
       case res of
         Inl e \<Rightarrow> Some (Err e, s', out)
       | Inr bs \<Rightarrow>
           if length bs = 0 then Some (Ok (), s', out)
           else (case sink_put bs out of
              (Inl e, out') \<Rightarrow> Some (Err e, s', out')
            | (Inr _, out') \<Rightarrow> legacy_output_loop S s' out'))"

definition run_shell_with_io ::
  "(ssh_connect_request \<Rightarrow> 's io) \<Rightarrow> ssh_connect_request \<Rightarrow> 'i input_source \<Rightarrow> 's shell_session \<Rightarrow>
   'i \<Rightarrow> output_sink \<Rightarrow> (unit io \<times> output_sink) option" where
  "run_shell_with_io connect request input S i out =
     (case connect request of
        Inl e \<Rightarrow> Some (Err e, out)
      | Inr s \<Rightarrow>
          Option.bind (copy_input_to_legacy_session input S i s) (\<lambda>(res, i', s').
            case res of
              Inl e \<Rightarrow> Some (Err e, out)
            | Inr _ \<Rightarrow>
                Option.bind (legacy_output_loop S s' out) (\<lambda>(res, s'', out').
                  case res of
                    Inl e \<Rightarrow> Some (Err e, out')
                  | Inr _ \<Rightarrow> Some (fst (ss_close S s''), out'))))"

section \<open>What the pumps move\<close>

text \<open>The bytes of the first \<open>n\<close> outcomes of the receiver.\<close>

fun data_of :: "recv_outcome \<Rightarrow> bytes" where
  "data_of (RecvEvent (EvData bs)) = bs"
| "data_of _ = []"

definition recv_data :: "receiver \<Rightarrow> nat \<Rightarrow> bytes" where
  "recv_data q n = concat (map (\<lambda>i. data_of (q i)) [0..<n])"

definition recv_drop :: "nat \<Rightarrow> receiver \<Rightarrow> receiver" where
  "recv_drop n q = (\<lambda>i. q (n + i))"

text \<open>Every event's data has a length that a \<open>usize\<close> holds.\<close>

definition events_fit :: "receiver \<Rightarrow> bool" where
  "events_fit q \<longleftrightarrow> (\<forall>i. length (data_of (q i)) < 2 ^ 64)"

text \<open>The flag is eventually seen set and stays so.\<close>

definition set_from :: "nat \<Rightarrow> flag \<Rightarrow> bool" where
  "set_from k f \<longleftrightarrow> (\<forall>i \<ge> k. f i)"

lemma recv_data_0 [simp]: "recv_data q 0 = []"
  by (simp add: recv_data_def)

lemma recv_data_Suc: "recv_data q (Suc n) = recv_data q n @ data_of (q n)"
  by (simp add: recv_data_def)

lemma recv_data_add: "recv_data q (m + n) = recv_data q m @ recv_data (recv_drop m q) n"
  by (induction n) (simp_all add: recv_data_Suc recv_drop_def)

lemma recv_next_drop: "recv_next q = recv_drop 1 q"
  by (simp add: recv_next_def recv_drop_def)

lemma recv_drop_drop [simp]: "recv_drop m (recv_drop n q) = recv_drop (n + m) q"
  by (simp add: recv_drop_def add.assoc)

lemma events_fit_drop [simp]: "events_fit q \<Longrightarrow> events_fit (recv_drop n q)"
  by (simp add: events_fit_def recv_drop_def)

text \<open>The receiver skips timeouts and returns the next event, or is cancelled. It loads the
  flag at least once.\<close>

lemma recv_cancellable_some:
  assumes "recv_cancellable q f = Some (p, q', f')"
  shows "\<exists>m. f' = flag_drop (Suc m) f" and
    "p = PollEvent e \<Longrightarrow> \<exists>n. recv_data q n = [] \<and> q' = recv_drop (Suc n) q \<and>
       (q n = RecvEvent e \<or> q n = RecvDisconnected \<and> e = EvEof)"
proof -
  have "(\<exists>m. f' = flag_drop (Suc m) f) \<and>
    (\<forall>e. p = PollEvent e \<longrightarrow> (\<exists>n. recv_data q n = [] \<and> q' = recv_drop (Suc n) q \<and>
       (q n = RecvEvent e \<or> q n = RecvDisconnected \<and> e = EvEof)))"
    using assms
  proof (induction q f "(p, q', f')" rule: recv_cancellable.raw_induct [rotated, consumes 1, case_names 1])
    case (1 rec q f)
    show ?case
    proof (cases "flag_load f")
      case True
      with 1(2) show ?thesis by (auto simp: flag_next_drop intro: exI [of _ 0])
    next
      case nf: False
      show ?thesis
      proof (cases "q 0")
        case (RecvEvent e)
        with 1(2) nf have "f' = flag_drop (Suc 1) f" "q' = recv_drop (Suc 0) q"
          "p = PollCancelled \<or> p = PollEvent e"
          by (auto simp: recv_wakeup_def input_event_after_wakeup_def flag_next_drop recv_next_drop
              split: if_splits)
        with RecvEvent show ?thesis using recv_data_0 by blast
      next
        case RecvDisconnected
        with 1(2) nf have "f' = flag_drop (Suc 1) f" "q' = recv_drop (Suc 0) q"
          "p = PollCancelled \<or> p = PollEvent EvEof"
          by (auto simp: recv_wakeup_def input_event_after_wakeup_def flag_next_drop recv_next_drop
              split: if_splits)
        with RecvDisconnected show ?thesis using recv_data_0 by blast
      next
        case RecvTimeout
        with 1(2) nf have "rec (recv_next q) (flag_next f) = Some (p, q', f')" by simp
        from 1(1) [OF this] obtain m where m: "f' = flag_drop (Suc (Suc m)) f"
          and ev: "\<And>e. p = PollEvent e \<Longrightarrow> \<exists>n. recv_data (recv_drop 1 q) n = [] \<and>
             q' = recv_drop (Suc n) (recv_drop 1 q) \<and>
             (recv_drop 1 q n = RecvEvent e \<or> recv_drop 1 q n = RecvDisconnected \<and> e = EvEof)"
          by (auto simp: flag_next_drop recv_next_drop)
        have "\<exists>n. recv_data q n = [] \<and> q' = recv_drop (Suc n) q \<and>
            (q n = RecvEvent e \<or> q n = RecvDisconnected \<and> e = EvEof)" if "p = PollEvent e" for e
        proof -
          from ev [OF that] obtain n where n: "recv_data (recv_drop 1 q) n = []"
            "q' = recv_drop (Suc (Suc n)) q"
            "q (Suc n) = RecvEvent e \<or> q (Suc n) = RecvDisconnected \<and> e = EvEof"
            by (auto simp: recv_drop_def)
          then have "recv_data q (Suc n) = []"
            using RecvTimeout recv_data_add [of q 1 n] by (simp add: recv_data_def)
          with n show ?thesis by blast
        qed
        with m show ?thesis by blast
      qed
    qed
  qed
  then show "\<exists>m. f' = flag_drop (Suc m) f"
    and "p = PollEvent e \<Longrightarrow> \<exists>n. recv_data q n = [] \<and> q' = recv_drop (Suc n) q \<and>
       (q n = RecvEvent e \<or> q n = RecvDisconnected \<and> e = EvEof)"
    by auto
qed

text \<open>A receiver whose flag is eventually set returns.\<close>

lemma recv_cancellable_returns:
  "set_from k f \<Longrightarrow> \<exists>r. recv_cancellable q f = Some r"
proof (induction k arbitrary: q f)
  case 0
  then show ?case
    by (subst recv_cancellable.simps) (simp add: set_from_def flag_load_def)
next
  case (Suc k)
  then have "set_from k (flag_next f)" by (simp add: set_from_def flag_next_def)
  from Suc.IH [OF this, of "recv_next q"] show ?case
    by (subst recv_cancellable.simps)
      (auto simp: recv_wakeup_def Let_def split: recv_outcome.splits prod.splits)
qed

lemma set_from_drop: "set_from k f \<Longrightarrow> set_from (k - n) (flag_drop n f)"
  by (simp add: set_from_def flag_drop_def)

lemma set_from_after: "set_from k f \<Longrightarrow> flag_after f f' \<Longrightarrow> set_from k f'"
  by (auto simp: set_from_def flag_after_def flag_drop_def)

lemma recv_cancelled_at_once: "flag_load f \<Longrightarrow> recv_cancellable q f = Some (PollCancelled, q, flag_next f)"
  by (subst recv_cancellable.simps) simp

text \<open>Counting with saturation.\<close>

lemma sat_add_length:
  "n < 2 ^ 64 \<Longrightarrow> unat a = min m (2 ^ 64 - 1) \<Longrightarrow>
     unat (sat_add_u64 a (of_nat n)) = min (m + n) (2 ^ 64 - 1)"
  by (auto simp: unat_sat_add_u64 unat_of_nat take_bit_nat_eq_self min_def)

lemma sat_add_0 [simp]: "sat_add_u64 a 0 = a"
  using unsigned_less [of a, where ?'a = nat] by (simp add: sat_add_u64_def)

text \<open>How far the pump has come: the data of the first \<open>n\<close> outcomes and part of the next, and,
  when it returned a count, the count grown by the data of the first \<open>n\<close>.\<close>

definition pump_progress :: "receiver \<Rightarrow> u64 \<Rightarrow> u64 io \<Rightarrow> bytes \<Rightarrow> bool" where
  "pump_progress q cnt res added \<longleftrightarrow>
     (\<exists>n k. added = recv_data q n @ take k (data_of (q n)) \<and>
        (\<forall>c m. res = Ok c \<longrightarrow> events_fit q \<longrightarrow> unat cnt = min m (2 ^ 64 - 1) \<longrightarrow>
           unat c = min (m + length (recv_data q n)) (2 ^ 64 - 1)))"

lemma pump_progress_partial:
  "recv_data q n = [] \<Longrightarrow> (\<And>c. res = Ok c \<Longrightarrow> c = cnt) \<Longrightarrow>
     pump_progress q cnt res (take k (data_of (q n)))"
  unfolding pump_progress_def by (intro exI [of _ n] exI [of _ k]) auto

lemma pump_progress_here:
  "(\<And>c. res = Ok c \<Longrightarrow> c = cnt) \<Longrightarrow> pump_progress q cnt res []"
  using pump_progress_partial [of q 0 res cnt 0] by simp

lemma pump_progress_step:
  assumes "recv_data q n = []" and "data_of (q n) = bs"
    and "pump_progress (recv_drop (Suc n) q) (sat_add_u64 cnt (of_nat (length bs))) res added"
  shows "pump_progress q cnt res (bs @ added)"
proof -
  from assms(3) obtain i k where i: "added = recv_data (recv_drop (Suc n) q) i @
      take k (data_of (recv_drop (Suc n) q i))"
    and count: "\<And>c m. res = Ok c \<Longrightarrow> events_fit (recv_drop (Suc n) q) \<Longrightarrow>
      unat (sat_add_u64 cnt (of_nat (length bs))) = min m (2 ^ 64 - 1) \<Longrightarrow>
      unat c = min (m + length (recv_data (recv_drop (Suc n) q) i)) (2 ^ 64 - 1)"
    unfolding pump_progress_def by blast
  have data: "recv_data q (Suc n + i) = bs @ recv_data (recv_drop (Suc n) q) i"
    using assms(1,2) recv_data_add [of q "Suc n" i] by (simp add: recv_data_Suc)
  have "unat c = min (m + length (recv_data q (Suc n + i))) (2 ^ 64 - 1)"
    if "res = Ok c" "events_fit q" "unat cnt = min m (2 ^ 64 - 1)" for c m
  proof -
    have "length bs < 2 ^ 64" using that(2) assms(2) by (auto simp: events_fit_def)
    from count [OF that(1) _ sat_add_length [OF this that(3)]] that(2)
    show ?thesis unfolding data by (simp add: add.assoc)
  qed
  moreover have "bs @ added = recv_data q (Suc n + i) @ take k (data_of (q (Suc n + i)))"
    unfolding data i by (simp add: recv_drop_def)
  ultimately show ?thesis unfolding pump_progress_def by blast
qed

lemma pump_progress_skip:
  assumes "recv_data q n = []" and "data_of (q n) = []"
    and "pump_progress (recv_drop (Suc n) q) cnt res added"
  shows "pump_progress q cnt res added"
  using pump_progress_step [OF assms(1,2), of cnt res added] assms(3) by simp

context shell_writer_contract
begin

lemma write_all_from_accepted:
  assumes "write_all_from W bs k f w = Some (res, f', w')"
  shows "flag_after f f' \<and> (\<exists>n. accepted w' = accepted w @ take n (drop k bs)) \<and>
    (res = Ok True \<longrightarrow> accepted w' = accepted w @ drop k bs)"
  using assms
proof (induction "length bs - k" arbitrary: k f w rule: less_induct)
  case less
  note run = less.prems [unfolded write_all_from.simps [of W bs k f w]]
  show ?case
  proof (cases "k < length bs")
    case False
    with run show ?thesis by (auto intro: exI [of _ 0])
  next
    case True
    obtain r0 f0 w0 where c: "wr_write_cancellable W (drop k bs) f w = Some (r0, f0, w0)"
      using run True by (cases "wr_write_cancellable W (drop k bs) f w") auto
    consider (Fail) e where "r0 = Err e" | (Stop) "r0 = Ok None" | (Go) nx where "r0 = Ok (Some nx)"
      by (metis option.exhaust sum.exhaust)
    then show ?thesis
    proof cases
      case Fail
      with run True c write_cancellable_flag [OF c] show ?thesis
        using write_cancellable_err [of "drop k bs" f w e f0 w0] by (auto intro: exI [of _ 0])
    next
      case Stop
      with run True c write_cancellable_flag [OF c] show ?thesis
        using write_cancellable_none [of "drop k bs" f w f0 w0] by (auto intro: exI [of _ 0])
    next
      case (Go nx)
      then have acc: "accepted w0 = accepted w @ take nx (drop k bs)"
        using c write_cancellable_some by blast
      show ?thesis
      proof (cases "nx = 0")
        case True
        with run \<open>k < length bs\<close> c Go acc write_cancellable_flag [OF c] show ?thesis
          by (auto intro: exI [of _ 0])
      next
        case False
        with run True c Go have rec: "write_all_from W bs (k + nx) f0 w0 = Some (res, f', w')" by simp
        have dec: "length bs - (k + nx) < length bs - k" using False True by simp
        have join: "take nx (drop k bs) @ take n (drop (k + nx) bs) = take (nx + n) (drop k bs)" for n
          by (metis add.commute drop_drop take_add)
        have all: "take nx (drop k bs) @ drop (k + nx) bs = drop k bs"
          by (metis add.commute append_take_drop_id drop_drop)
        from less.hyps [OF dec rec] obtain n where "flag_after f0 f'"
          "accepted w' = accepted w0 @ take n (drop (k + nx) bs)"
          "res = Ok True \<longrightarrow> accepted w' = accepted w0 @ drop (k + nx) bs" by blast
        with acc write_cancellable_flag [OF c] show ?thesis
          using join [of n] all by (auto intro: flag_after_trans)
      qed
    qed
  qed
qed

lemma write_all_from_returns:
  "(\<And>i. n \<le> i \<Longrightarrow> f i) \<Longrightarrow> write_all_from W bs k f w \<noteq> None"
proof (induction "length bs - k" arbitrary: k f w rule: less_induct)
  case less
  show ?case
  proof (cases "k < length bs")
    case False
    then show ?thesis by (simp add: write_all_from.simps [of W bs k f w])
  next
    case True
    obtain r0 f0 w0 where c: "wr_write_cancellable W (drop k bs) f w = Some (r0, f0, w0)"
      using write_cancellable_returns [OF less.prems] by fastforce
    obtain m where "f0 = flag_drop m f" using write_cancellable_flag [OF c] by (auto simp: flag_after_def)
    then have "\<And>i. n \<le> i \<Longrightarrow> f0 i" using less.prems by (simp add: flag_drop_def)
    then have "write_all_from W bs (k + nx) f0 w0 \<noteq> None" if "nx \<noteq> 0" for nx
      using less.hyps [of "k + nx" f0 w0] True that by simp
    with True c show ?thesis
      by (simp add: write_all_from.simps [of W bs k f w] split: sum.split option.split)
  qed
qed

lemma pump_loop_accepted:
  assumes "pump_loop V q f w cnt = Some (res, w')" and "V = W"
  shows "\<exists>added. accepted w' = accepted w @ added \<and> pump_progress q cnt res added"
  using assms
proof (induction V q f w cnt "(res, w')"
    rule: pump_loop.raw_induct [rotated, consumes 1, case_names step])
  case (step rec V q f w cnt)
  note V = \<open>V = W\<close>
  obtain poll q1 f1 where recv: "recv_cancellable q f = Some (poll, q1, f1)"
    and body: "(case poll of
         PollCancelled \<Rightarrow> Some (Ok cnt, w)
       | PollEvent (EvData bs) \<Rightarrow>
           Option.bind (write_all_to_shell W bs f1 w) (\<lambda>(written, f'', w').
             case written of
               Inl e \<Rightarrow> Some (Err e, w')
             | Inr complete \<Rightarrow>
                 if \<not> complete then Some (Ok cnt, w')
                 else rec W q1 f'' w' (sat_add_u64 cnt (of_nat (length bs))))
       | PollEvent (EvResize sz) \<Rightarrow>
           Option.bind (wr_resize_cancellable W sz f1 w) (\<lambda>(resized, f'', w').
             case resized of
               Inl e \<Rightarrow> Some (Err e, w')
             | Inr None \<Rightarrow> Some (Ok cnt, w')
             | Inr (Some _) \<Rightarrow> rec W q1 f'' w' cnt)
       | PollEvent EvCancel \<Rightarrow>
           (case wr_close W w of
              (Inl e, w') \<Rightarrow> Some (Err e, w')
            | (Inr _, w') \<Rightarrow> Some (Ok cnt, w'))
       | PollEvent EvEof \<Rightarrow>
           (case wr_finish_input W w of
              (Inl e, w') \<Rightarrow> Some (Err e, w')
            | (Inr _, w') \<Rightarrow> Some (Ok cnt, w'))
       | PollEvent (EvError message) \<Rightarrow> Some (Err (SshSessionError message), w)) = Some (res, w')"
    using step(2) V by (auto simp: bind_eq_Some_conv)
  have here: ?case if "accepted w' = accepted w" "\<And>c. res = Ok c \<Longrightarrow> c = cnt"
    using that pump_progress_here by (intro exI [of _ "[]"]) auto
  show ?case
  proof (cases poll)
    case PollCancelled
    with body here show ?thesis by auto
  next
    case (PollEvent e)
    then obtain n where n: "recv_data q n = []" "q1 = recv_drop (Suc n) q"
      "q n = RecvEvent e \<or> q n = RecvDisconnected \<and> e = EvEof"
      using recv_cancellable_some(2) [OF recv] by blast
    show ?thesis
    proof (cases e)
      case (EvData bs)
      then have d: "data_of (q n) = bs" using n(3) by auto
      obtain r2 f2 w2 where wa: "write_all_to_shell W bs f1 w = Some (r2, f2, w2)"
        using body PollEvent EvData by (cases "write_all_to_shell W bs f1 w") auto
      then have acc: "\<exists>k. accepted w2 = accepted w @ take k bs"
        "r2 = Ok True \<Longrightarrow> accepted w2 = accepted w @ bs"
        using write_all_from_accepted [of bs 0 f1 w r2 f2 w2] by (auto simp: write_all_to_shell_def)
      show ?thesis
      proof (cases "r2 = Ok True")
        case True
        with body PollEvent EvData wa
        have "rec W q1 f2 w2 (sat_add_u64 cnt (of_nat (length bs))) = Some (res, w')" by simp
        from step(1) [OF this refl] obtain added where "accepted w' = accepted w2 @ added"
          "pump_progress q1 (sat_add_u64 cnt (of_nat (length bs))) res added" by blast
        then show ?thesis
          using acc(2) [OF True] pump_progress_step [OF n(1) d] n(2)
          by (intro exI [of _ "bs @ added"]) auto
      next
        case False
        with body PollEvent EvData wa have "w' = w2" "\<And>c. res = Ok c \<Longrightarrow> c = cnt"
          by (auto split: sum.splits if_splits)
        then show ?thesis
          using acc(1) pump_progress_partial [OF n(1), of res cnt] d by metis
      qed
    next
      case (EvResize sz)
      then have d: "data_of (q n) = []" using n(3) by auto
      obtain r2 f2 w2 where rz: "wr_resize_cancellable W sz f1 w = Some (r2, f2, w2)"
        using body PollEvent EvResize by (cases "wr_resize_cancellable W sz f1 w") auto
      have acc: "accepted w2 = accepted w" using resize_cancellable_accepted [OF rz] by simp
      show ?thesis
      proof (cases "r2 = Ok (Some ())")
        case True
        with body PollEvent EvResize rz have "rec W q1 f2 w2 cnt = Some (res, w')" by simp
        from step(1) [OF this refl] acc show ?thesis
          using pump_progress_skip [OF n(1) d] n(2) by metis
      next
        case False
        with body PollEvent EvResize rz have "w' = w2" "\<And>c. res = Ok c \<Longrightarrow> c = cnt"
          by (auto split: sum.splits option.splits)
        with acc here show ?thesis by blast
      qed
    next
      case EvCancel
      with body PollEvent have "w' = snd (wr_close W w)" "\<And>c. res = Ok c \<Longrightarrow> c = cnt"
        by (auto split: sum.splits prod.splits)
      with close_accepted here show ?thesis by simp
    next
      case EvEof
      with body PollEvent have "w' = snd (wr_finish_input W w)" "\<And>c. res = Ok c \<Longrightarrow> c = cnt"
        by (auto split: sum.splits prod.splits)
      with finish_input_accepted here show ?thesis by simp
    next
      case (EvError m)
      with body PollEvent here show ?thesis by auto
    qed
  qed
qed

text \<open>Once the flag is set for good, the pump returns, however many events are waiting.\<close>

lemma pump_loop_returns:
  "set_from k f \<Longrightarrow> \<exists>r. pump_loop W q f w cnt = Some r"
proof (induction k arbitrary: q f w cnt)
  case 0
  then have "recv_cancellable q f = Some (PollCancelled, q, flag_next f)"
    by (intro recv_cancelled_at_once) (simp add: set_from_def flag_load_def)
  then show ?case by (subst pump_loop.simps) simp
next
  case (Suc k)
  obtain poll q1 f1 where recv: "recv_cancellable q f = Some (poll, q1, f1)"
    using recv_cancellable_returns [OF Suc.prems, of q] by auto
  obtain m where "f1 = flag_drop (Suc m) f" using recv_cancellable_some(1) [OF recv] by blast
  then have f1: "set_from k f1"
    using Suc.prems by (simp add: set_from_def flag_drop_def)
  have next_round: "\<exists>r. pump_loop W q1 f2 w2 c2 = Some r" if "flag_after f1 f2" for f2 w2 c2
    using Suc.IH [OF set_from_after [OF f1 that]] .
  show ?case
  proof (cases poll)
    case PollCancelled
    with recv show ?thesis by (subst pump_loop.simps) simp
  next
    case (PollEvent e)
    show ?thesis
    proof (cases e)
      case (EvData bs)
      obtain r2 f2 w2 where wa: "write_all_to_shell W bs f1 w = Some (r2, f2, w2)"
        using write_all_from_returns [of k f1 bs 0 w] f1 by (auto simp: write_all_to_shell_def set_from_def)
      then have "flag_after f1 f2" using write_all_from_accepted unfolding write_all_to_shell_def by blast
      from next_round [OF this] show ?thesis
        by (subst pump_loop.simps) (simp add: recv PollEvent EvData wa split: sum.split)
    next
      case (EvResize sz)
      obtain r2 f2 w2 where rz: "wr_resize_cancellable W sz f1 w = Some (r2, f2, w2)"
        using resize_cancellable_returns [of k f1 sz w] f1 by (fastforce simp: set_from_def)
      then have "flag_after f1 f2" using resize_cancellable_accepted by blast
      from next_round [OF this] show ?thesis
        by (subst pump_loop.simps) (simp add: recv PollEvent EvResize rz split: sum.split option.split)
    qed (use recv PollEvent in \<open>subst pump_loop.simps, auto split: prod.splits sum.splits\<close>)+
  qed
qed

end

text \<open>The output side.\<close>

lemma sink_put_written:
  assumes "sink_put bs out = (res, out')"
  shows "\<exists>k \<le> length bs. sink_written out' = sink_written out @ take k bs \<and>
    (res = Ok () \<longrightarrow> k = length bs)"
proof (cases "sink_write_fault out (sink_calls out)")
  case None
  with assms show ?thesis
    by (intro exI [of _ "length bs"])
      (auto simp: sink_put_def sink_write_all_def sink_flush_def split: option.splits)
next
  case (Some x)
  with assms show ?thesis
    by (intro exI [of _ "min (fst x) (length bs)"])
      (auto simp: sink_put_def sink_write_all_def min_def split: prod.splits)
qed

text \<open>The first \<open>n\<close> bytes of a stream reached the sink, of which \<open>m\<close> were counted.\<close>

definition copy_progress :: "bytes \<Rightarrow> bytes \<Rightarrow> nat \<Rightarrow> unit io \<Rightarrow> u64 \<Rightarrow> bytes \<Rightarrow> bool" where
  "copy_progress stream added c0 res cnt' stream' \<longleftrightarrow>
     (\<exists>m n. m \<le> n \<and> n \<le> length stream \<and> added = take n stream \<and>
        unat cnt' = min (c0 + m) (2 ^ 64 - 1) \<and>
        (res = Ok () \<longrightarrow> m = n \<and> stream' = drop n stream))"

lemma copy_progress_stop:
  "unat cnt = min c0 (2 ^ 64 - 1) \<Longrightarrow> k \<le> length stream \<Longrightarrow>
     (res = Ok () \<longrightarrow> k = 0 \<and> stream' = stream) \<Longrightarrow>
     copy_progress stream (take k stream) c0 res cnt stream'"
  unfolding copy_progress_def by (intro exI [of _ 0] exI [of _ k]) auto

lemma copy_progress_step:
  assumes "copy_progress stream added (c0 + length bs) res cnt' stream'"
  shows "copy_progress (bs @ stream) (bs @ added) c0 res cnt' stream'"
proof -
  from assms obtain m n where "m \<le> n" "n \<le> length stream" "added = take n stream"
    "unat cnt' = min (c0 + length bs + m) (2 ^ 64 - 1)"
    "res = Ok () \<longrightarrow> m = n \<and> stream' = drop n stream"
    unfolding copy_progress_def by blast
  then show ?thesis
    unfolding copy_progress_def
    by (intro exI [of _ "length bs + m"] exI [of _ "length bs + n"]) (auto simp: add.assoc)
qed

context shell_reader_contract
begin

lemma copy_session_written:
  assumes "copy_session_to_output V r out cnt = Some (res, cnt', r', out')" and "V = R"
    and "unat cnt = min c0 (2 ^ 64 - 1)"
  shows "\<exists>added. sink_written out' = sink_written out @ added \<and>
    copy_progress (remaining r) added c0 res cnt' (remaining r')"
  using assms
proof (induction V r out cnt "(res, cnt', r', out')" arbitrary: c0
    rule: copy_session_to_output.raw_induct [rotated, consumes 1, case_names step])
  case (step rec V r out cnt)
  obtain rr r1 where read: "rd_read R 8192 r = Some (rr, r1)"
    and body: "(case rr of
         Inl e \<Rightarrow> Some (Err e, cnt, r1, out)
       | Inr bs \<Rightarrow>
           if length bs = 0 then Some (Ok (), cnt, r1, out)
           else (case sink_put bs out of
              (Inl e, out') \<Rightarrow> Some (Err e, cnt, r1, out')
            | (Inr _, out') \<Rightarrow> rec R r1 out' (sat_add_u64 cnt (of_nat (length bs))))) =
       Some (res, cnt', r', out')"
    using step(2,3) by (auto simp: bind_eq_Some_conv)
  show ?case
  proof (cases rr)
    case (Inl e)
    with body have "res = Err e" "cnt' = cnt" "out' = out" by auto
    then show ?thesis
      using step(4) copy_progress_stop [of cnt c0 0 "remaining r" res "remaining r'"] by auto
  next
    case (Inr bs)
    have pre: "length bs \<le> 8192" "remaining r = bs @ remaining r1"
      using read_prefix [of 8192 r bs r1] read Inr by auto
    obtain rs o1 where put: "sink_put bs out = (rs, o1)" by (metis surj_pair)
    obtain k where k: "k \<le> length bs" "sink_written o1 = sink_written out @ take k bs"
      "rs = Ok () \<longrightarrow> k = length bs"
      using sink_put_written [OF put] by blast
    consider (Stop) "bs = []" | (Fail) e where "bs \<noteq> []" "rs = Err e" | (Go) "bs \<noteq> []" "rs = Ok ()"
      by (cases rs) auto
    then show ?thesis
    proof cases
      case Stop
      with body Inr pre have "cnt' = cnt" "out' = out" "remaining r' = remaining r" by auto
      then show ?thesis
        using step(4) copy_progress_stop [of cnt c0 0 "remaining r" res "remaining r'"] by auto
    next
      case Fail
      with body Inr put have "res = Err e" "cnt' = cnt" "out' = o1" by auto
      moreover have "take k (remaining r) = take k bs" "k \<le> length (remaining r)"
        using k(1) pre(2) by auto
      ultimately show ?thesis
        using k(2) step(4) copy_progress_stop [of cnt c0 k "remaining r" res "remaining r'"] by auto
    next
      case Go
      with body Inr put
      have rec: "rec R r1 o1 (sat_add_u64 cnt (of_nat (length bs))) = Some (res, cnt', r', out')" by simp
      have "unat (sat_add_u64 cnt (of_nat (length bs))) = min (c0 + length bs) (2 ^ 64 - 1)"
        using sat_add_length [OF _ step(4)] pre(1) by simp
      from step(1) [OF rec refl this] obtain added where
        added: "sink_written out' = sink_written o1 @ added"
        "copy_progress (remaining r1) added (c0 + length bs) res cnt' (remaining r')" by blast
      have "sink_written out' = sink_written out @ bs @ added"
        using k(2,3) Go(2) added(1) by simp
      moreover have "copy_progress (remaining r) (bs @ added) c0 res cnt' (remaining r')"
        unfolding pre(2) by (rule copy_progress_step [OF added(2)])
      ultimately show ?thesis by blast
    qed
  qed
qed

end

text \<open>On the \<open>russh\<close> reader a copy that ends without error has seen the end of the stream.\<close>

lemma copy_russh_complete:
  assumes "copy_session_to_output V r out cnt = Some (Ok (), cnt', r', out')" and "V = russh_reader"
    and "no_empty_data r"
  shows "remaining_output r' = [] \<and> reader_result r' = final_result r"
  using assms
proof (induction V r out cnt "(Ok () :: unit io, cnt', r', out')"
    rule: copy_session_to_output.raw_induct [rotated, consumes 1, case_names step])
  case (step rec V r out cnt)
  obtain rr r1 where rr: "rd_read russh_reader 8192 r = Some (rr, r1)"
    and all: "(case rr of
         Inl e \<Rightarrow> Some (Err e, cnt, r1, out)
       | Inr bs \<Rightarrow>
           if length bs = 0 then Some (Ok (), cnt, r1, out)
           else (case sink_put bs out of
              (Inl e, out') \<Rightarrow> Some (Err e, cnt, r1, out')
            | (Inr _, out') \<Rightarrow> rec russh_reader r1 out' (sat_add_u64 cnt (of_nat (length bs))))) =
       Some (Ok (), cnt', r', out')"
    using step(2,3) by (auto simp: bind_eq_Some_conv)
  then obtain bs where bs: "rr = Ok bs" by (cases rr) auto
  note read = rr [unfolded bs] and body = all [unfolded bs sum.case]
  from read obtain f' where rc: "read_cancellable_blocking 8192 flag_never r = Some (Ok (Some bs), f', r1)"
    by (auto simp: russh_reader_def read_blocking_ok)
  have r1: "final_result r1 = final_result r" "no_empty_data r1"
    "bs = [] \<Longrightarrow> reader_pending r1 = [] \<and> reader_finished r1"
    using read_cancellable_ok [OF rc] step(4) by auto
  show ?case
  proof (cases "bs = []")
    case True
    with body have "r' = r1" by simp
    with True r1 show ?thesis by (simp add: remaining_output_def final_result_def)
  next
    case False
    with body obtain o1 where
      "rec russh_reader r1 o1 (sat_add_u64 cnt (of_nat (length bs))) = Some (Ok (), cnt', r', out')"
      by (auto split: prod.splits sum.splits)
    from step(1) [OF this refl r1(2)] r1(1) show ?thesis by simp
  qed
qed

text \<open>The runner's result from those of its parts.\<close>

lemma run_split_parts:
  assumes "copy_session_to_output R r out 0 = Some (output_result, output_bytes, r', out')"
    and "pump_input_events W q (flag_cancel seen flag_never) w = Some (input_result, w1)"
    and "pump_panic panics = None" and "\<not> emergency_close_panics panics"
  shows "run_split_shell_with_events R W q seen panics r w out =
    Some (and_then output_result (\<lambda>_. and_then input_result (\<lambda>input_bytes.
            and_then (fst (wr_close W w1)) (\<lambda>_.
            Ok \<lparr>outcome_result = rd_session_result R r', outcome_input_bytes = input_bytes,
                outcome_output_bytes = output_bytes\<rparr>))), r', Some (snd (wr_close W w1)), out')"
  using assms
  by (cases input_result)
    (auto simp: run_split_shell_with_events_def input_pump_thread_def split: prod.splits)

text \<open>A run that succeeded, whatever could have panicked.\<close>

lemma run_split_ok:
  assumes "run_split_shell_with_events R W q seen panics r w out = Some (Ok outcome, r', w', out')"
  obtains output_bytes input_bytes w1 where
    "copy_session_to_output R r out 0 = Some (Ok (), output_bytes, r', out')"
    "pump_input_events W q (flag_cancel seen flag_never) w = Some (Ok input_bytes, w1)"
    "fst (wr_close W w1) = Ok ()" "w' = Some (snd (wr_close W w1))"
    "outcome = \<lparr>outcome_result = rd_session_result R r', outcome_input_bytes = input_bytes,
        outcome_output_bytes = output_bytes\<rparr>"
proof -
  obtain ores obytes r1 out1 joined where copy:
    "copy_session_to_output R r out 0 = Some (ores, obytes, r1, out1)"
    and thread: "input_pump_thread W q (flag_cancel seen flag_never) panics w = Some joined"
    using assms by (auto simp: run_split_shell_with_events_def bind_eq_Some_conv)
  note run = assms [unfolded run_split_shell_with_events_def copy thread, simplified]
  from run obtain w2 ires e where j: "joined = Some (w2, ires, e)" by (cases joined) auto
  with run obtain ib where ires: "ires = Ok ib" "ores = Ok ()" by (auto split: prod.splits)
  then have "pump_input_events W q (flag_cancel seen flag_never) w = Some (Ok ib, w2)" "e = None"
    using thread j by (auto simp: input_pump_thread_def split: option.splits if_splits prod.splits)
  with that [of obytes ib w2] copy run j ires show ?thesis by (auto split: prod.splits)
qed

definition no_panics :: "'w pump_panics" where
  "no_panics = \<lparr>pump_panic = None, emergency_close_panics = False\<rparr>"

lemma no_panics_simps [simp]: "pump_panic no_panics = None" "\<not> emergency_close_panics no_panics"
  by (simp_all add: no_panics_def)

lemma run_split_output:
  assumes "run_split_shell_with_events russh_reader russh_writer q seen panics r w out =
      Some (Ok outcome, r', w', out')" and "no_empty_data r"
  shows "sink_written out' = sink_written out @ remaining_output r \<and>
    unat (outcome_output_bytes outcome) = min (length (remaining_output r)) (2 ^ 64 - 1) \<and>
    outcome_result outcome = final_result r"
proof -
  obtain obytes where
    copy: "copy_session_to_output russh_reader r out 0 = Some (Ok (), obytes, r', out')"
    and oc: "outcome_result outcome = reader_result r'" "outcome_output_bytes outcome = obytes"
    using assms(1) by (rule run_split_ok) (auto simp: russh_reader_def)
  have fin: "remaining_output r' = []" "reader_result r' = final_result r"
    using copy_russh_complete [OF copy refl assms(2)] by auto
  have "sink_written out' = sink_written out @ remaining_output r"
    "unat obytes = min (length (remaining_output r)) (2 ^ 64 - 1)"
    using russh_reader.copy_session_written [OF copy refl, of 0] fin(1)
    by (auto simp: copy_progress_def)
  with fin oc show ?thesis by simp
qed

section \<open>A concrete session\<close>

text \<open>The remote side sends two messages, an exit status and the close; the local side types
  one event and ends; nothing fails.\<close>

definition demo_reader :: russh_channel_reader where
  "demo_reader = channel_reader_new
     [WakeMessage (MsgData [104, 105]), WakePending, WakeMessage MsgEof,
      WakeMessage (MsgExtendedData [33] 1), WakeMessage (MsgExitStatus 3), WakeMessage MsgClose] None"

definition demo_writer :: russh_channel_writer where
  "demo_writer = channel_writer_new (\<lambda>_. Ok ()) (\<lambda>_. Some 1)"

definition demo_receiver :: receiver where
  "demo_receiver = (\<lambda>i. if i = 0 then RecvTimeout else if i = 1 then RecvEvent (EvData [1, 2])
     else if i = 2 then RecvEvent EvEof else RecvTimeout)"

definition demo_flag :: flag where
  "demo_flag = (\<lambda>i. 9 \<le> i)"

lemma demo_flag: "flag_cancel 9 flag_never = demo_flag"
  by (auto simp: flag_cancel_def flag_never_def demo_flag_def)

definition demo_sink :: output_sink where
  "demo_sink = \<lparr>sink_written = [], sink_calls = 0, sink_write_fault = \<lambda>_. None,
     sink_flush_fault = \<lambda>_. None\<rparr>"

text \<open>One round of each loop, as conditional equations to run them on concrete values.\<close>

lemma recv_rounds:
  "flag_load f \<Longrightarrow> recv_cancellable q f = Some (PollCancelled, q, flag_next f)"
  "\<not> flag_load f \<Longrightarrow> q 0 = RecvTimeout \<Longrightarrow>
     recv_cancellable q f = recv_cancellable (recv_next q) (flag_next f)"
  "\<not> flag_load f \<Longrightarrow> q 0 = RecvEvent e \<Longrightarrow> recv_cancellable q f = recv_wakeup q (flag_next f) e"
  by (simp_all add: recv_cancellable.simps [of q f])

lemma pump_data_round:
  "recv_cancellable q f = Some (PollEvent (EvData bs), q1, f1) \<Longrightarrow>
   write_all_to_shell W bs f1 w = Some (Ok True, f2, w2) \<Longrightarrow>
     pump_loop W q f w cnt = pump_loop W q1 f2 w2 (sat_add_u64 cnt (of_nat (length bs)))"
  by (simp add: pump_loop.simps [of W q f w cnt])

lemma pump_eof_round:
  "recv_cancellable q f = Some (PollEvent EvEof, q1, f1) \<Longrightarrow> wr_finish_input W w = (Ok (), w1) \<Longrightarrow>
     pump_loop W q f w cnt = Some (Ok cnt, w1)"
  by (simp add: pump_loop.simps [of W q f w cnt])

lemma pump_error_round:
  "recv_cancellable q f = Some (PollEvent (EvError m), q1, f1) \<Longrightarrow>
     pump_loop W q f w cnt = Some (Err (SshSessionError m), w)"
  by (simp add: pump_loop.simps [of W q f w cnt])

lemma copy_round:
  "rd_read R 8192 r = Some (Ok bs, r1) \<Longrightarrow> bs \<noteq> [] \<Longrightarrow> sink_put bs out = (Ok (), o1) \<Longrightarrow>
     copy_session_to_output R r out cnt =
     copy_session_to_output R r1 o1 (sat_add_u64 cnt (of_nat (length bs)))"
  "rd_read R 8192 r = Some (Ok [], r1) \<Longrightarrow>
     copy_session_to_output R r out cnt = Some (Ok (), cnt, r1, out)"
  by (simp_all add: copy_session_to_output.simps [of R r out cnt])

lemmas demo_reader_simps = demo_reader_def channel_reader_new_def russh_reader_def read_blocking_def
  read_cancellable_blocking_def fill_from_pending_def queue_read_bytes_def demo_sink_def
  sink_put_def sink_write_all_def sink_flush_def

lemma demo_copy:
  "\<exists>r' out'. copy_session_to_output russh_reader demo_reader demo_sink 0 = Some (Ok (), 3, r', out')"
  by (simp add: demo_reader_simps copy_round Let_def sat_add_u64_def)

lemma demo_pump:
  "\<exists>w'. pump_input_events russh_writer demo_receiver demo_flag demo_writer = Some (Ok 2, w') \<and>
     fst (close_channel w') = Ok ()"
  by (simp add: pump_input_events_def pump_data_round pump_eof_round recv_rounds
      demo_receiver_def demo_flag_def demo_writer_def channel_writer_new_def lifecycle_default_def
      flag_load_def flag_next_def recv_next_def recv_wakeup_def input_event_after_wakeup_def
      write_all_to_shell_def write_all_from.simps russh_writer_def write_cancellable_blocking_def
      select_write_or_cancellation_def block_on_wire_def log_wire_def lifecycle_defs
      finish_input_blocking_def close_channel_def Let_def sat_add_u64_def)

lemma demo_run:
  "\<exists>r' w' out'. run_split_shell_with_events russh_reader russh_writer demo_receiver 9
     no_panics demo_reader demo_writer demo_sink =
   Some (Ok \<lparr>outcome_result = rd_session_result russh_reader r',
             outcome_input_bytes = 2, outcome_output_bytes = 3\<rparr>, r', w', out')"
  using demo_copy demo_pump by (auto simp: run_split_parts demo_flag russh_writer_def)

lemma demo_no_empty: "no_empty_data demo_reader"
  by code_simp

lemma demo_fits: "events_fit demo_receiver"
  by (simp add: events_fit_def demo_receiver_def)

section \<open>Properties\<close>

text \<open>
  C2. A full-duplex session on a \<open>russh\<close> channel whose peer sends no data message without bytes
  (such a message ends the output early) and whose input events are shorter than \<open>2^64\<close> bytes
  has, when it ends without error, moved exactly
  the right bytes: every byte the remote side sent before its close is in the local output,
  in order, and is counted; the reported exit metadata is that of all messages before the
  close; what the remote side accepted is the data of the first input events, in order and
  without gaps, then at most part of one further event, and the reported input count is the
  size of the former (both counts saturate at the largest 64-bit value); and the channel has
  been closed. This holds in every interleaving, and whatever panics the runner had to catch.
\<close>

theorem run_split_delivers:
  assumes "run_split_shell_with_events russh_reader russh_writer q seen panics r w out =
      Some (Ok outcome, r', w', out')"
    and "no_empty_data r" and "events_fit q"
  shows "sink_written out' = sink_written out @ remaining_output r \<and>
    unat (outcome_output_bytes outcome) = min (length (remaining_output r)) (2 ^ 64 - 1) \<and>
    outcome_result outcome = final_result r \<and>
    (\<exists>w2 n k. w' = Some w2 \<and> closed (writer_lifecycle w2) \<and>
       accepted_bytes w2 = accepted_bytes w @ recv_data q n @ take k (data_of (q n)) \<and>
       unat (outcome_input_bytes outcome) = min (length (recv_data q n)) (2 ^ 64 - 1))"
proof -
  obtain ibytes w1 where pump: "pump_input_events russh_writer q (flag_cancel seen flag_never) w = Some (Ok ibytes, w1)"
    and cl: "close_channel w1 = (Ok (), snd (close_channel w1))"
    and w': "w' = Some (snd (close_channel w1))"
    and oc: "outcome_input_bytes outcome = ibytes"
    using assms(1) by (rule run_split_ok) (auto simp: russh_writer_def prod_eq_iff)
  obtain added where added: "accepted_bytes w1 = accepted_bytes w @ added" "pump_progress q 0 (Ok ibytes) added"
    using russh_writer.pump_loop_accepted [OF pump [unfolded pump_input_events_def] refl] by blast
  then obtain n k where nk: "added = recv_data q n @ take k (data_of (q n))"
    "unat ibytes = min (length (recv_data q n)) (2 ^ 64 - 1)"
    using assms(3) unfolding pump_progress_def by force
  have "closed (writer_lifecycle (snd (close_channel w1)))"
    using cl by (auto simp: close_channel_def lifecycle_defs block_on_wire_def Let_def split: sum.splits if_splits)
  moreover have "accepted_bytes (snd (close_channel w1)) = accepted_bytes w1"
    using russh_writer.close_accepted [of w1] by (simp add: russh_writer_def)
  ultimately show ?thesis
    using run_split_output [OF assms(1,2)] nk added oc w' by auto
qed

theorem run_split_delivers_witness:
  "\<exists>outcome r' w' out'.
     run_split_shell_with_events russh_reader russh_writer demo_receiver 9 no_panics
       demo_reader demo_writer demo_sink = Some (Ok outcome, r', w', out') \<and>
     sink_written out' = [104, 105, 33]"
proof -
  obtain outcome r' w' out' where run:
    "run_split_shell_with_events russh_reader russh_writer demo_receiver 9 no_panics
       demo_reader demo_writer demo_sink = Some (Ok outcome, r', w', out')"
    using demo_run by blast
  from run_split_delivers [OF this demo_no_empty demo_fits]
  have "sink_written out' = [104, 105, 33]"
    by (simp add: demo_sink_def remaining_output_def demo_reader_def channel_reader_new_def)
  with run show ?thesis by blast
qed

text \<open>
  C25. The runner never hangs on its input side: once the output pump has returned, it
  cancels the input pump, and then joining the input pump and the whole run return, in every
  interleaving, however many input events are still to come and even when the peer's window
  blocks every data and resize request for ever. Assumed: the end of input and the close, which
  need no window and are not cancellable, complete.
\<close>

theorem run_split_returns:
  assumes "copy_session_to_output russh_reader r out 0 = Some end_of_output"
  shows "\<exists>run_end. run_split_shell_with_events russh_reader russh_writer q seen panics r w out = Some run_end"
proof -
  have "set_from seen (flag_cancel seen flag_never)" by (simp add: set_from_def flag_cancel_def)
  then obtain ires w1 where "pump_input_events russh_writer q (flag_cancel seen flag_never) w = Some (ires, w1)"
    using russh_writer.pump_loop_returns [of seen "flag_cancel seen flag_never" q w 0] by (auto simp: pump_input_events_def)
  then obtain joined where "input_pump_thread russh_writer q (flag_cancel seen flag_never) panics w = Some joined"
    by (cases "pump_panic panics") (auto simp: input_pump_thread_def)
  with assms show ?thesis
    by (cases end_of_output) (auto simp: run_split_shell_with_events_def split: option.splits prod.splits)
qed

theorem run_split_returns_witness:
  "\<exists>run_end. run_split_shell_with_events russh_reader russh_writer (\<lambda>i. RecvEvent (EvData [7]))
     4 no_panics demo_reader (demo_writer\<lparr>wire_polls := \<lambda>_. None\<rparr>) demo_sink = Some run_end"
proof -
  obtain end_of_output where
    "copy_session_to_output russh_reader demo_reader demo_sink 0 = Some end_of_output"
    using demo_copy by blast
  then show ?thesis by (rule run_split_returns)
qed

text \<open>
  The runner closes the channel once, after the input pump, whether the pump failed or
  not, and its result is the first error in the order output, input, close; only when all
  three succeeded is it an outcome.
\<close>

theorem run_split_first_error:
  assumes "copy_session_to_output R r out 0 = Some (output_result, output_bytes, r', out')"
    and "pump_input_events W q (flag_cancel seen flag_never) w = Some (input_result, w1)"
  shows "\<exists>res. run_split_shell_with_events R W q seen no_panics r w out =
      Some (res, r', Some (snd (wr_close W w1)), out') \<and>
    (case output_result of Inl e \<Rightarrow> res = Err e
     | Inr _ \<Rightarrow> (case input_result of Inl e \<Rightarrow> res = Err e
     | Inr input_bytes \<Rightarrow> (case fst (wr_close W w1) of Inl e \<Rightarrow> res = Err e
     | Inr _ \<Rightarrow> res = Ok \<lparr>outcome_result = rd_session_result R r',
         outcome_input_bytes = input_bytes, outcome_output_bytes = output_bytes\<rparr>)))"
  using run_split_parts [OF assms no_panics_simps] by (auto split: sum.splits)

theorem run_split_first_error_witness:
  "\<exists>r' w' out'. run_split_shell_with_events russh_reader russh_writer
     (\<lambda>i. RecvEvent (EvError ''stdin'')) 9 no_panics demo_reader demo_writer demo_sink =
       Some (Err (SshSessionError ''stdin''), r', Some w', out')"
proof -
  obtain bytes r' out' where
    copy: "copy_session_to_output russh_reader demo_reader demo_sink 0 = Some (Ok (), bytes, r', out')"
    using demo_copy by blast
  have "pump_input_events russh_writer (\<lambda>i. RecvEvent (EvError ''stdin'')) (flag_cancel 9 flag_never) demo_writer =
      Some (Err (SshSessionError ''stdin''), demo_writer)"
    by (simp add: pump_input_events_def pump_error_round recv_rounds flag_load_def flag_next_def demo_flag demo_flag_def
        recv_wakeup_def input_event_after_wakeup_def)
  from run_split_first_error [OF copy this] show ?thesis by auto
qed

text \<open>
  C38. A data message without bytes, which the SSH protocol allows, ends the output copy: the
  pump returns success after it although the channel is not finished, and everything the
  remote side sends afterwards stays unread.
\<close>

theorem empty_data_ends_output:
  "copy_session_to_output russh_reader (channel_reader_new (WakeMessage (MsgData []) # ws) d) out c =
     Some (Ok (), c, channel_reader_new ws d, out) \<and>
   remaining_output (channel_reader_new ws d) = upcoming ws \<and>
   \<not> reader_finished (channel_reader_new ws d)"
proof -
  have "rd_read russh_reader 8192 (channel_reader_new (WakeMessage (MsgData []) # ws) d) =
      Some (Ok [], channel_reader_new ws d)"
    by (simp add: russh_reader_def empty_data_reads_as_end)
  then show ?thesis
    by (simp add: copy_round(2) remaining_output_def) (simp add: channel_reader_new_def)
qed

end
