(* ===== verification/Cli.thy ===== *)
theory Cli
  imports Opener Shell_Runner
begin

text \<open>
  The command-line client, \<open>crates/rssh-cli/src/main.rs\<close>: parsing of the arguments, building the
  request and the opener, the thread that forwards standard input, the session and the exit
  code. Standard output of the parser and standard error are returned as texts.
\<close>

section \<open>Options\<close>

definition newline :: char where
  "newline = CHR 0x0A"

definition HELP :: string where
  "HELP =
     ''rssh [--known-hosts FILE] [-p PORT] [-i KEY | --password] USER@HOST [COMMAND ...]'' @
     [newline, newline] @
     ''Native SSH trial. Default authentication: agent. Unknown/changed keys are rejected.'' @ [newline] @
     ''Commands run through a remote PTY; stdin/stdout are streamed in both directions.'' @ [newline] @
     ''Interactive input currently uses the host console'' @ [CHR 0x27] @ ''s cooked mode.'' @ [newline] @
     ''OpenSSH config, scp/sftp and forwarding CLI options are not implemented.''"

record cli_options =
  opt_host :: string
  opt_user :: string
  opt_port :: u16
  opt_known_hosts :: path
  opt_auth :: ssh_auth_method
  opt_command :: "string list"

text \<open>\<open>Path::join\<close> on Unix.\<close>

definition path_join :: "path \<Rightarrow> path \<Rightarrow> path" where
  "path_join base rel =
     (if starts_with ''/'' rel \<or> base = [] then rel
      else if last base = CHR ''/'' then base @ rel else base @ ''/'' @ rel)"

fun debug_auth_error :: "ssh_auth_error \<Rightarrow> string" where
  "debug_auth_error EmptyPassword = ''EmptyPassword''"
| "debug_auth_error EmptyPrivateKeyPath = ''EmptyPrivateKeyPath''"

fun debug_config_error :: "ssh_config_error \<Rightarrow> string" where
  "debug_config_error EmptyHost = ''EmptyHost''"
| "debug_config_error EmptyUsername = ''EmptyUsername''"
| "debug_config_error InvalidPort = ''InvalidPort''"
| "debug_config_error InvalidTerminalSize = ''InvalidTerminalSize''"

fun debug_startup_error :: "ssh_startup_error \<Rightarrow> string" where
  "debug_startup_error EmptyCommand = ''EmptyCommand''"

text \<open>The destination ends the options; everything after it is the command.\<close>

definition parse_destination ::
  "path option \<Rightarrow> u16 \<Rightarrow> ssh_auth_method \<Rightarrow> string \<Rightarrow> string list \<Rightarrow> (cli_options, string) result" where
  "parse_destination known_hosts port auth arg rest =
     (case split_once (CHR 0x40) arg of
        None \<Rightarrow> Err ''destination must be USER@HOST''
      | Some (user, host) \<Rightarrow>
          if user = [] \<or> host = [] then Err ''empty user or host''
          else (case known_hosts of
             None \<Rightarrow> Err ''home unavailable; supply --known-hosts''
           | Some p \<Rightarrow> Ok \<lparr>opt_host = host, opt_user = user, opt_port = port, opt_known_hosts = p,
               opt_auth = auth, opt_command = rest\<rparr>))"

fun parse_loop ::
  "path option \<Rightarrow> u16 \<Rightarrow> ssh_auth_method \<Rightarrow> bool \<Rightarrow> string list \<Rightarrow> (cli_options, string) result" where
  "parse_loop known_hosts port auth selected [] = Err (''missing destination'' @ [newline] @ HELP)"
| "parse_loop known_hosts port auth selected (arg # rest) =
     (if arg = ''-p'' then
        (case rest of
           [] \<Rightarrow> Err ''-p requires a port''
         | v # rest' \<Rightarrow>
             (case parse_uint 10 65535 v of
                None \<Rightarrow> Err ''invalid port''
              | Some n \<Rightarrow> if n = 0 then Err ''port must be nonzero''
                          else parse_loop known_hosts (of_nat n) auth selected rest'))
      else if arg = ''--known-hosts'' then
        (case rest of
           [] \<Rightarrow> Err ''--known-hosts requires a file''
         | v # rest' \<Rightarrow> parse_loop (Some v) port auth selected rest')
      else if arg = ''-i'' \<or> arg = ''--password'' then
        (if selected then Err ''select only one authentication method''
         else if arg = ''-i'' then
           (case rest of
              [] \<Rightarrow> Err ''-i requires a key file''
            | v # rest' \<Rightarrow>
                (case auth_private_key v None of
                   Inl e \<Rightarrow> Err (debug_auth_error e)
                 | Inr a \<Rightarrow> parse_loop known_hosts port a True rest'))
         else parse_loop known_hosts port PasswordPrompt True rest)
      else if starts_with ''-'' arg then Err (''unknown option: '' @ arg)
      else parse_destination known_hosts port auth arg rest)"

text \<open>\<open>parse\<close> with the text it prints; \<open>home\<close> is \<open>HOME\<close>, or else \<open>USERPROFILE\<close>.\<close>

definition parse_args ::
  "string \<Rightarrow> string option \<Rightarrow> string list \<Rightarrow> (cli_options option, string) result \<times> string" where
  "parse_args version home args =
     (if args = [''--help''] \<or> args = [''-h''] then (Ok None, HELP @ [newline])
      else if args = [''--version''] then
        (Ok None, ''rssh '' @ version @ '' (SSH-only trial)'' @ [newline])
      else (map_ok Some (parse_loop (map_option (\<lambda>p. path_join p ''.ssh/known_hosts'') home) 22 Agent
              False args), []))"

section \<open>Running\<close>

definition cli_request :: "cli_options \<Rightarrow> (ssh_connect_request, string) result" where
  "cli_request options =
     and_then (map_err debug_config_error
         (session_config_try_new (opt_host options) (opt_port options) (opt_user options)
           (terminal_size_new 80 24))) (\<lambda>config.
       let request = connect_request_new config (opt_auth options) in
       if opt_command options = [] then Ok request
       else map_ok (\<lambda>s. connect_request_with_startup s request)
         (map_err debug_startup_error (startup_command (opt_command options))))"

fun debug_prompt_kind :: "secret_prompt_kind \<Rightarrow> string" where
  "debug_prompt_kind PasswordKind = ''Password''"
| "debug_prompt_kind PrivateKeyPassphraseKind = ''PrivateKeyPassphrase''"

text \<open>\<open>ask_terminal\<close> is \<open>rpassword::prompt_password(..).ok()\<close>.\<close>

definition cli_opener :: "(string \<Rightarrow> string option) \<Rightarrow> cli_options \<Rightarrow> 't russh_channel_opener" where
  "cli_opener ask_terminal options =
     with_secret_provider (SecretProvider (\<lambda>prompt. ask_terminal
         (prompt_username prompt @ '' '' @ debug_prompt_kind (prompt_kind prompt) @ '': '')))
       (with_known_hosts_path (opt_known_hosts options) opener_default)"

text \<open>The thread that reads standard input: what the receiver finds at each poll. \<open>None\<close> is a
  poll during which no read completed. After the end of input or an error the thread ends
  and its sender is dropped.\<close>

type_synonym stdin_reads = "nat \<Rightarrow> (bytes, string) result option"

fun stdin_event :: "(bytes, string) result \<Rightarrow> ssh_input_event" where
  "stdin_event (Inl e) = EvError e"
| "stdin_event (Inr bs) = (if length bs = 0 then EvEof else EvData bs)"

fun stdin_done :: "(bytes, string) result option \<Rightarrow> bool" where
  "stdin_done None = False"
| "stdin_done (Some (Inl e)) = True"
| "stdin_done (Some (Inr bs)) = (bs = [])"

definition stdin_receiver :: "stdin_reads \<Rightarrow> receiver" where
  "stdin_receiver reads i =
     (if list_ex (\<lambda>j. stdin_done (reads j)) [0..<i] then RecvDisconnected
      else (case reads i of None \<Rightarrow> RecvTimeout | Some r \<Rightarrow> RecvEvent (stdin_event r)))"

definition exit_code :: "ssh_session_result \<Rightarrow> u8" where
  "exit_code res =
     (if exit_signal res \<noteq> None then 255
      else (case Option.bind (exit_status res) u8_try_from of Some c \<Rightarrow> c | None \<Rightarrow> 255))"

text \<open>\<open>session\<close> wraps an opened channel; \<open>seen\<close> and \<open>panics\<close> are the timing and the panics
  of the pumps.\<close>

definition cli_run ::
  "(russh_runtime_config \<Rightarrow> ('t, string) result) \<Rightarrow> ('k, 'p, 'h, 'g, 'c) client_env \<Rightarrow>
   (string \<Rightarrow> string option) \<Rightarrow> (('h, 'c, 't) opened_channel \<Rightarrow> russh_ssh_channel) \<Rightarrow> stdin_reads \<Rightarrow> nat \<Rightarrow>
   russh_channel_writer pump_panics \<Rightarrow> output_sink \<Rightarrow> cli_options \<Rightarrow> world \<Rightarrow>
   ((u8, string) result \<times> output_sink \<times> world) option" where
  "cli_run build C ask_terminal session reads seen panics out options w =
     (case cli_request options of
        Inl e \<Rightarrow> Some (Err e, out, w)
      | Inr request \<Rightarrow>
          Option.bind (channel_connector_connect
              (open_channel build C (cli_opener ask_terminal options)) session request w) (\<lambda>(r, w1).
            case r of
              Inl e \<Rightarrow> Some (Err (display_session_error e), out, w1)
            | Inr channel \<Rightarrow>
                map_option (\<lambda>(outcome, _, _, out').
                    (map_ok (\<lambda>x. exit_code (outcome_result x)) (map_err display_session_error outcome),
                     out', w1))
                  (run_connected_shell_with_events channel (stdin_receiver reads) seen panics out)))"

text \<open>\<open>main\<close>: the exit code, the output, and what is written to standard error.\<close>

record cli_end =
  end_code :: u8
  end_printed :: string
  end_output :: output_sink
  end_stderr :: string
  end_world :: world

definition cli_main ::
  "string \<Rightarrow> string option \<Rightarrow> (russh_runtime_config \<Rightarrow> ('t, string) result) \<Rightarrow>
   ('k, 'p, 'h, 'g, 'c) client_env \<Rightarrow> (string \<Rightarrow> string option) \<Rightarrow>
   (('h, 'c, 't) opened_channel \<Rightarrow> russh_ssh_channel) \<Rightarrow> stdin_reads \<Rightarrow> nat \<Rightarrow>
   russh_channel_writer pump_panics \<Rightarrow> output_sink \<Rightarrow> string list \<Rightarrow> world \<Rightarrow> cli_end option" where
  "cli_main version home build C ask_terminal session reads seen panics out args w =
     (let (parsed, printed) = parse_args version home args in
      map_option (\<lambda>(r, out', w').
          (case r of
             Inr code \<Rightarrow> \<lparr>end_code = code, end_printed = printed, end_output = out', end_stderr = [],
                end_world = w'\<rparr>
           | Inl e \<Rightarrow> \<lparr>end_code = 255, end_printed = printed, end_output = out',
                end_stderr = ''rssh: '' @ e @ [newline], end_world = w'\<rparr>))
        (case parsed of
           Inl e \<Rightarrow> Some (Err e, out, w)
         | Inr None \<Rightarrow> Some (Ok 0, out, w)
         | Inr (Some options) \<Rightarrow> cli_run build C ask_terminal session reads seen panics out options w))"

section \<open>Arguments and options\<close>

text \<open>What the parser can return, and arguments that give back a set of options.\<close>

fun cli_auth_wf :: "ssh_auth_method \<Rightarrow> bool" where
  "cli_auth_wf (PrivateKey k None) \<longleftrightarrow> k \<noteq> []"
| "cli_auth_wf (PrivateKey k (Some _)) \<longleftrightarrow> False"
| "cli_auth_wf (Password _) \<longleftrightarrow> False"
| "cli_auth_wf PasswordPrompt \<longleftrightarrow> True"
| "cli_auth_wf Agent \<longleftrightarrow> True"

definition cli_wf :: "cli_options \<Rightarrow> bool" where
  "cli_wf opts \<longleftrightarrow>
     opt_port opts \<noteq> 0 \<and> opt_host opts \<noteq> [] \<and> opt_user opts \<noteq> [] \<and> CHR 0x40 \<notin> set (opt_user opts) \<and>
     \<not> starts_with ''-'' (opt_user opts) \<and> cli_auth_wf (opt_auth opts)"

fun auth_args :: "ssh_auth_method \<Rightarrow> string list" where
  "auth_args (PrivateKey k _) = [''-i'', k]"
| "auth_args PasswordPrompt = [''--password'']"
| "auth_args _ = []"

definition cli_args :: "cli_options \<Rightarrow> string list" where
  "cli_args opts =
     [''-p'', show_nat (unat (opt_port opts)), ''--known-hosts'', opt_known_hosts opts] @
     auth_args (opt_auth opts) @ [opt_user opts @ CHR 0x40 # opt_host opts] @ opt_command opts"

lemma starts_with_dash: "starts_with ''-'' s \<longleftrightarrow> (\<exists>t. s = CHR ''-'' # t)"
  by (cases s) (auto simp: starts_with_def)

lemma of_nat_port: "n \<noteq> 0 \<Longrightarrow> n \<le> 65535 \<Longrightarrow> (of_nat n :: u16) \<noteq> 0"
  by (auto simp: word_of_nat_eq_0_iff dest: dvd_imp_le)

lemma parse_destination_wf:
  assumes "parse_destination kh port auth arg rest = Ok opts"
    and "port \<noteq> 0" and "cli_auth_wf auth" and "\<not> starts_with ''-'' arg"
  shows "cli_wf opts"
  using assms
  by (auto simp: parse_destination_def cli_wf_def split_once_Some starts_with_dash
      split: option.splits if_splits prod.splits)

lemma parse_uint_le: "parse_uint r hi s = Some n \<Longrightarrow> n \<le> hi"
  by (auto simp: parse_uint_def Let_def split: option.splits if_splits)

lemma parse_port: "parse_uint 10 65535 s = Some n \<Longrightarrow> n \<noteq> 0 \<Longrightarrow> (of_nat n :: u16) \<noteq> 0"
  by (rule of_nat_port) (auto dest: parse_uint_le)

lemma parse_loop_wf:
  assumes "parse_loop kh port auth selected args = Ok opts" and "port \<noteq> 0" and "cli_auth_wf auth"
  shows "cli_wf opts"
  using assms
proof (induction kh port auth selected args rule: parse_loop.induct)
  case (1 kh port auth selected)
  then show ?case by simp
next
  case (2 kh port auth selected arg rest)
  show ?case
  proof (cases "arg = ''-p''")
    case True
    with 2(5) obtain v rest' n where "rest = v # rest'" "parse_uint 10 65535 v = Some n" "n \<noteq> 0"
      "parse_loop kh (of_nat n) auth selected rest' = Ok opts"
      by (auto split: list.splits option.splits if_splits)
    with 2(1) True parse_port 2(7) show ?thesis by blast
  next
    case False
    with 2(5-) show ?thesis
      by (auto split: if_splits list.splits sum.splits simp: auth_private_key_def
          intro: 2(2-4) parse_destination_wf)
  qed
qed

lemma parse_loop_port:
  assumes "port \<noteq> 0"
  shows "parse_loop kh p auth selected (''-p'' # show_nat (unat port) # rest) =
    parse_loop kh port auth selected rest"
proof -
  have "unat port \<le> 65535" using unsigned_less [where ?'a = nat, of port] by simp
  then have "parse_uint 10 65535 (show_nat (unat port)) = Some (unat port)"
    by (intro parse_uint_show) simp_all
  moreover have "unat port \<noteq> 0" using assms by (simp add: unat_eq_zero)
  ultimately show ?thesis by simp
qed

lemma parse_loop_destination:
  assumes "cli_wf opts" and "opt_auth opts = auth" and "opt_port opts = port"
  shows "parse_loop (Some (opt_known_hosts opts)) port auth selected
    ((opt_user opts @ CHR 0x40 # opt_host opts) # opt_command opts) = Ok opts"
proof -
  let ?dest = "opt_user opts @ CHR 0x40 # opt_host opts"
  have "\<not> starts_with ''-'' ?dest"
    using assms(1) by (cases "opt_user opts") (auto simp: cli_wf_def starts_with_dash)
  moreover have "split_once (CHR 0x40) ?dest = Some (opt_user opts, opt_host opts)"
    using assms(1) by (simp add: split_once_Some cli_wf_def)
  ultimately show ?thesis
    using assms by (auto simp: parse_destination_def cli_wf_def starts_with_dash)
qed

text \<open>The client's opener rejects every key the store does not already have for the endpoint.\<close>

lemma cli_key_known:
  fixes options :: cli_options and ask_terminal :: "string \<Rightarrow> string option" and host :: string and port :: u16
  defines "h \<equiv> handler_for_host (cli_opener ask_terminal options) host port :: 'n russh_client_handler"
  assumes "check_server_key K h key files = (Ok True, challenges, files')"
  shows "known_hosts_matches K (known_hosts_new (opt_known_hosts options)) host port key files = Ok True"
  using assms(2)
  by (auto simp: check_server_key_def h_def handler_for_host_def handler_for_endpoint_def cli_opener_def
      with_secret_provider_def with_known_hosts_path_def opener_default_def opener_new_def Let_def
      server_key_status_def split: option.splits if_splits sum.splits bool.splits
      russh_keys_error.splits)

lemma cli_request_endpoint:
  assumes "cli_request opts = Ok request"
  shows "config_host (request_config request) = trim (opt_host opts)"
    and "config_port (request_config request) = opt_port opts"
    and "config_username (request_config request) = trim (opt_user opts)"
  using assms
  by (auto simp: cli_request_def session_config_try_new_def session_config_new_def Let_def
      connect_request_new_def connect_request_with_startup_def split: if_splits)

lemma cli_report: "report_events (cli_opener ask_terminal opts) ph = []"
  by (simp add: report_events_def cli_opener_def with_secret_provider_def with_known_hosts_path_def
      opener_default_def opener_new_def)

lemma cli_run_ok:
  assumes "cli_run build C ask_terminal session reads seen panics out opts w = Some (Ok code, out', w')"
  obtains request opened outcome r' w2 where "cli_request opts = Ok request"
    "open_channel build C (cli_opener ask_terminal opts) request w = Some (Ok opened, w')"
    "run_split_shell_with_events russh_reader russh_writer (stdin_receiver reads) seen panics
       (channel_reader (session opened)) (channel_writer (session opened)) out =
       Some (Ok outcome, r', w2, out')"
    "code = exit_code (outcome_result outcome)"
  using assms
  by (auto simp: cli_run_def channel_connector_connect_def run_connected_shell_with_events_def
      into_read_writer_def split: sum.splits Option.bind_splits)

text \<open>Why a session of parsed options failed, with the message for standard error.\<close>

definition cli_failure ::
  "(russh_runtime_config \<Rightarrow> ('t, string) result) \<Rightarrow> ('k, 'p, 'h, 'g, 'c) client_env \<Rightarrow>
   (string \<Rightarrow> string option) \<Rightarrow> (('h, 'c, 't) opened_channel \<Rightarrow> russh_ssh_channel) \<Rightarrow> stdin_reads \<Rightarrow> nat \<Rightarrow>
   russh_channel_writer pump_panics \<Rightarrow> output_sink \<Rightarrow> cli_options \<Rightarrow> world \<Rightarrow> string \<Rightarrow> bool" where
  "cli_failure build C ask_terminal session reads seen panics out opts w m \<longleftrightarrow>
     cli_request opts = Err m \<or>
     (\<exists>request err w'. cli_request opts = Ok request \<and>
        open_channel build C (cli_opener ask_terminal opts) request w = Some (Err err, w') \<and>
        m = display_session_error err) \<or>
     (\<exists>request opened w' err rest. cli_request opts = Ok request \<and>
        open_channel build C (cli_opener ask_terminal opts) request w = Some (Ok opened, w') \<and>
        run_split_shell_with_events russh_reader russh_writer (stdin_receiver reads) seen panics
          (channel_reader (session opened)) (channel_writer (session opened)) out = Some (Err err, rest) \<and>
        m = display_session_error err)"

lemma cli_run_err:
  assumes "cli_run build C ask_terminal session reads seen panics out opts w = Some (Err m, out', w')"
  shows "cli_failure build C ask_terminal session reads seen panics out opts w m"
  using assms
  by (auto simp: cli_run_def cli_failure_def channel_connector_connect_def map_ok_eq_Inl map_err_eq_Inl
      run_connected_shell_with_events_def into_read_writer_def split: sum.splits Option.bind_splits)

lemma cli_run_opened:
  fixes build :: "russh_runtime_config \<Rightarrow> ('t, string) result"
  assumes "connect_checks_key C" and "\<And>opened. no_empty_data (channel_reader (session opened))"
    and "cli_run build C ask_terminal session reads seen panics out opts w = Some (Ok code, out', w')"
  shows "\<exists>request opened key es. cli_request opts = Ok request \<and>
     known_hosts_matches (env_keys C) (known_hosts_new (opt_known_hosts opts)) (trim (opt_host opts))
       (opt_port opts) key (w_files w) = Ok True \<and>
     w_trace w' = w_trace w @ es \<and>
     opened_properly C (cli_opener ask_terminal opts :: 't russh_channel_opener) request
       (opened_handle opened) (w_files w) es \<and>
     sink_written out' = sink_written out @ remaining_output (channel_reader (session opened)) \<and>
     code = exit_code (final_result (channel_reader (session opened)))"
proof -
  obtain request opened outcome r' w2 where parts: "cli_request opts = Ok request"
    "open_channel build C (cli_opener ask_terminal opts) request w = Some (Ok opened, w')"
    "run_split_shell_with_events russh_reader russh_writer (stdin_receiver reads) seen panics
       (channel_reader (session opened)) (channel_writer (session opened)) out =
       Some (Ok outcome, r', w2, out')"
    "code = exit_code (outcome_result outcome)"
    by (rule cli_run_ok [OF assms(3)])
  obtain es where es: "w_trace w' = w_trace w @ es"
    "opened_properly C (cli_opener ask_terminal opts :: 't russh_channel_opener) request
       (opened_handle opened) (w_files w) es"
    using open_channel_opened [OF assms(1) parts(2)] by (auto simp: cli_report)
  then obtain key where "known_hosts_matches (env_keys C) (known_hosts_new (opt_known_hosts opts))
      (trim (opt_host opts)) (opt_port opts) key (w_files w) = Ok True"
    using cli_request_endpoint [OF parts(1)]
    by (auto simp: opened_properly_def Let_def dest: cli_key_known)
  with es parts(1,4) run_split_output [OF parts(3) assms(2)] show ?thesis by auto
qed

section \<open>Properties\<close>

text \<open>
  C37. The parser returns only well-formed options: a non-zero port, a user and a host that are
  not empty, a user that does not look like an option, and an authentication method without
  a secret in it. And every well-formed set of options is what the parser returns for the
  arguments that spell it out, whatever the command that follows looks like.
\<close>

theorem parse_args_roundtrip:
  "(parse_args version home args = (Ok (Some opts), printed) \<longrightarrow> cli_wf opts \<and> printed = []) \<and>
   (cli_wf opts \<longrightarrow> parse_args version home (cli_args opts) = (Ok (Some opts), []))"
proof (intro conjI impI)
  assume "parse_args version home args = (Ok (Some opts), printed)"
  then have "parse_loop (map_option (\<lambda>p. path_join p ''.ssh/known_hosts'') home) 22 Agent False args = Ok opts"
    "printed = []"
    by (auto simp: parse_args_def split: if_splits)
  then show "cli_wf opts" "printed = []" by (auto intro: parse_loop_wf)
next
  assume wf: "cli_wf opts"
  then have port: "opt_port opts \<noteq> 0" by (simp add: cli_wf_def)
  from wf have "parse_loop (Some (opt_known_hosts opts)) (opt_port opts) Agent False
      (auth_args (opt_auth opts) @ [opt_user opts @ CHR 0x40 # opt_host opts] @ opt_command opts) = Ok opts"
    by (cases "opt_auth opts" rule: cli_auth_wf.cases)
      (auto simp: cli_wf_def auth_private_key_def parse_loop_destination simp del: parse_loop.simps(2)
        simp: parse_loop.simps(2) [of _ _ _ _ "''-i''"] parse_loop.simps(2) [of _ _ _ _ "''--password''"])
  moreover have "parse_loop kh p a sel (''--known-hosts'' # f # rest) = parse_loop (Some f) p a sel rest"
    for kh p a sel f rest by simp
  ultimately show "parse_args version home (cli_args opts) = (Ok (Some opts), [])"
    by (simp add: parse_args_def cli_args_def parse_loop_port [OF port] del: parse_loop.simps(2))
qed

text \<open>
  C3. What one run of the client does, for all arguments. Arguments that do not parse give the
  code 255 and the parser's message, with nothing opened and no output; \<open>--help\<close> and
  \<open>--version\<close> print their text and give 0, with no session either. Parsed options give 255
  and a message exactly when the request, the opening or the session failed, and it is the
  message of that failure. Otherwise the session was properly opened: the server's key was
  already in the given known-hosts file for the requested endpoint and the user was granted
  access, everything the remote side sent was written to the output, nothing was written to
  standard error, and the exit code is the one of the remote status, 255 when there is none
  that fits or the session ended by a signal. Assumed: the library hands every server key to
  the handler, and no message of the session carries empty data, which would end the output
  early; either pump may panic.
\<close>

theorem cli_session:
  fixes build :: "russh_runtime_config \<Rightarrow> ('t, string) result"
  assumes "connect_checks_key C" and "\<And>opened. no_empty_data (channel_reader (session opened))"
    and "cli_main version home build C ask_terminal session reads seen panics out args w = Some e"
  shows "end_printed e = snd (parse_args version home args) \<and>
    (case fst (parse_args version home args) of
       Inl m \<Rightarrow> end_code e = 255 \<and> end_stderr e = ''rssh: '' @ m @ [newline] \<and>
         end_output e = out \<and> end_world e = w
     | Inr None \<Rightarrow> end_code e = 0 \<and> end_stderr e = [] \<and> end_output e = out \<and> end_world e = w
     | Inr (Some opts) \<Rightarrow>
         if end_stderr e \<noteq> [] then
           (\<exists>m. end_code e = 255 \<and> end_stderr e = ''rssh: '' @ m @ [newline] \<and>
              cli_failure build C ask_terminal session reads seen panics out opts w m)
         else
           (\<exists>request opened key es. cli_request opts = Ok request \<and>
             known_hosts_matches (env_keys C) (known_hosts_new (opt_known_hosts opts)) (trim (opt_host opts))
               (opt_port opts) key (w_files w) = Ok True \<and>
             w_trace (end_world e) = w_trace w @ es \<and>
             opened_properly C (cli_opener ask_terminal opts :: 't russh_channel_opener) request
               (opened_handle opened) (w_files w) es \<and>
             sink_written (end_output e) = sink_written out @ remaining_output (channel_reader (session opened)) \<and>
             end_code e = exit_code (final_result (channel_reader (session opened)))))"
proof (cases "parse_args version home args")
  case parsed: (Pair parsed printed)
  show ?thesis
  proof (cases "\<exists>opts. parsed = Ok (Some opts)")
    case False
    with parsed assms(3) show ?thesis
      by (auto simp: cli_main_def split: sum.splits option.splits)
  next
    case True
    then obtain opts where opts: "parsed = Ok (Some opts)" by blast
    obtain r out' w' where run: "cli_run build C ask_terminal session reads seen panics out opts w =
        Some (r, out', w')" and e: "e = (case r of
          Inr code \<Rightarrow> \<lparr>end_code = code, end_printed = printed, end_output = out', end_stderr = [],
            end_world = w'\<rparr>
        | Inl m \<Rightarrow> \<lparr>end_code = 255, end_printed = printed, end_output = out',
            end_stderr = ''rssh: '' @ m @ [newline], end_world = w'\<rparr>)"
      using parsed opts assms(3) by (auto simp: cli_main_def)
    show ?thesis
    proof (cases r)
      case (Inl m)
      with cli_run_err run e parsed opts show ?thesis by auto
    next
      case (Inr code)
      with cli_run_opened [OF assms(1,2)] run e parsed opts show ?thesis by force
    qed
  qed
qed

section \<open>A concrete run\<close>

definition demo_args :: "string list" where
  "demo_args = [''--password'', ''u@h.example'', ''true'']"

definition demo_known_client :: "(nat, unit, unit, unit, unit) client_env" where
  "demo_known_client =
     demo_client\<lparr>env_keys := demo_keys\<lparr>check_known_hosts_path := \<lambda>host port key p fs. Ok True\<rparr>\<rparr>"

definition demo_stdin :: stdin_reads where
  "demo_stdin i = (if i = 0 then None else if i = 1 then Some (Ok [1, 2]) else Some (Ok []))"

definition demo_session :: "(unit, unit, unit) opened_channel \<Rightarrow> russh_ssh_channel" where
  "demo_session opened = \<lparr>channel_reader = demo_reader, channel_writer = demo_writer\<rparr>"

definition demo_options :: cli_options where
  "demo_options = \<lparr>opt_host = ''h.example'', opt_user = ''u'', opt_port = 22,
     opt_known_hosts = ''/home/u/.ssh/known_hosts'', opt_auth = PasswordPrompt, opt_command = [''true'']\<rparr>"

lemma demo_parse: "parse_args ''1'' (Some ''/home/u'') demo_args = (Ok (Some demo_options), [])"
  by (simp add: parse_args_def demo_args_def demo_options_def path_join_def starts_with_def
      parse_destination_def)

theorem parse_args_roundtrip_witness:
  "parse_args ''1'' None (cli_args demo_options) = (Ok (Some demo_options), [])"
  using parse_args_roundtrip [of "''1''" None "[]" demo_options "[]"]
  by (simp add: cli_wf_def demo_options_def starts_with_def)

lemma demo_stdin_pump:
  "\<exists>w'. pump_input_events russh_writer (stdin_receiver demo_stdin) demo_flag demo_writer = Some (Ok 2, w') \<and>
     fst (close_channel w') = Ok ()"
  by (simp add: pump_input_events_def pump_data_round pump_eof_round recv_rounds
      stdin_receiver_def demo_stdin_def demo_flag_def demo_writer_def channel_writer_new_def
      lifecycle_default_def flag_load_def flag_next_def recv_next_def recv_wakeup_def
      input_event_after_wakeup_def write_all_to_shell_def write_all_from.simps russh_writer_def
      write_cancellable_blocking_def select_write_or_cancellation_def block_on_wire_def log_wire_def
      lifecycle_defs finish_input_blocking_def close_channel_def Let_def sat_add_u64_def)

definition demo_cli_request :: ssh_connect_request where
  "demo_cli_request = \<lparr>request_config = \<lparr>config_host = ''h.example'', config_port = 22,
       config_username = ''u'', config_initial_size = \<lparr>columns = 80, rows = 24\<rparr>\<rparr>,
     request_auth = PasswordPrompt, request_startup = Command [''true'']\<rparr>"

lemma demo_cli_request_eq: "cli_request demo_options = Ok demo_cli_request"
  by code_simp

lemma demo_known_key:
  "check_server_key (env_keys demo_known_client) (handler_for_host
     (cli_opener tty demo_options :: unit russh_channel_opener) host port :: unit russh_client_handler) key fs = (Ok True, [], fs)"
  by (simp add: check_server_key_def handler_for_host_def handler_for_endpoint_def cli_opener_def
      with_secret_provider_def with_known_hosts_path_def opener_default_def opener_new_def
      server_key_status_def known_hosts_matches_def known_hosts_new_def demo_known_client_def Let_def)

lemma demo_connects:
  "\<exists>opened w'. open_channel (\<lambda>_. Ok ()) demo_known_client (cli_opener (\<lambda>_. Some ''secret'') demo_options)
     demo_cli_request demo_world = Some (Ok opened, w')"
  using demo_known_key [of "\<lambda>_. Some ''secret''" "''h.example''" 22 1 "w_files demo_world"]
  by (simp add: open_channel_def runtime_handle_or_create_def build_production_def block_on_def
      session_operation_def or_deadline_def with_timeout_def leave_boundary_def connect_async_def
      report_then report_phase_eq connect_socket_addr_def connect_plan_from_request_def
      channel_startup_plan_def channel_open_plan_from_request_def startup_plan_from_open_plan_def
      connect_handle_def authenticate_async_def auth_plan_from_request_def open_session_channel_async_def
      start_channel_async_def demo_known_client_def demo_client_def demo_cli_request_def demo_auth_simps
      cli_opener_def with_secret_provider_def with_known_hosts_path_def opener_default_def opener_new_def
      secret_prompt_password_def)

lemma demo_known_checks: "connect_checks_key demo_known_client"
  by (auto simp: connect_checks_key_def demo_known_client_def demo_client_def split: prod.splits if_splits)

lemma demo_final:
  "exit_code (final_result demo_reader) = 3" "remaining_output demo_reader = [104, 105, 33]"
  "sink_written demo_sink = []"
  by code_simp+

lemma demo_main:
  "\<exists>e. cli_main ''1'' (Some ''/home/u'') (\<lambda>_. Ok ()) demo_known_client (\<lambda>_. Some ''secret'') demo_session
     demo_stdin 9 no_panics demo_sink demo_args demo_world = Some e \<and> end_stderr e = []"
proof -
  obtain opened w' where "open_channel (\<lambda>_. Ok ()) demo_known_client
      (cli_opener (\<lambda>_. Some ''secret'') demo_options) demo_cli_request demo_world = Some (Ok opened, w')"
    using demo_connects by blast
  moreover obtain outcome rest where "run_split_shell_with_events russh_reader russh_writer
      (stdin_receiver demo_stdin) 9 no_panics demo_reader demo_writer demo_sink = Some (Ok outcome, rest)"
    using demo_copy demo_stdin_pump by (auto simp: run_split_parts demo_flag russh_writer_def)
  ultimately show ?thesis
    by (auto simp: cli_main_def demo_parse cli_run_def demo_cli_request_eq channel_connector_connect_def
        demo_session_def run_connected_shell_with_events_def into_read_writer_def split: prod.splits)
qed

text \<open>The demonstration ends with the remote status 3, its three bytes on the output and the
  key in the known-hosts file.\<close>

theorem cli_session_witness:
  "\<exists>e. cli_main ''1'' (Some ''/home/u'') (\<lambda>_. Ok ()) demo_known_client (\<lambda>_. Some ''secret'') demo_session
     demo_stdin 9 no_panics demo_sink demo_args demo_world = Some e \<and>
    end_code e = 3 \<and> end_stderr e = [] \<and> sink_written (end_output e) = [104, 105, 33]"
proof -
  obtain e where run: "cli_main ''1'' (Some ''/home/u'') (\<lambda>_. Ok ()) demo_known_client (\<lambda>_. Some ''secret'')
      demo_session demo_stdin 9 no_panics demo_sink demo_args demo_world = Some e" "end_stderr e = []"
    using demo_main by blast
  have "no_empty_data (channel_reader (demo_session opened))" for opened
    by (simp add: demo_session_def demo_no_empty)
  from cli_session [OF demo_known_checks this run(1)] run demo_final show ?thesis
    by (auto simp: demo_parse demo_session_def)
qed

end
