(* ===== verification/Spec2Isabelle.thy ===== *)
theory Spec2Isabelle
  imports Scp_Roundtrip Scp_Source Sftp_Files Child_Reaper Server_Policy Echo_Server Tasks_Accounted Openssh_Probe Forwarding Cli
begin

text \<open>
  R-SSH is a native SSH client library with a small command-line client and a fixture crate of
  SSH services for its tests. This development models the client library
  (\<open>crates/rssh-types\<close>, \<open>crates/rssh-ssh\<close>), the command-line client (\<open>crates/rssh-cli\<close>) and the parts
  of the fixtures (\<open>crates/rssh-test-support\<close>) that have logic of their own, and proves what
  makes them correct.

  \<^bold>\<open>The program and its theories.\<close> A command line is parsed into options
  (\<open>Cli\<close>), options into a validated connection request (\<open>Session_Config\<close>), a request into plans:
  where to connect, how to authenticate, what to ask of the channel (\<open>Startup_Plan\<close>). An opener
  (\<open>Opener\<close>) carries the plans out on an asynchronous runtime (\<open>Runtime\<close>): it connects, and
  \<open>russh\<close> shows the server's key to the client handler (\<open>Client_Handler\<close>), which decides on it
  with the known-hosts file (\<open>Known_Hosts\<close>); it authenticates (\<open>Auth\<close>), opens a channel and makes
  the startup requests. The channel is wrapped into a reader and a writer (\<open>Channel_IO\<close>) behind
  the shell traits (\<open>Shell_Traits\<close>), and a runner pumps bytes in both directions until the
  session ends (\<open>Shell_Runner\<close>). \<open>Forwarding\<close> bridges local and remote TCP connections over such
  sessions, with the shared state of \<open>Forward_State\<close>. The fixtures' SCP service splits and
  recognises commands in \<open>Scp_Request\<close> and transfers
  files in \<open>Scp_Transfer\<close> with the messages of \<open>Scp_Wire\<close>, and their SFTP service (\<open>Sftp\<close>) serves
  requests on open files and names; both work below a root directory of a file system
  (\<open>File_Tree\<close>, \<open>Sys_Calls\<close>).

  \<^item> \<open>Rust_Prelude\<close> and \<open>Rust_Text\<close> hold what the code uses of the language and its library:
    results with their combinators, saturating and checked integer conversions, trimming,
    splitting, joining and lines of strings, parsing and printing of numbers, the \<open>Debug\<close> text
    of durations, and validity of UTF-8. A \<open>String\<close> is the list of its UTF-8 bytes as
    characters, a \<open>Vec<u8>\<close> a list of 8-bit words, a \<open>Duration\<close> its nanoseconds, and integers
    that can wrap or be cut off are words of their width.
  \<^item> \<open>Session_Config\<close>: \<open>rssh-types/src/lib.rs\<close> and \<open>rssh-ssh/src/lib.rs\<close> 20-645 and 1001-1022.
    \<open>try_new\<close> accepts exactly the valid configurations and names the first violated
    requirement; \<open>Debug\<close> output does not depend on secrets.
  \<^item> \<open>Startup_Plan\<close>: \<open>russh_client.rs\<close> 156-185, 298-453, 599-705. The requests of each startup
    mode; quoting of commands, which the SCP fixture's splitter inverts (below).
  \<^item> \<open>Known_Hosts\<close>: \<open>russh_client.rs\<close> 34-107 and 1757-1777, on an explicit file system whose
    calls can fail. Learning a key only appends, and adds exactly one line the scan finds.
  \<^item> \<open>Forward_State\<close>: \<open>russh_client.rs\<close> 455-597, 626-657, 1573-1598. Cancellation handles and the
    task tracker are machines whose atomic operations interleave; no wake-up is lost.
  \<^item> \<open>Client_Handler\<close>: \<open>russh_client.rs\<close> 24-32, 1744-1886. Exactly when a key is accepted; changed
    keys never are, under any policy; trust on first use pins the endpoint; what is shown and
    written.
  \<^item> \<open>Shell_Traits\<close>: the traits and adapters of \<open>rssh-ssh/src/lib.rs\<close> 646-1071 as records of
    methods over a state, with their contracts as locales. \<open>Channel_IO\<close>: \<open>russh_client.rs\<close>
    2287-2807; the contracts are interpreted on the reader and writer. Reads take a prefix of
    the remote stream, cancellation loses nothing; no data or end-of-file follows a close on
    the wire.
  \<^item> \<open>Shell_Runner\<close>: \<open>rssh-ssh/src/lib.rs\<close> 1118-1405. What a session moves, that it returns once
    the output has ended because it cancels its input pump then, and which error it reports.
  \<^item> \<open>Async_World\<close>: asynchronous blocks as functions on a world with a trace of events.
    \<open>Auth\<close>: \<open>russh_client.rs\<close> 109-296 and 1600-1742. \<open>Runtime\<close>: 707-823. \<open>Opener\<close>: 825-1296,
    1507-1571, 2809-2861. \<open>Forwarding\<close>: 1297-1505, 1888-2285. A channel, a bridge or a listener
    exists only after the key was accepted for the requested endpoint and the user granted
    access; phases, prompts and attempts come in order; cleanups are complete, and a shutdown
    returns within its deadline, whichever of its requests is never answered.
  \<^item> \<open>Cli\<close>: \<open>rssh-cli/src/main.rs\<close>. The parser's results and their round trip, and what a run of
    the client means end to end.
  \<^item> \<open>Scp_Request\<close>: \<open>rssh-test-support/src/ssh/scp.rs\<close> 17-140. Splitting a quoted command gives
    back its non-empty arguments, and the command that the client plans for a transfer makes the
    server start exactly that transfer (the theorems of this theory).
  \<^item> \<open>File_Tree\<close> and \<open>Sys_Calls\<close>: directory trees with symbolic links, the resolution of paths in
    them, and the system calls the fixtures make, each with a fault that the environment may
    choose; programs of such calls with \<open>?\<close>, and a locale for what they keep.
  \<^item> \<open>Scp_Wire\<close> and \<open>Scp_Transfer\<close>: \<open>scp.rs\<close> 12-16 and 145-637, whole: messages, control lines,
    sink and source. \<open>Scp_Confined\<close>: a served request changes nothing outside the root.
    \<open>Scp_Source\<close>: the source discloses only contents, modes, lengths, names and times of nodes
    below the root. \<open>Scp_Roundtrip\<close>: the sink
    rebuilds what the source sent.
  \<^item> \<open>Sftp\<close>: \<open>rssh-test-support/src/ssh/sftp.rs\<close> 1-631, whole: the root with its path checks, the
    table of handles, every request. \<open>Sftp_Confined\<close>: requests change nothing outside the root,
    but for one kind of path, for which a file outside is created. \<open>Sftp_Live\<close>: handles never
    lose their file. \<open>Sftp_Files\<close>: reads and writes implement abstract files; bounds on replies
    and tokens; the two copies of path resolution agree on paths stripped of their leading slash.
  \<^item> \<open>Capture\<close>, \<open>Child_Guard\<close> and \<open>Child_Reaper\<close>: \<open>rssh-test-support/src/process.rs\<close>, capture and
    redaction of output, the guard of a child process, and the thread that reaps what guards
    leave. \<open>Child_Owned\<close>: a child is reaped or handed over, exactly once; polling is bounded;
    errors carry bounded output without the redacted values. The reaper loses no child.
  \<^item> \<open>Loopback\<close>: \<open>rssh-test-support/src/ssh/forward.rs\<close> 19-91 and the address parser of the standard
    library. \<open>Server_Handler\<close>: \<open>ssh/server/handler.rs\<close>, \<open>ssh/server/forwarding.rs\<close> 6-41 and the
    configuration and events of \<open>ssh/server.rs\<close>: every request of the fixture's SSH server.
    \<open>Server_Policy\<close>: what the server allows is confined and bounded, and a client's channel sees
    exactly the configured answers, over any transport that carries channel messages in order.
  \<^item> \<open>Fixture_Workers\<close>: threads of the fixtures: deadlines, bounded joins and the reaper of
    \<open>ssh/lifecycle.rs\<close>; start, stop and drop of the agent (\<open>ssh/agent.rs\<close>), the echo server
    (\<open>ssh/forward.rs\<close>) and the SSH server (\<open>ssh/server.rs\<close>). \<open>Workers_Accounted\<close>: a locale for a fixture
    with a worker, interpreted on the three of them; everything returns and no thread is lost.
    \<open>Echo_Server\<close>: the listener and connections of the echo server. \<open>Fixture_Tasks\<close>: owned tasks, the
    tracker, sessions, the accept loop, remote forwards and the reaper thread; \<open>Tasks_Accounted\<close>: they end when they are
    asked to (the reaper runs as long as the process), no task is lost, and success means that every task ended. \<open>Vec_Ops\<close>: \<open>Vec::swap_remove\<close>.
  \<^item> \<open>Openssh_Probe\<close>: \<open>rssh-test-support/src/openssh.rs\<close>, \<open>temp_home.rs\<close>, \<open>marker.rs\<close> and the settings of system
    clients in \<open>ssh/server.rs\<close> 507-556: the gate for OpenSSH tools, which runs them as guarded
    children (\<open>Child_Guard\<close>), isolated from the user's environment and with a time limit.

  \<^bold>\<open>How things are modelled.\<close> Third-party code (\<open>russh\<close>, \<open>tokio\<close>, \<open>rpassword\<close>) is a
  parameter: records of functions that may look at the whole world, or choices of the
  environment. What is assumed of it are named predicates: \<open>connect_checks_key\<close> (a connection
  is established only when the handler accepts the key), \<open>notify_wakes\<close> and \<open>wakes_for_good\<close>
  (a registered waiter is woken by a later notification), \<open>carries_calls\<close> (how channel messages
  reach a client: in order, data in non-empty pieces), \<open>no_empty_data\<close> (no message has empty data, which the
  runner would take for the end). Trait objects are records of methods
  over a state. A loop that can block for ever is a partial function, with \<open>None\<close> for not
  returning; that it returns is then proved. An atomic flag that another thread sets is the
  stream of its future loads, so that all interleavings are covered. Deadlines and
  cancellation can cut off any \<open>await\<close> (\<open>w_cut\<close> in the world), so that a theorem about all
  worlds holds for all timings; in these blocks an \<open>await\<close> under no deadline is taken to complete. Two
  parts tell waits with and without a limit apart: a cancellable write on the wire may never complete
  (\<open>wire_polls\<close>), and a task or a \<open>select!\<close> of a fixture session may never be ready (\<open>life_await\<close> then does not
  return, \<open>timeout_at\<close> does). Locales
  state contracts only, and each is interpreted on the model.

  \<^bold>\<open>Bounds.\<close> No loop of the model is cut off by fuel except the resolution of
  symbolic links, which follows at most 40, the limit of the operating system.

  \<^bold>\<open>Not modelled.\<close> Rendering of \<open>Debug\<close> values; the discovery of the agent's socket
  on Windows; the durations of deadlines; debug assertions. Of the fixtures:
  links that tests plant (\<open>ssh/redirect.rs\<close>, a module of the tests only), accessors, and the Windows
  variants of commands.
\<close>

section \<open>Quoting and splitting agree\<close>

lemma fold_quote_chars:
  "fold word_step (concat (map quote_char a)) (word_quoted ws w) = word_quoted ws (w @ a)"
proof (induction a arbitrary: w)
  case Nil
  then show ?case by simp
next
  case (Cons c a)
  then show ?case
    using word_step_quoted_quote [of ws w]
    by (cases "c = SQ") (simp_all add: quote_char_def word_step_literal del: fold_simps)
qed

lemma fold_quote_argument:
  "fold word_step (quote_argument a) (word_plain ws w) = word_plain ws (w @ a)"
  by (simp add: quote_argument_def word_steps fold_quote_chars)

lemma fold_encode:
  "fold word_step (encode_posix_remote_command (a # as)) (word_plain ws []) =
     word_plain (ws @ filter (\<lambda>x. x \<noteq> []) (butlast (a # as))) (last (a # as))"
proof (induction as arbitrary: a ws)
  case Nil
  then show ?case
    by (simp add: encode_posix_remote_command_def fold_quote_argument)
next
  case (Cons b as)
  have "fold word_step (encode_posix_remote_command (a # b # as)) (word_plain ws []) =
        fold word_step (encode_posix_remote_command (b # as))
          (word_plain (if a \<noteq> [] then ws @ [a] else ws) [])"
    by (simp add: encode_posix_remote_command_def fold_quote_argument word_steps)
  then show ?case by (simp add: Cons)
qed

definition shell_clean :: "string \<Rightarrow> bool" where
  "shell_clean a \<longleftrightarrow> \<not> has_control a \<and> CHR ''$'' \<notin> set a \<and> CHR 0x60 \<notin> set a"

lemma c1_head_quote_chars:
  "\<not> c1_head a \<Longrightarrow> \<not> c1_head (concat (map quote_char a) @ SQ # t)"
  by (cases a; cases "hd a = SQ") auto

lemma has_control_quote_chars:
  assumes "\<not> has_control a" and "\<not> has_control t"
  shows "\<not> has_control (concat (map quote_char a) @ SQ # t)"
  using assms(1)
proof (induction a)
  case Nil
  with assms(2) show ?case by simp
next
  case (Cons c a)
  then have IH: "\<not> has_control (concat (map quote_char a) @ SQ # t)" by auto
  show ?case
  proof (cases "c = SQ")
    case True
    with IH show ?thesis by simp
  next
    case False
    with IH Cons.prems show ?thesis
      using c1_head_quote_chars [of a t] by auto
  qed
qed

lemma has_control_encode:
  assumes "list_all (\<lambda>a. \<not> has_control a) as"
  shows "\<not> has_control (encode_posix_remote_command as)"
  using assms
proof (induction as rule: induct_list012)
  case 1
  then show ?case by (simp add: encode_posix_remote_command_def)
next
  case (2 a)
  then show ?case
    using has_control_quote_chars [of a "[]"]
    by (simp add: encode_posix_remote_command_def quote_argument_def)
next
  case (3 a b as)
  then show ?case
    using has_control_quote_chars [of a "CHR '' '' # encode_posix_remote_command (b # as)"]
    by (simp add: encode_posix_remote_command_def quote_argument_def)
qed

lemma set_encode:
  "set (encode_posix_remote_command as) \<subseteq> (\<Union>a \<in> set as. set a) \<union> {SQ, DQ, CHR '' ''}"
proof (induction as rule: induct_list012)
  case 1
  then show ?case by (simp add: encode_posix_remote_command_def)
next
  case (2 a)
  then show ?case
    by (auto simp: encode_posix_remote_command_def quote_argument_def quote_char_def split: if_splits)
next
  case (3 a b as)
  then show ?case
    by (auto simp: encode_posix_remote_command_def quote_argument_def quote_char_def split: if_splits)
qed

text \<open>
  Quoting a remote command and splitting it with the fixture's shell-word parser are
  inverse: for arguments without control characters, dollar signs and backquotes the parser
  returns exactly the arguments that are not empty, in order, whatever quotes, blanks or
  backslashes they contain.
\<close>

theorem shell_words_encode:
  assumes "list_all shell_clean args"
  shows "parse_shell_words (encode_posix_remote_command args) = Ok (filter (\<lambda>a. a \<noteq> []) args)"
proof -
  have clean: "\<not> has_control (encode_posix_remote_command args)"
    "CHR ''$'' \<notin> set (encode_posix_remote_command args)"
    "CHR 0x60 \<notin> set (encode_posix_remote_command args)"
    using assms has_control_encode [of args] set_encode [of args]
    by (auto simp: shell_clean_def list_all_iff)
  show ?thesis
  proof (cases args)
    case Nil
    then show ?thesis
      by (simp add: parse_shell_words_def encode_posix_remote_command_def word_init_def)
  next
    case (Cons a as)
    have "filter (\<lambda>x. x \<noteq> []) args =
          filter (\<lambda>x. x \<noteq> []) (butlast args) @ (if last args \<noteq> [] then [last args] else [])"
      by (rule filter_butlast_last) (simp add: Cons)
    moreover have "fold word_step (encode_posix_remote_command args) word_init =
        word_plain (filter (\<lambda>x. x \<noteq> []) (butlast args)) (last args)"
      using fold_encode [of a as "[]"] Cons by (simp add: word_init_plain)
    ultimately show ?thesis
      using clean by (simp add: parse_shell_words_def word_plain_def)
  qed
qed

theorem shell_words_encode_witness:
  "parse_shell_words (encode_posix_remote_command [''a b'', ''it'' @ [CHR 0x27] @ ''s'', [], ''x'']) =
     Ok [''a b'', ''it'' @ [CHR 0x27] @ ''s'', ''x'']"
  using shell_words_encode [of "[''a b'', ''it'' @ [CHR 0x27] @ ''s'', [], ''x'']"]
  by (simp add: shell_clean_def)

section \<open>An SCP command from the client to the fixture's service\<close>

lemma to_string_lossy_valid: "utf8_valid s \<Longrightarrow> to_string_lossy s = s"
proof (induction s rule: to_string_lossy.induct)
  case (1 s)
  then show ?case
    by (subst to_string_lossy.simps) (auto simp: utf8_valid.simps [of s] split: option.splits)
qed

text \<open>The flags of a request as \<open>scp\<close> writes them, and the arguments of the remote command.\<close>

definition request_flags :: "scp_request \<Rightarrow> string" where
  "request_flags q = ''-'' @ (if scp_recursive q then ''r'' else []) @ (if scp_preserve_times q then ''p'' else []) @
     (if scp_target_is_directory q then ''d'' else []) @ (case scp_direction q of Sink \<Rightarrow> ''t'' | Source \<Rightarrow> ''f'')"

abbreviation request_arguments :: "scp_request \<Rightarrow> string list" where
  "request_arguments q \<equiv> [''scp'', request_flags q, scp_target q]"

text \<open>A target that is no flag.\<close>

definition plain_target :: "string \<Rightarrow> bool" where
  "plain_target t \<longleftrightarrow> shell_clean t \<and> t \<noteq> [] \<and> (hd t = CHR ''-'' \<longrightarrow> tl t = [])"

lemma request_flags_clean: "shell_clean (request_flags q)" "request_flags q \<noteq> []"
proof -
  have "shell_clean (''-'' @ (if a then ''r'' else []) @ (if b then ''p'' else []) @ (if c then ''d'' else []) @
      (case d of Sink \<Rightarrow> ''t'' | Source \<Rightarrow> ''f''))" for a b c d
    by (cases a; cases b; cases c; cases d) (simp_all add: shell_clean_def)
  then show "shell_clean (request_flags q)" unfolding request_flags_def by blast
qed (simp add: request_flags_def)

lemma scp_flags_request:
  "scp_word (request_flags q) scan_init = Ok (scan_init\<lparr>scan_direction := Some (scp_direction q), scan_recursive := scp_recursive q,
     scan_preserve := scp_preserve_times q, scan_directory := scp_target_is_directory q\<rparr>)"
  by (auto simp: scp_word_def request_flags_def scp_flag_def set_direction_def scan_init_def split: scp_direction.split)

lemma parse_encoded_request:
  assumes "plain_target (scp_target q)"
  shows "parse_scp_request (encode_posix_remote_command (request_arguments q)) = Some (Ok q)"
proof -
  have "list_all shell_clean (request_arguments q)"
    using assms request_flags_clean by (simp add: plain_target_def) (simp add: shell_clean_def)
  then have "parse_shell_words (encode_posix_remote_command (request_arguments q)) = Ok (request_arguments q)"
    using shell_words_encode [of "request_arguments q"] assms request_flags_clean by (simp add: plain_target_def)
  moreover have "scp_word (scp_target q) s = Ok (s\<lparr>scan_target := Some (scp_target q)\<rparr>)" if "scan_target s = None" for s
    using assms that by (auto simp: scp_word_def plain_target_def)
  moreover have "scan_target scan_init = None" by (simp add: scan_init_def)
  ultimately show ?thesis
    by (simp add: parse_scp_request_def scp_flags_request scp_finish_def)
qed

text \<open>The requests of a startup plan as the server's handler is called for them, in order, on a channel.\<close>

fun as_server_request :: "channel_id \<Rightarrow> russh_channel_startup_request \<Rightarrow> 'k fixture_request" where
  "as_server_request c (RequestPty terminal w h pw ph) = RqPty c terminal w h pw ph"
| "as_server_request c RequestShell = RqShell c"
| "as_server_request c (Exec command) = RqExec c (as_bytes command)"

text \<open>
  C22. A transfer that the client asks for is the one the fixture's server starts: for every SCP
  request whose target contains no control character, dollar sign or backquote and is no flag,
  the startup plan that the client makes from a connection request for the command \<open>scp\<close> with
  the request's flags and target asks for a terminal of the configured size and then for the
  command; and a server session that handles these requests on an open channel, accepts its
  handler's calls and is not shutting down answers both with success, records both, gives the
  channel away and starts the SCP service on its root with exactly that request, once, whatever
  quotes, blanks and backslashes the target contains.
\<close>

theorem scp_command_served:
  assumes "request_startup r = Command (request_arguments q)" and "plain_target (scp_target q)"
    and "utf8_valid (encode_posix_remote_command (request_arguments q))"
    and "session_accepts E" and "channel \<in> fs_channels s"
    and "\<not> fe_closed E (fs_log s @ [Called (ChannelSuccess channel), Called (ChannelSuccess channel)])"
  shows "let requests = startup_requests (channel_startup_plan (connect_plan_from_request r));
             s' = run_requests B E (map (as_server_request channel) requests) s;
             size = config_initial_size (request_config r)
    in fs_log s' = fs_log s @ [Called (ChannelSuccess channel), Called (ChannelSuccess channel),
         Spawned (ServeScp channel (fb_sftp_root B) (Ok q))] \<and>
       fs_events s' = fs_events s @ [SevPty ''xterm-256color'' (ucast (columns size)) (ucast (rows size)) 0 0,
         SevExec (encode_posix_remote_command (request_arguments q)) True] \<and>
       fs_channels s' = fs_channels s - {channel}"
proof -
  let ?command = "encode_posix_remote_command (request_arguments q)"
  have pty: "pty_request E channel terminal a b c d s =
      (Ok (), s\<lparr>fs_events := fs_events s @ [SevPty terminal a b c d], fs_log := fs_log s @ [Called (ChannelSuccess channel)]\<rparr>)"
    for terminal a b c d s
    by (simp add: pty_request_def do_then_def record_event_def accepted_call [OF assms(4)])
  have exec: "exec_request B E channel (as_bytes ?command) t =
      (Ok (), t\<lparr>fs_events := fs_events t @ [SevExec ?command True], fs_channels := fs_channels t - {channel},
        fs_log := fs_log t @ [Called (ChannelSuccess channel), Spawned (ServeScp channel (fb_sftp_root B) (Ok q))]\<rparr>)"
    if "channel \<in> fs_channels t" "\<not> fe_closed E (fs_log t @ [Called (ChannelSuccess channel)])" for t
    using that parse_encoded_request [OF assms(2)] to_string_lossy_valid [OF assms(3)]
    by (simp add: exec_request_def Let_def do_then_def record_event_def accepted_call [OF assms(4)] tracker_spawn_def do_ret_def)
  have "startup_requests (channel_startup_plan (connect_plan_from_request r)) =
      [RequestPty ''xterm-256color'' (ucast (columns (config_initial_size (request_config r))))
         (ucast (rows (config_initial_size (request_config r)))) 0 0, Exec ?command]"
    using assms(1) by (simp add: channel_startup_plan_def connect_plan_from_request_def channel_open_plan_from_request_def startup_plan_from_open_plan_def)
  with assms(5,6) show ?thesis by (simp add: Let_def pty exec)
qed

definition demo_upload :: scp_request where
  "demo_upload = \<lparr>scp_direction = Sink, scp_recursive = True, scp_preserve_times = False,
     scp_target_is_directory = False, scp_target = ''my files''\<rparr>"

theorem scp_command_served_witness:
  "fs_log (run_requests demo_behavior demo_fixture_env (map (as_server_request 3) (startup_requests (channel_startup_plan (connect_plan_from_request
      (connect_request_with_startup (Command (request_arguments demo_upload)) demo_cli_request)))))
      ((clone_for_session [])\<lparr>fs_channels := {3}\<rparr>)) =
    [Called (ChannelSuccess 3), Called (ChannelSuccess 3), Spawned (ServeScp 3 (fb_sftp_root demo_behavior) (Ok demo_upload))]"
proof -
  have "plain_target (scp_target demo_upload)" by (simp add: plain_target_def shell_clean_def demo_upload_def)
  moreover have "utf8_valid (encode_posix_remote_command (request_arguments demo_upload))" by code_simp
  moreover have "session_accepts demo_fixture_env" "\<not> fe_closed demo_fixture_env log" for log
    by (simp_all add: session_accepts_def demo_fixture_env_def)
  ultimately show ?thesis
    using scp_command_served [of "connect_request_with_startup (Command (request_arguments demo_upload)) demo_cli_request"
        demo_upload demo_fixture_env 3 "(clone_for_session [])\<lparr>fs_channels := {3}\<rparr>" demo_behavior]
    by (simp add: Let_def connect_request_with_startup_def clone_for_session_def)
qed

end
